(* ===== verification/Arcade_Prelude.thy ===== *)
theory Arcade_Prelude
  imports Main "HOL-Library.Word" "HOL-Library.AList" "HOL-Library.Product_Lexorder"
    "HOL-Library.Multiset"
begin

text \<open>
  Shared ground of the development: the names of the Go types, the result of a Go call that may
  return an error or panic, association lists as Go maps, and the list lemmas the components share.

  A Go \<open>map\<close> is an association list with distinct keys.  Its order stands for one iteration order
  of \<open>range\<close>; the order-independence theorems show which results do not depend on it.
\<close>

section \<open>Collections of facts\<close>

named_theorems store_defs \<open>definitions of the store's operations\<close>
named_theorems inv_intros \<open>preservation of the store invariant\<close>
named_theorems lookup_simps \<open>what a lookup sees after an operation\<close>

section \<open>Names of the Go types\<close>

type_synonym u64 = "64 word"
type_synonym u32 = "32 word"
type_synonym u8 = "8 word"

text \<open>\<open>chainhash.Hash\<close> is a comparable array of 32 bytes.\<close>

type_synonym hash = "256 word"

text \<open>\<open>time.Time\<close> counts nanoseconds from Go's zero time, so the zero value \<open>time.Time{}\<close> is 0.\<close>

type_synonym time = int

definition zero_time :: time where
  "zero_time = 0"

section \<open>Go calls that may fail, and machine integers as bounded integers\<close>

text \<open>A Go call returns a value, returns an error, or panics.\<close>

datatype ('e, 'a) go = Ok 'a | Err 'e | Panic

fun go_bind :: "('e, 'a) go \<Rightarrow> ('a \<Rightarrow> ('e, 'b) go) \<Rightarrow> ('e, 'b) go" where
  "go_bind (Ok a) f = f a"
| "go_bind (Err e) f = Err e"
| "go_bind Panic f = Panic"

text \<open>\<open>MustX\<close> is \<open>X\<close> with the error turned into a panic; \<open>of_sum\<close> reads an (error, value) pair.\<close>

fun must :: "'e + 'a \<Rightarrow> ('f, 'a) go" where
  "must (Inl e) = Panic"
| "must (Inr a) = Ok a"

fun of_sum :: "('e \<Rightarrow> 'f) \<Rightarrow> 'e + 'a \<Rightarrow> ('f, 'a) go" where
  "of_sum wrap (Inl e) = Err (wrap e)"
| "of_sum wrap (Inr a) = Ok a"

lemma go_bind_Ok: "go_bind m f = Ok b \<longleftrightarrow> (\<exists>a. m = Ok a \<and> f a = Ok b)"
  by (cases m) auto

lemma must_Ok: "must x = Ok a \<longleftrightarrow> x = Inr a"
  by (cases x) auto

lemma of_sum_Ok: "of_sum w x = Ok a \<longleftrightarrow> x = Inr a"
  by (cases x) auto

lemmas go_Ok = go_bind_Ok must_Ok of_sum_Ok

text \<open>64-bit arithmetic: unsigned on \<^typ>\<open>nat\<close>, two's complement on \<^typ>\<open>int\<close>.\<close>

definition u64_wrap :: "nat \<Rightarrow> nat" where
  "u64_wrap n = n mod 2 ^ 64"

definition i64_wrap :: "int \<Rightarrow> int" where
  "i64_wrap n = (n + 2 ^ 63) mod 2 ^ 64 - 2 ^ 63"

lemma u64_wrap_id [simp]: "n < 2 ^ 64 \<Longrightarrow> u64_wrap n = n"
  by (simp add: u64_wrap_def)

lemma u64_wrap_le: "u64_wrap n \<le> n"
  by (simp add: u64_wrap_def)

lemma i64_wrap_id: "- (2 ^ 63) \<le> n \<Longrightarrow> n < 2 ^ 63 \<Longrightarrow> i64_wrap n = n"
  by (simp add: i64_wrap_def)

section \<open>Association lists as Go maps\<close>

definition alist_wf :: "('k \<times> 'v) list \<Rightarrow> bool" where
  "alist_wf m \<longleftrightarrow> distinct (map fst m)"

text \<open>\<open>upd_key k f m\<close> is the update of the value a pointer into the map refers to.\<close>

definition upd_key :: "'k \<Rightarrow> ('v \<Rightarrow> 'v) \<Rightarrow> ('k \<times> 'v) list \<Rightarrow> ('k \<times> 'v) list" where
  "upd_key k f m = map (\<lambda>(k', v). (k', if k' = k then f v else v)) m"

definition upd_all :: "('v \<Rightarrow> 'v) \<Rightarrow> ('k \<times> 'v) list \<Rightarrow> ('k \<times> 'v) list" where
  "upd_all f m = map (\<lambda>(k, v). (k, f v)) m"

definition del_key :: "'k \<Rightarrow> ('k \<times> 'v) list \<Rightarrow> ('k \<times> 'v) list" where
  "del_key k m = filter (\<lambda>(k', v). k' \<noteq> k) m"

definition del_if :: "('v \<Rightarrow> bool) \<Rightarrow> ('k \<times> 'v) list \<Rightarrow> ('k \<times> 'v) list" where
  "del_if p m = filter (\<lambda>(k, v). \<not> p v) m"

lemma map_fst_upd_key [simp]: "map fst (upd_key k f m) = map fst m"
  by (simp add: upd_key_def case_prod_unfold comp_def)

lemma map_fst_upd_all [simp]: "map fst (upd_all f m) = map fst m"
  by (simp add: upd_all_def case_prod_unfold comp_def)

lemma alist_wf_upd_key [simp]: "alist_wf (upd_key k f m) = alist_wf m"
  by (simp add: alist_wf_def)

lemma alist_wf_upd_all [simp]: "alist_wf (upd_all f m) = alist_wf m"
  by (simp add: alist_wf_def)

lemma alist_wf_filter [simp]: "alist_wf m \<Longrightarrow> alist_wf (filter p m)"
  unfolding alist_wf_def by (induction m) auto

lemma alist_wf_del_key [simp]: "alist_wf m \<Longrightarrow> alist_wf (del_key k m)"
  by (simp add: del_key_def)

lemma alist_wf_del_if [simp]: "alist_wf m \<Longrightarrow> alist_wf (del_if p m)"
  by (simp add: del_if_def)

lemma alist_wf_Nil [simp]: "alist_wf []"
  by (simp add: alist_wf_def)

lemma alist_wf_snoc [simp]: "map_of m k = None \<Longrightarrow> alist_wf m \<Longrightarrow> alist_wf (m @ [(k, v)])"
  by (auto simp: alist_wf_def map_of_eq_None_iff)

lemma map_of_upd_key [simp, lookup_simps]:
  "map_of (upd_key k f m) = (map_of m)(k := map_option f (map_of m k))"
  by (induction m) (auto simp: upd_key_def fun_eq_iff)

lemma map_of_upd_all [simp, lookup_simps]: "map_of (upd_all f m) k = map_option f (map_of m k)"
  by (induction m) (auto simp: upd_all_def)

lemma map_of_del_key [simp, lookup_simps]: "map_of (del_key k m) = (map_of m)(k := None)"
  by (induction m) (auto simp: del_key_def fun_eq_iff)

lemma map_of_del_if [lookup_simps]:
  "alist_wf m \<Longrightarrow> map_of (del_if p m) k =
     (case map_of m k of None \<Rightarrow> None | Some v \<Rightarrow> if p v then None else Some v)"
proof (induction m)
  case Nil
  then show ?case by (simp add: del_if_def)
next
  case (Cons a m)
  then have IH: "map_of (del_if p m) k =
      (case map_of m k of None \<Rightarrow> None | Some v \<Rightarrow> if p v then None else Some v)"
    and "fst a \<notin> fst ` set m"
    by (auto simp: alist_wf_def)
  then show ?case
    by (cases a) (auto simp: del_if_def map_of_eq_None_iff split: option.splits)
qed

lemma map_of_snoc [simp, lookup_simps]:
  "map_of (m @ [(k, v)]) k' = (case map_of m k' of None \<Rightarrow> if k' = k then Some v else None | Some x \<Rightarrow> Some x)"
  by (auto simp: map_add_def split: option.splits)

lemma set_upd_key: "(k', v') \<in> set (upd_key k f m) \<longleftrightarrow>
    (\<exists>v. (k', v) \<in> set m \<and> v' = (if k' = k then f v else v))"
  unfolding upd_key_def set_map image_iff by force

lemma set_upd_all: "(k', v') \<in> set (upd_all f m) \<longleftrightarrow> (\<exists>v. (k', v) \<in> set m \<and> v' = f v)"
  by (auto simp: upd_all_def)

lemma set_del_key: "(k', v') \<in> set (del_key k m) \<longleftrightarrow> (k', v') \<in> set m \<and> k' \<noteq> k"
  by (auto simp: del_key_def)

lemma set_del_if: "(k', v') \<in> set (del_if p m) \<longleftrightarrow> (k', v') \<in> set m \<and> \<not> p v'"
  by (auto simp: del_if_def)

lemma alist_wf_lookup: "alist_wf m \<Longrightarrow> (k, v) \<in> set m \<longleftrightarrow> map_of m k = Some v"
  by (simp add: alist_wf_def)

lemma alist_wf_mset: "mset m = mset m' \<Longrightarrow> alist_wf m \<Longrightarrow> alist_wf m'"
  unfolding alist_wf_def by (metis mset_eq_imp_distinct_iff mset_map)

lemma map_of_mset: "mset m = mset m' \<Longrightarrow> alist_wf m \<Longrightarrow> map_of m = map_of m'"
proof (rule ext)
  fix k
  assume eq: "mset m = mset m'" and wf: "alist_wf m"
  have wf': "alist_wf m'" using eq wf by (rule alist_wf_mset)
  have set_eq: "set m = set m'" using eq by (metis set_mset_mset)
  show "map_of m k = map_of m' k"
  proof (cases "map_of m k")
    case None
    then have "map_of m' k = None" using set_eq by (simp add: map_of_eq_None_iff)
    with None show ?thesis by simp
  next
    case (Some v)
    then have "(k, v) \<in> set m'" using wf set_eq alist_wf_lookup by fastforce
    with wf' Some show ?thesis by (simp add: alist_wf_lookup)
  qed
qed

section \<open>Lists\<close>

lemma list_all2_map_eq: "list_all2 (\<lambda>x y. f x = g y) xs ys \<longleftrightarrow> map f xs = map g ys"
  by (simp add: list.rel_eq [symmetric] list.rel_map)

lemma list_all2_right: "list_all2 P xs ys \<Longrightarrow> y \<in> set ys \<Longrightarrow> \<exists>x \<in> set xs. P x y"
  by (induction rule: list_all2_induct) auto

lemma sorted_key_take_drop:
  "x \<in> set (take n (sort_key f xs)) \<Longrightarrow> y \<in> set (drop n (sort_key f xs)) \<Longrightarrow> f x \<le> f y"
proof -
  assume xy: "x \<in> set (take n (sort_key f xs))" "y \<in> set (drop n (sort_key f xs))"
  have "sorted (map f (take n (sort_key f xs) @ drop n (sort_key f xs)))"
    by (simp only: append_take_drop_id sorted_sort_key)
  with xy show ?thesis by (auto simp: sorted_append simp del: append_take_drop_id)
qed

lemma in_set_take_or_drop: "x \<in> set xs \<Longrightarrow> x \<in> set (take n xs) \<or> x \<in> set (drop n xs)"
  by (metis Un_iff append_take_drop_id set_append)

section \<open>Sorting by an injective key\<close>

text \<open>
  \<open>slices.SortFunc\<close> sorts by a comparison.  Where the comparison is a total order on the elements,
  the sorted slice is unique, so any two lists with the same elements sort to the same list.
\<close>

lemma sort_key_mset_cong:
  assumes "mset xs = mset ys" and "inj_on f (set xs)"
  shows "sort_key f xs = sort_key f ys"
proof (rule sort_key_inj_key_eq)
  show "mset xs = mset (sort_key f ys)" using assms(1) by simp
  show "inj_on f (set xs)" by (rule assms(2))
  show "sorted (map f (sort_key f ys))" by simp
qed

end
