(* ===== verification/Tx_Status.thy ===== *)
theory Tx_Status
  imports Main
begin

text \<open>
  The status vocabularies: the wallet transaction and known-transaction statuses of
  \<open>src/pkg/wdk/tx_status.go\<close>, with the three statuses \<open>src/pkg/storage/internal/metastore/knowntx.go\<close>
  adds, and the wire statuses of Arcade with their supersession rule from
  \<open>src/pkg/arcade/wire.go\<close>.  Go keeps them as strings; here the named constants are constructors and
  any other string is the last constructor of its type.
\<close>

section \<open>Wallet transactions\<close>

datatype tx_status =
    TxStatusCompleted | TxStatusFailed | TxStatusUnprocessed | TxStatusSending | TxStatusUnproven
  | TxStatusUnsigned | TxStatusNoSend | TxStatusNonFinal | TxStatusUnfail | TxStatusAborted
  | OtherTxStatus string

datatype utxo_status = UTXOStatusSending | UTXOStatusUnproven | UTXOStatusMined | UTXOStatusUnknown

datatype std_status =
    TxUpdateStatusBroadcasted | TxUpdateStatusDoubleSpend | TxUpdateStatusInvalidTx
  | TxUpdateStatusServiceError | TxUpdateStatusWaiting | TxUpdateStatusMined | TxUpdateStatusUnknown
  | TxUpdateStatusFailed | TxUpdateStatusAborted

definition ToUTXOStatus :: "tx_status \<Rightarrow> utxo_status" where
  "ToUTXOStatus s =
     (case s of
        TxStatusCompleted \<Rightarrow> UTXOStatusMined
      | TxStatusSending \<Rightarrow> UTXOStatusSending
      | TxStatusUnproven \<Rightarrow> UTXOStatusUnproven
      | TxStatusAborted \<Rightarrow> UTXOStatusUnknown
      | _ \<Rightarrow> UTXOStatusUnknown)"

definition TxStatus_ToStandardizedStatus :: "tx_status \<Rightarrow> std_status" where
  "TxStatus_ToStandardizedStatus s =
     (case s of
        TxStatusCompleted \<Rightarrow> TxUpdateStatusMined
      | TxStatusUnproven \<Rightarrow> TxUpdateStatusBroadcasted
      | TxStatusSending \<Rightarrow> TxUpdateStatusWaiting
      | TxStatusUnprocessed \<Rightarrow> TxUpdateStatusWaiting
      | TxStatusNoSend \<Rightarrow> TxUpdateStatusWaiting
      | TxStatusNonFinal \<Rightarrow> TxUpdateStatusWaiting
      | TxStatusUnsigned \<Rightarrow> TxUpdateStatusWaiting
      | TxStatusUnfail \<Rightarrow> TxUpdateStatusWaiting
      | TxStatusFailed \<Rightarrow> TxUpdateStatusInvalidTx
      | TxStatusAborted \<Rightarrow> TxUpdateStatusAborted
      | _ \<Rightarrow> TxUpdateStatusUnknown)"

section \<open>Known transactions\<close>

datatype req_status =
    ProvenTxStatusSending | ProvenTxStatusUnsent | ProvenTxStatusNoSend | ProvenTxStatusUnknown
  | ProvenTxStatusNonFinal | ProvenTxStatusUnprocessed | ProvenTxStatusUnmined | ProvenTxStatusCallback
  | ProvenTxStatusUnconfirmed | ProvenTxStatusCompleted | ProvenTxStatusInvalid | ProvenTxStatusDoubleSpend
  | ProvenTxStatusUnfail | ProvenTxStatusReorg
  | KnownTxStatusSuspectFailed | KnownTxStatusStuck | KnownTxStatusAborted
  | OtherReqStatus string

datatype send_with_status = SendWithResultStatusUnproven | SendWithResultStatusSending | SendWithResultStatusFailed

definition Sending :: "req_status \<Rightarrow> bool" where
  "Sending s \<longleftrightarrow> s \<in> {ProvenTxStatusUnknown, ProvenTxStatusNonFinal, ProvenTxStatusSending,
     ProvenTxStatusUnsent, ProvenTxStatusNoSend, ProvenTxStatusUnprocessed}"

definition AlreadySent :: "req_status \<Rightarrow> bool" where
  "AlreadySent s \<longleftrightarrow> s \<in> {ProvenTxStatusUnmined, ProvenTxStatusCallback, ProvenTxStatusUnconfirmed,
     ProvenTxStatusCompleted}"

definition SendWithResultStatus :: "req_status \<Rightarrow> send_with_status" where
  "SendWithResultStatus s =
     (if Sending s then SendWithResultStatusSending
      else if AlreadySent s then SendWithResultStatusUnproven
      else SendWithResultStatusFailed)"

definition IsInFlight :: "req_status \<Rightarrow> bool" where
  "IsInFlight s \<longleftrightarrow> s \<in> {ProvenTxStatusSending, ProvenTxStatusUnsent, ProvenTxStatusUnprocessed}"

definition IsTerminalFailure :: "req_status \<Rightarrow> bool" where
  "IsTerminalFailure s \<longleftrightarrow> s \<in> {ProvenTxStatusInvalid, ProvenTxStatusDoubleSpend}"

definition IsAcceptedUnproven :: "req_status \<Rightarrow> bool" where
  "IsAcceptedUnproven s \<longleftrightarrow> s \<in> {ProvenTxStatusUnmined, ProvenTxStatusCallback, ProvenTxStatusUnconfirmed}"

definition IsFinalMined :: "req_status \<Rightarrow> bool" where
  "IsFinalMined s \<longleftrightarrow> s = ProvenTxStatusCompleted"

definition WasBroadcastStatus :: "req_status \<Rightarrow> bool" where
  "WasBroadcastStatus s \<longleftrightarrow> s \<in> {ProvenTxStatusUnmined, ProvenTxStatusCallback, ProvenTxStatusUnconfirmed,
     ProvenTxStatusCompleted, ProvenTxStatusReorg}"

definition Req_ToStandardizedStatus :: "req_status \<Rightarrow> std_status" where
  "Req_ToStandardizedStatus s =
     (case s of
        ProvenTxStatusCompleted \<Rightarrow> TxUpdateStatusMined
      | ProvenTxStatusUnmined \<Rightarrow> TxUpdateStatusBroadcasted
      | ProvenTxStatusCallback \<Rightarrow> TxUpdateStatusBroadcasted
      | ProvenTxStatusUnconfirmed \<Rightarrow> TxUpdateStatusBroadcasted
      | ProvenTxStatusSending \<Rightarrow> TxUpdateStatusWaiting
      | ProvenTxStatusUnsent \<Rightarrow> TxUpdateStatusWaiting
      | ProvenTxStatusUnprocessed \<Rightarrow> TxUpdateStatusWaiting
      | ProvenTxStatusNoSend \<Rightarrow> TxUpdateStatusWaiting
      | ProvenTxStatusNonFinal \<Rightarrow> TxUpdateStatusWaiting
      | ProvenTxStatusUnfail \<Rightarrow> TxUpdateStatusWaiting
      | ProvenTxStatusReorg \<Rightarrow> TxUpdateStatusWaiting
      | ProvenTxStatusInvalid \<Rightarrow> TxUpdateStatusInvalidTx
      | ProvenTxStatusDoubleSpend \<Rightarrow> TxUpdateStatusDoubleSpend
      | ProvenTxStatusUnknown \<Rightarrow> TxUpdateStatusUnknown
      | _ \<Rightarrow> TxUpdateStatusUnknown)"

definition ProvenTxReqProblematicStatuses :: "req_status list" where
  "ProvenTxReqProblematicStatuses =
     [ProvenTxStatusUnknown, ProvenTxStatusNonFinal, ProvenTxStatusInvalid, ProvenTxStatusDoubleSpend]"

definition ProvenTxReqBeyondBroadcastStageStatuses :: "req_status list" where
  "ProvenTxReqBeyondBroadcastStageStatuses =
     [ProvenTxStatusUnmined, ProvenTxStatusCallback, ProvenTxStatusUnconfirmed, ProvenTxStatusCompleted,
      ProvenTxStatusReorg]"

definition knownTxPreBroadcastStatuses :: "req_status list" where
  "knownTxPreBroadcastStatuses = [ProvenTxStatusUnsent, ProvenTxStatusUnprocessed, ProvenTxStatusNoSend]"

definition KnownTxNeverRequeueStatuses :: "req_status list" where
  "KnownTxNeverRequeueStatuses =
     ProvenTxReqBeyondBroadcastStageStatuses @
     [KnownTxStatusAborted, KnownTxStatusSuspectFailed, KnownTxStatusStuck, ProvenTxStatusInvalid,
      ProvenTxStatusDoubleSpend, ProvenTxStatusSending]"

lemmas req_status_defs = Sending_def AlreadySent_def IsInFlight_def IsTerminalFailure_def IsAcceptedUnproven_def
  IsFinalMined_def WasBroadcastStatus_def ProvenTxReqBeyondBroadcastStageStatuses_def
  knownTxPreBroadcastStatuses_def KnownTxNeverRequeueStatuses_def

section \<open>Arcade wire statuses\<close>

datatype arc_status =
    StatusUnknown | StatusReceived | StatusSentToNetwork | StatusAcceptedByNetwork | StatusSeenOnNetwork
  | StatusSeenMultipleNodes | StatusDoubleSpendAttempted | StatusRejected | StatusPendingRetry
  | StatusStumpProcessing | StatusMined | StatusImmutable
  | OtherStatus string

definition AllStatuses :: "arc_status list" where
  "AllStatuses =
     [StatusUnknown, StatusReceived, StatusSentToNetwork, StatusAcceptedByNetwork, StatusSeenOnNetwork,
      StatusSeenMultipleNodes, StatusDoubleSpendAttempted, StatusRejected, StatusPendingRetry,
      StatusStumpProcessing, StatusMined, StatusImmutable]"

definition terminalStatuses :: "arc_status list" where
  "terminalStatuses = [StatusRejected, StatusDoubleSpendAttempted, StatusMined, StatusImmutable]"

definition IsTerminal :: "arc_status \<Rightarrow> bool" where
  "IsTerminal s \<longleftrightarrow> s \<in> set terminalStatuses"

definition disallowedPreviousStatuses :: "arc_status \<Rightarrow> arc_status list" where
  "disallowedPreviousStatuses s =
     (if s = StatusUnknown \<or> s = StatusReceived then
        [StatusSentToNetwork, StatusAcceptedByNetwork, StatusSeenOnNetwork, StatusSeenMultipleNodes,
         StatusPendingRetry, StatusStumpProcessing, StatusRejected, StatusDoubleSpendAttempted,
         StatusMined, StatusImmutable]
      else if s = StatusSentToNetwork then
        [StatusSentToNetwork, StatusAcceptedByNetwork, StatusSeenOnNetwork, StatusSeenMultipleNodes,
         StatusRejected, StatusDoubleSpendAttempted, StatusMined, StatusImmutable]
      else if s = StatusAcceptedByNetwork then
        [StatusAcceptedByNetwork, StatusSeenOnNetwork, StatusSeenMultipleNodes,
         StatusDoubleSpendAttempted, StatusMined, StatusImmutable]
      else if s = StatusSeenOnNetwork then
        [StatusSeenOnNetwork, StatusSeenMultipleNodes, StatusPendingRetry,
         StatusDoubleSpendAttempted, StatusMined, StatusImmutable]
      else if s = StatusSeenMultipleNodes then
        [StatusSeenMultipleNodes, StatusPendingRetry, StatusDoubleSpendAttempted, StatusMined, StatusImmutable]
      else if s = StatusPendingRetry then
        [StatusSeenOnNetwork, StatusSeenMultipleNodes, StatusRejected, StatusDoubleSpendAttempted,
         StatusMined, StatusImmutable]
      else if s = StatusStumpProcessing then
        [StatusRejected, StatusDoubleSpendAttempted, StatusMined, StatusImmutable]
      else if s = StatusRejected \<or> s = StatusDoubleSpendAttempted then [StatusMined, StatusImmutable]
      else if s = StatusMined then [StatusImmutable]
      else [])"

text \<open>The empty previous status of a row that carries none yet is the string constructor.\<close>

definition no_status :: arc_status where
  "no_status = OtherStatus ''''"

definition CanSupersede :: "arc_status \<Rightarrow> arc_status \<Rightarrow> bool" where
  "CanSupersede s prev \<longleftrightarrow> prev = no_status \<or> prev = s \<or> prev \<notin> set (disallowedPreviousStatuses s)"

definition known_status :: "arc_status \<Rightarrow> bool" where
  "known_status s \<longleftrightarrow> s \<in> set AllStatuses"

lemmas supersede_defs = known_status_def AllStatuses_def CanSupersede_def disallowedPreviousStatuses_def no_status_def

section \<open>Properties\<close>

text \<open>
  The classes of known-transaction statuses fit together: the statuses that prove acceptance are
  exactly those beyond the broadcast stage, what was already sent is accepted or final, no status is
  both pre-broadcast and beyond it, both targets of the abort/send arbiter are outside its from-set,
  and every status from which a re-queue is forbidden is outside the from-set too.
\<close>

theorem req_status_classes:
  "(WasBroadcastStatus s \<longleftrightarrow> s \<in> set ProvenTxReqBeyondBroadcastStageStatuses) \<and>
   (AlreadySent s \<longleftrightarrow> IsAcceptedUnproven s \<or> IsFinalMined s) \<and>
   \<not> (Sending s \<and> WasBroadcastStatus s) \<and> \<not> (IsTerminalFailure s \<and> (Sending s \<or> WasBroadcastStatus s)) \<and>
   KnownTxStatusAborted \<notin> set knownTxPreBroadcastStatuses \<and> ProvenTxStatusSending \<notin> set knownTxPreBroadcastStatuses \<and>
   set KnownTxNeverRequeueStatuses \<inter> set knownTxPreBroadcastStatuses = {}"
  by (cases s) (auto simp: req_status_defs)

text \<open>
  C39: The supersession rule protects a mined transaction against every status Arcade defines.  The only
  statuses that supersede MINED are MINED itself, IMMUTABLE, and strings outside the enumeration; the only
  ones that supersede IMMUTABLE are IMMUTABLE itself and strings outside the enumeration, which supersede
  everything.  So over any sequence of reports with statuses of the enumeration, applied under the rule,
  an immutable transaction stays immutable and a mined one stays mined or becomes immutable.
\<close>

theorem mined_never_superseded:
  "(CanSupersede s StatusMined \<longleftrightarrow> s = StatusMined \<or> s = StatusImmutable \<or> \<not> known_status s) \<and>
   (CanSupersede s StatusImmutable \<longleftrightarrow> s = StatusImmutable \<or> \<not> known_status s) \<and>
   (\<not> known_status s \<longrightarrow> CanSupersede s prev) \<and>
   (list_all known_status ss \<longrightarrow>
      foldl (\<lambda>cur s. if CanSupersede s cur then s else cur) StatusImmutable ss = StatusImmutable \<and>
      foldl (\<lambda>cur s. if CanSupersede s cur then s else cur) StatusMined ss \<in> {StatusMined, StatusImmutable})"
proof -
  have mined: "CanSupersede s StatusMined \<longleftrightarrow> s = StatusMined \<or> s = StatusImmutable \<or> \<not> known_status s" for s
    by (cases s) (auto simp: supersede_defs)
  have immutable: "CanSupersede s StatusImmutable \<longleftrightarrow> s = StatusImmutable \<or> \<not> known_status s" for s
    by (cases s) (auto simp: supersede_defs)
  have unknown: "\<not> known_status s \<longrightarrow> CanSupersede s prev" by (cases s) (auto simp: supersede_defs)
  have run1: "foldl (\<lambda>cur s. if CanSupersede s cur then s else cur) StatusImmutable ss = StatusImmutable" if "list_all known_status ss" for ss
    using that by (induction ss) (auto simp: immutable)
  have "foldl (\<lambda>cur s. if CanSupersede s cur then s else cur) StatusMined ss \<in> {StatusMined, StatusImmutable}"
    if "list_all known_status ss" using that
    by (induction ss) (auto simp: mined run1)
  with mined immutable unknown run1 show ?thesis by blast
qed

theorem mined_never_superseded_witness:
  "\<not> CanSupersede StatusRejected StatusMined \<and> CanSupersede (OtherStatus ''ORPHANED'') StatusImmutable \<and>
   foldl (\<lambda>cur s. if CanSupersede s cur then s else cur) StatusMined [StatusRejected, StatusSeenOnNetwork] \<in> {StatusMined, StatusImmutable}"
proof -
  have "known_status StatusRejected" "\<not> known_status (OtherStatus ''ORPHANED'')" "list_all known_status [StatusRejected, StatusSeenOnNetwork]"
    by (simp_all add: known_status_def AllStatuses_def)
  then show ?thesis
    using mined_never_superseded [of StatusRejected StatusMined "[StatusRejected, StatusSeenOnNetwork]"]
      mined_never_superseded [of "OtherStatus ''ORPHANED''" StatusImmutable "[]"] by blast
qed

text \<open>
  The rule is weaker for the other terminal statuses than its comment says (only mined to immutable
  may leave a terminal state): a rejected transaction may become accepted, seen, mined or a double
  spend, and a double spend may become rejected, so the two can alternate for ever; and through
  rejected a transaction seen on the network can fall back to accepted, which it could not directly.
\<close>

theorem rejected_is_not_a_sink:
  "IsTerminal StatusRejected \<and> IsTerminal StatusDoubleSpendAttempted \<and>
   CanSupersede StatusSeenOnNetwork StatusRejected \<and> CanSupersede StatusMined StatusRejected \<and>
   CanSupersede StatusDoubleSpendAttempted StatusRejected \<and> CanSupersede StatusRejected StatusDoubleSpendAttempted \<and>
   \<not> CanSupersede StatusAcceptedByNetwork StatusSeenOnNetwork \<and>
   CanSupersede StatusRejected StatusSeenOnNetwork \<and> CanSupersede StatusAcceptedByNetwork StatusRejected"
  by (simp add: IsTerminal_def terminalStatuses_def CanSupersede_def disallowedPreviousStatuses_def no_status_def)

end
