(* ===== verification/Meta_Base.thy ===== *)
theory Meta_Base
  imports Arcade_Prelude Tx_Status "HOL-Library.List_Lexorder" "HOL-Library.Char_ord"
begin

text \<open>
  What the repositories of the metadata store share: its errors
  (\<open>src/pkg/storage/internal/metastore/errors.go\<close>), the transaction-id codec of \<open>codec.go\<close> over Go's
  \<open>encoding/hex\<close>, the canonical lock order of \<open>lockorder.go\<close>, paging (\<open>query.go\<close>), the timestamp codec
  of \<open>src/internal/sqlkit/sqlkit.go\<close>, and the meaning of the SQL statements the repositories send: a
  table is the list of its rows, an \<open>UPDATE\<close> maps a function over the rows its condition selects and
  reports their number, a \<open>SELECT\<close> filters and sorts.  A statement the database fails to execute is not
  modelled: it changes nothing and returns the driver's error; \<open>ErrConstraint\<close> stands for the one
  such error a repository's own arguments can cause, the violation of a \<open>UNIQUE\<close> constraint.
\<close>

section \<open>Errors\<close>

datatype meta_error =
    BadTxID string
  | ErrNotFound
  | ErrStatusUpdateSkipped
  | ErrTxIDMismatch
  | ErrOutputBasketMismatch
  | ErrConstraint

section \<open>Statements\<close>

definition update_where :: "('r \<Rightarrow> bool) \<Rightarrow> ('r \<Rightarrow> 'r) \<Rightarrow> 'r list \<Rightarrow> 'r list" where
  "update_where p f rows = map (\<lambda>r. if p r then f r else r) rows"

definition affected :: "('r \<Rightarrow> bool) \<Rightarrow> 'r list \<Rightarrow> nat" where
  "affected p rows = length (filter p rows)"

text \<open>\<open>LIMIT ? OFFSET ?\<close>: a limit that is not positive means no limit.\<close>

definition limitOffset :: "int \<Rightarrow> nat \<Rightarrow> 'r list \<Rightarrow> 'r list" where
  "limitOffset limit offset rows = (if 0 < limit then take (nat limit) (drop offset rows) else drop offset rows)"

text \<open>Both engines keep timestamps in microseconds.\<close>

definition encTime :: "time \<Rightarrow> time" where
  "encTime t = t div 1000 * 1000"

text \<open>Unix time 0, as Go's \<open>time.Time\<close> counts it.\<close>

definition epoch :: time where
  "epoch = 62135596800 * 1000000000"

section \<open>The transaction-id codec\<close>

type_synonym bytes = "u8 list"

definition fromHexChar :: "char \<Rightarrow> nat option" where
  "fromHexChar ch =
     (let c = of_char ch :: nat in
      if 48 \<le> c \<and> c \<le> 57 then Some (c - 48)
      else if 97 \<le> c \<and> c \<le> 102 then Some (c - 87)
      else if 65 \<le> c \<and> c \<le> 70 then Some (c - 55)
      else None)"

fun hexDecode :: "string \<Rightarrow> bytes option" where
  "hexDecode [] = Some []"
| "hexDecode [c] = None"
| "hexDecode (c # d # cs) =
     (case (fromHexChar c, fromHexChar d) of
        (Some a, Some b) \<Rightarrow> map_option (\<lambda>bs. of_nat (16 * a + b) # bs) (hexDecode cs)
      | _ \<Rightarrow> None)"

definition hexDigit :: "nat \<Rightarrow> char" where
  "hexDigit n = char_of (if n < 10 then n + 48 else n + 87)"

fun hexEncode :: "bytes \<Rightarrow> string" where
  "hexEncode [] = []"
| "hexEncode (b # bs) = hexDigit (unat b div 16) # hexDigit (unat b mod 16) # hexEncode bs"

definition encTxID :: "string \<Rightarrow> meta_error + bytes" where
  "encTxID txid = (case hexDecode txid of None \<Rightarrow> Inl (BadTxID txid) | Some b \<Rightarrow> Inr b)"

definition decTxIDPtr :: "bytes \<Rightarrow> string option" where
  "decTxIDPtr b = (if b = [] then None else Some (hexEncode b))"

section \<open>The lock order\<close>

definition LessTxID :: "string \<Rightarrow> string \<Rightarrow> bool" where
  "LessTxID a b = (case (encTxID a, encTxID b) of (Inr ra, Inr rb) \<Rightarrow> ra < rb | _ \<Rightarrow> a < b)"

fun rawLoop :: "string list \<Rightarrow> string list \<Rightarrow> meta_error + bytes list" where
  "rawLoop seen [] = Inr []"
| "rawLoop seen (t # ts) =
     (if t \<in> set seen then rawLoop seen ts
      else case encTxID t of
        Inl e \<Rightarrow> Inl e
      | Inr raw \<Rightarrow> (case rawLoop (t # seen) ts of Inl e \<Rightarrow> Inl e | Inr raws \<Rightarrow> Inr (raw # raws)))"

definition sortedRawTxIDs :: "string list \<Rightarrow> meta_error + bytes list" where
  "sortedRawTxIDs txids = (case rawLoop [] txids of Inl e \<Rightarrow> Inl e | Inr raws \<Rightarrow> Inr (sort raws))"

fun encAll :: "string list \<Rightarrow> meta_error + bytes list" where
  "encAll [] = Inr []"
| "encAll (t # ts) =
     (case encTxID t of
        Inl e \<Rightarrow> Inl e
      | Inr raw \<Rightarrow> (case encAll ts of Inl e \<Rightarrow> Inl e | Inr raws \<Rightarrow> Inr (raw # raws)))"

section \<open>Facts\<close>

lemma set_update_where: "set (update_where p f rows) = (\<lambda>r. if p r then f r else r) ` set rows"
  by (simp add: update_where_def)

lemma update_where_False [simp]: "update_where (\<lambda>_. False) f rows = rows"
  by (simp add: update_where_def)

lemma affected_0: "affected p rows = 0 \<longleftrightarrow> (\<forall>r \<in> set rows. \<not> p r)"
  by (simp add: affected_def filter_empty_conv)

lemma update_where_none: "affected p rows = 0 \<Longrightarrow> update_where p f rows = rows"
  by (simp add: affected_0 update_where_def map_idI)

text \<open>A statement that keeps the key keeps the row found by it, the uniqueness of the key and other rows.\<close>

lemma find_update_where:
  assumes "\<And>r. p r \<Longrightarrow> key (f r) = key r"
  shows "find (\<lambda>r. key r = k) (update_where p f rows) = map_option (\<lambda>r. if p r then f r else r) (find (\<lambda>r. key r = k) rows)"
  using assms by (induction rows) (auto simp: update_where_def)

lemma map_update_where: "(\<And>r. p r \<Longrightarrow> key (f r) = key r) \<Longrightarrow> map key (update_where p f rows) = map key rows"
  by (auto simp: update_where_def)

lemma find_append_key:
  "find (\<lambda>r. key r = k) (rows @ [new]) =
     (case find (\<lambda>r. key r = k) rows of Some r \<Rightarrow> Some r | None \<Rightarrow> if key new = k then Some new else None)"
  by (induction rows) auto

lemma fromHexChar_hexDigit: "n < 16 \<Longrightarrow> fromHexChar (hexDigit n) = Some n"
  by (simp add: fromHexChar_def hexDigit_def Let_def)

lemma fromHexChar_less: "fromHexChar c = Some n \<Longrightarrow> n < 16"
  by (auto simp: fromHexChar_def Let_def split: if_splits)

lemma of_nat_unat_split: "(of_nat (16 * (unat b div 16) + unat b mod 16) :: u8) = b"
proof -
  have "16 * (unat b div 16) + unat b mod 16 = unat b" by simp
  then show ?thesis by (simp only: of_nat_unat ucast_id)
qed

lemma hexDecode_hexEncode: "hexDecode (hexEncode bs) = Some bs"
proof (induction bs)
  case (Cons b bs)
  have "unat b div 16 < 16" using unsigned_less [of b, where ?'a = nat] by simp
  with Cons show ?case using of_nat_unat_split [of b] by (simp add: fromHexChar_hexDigit)
qed simp

definition lower_hex :: "char \<Rightarrow> char" where
  "lower_hex ch = (case fromHexChar ch of Some n \<Rightarrow> hexDigit n | None \<Rightarrow> ch)"

lemma hexEncode_hexDecode: "hexDecode s = Some bs \<Longrightarrow> hexEncode bs = map lower_hex s"
proof (induction s arbitrary: bs rule: hexDecode.induct)
  case (3 c d cs)
  then obtain a b bs' where s: "fromHexChar c = Some a" "fromHexChar d = Some b" "hexDecode cs = Some bs'"
      "bs = of_nat (16 * a + b) # bs'"
    by (auto split: option.splits)
  have lt: "a < 16" "b < 16" using s fromHexChar_less by auto
  then have "unat (of_nat (16 * a + b) :: u8) = 16 * a + b" by (simp del: of_nat_add add: unsigned_of_nat take_bit_eq_mod)
  with lt 3 s show ?case by (auto simp: lower_hex_def)
qed auto

lemma encTxID_Inr: "encTxID t = Inr raw \<longleftrightarrow> hexDecode t = Some raw"
  by (auto simp: encTxID_def split: option.splits)

lemma mset_rawLoop:
  "rawLoop seen ts = Inr raws \<Longrightarrow>
     (\<forall>t \<in> set ts - set seen. hexDecode t \<noteq> None) \<and>
     mset raws = image_mset (\<lambda>t. the (hexDecode t)) (mset_set (set ts - set seen))"
proof (induction seen ts arbitrary: raws rule: rawLoop.induct)
  case (2 seen t ts)
  show ?case
  proof (cases "t \<in> set seen")
    case True
    with 2 show ?thesis by (simp add: insert_Diff_if)
  next
    case False
    with "2.prems" obtain raw raws' where r: "hexDecode t = Some raw" "rawLoop (t # seen) ts = Inr raws'" "raws = raw # raws'"
      by (auto simp: encTxID_def split: option.splits sum.splits)
    have "set (t # ts) - set seen = insert t (set ts - set (t # seen))" using False by auto
    moreover have "t \<notin> set ts - set (t # seen)" "finite (set ts - set (t # seen))" by auto
    ultimately show ?thesis using "2.IH"(2) [OF False _ r(2)] r False by (auto simp: encTxID_def)
  qed
qed simp

section \<open>Properties\<close>

text \<open>
  The transaction-id codec round-trips: the bytes stored for a display id decode to the same id in
  lower case, and the id shown for stored bytes is stored as the same bytes again.  So an id that is
  spelled in lower case, as \<open>chainhash\<close> prints it, comes back exactly.
\<close>

theorem txid_codec_roundtrip:
  "encTxID (hexEncode raw) = Inr raw \<and>
   (encTxID t = Inr raw \<longrightarrow> raw = [] \<and> t = [] \<or> decTxIDPtr raw = Some (map lower_hex t))"
proof
  show "encTxID (hexEncode raw) = Inr raw" by (simp add: encTxID_def hexDecode_hexEncode)
  show "encTxID t = Inr raw \<longrightarrow> raw = [] \<and> t = [] \<or> decTxIDPtr raw = Some (map lower_hex t)"
    using hexEncode_hexDecode [of t raw]
    by (cases t rule: hexDecode.cases) (auto simp: encTxID_Inr decTxIDPtr_def split: option.splits)
qed

text \<open>
  Every set-based writer takes its row locks in one order: the ids bound for a set of transactions
  are sorted, and depend only on the set, not on the order or the repetitions of the list it came in.
\<close>

theorem lock_order_canonical:
  assumes "set ts = set ts'" "sortedRawTxIDs ts = Inr raws" "sortedRawTxIDs ts' = Inr raws'"
  shows "raws = raws' \<and> sorted raws"
proof -
  obtain rs rs' where r: "rawLoop [] ts = Inr rs" "raws = sort rs" "rawLoop [] ts' = Inr rs'" "raws' = sort rs'"
    using assms by (auto simp: sortedRawTxIDs_def split: sum.splits)
  have "mset rs = mset rs'" using mset_rawLoop [OF r(1)] mset_rawLoop [OF r(3)] assms(1) by simp
  then have "sort rs = sort rs'" by (metis sorted_list_of_multiset_mset)
  then show ?thesis using r by simp
qed

end
