(* ===== verification/Labels.thy ===== *)
theory Labels
  imports Meta_Base
begin

text \<open>
  Labels and tags: \<open>src/pkg/storage/internal/metastore/labels.go\<close>.  Both are a table of named rows, unique
  per user and name, and a table of edges to their owners (transactions for labels, outputs for tags),
  unique per owner and named row.  The clock of a call is the sequence of its readings.
\<close>

section \<open>Tables\<close>

record named_row =
  nm_ID :: nat
  nm_UserID :: int
  nm_Name :: string
  nm_IsDeleted :: bool
  nm_CreatedAt :: time
  nm_UpdatedAt :: time

record edge =
  ed_Owner :: nat
  ed_Named :: nat
  ed_IsDeleted :: bool
  ed_CreatedAt :: time

record named_table =
  nt_rows :: "named_row list"
  nt_edges :: "edge list"

text \<open>An identity column hands out an id above every id in the table.\<close>

definition nextID :: "nat list \<Rightarrow> nat" where
  "nextID ids = Suc (foldr max ids 0)"

lemma nextID_fresh: "i \<in> set ids \<Longrightarrow> i < nextID ids"
  by (induction ids) (auto simp: nextID_def)

section \<open>Operations\<close>

text \<open>\<open>INSERT ... ON CONFLICT (user_id, name) DO UPDATE ... RETURNING\<close>.\<close>

definition upsertNamed :: "time \<Rightarrow> named_table \<Rightarrow> int \<Rightarrow> string \<Rightarrow> named_table \<times> nat" where
  "upsertNamed now tbl userID name =
     (let p = (\<lambda>r. nm_UserID r = userID \<and> nm_Name r = name) in
      case find p (nt_rows tbl) of
        Some r \<Rightarrow> (tbl\<lparr>nt_rows := update_where p (\<lambda>r. r\<lparr>nm_IsDeleted := False, nm_UpdatedAt := encTime now\<rparr>) (nt_rows tbl)\<rparr>, nm_ID r)
      | None \<Rightarrow>
          (let i = nextID (map nm_ID (nt_rows tbl)) in
           (tbl\<lparr>nt_rows := nt_rows tbl @ [\<lparr>nm_ID = i, nm_UserID = userID, nm_Name = name, nm_IsDeleted = False,
              nm_CreatedAt = encTime now, nm_UpdatedAt = encTime now\<rparr>]\<rparr>, i)))"

text \<open>\<open>INSERT ... ON CONFLICT (owner, named) DO UPDATE SET is_deleted = false\<close>.\<close>

definition link :: "time \<Rightarrow> named_table \<Rightarrow> nat \<Rightarrow> nat \<Rightarrow> named_table" where
  "link now tbl owner named =
     (let p = (\<lambda>e. ed_Owner e = owner \<and> ed_Named e = named) in
      if \<exists>e \<in> set (nt_edges tbl). p e
      then tbl\<lparr>nt_edges := update_where p (\<lambda>e. e\<lparr>ed_IsDeleted := False\<rparr>) (nt_edges tbl)\<rparr>
      else tbl\<lparr>nt_edges := nt_edges tbl @ [\<lparr>ed_Owner = owner, ed_Named = named, ed_IsDeleted = False,
             ed_CreatedAt = encTime now\<rparr>]\<rparr>)"

definition Labels_FindOrCreate :: "time \<Rightarrow> named_table \<Rightarrow> int \<Rightarrow> string \<Rightarrow> named_table \<times> nat" where
  "Labels_FindOrCreate now tbl userID name = upsertNamed now tbl userID name"

definition Labels_attach :: "(nat \<Rightarrow> time) \<Rightarrow> named_table \<Rightarrow> int \<Rightarrow> nat \<Rightarrow> string \<Rightarrow> named_table" where
  "Labels_attach clk tbl userID transactionID name =
     (let (tbl', labelID) = Labels_FindOrCreate (clk 0) tbl userID name in link (clk 1) tbl' transactionID labelID)"

fun Labels_Attach :: "(nat \<Rightarrow> time) \<Rightarrow> named_table \<Rightarrow> int \<Rightarrow> nat \<Rightarrow> string list \<Rightarrow> named_table" where
  "Labels_Attach clk tbl userID transactionID [] = tbl"
| "Labels_Attach clk tbl userID transactionID (name # names) =
     Labels_Attach (\<lambda>i. clk (i + 2)) (Labels_attach clk tbl userID transactionID name) userID transactionID names"

definition Tags_FindOrCreate :: "time \<Rightarrow> named_table \<Rightarrow> int \<Rightarrow> string \<Rightarrow> named_table \<times> nat" where
  "Tags_FindOrCreate now tbl userID name = upsertNamed now tbl userID name"

definition Tags_attach :: "(nat \<Rightarrow> time) \<Rightarrow> named_table \<Rightarrow> int \<Rightarrow> nat \<Rightarrow> string \<Rightarrow> named_table" where
  "Tags_attach clk tbl userID outputID name =
     (let (tbl', tagID) = Tags_FindOrCreate (clk 0) tbl userID name in link (clk 1) tbl' outputID tagID)"

fun Tags_Attach :: "(nat \<Rightarrow> time) \<Rightarrow> named_table \<Rightarrow> int \<Rightarrow> nat \<Rightarrow> string list \<Rightarrow> named_table" where
  "Tags_Attach clk tbl userID outputID [] = tbl"
| "Tags_Attach clk tbl userID outputID (name # names) =
     Tags_Attach (\<lambda>i. clk (i + 2)) (Tags_attach clk tbl userID outputID name) userID outputID names"

section \<open>Queries\<close>

text \<open>The names attached to an owner, and the join of the label and tag filters.\<close>

definition attached :: "named_table \<Rightarrow> nat \<Rightarrow> named_row list" where
  "attached tbl owner =
     filter (\<lambda>r. \<not> nm_IsDeleted r \<and> (\<exists>e \<in> set (nt_edges tbl). ed_Owner e = owner \<and> ed_Named e = nm_ID r \<and> \<not> ed_IsDeleted e))
       (nt_rows tbl)"

definition attachedNames :: "named_table \<Rightarrow> nat \<Rightarrow> string list" where
  "attachedNames tbl owner = sort (map nm_Name (attached tbl owner))"

text \<open>
  The query mode as the argument validation reads it (\<open>src/pkg/defs/query_mode.go\<close>), and as the query does.
  The letters of \<open>all\<close> and \<open>any\<close> fold only to their upper case.
\<close>

definition lowerASCII :: "char \<Rightarrow> char" where
  "lowerASCII ch = (let c = of_char ch :: nat in if 65 \<le> c \<and> c \<le> 90 then char_of (c + 32) else ch)"

fun parseEnumCaseInsensitive :: "string \<Rightarrow> string list \<Rightarrow> string option" where
  "parseEnumCaseInsensitive v [] = None"
| "parseEnumCaseInsensitive v (e # es) =
     (if map lowerASCII v = map lowerASCII e then Some e else parseEnumCaseInsensitive v es)"

definition ParseQueryMode :: "string \<Rightarrow> string option" where
  "ParseQueryMode str = parseEnumCaseInsensitive str [''all'', ''any'']"

definition QueryMode_Value :: "string option \<Rightarrow> string option" where
  "QueryMode_Value q = (case q of None \<Rightarrow> Some ''any'' | Some m \<Rightarrow> if m = '''' then Some ''any'' else ParseQueryMode m)"

definition isAllMode :: "string option \<Rightarrow> bool" where
  "isAllMode mode \<longleftrightarrow> mode = Some ''all''"

text \<open>
  \<open>labelFilterSubquery\<close> and \<open>tagFilterSubquery\<close>: \<open>ANY\<close> keeps the owners with one of the names, \<open>ALL\<close> the
  owners for which the number of distinct matching names is the number of requested names.
\<close>

definition nameFilter :: "named_table \<Rightarrow> int \<Rightarrow> string list \<Rightarrow> string option \<Rightarrow> nat \<Rightarrow> bool" where
  "nameFilter tbl userID names mode owner \<longleftrightarrow>
     names = [] \<or>
     (let hits = remdups (map nm_Name (filter (\<lambda>r. nm_UserID r = userID \<and> nm_Name r \<in> set names) (attached tbl owner)))
      in hits \<noteq> [] \<and> (isAllMode mode \<longrightarrow> length hits = length names))"

section \<open>Facts\<close>

definition named_inv :: "named_table \<Rightarrow> bool" where
  "named_inv tbl \<longleftrightarrow> distinct (map nm_ID (nt_rows tbl)) \<and> distinct (map (\<lambda>r. (nm_UserID r, nm_Name r)) (nt_rows tbl)) \<and>
     distinct (map (\<lambda>e. (ed_Owner e, ed_Named e)) (nt_edges tbl))"

definition carries :: "named_table \<Rightarrow> int \<Rightarrow> nat \<Rightarrow> string set" where
  "carries tbl userID owner = nm_Name ` {r \<in> set (attached tbl owner). nm_UserID r = userID}"

lemma nameFilter_hits:
  "set (remdups (map nm_Name (filter (\<lambda>r. nm_UserID r = userID \<and> nm_Name r \<in> set names) (attached tbl owner)))) =
     set names \<inter> carries tbl userID owner"
  by (auto simp: carries_def)

lemma nameFilter_carries:
  "nameFilter tbl userID names mode owner \<longleftrightarrow>
     names = [] \<or> (set names \<inter> carries tbl userID owner \<noteq> {} \<and>
       (isAllMode mode \<longrightarrow> card (set names \<inter> carries tbl userID owner) = length names))"
proof -
  let ?hits = "remdups (map nm_Name (filter (\<lambda>r. nm_UserID r = userID \<and> nm_Name r \<in> set names) (attached tbl owner)))"
  have "length ?hits = card (set ?hits)" by (rule distinct_card [symmetric]) (rule distinct_remdups)
  then have "length ?hits = card (set names \<inter> carries tbl userID owner)" by (simp only: nameFilter_hits)
  moreover have "?hits = [] \<longleftrightarrow> set names \<inter> carries tbl userID owner = {}"
    by (simp only: set_empty [symmetric] nameFilter_hits)
  ultimately show ?thesis unfolding nameFilter_def Let_def by simp
qed

lemma all_names: "card (set names \<inter> S) = length names \<longleftrightarrow> distinct names \<and> set names \<subseteq> S"
proof
  assume h: "card (set names \<inter> S) = length names"
  have "card (set names \<inter> S) \<le> card (set names)" by (rule card_mono) auto
  with h have c: "card (set names) = length names" using card_length [of names] by linarith
  then have "set names \<inter> S = set names" using h by (intro card_subset_eq) auto
  with c show "distinct names \<and> set names \<subseteq> S" by (auto intro: card_distinct)
qed (auto simp: Int_absorb2 distinct_card)

lemma upsertNamed_inv:
  assumes "named_inv tbl" "upsertNamed now tbl userID name = (tbl', i)"
  shows "named_inv tbl' \<and> nt_edges tbl' = nt_edges tbl \<and>
    (\<exists>r \<in> set (nt_rows tbl'). nm_ID r = i \<and> nm_UserID r = userID \<and> nm_Name r = name \<and> \<not> nm_IsDeleted r)"
proof (cases "find (\<lambda>r. nm_UserID r = userID \<and> nm_Name r = name) (nt_rows tbl)")
  case None
  then have new: "(userID, name) \<notin> (\<lambda>r. (nm_UserID r, nm_Name r)) ` set (nt_rows tbl)"
    by (auto simp: find_None_iff)
  have fresh: "nextID (map nm_ID (nt_rows tbl)) \<notin> nm_ID ` set (nt_rows tbl)"
    using nextID_fresh [of _ "map nm_ID (nt_rows tbl)"] by force
  from assms None new fresh show ?thesis by (auto simp: upsertNamed_def Let_def named_inv_def)
next
  case (Some r)
  have r: "r \<in> set (nt_rows tbl)" "nm_UserID r = userID" "nm_Name r = name" using Some by (auto simp: find_Some_iff)
  let ?rows = "update_where (\<lambda>r. nm_UserID r = userID \<and> nm_Name r = name) (\<lambda>r. r\<lparr>nm_IsDeleted := False, nm_UpdatedAt := encTime now\<rparr>) (nt_rows tbl)"
  have eq: "tbl' = tbl\<lparr>nt_rows := ?rows\<rparr>" "i = nm_ID r" using assms(2) Some by (auto simp: upsertNamed_def Let_def)
  have "map nm_ID ?rows = map nm_ID (nt_rows tbl)" "map (\<lambda>r. (nm_UserID r, nm_Name r)) ?rows = map (\<lambda>r. (nm_UserID r, nm_Name r)) (nt_rows tbl)"
    by (auto simp: update_where_def)
  with assms(1) have "named_inv tbl'" by (simp add: named_inv_def eq)
  moreover have "r\<lparr>nm_IsDeleted := False, nm_UpdatedAt := encTime now\<rparr> \<in> set (nt_rows tbl')"
    using r by (auto simp: eq update_where_def image_iff)
  ultimately show ?thesis using r eq by (intro conjI bexI) auto
qed

lemma edge_keys_update:
  "map (\<lambda>e. (ed_Owner e, ed_Named e)) (update_where p (\<lambda>e. e\<lparr>ed_IsDeleted := False\<rparr>) es) = map (\<lambda>e. (ed_Owner e, ed_Named e)) es"
  by (auto simp: update_where_def)

lemma link_inv: "named_inv tbl \<Longrightarrow> named_inv (link now tbl owner named)"
  by (cases "\<exists>e \<in> set (nt_edges tbl). ed_Owner e = owner \<and> ed_Named e = named")
    (auto simp: link_def Let_def named_inv_def edge_keys_update simp del: map_map)

lemma link_row: "nt_rows (link now tbl owner named) = nt_rows tbl"
  by (simp add: link_def Let_def)

lemma link_edge: "\<exists>e \<in> set (nt_edges (link now tbl owner named)). ed_Owner e = owner \<and> ed_Named e = named \<and> \<not> ed_IsDeleted e"
proof (cases "\<exists>e \<in> set (nt_edges tbl). ed_Owner e = owner \<and> ed_Named e = named")
  case True
  then obtain e where "e \<in> set (nt_edges tbl)" "ed_Owner e = owner" "ed_Named e = named" by blast
  then show ?thesis using True
    by (intro bexI [where x = "e\<lparr>ed_IsDeleted := False\<rparr>"]) (auto simp: link_def Let_def update_where_def image_iff)
next
  case False
  then show ?thesis unfolding link_def Let_def if_not_P [OF False] by simp
qed

section \<open>Properties\<close>

text \<open>
  The label and tag filters mean what their comments say: a filter with names keeps an owner exactly when
  it carries one of them, or in the mode \<open>all\<close>, for names without repetition, all of them; an attached name
  is carried from then on, and attaching keeps the tables unique.
\<close>

theorem name_filter_meaning:
  assumes "named_inv tbl" "names \<noteq> []"
  shows "(nameFilter tbl userID names None owner \<longleftrightarrow> set names \<inter> carries tbl userID owner \<noteq> {}) \<and>
    (distinct names \<longrightarrow> (nameFilter tbl userID names (Some ''all'') owner \<longleftrightarrow> set names \<subseteq> carries tbl userID owner)) \<and>
    named_inv (Labels_attach clk tbl userID owner name) \<and> name \<in> carries (Labels_attach clk tbl userID owner name) userID owner"
proof -
  obtain tbl1 i where u: "upsertNamed (clk 0) tbl userID name = (tbl1, i)" by force
  from upsertNamed_inv [OF assms(1) u] obtain r where r: "named_inv tbl1" "r \<in> set (nt_rows tbl1)" "nm_ID r = i" "nm_UserID r = userID"
      "nm_Name r = name" "\<not> nm_IsDeleted r" by blast
  have a: "Labels_attach clk tbl userID owner name = link (clk 1) tbl1 owner i" by (simp add: Labels_attach_def Labels_FindOrCreate_def u)
  have "r \<in> set (attached (link (clk 1) tbl1 owner i) owner)"
    using r link_edge [of "clk 1" tbl1 owner i] by (auto simp: attached_def link_row)
  then have "name \<in> carries (link (clk 1) tbl1 owner i) userID owner" using r by (force simp: carries_def)
  moreover have "distinct names \<longrightarrow> (nameFilter tbl userID names (Some ''all'') owner \<longleftrightarrow> set names \<subseteq> carries tbl userID owner)"
    using assms(2) by (auto simp: nameFilter_carries isAllMode_def all_names Int_absorb2)
  ultimately show ?thesis using assms(2) link_inv [OF r(1)] unfolding a by (auto simp: nameFilter_carries isAllMode_def)
qed

text \<open>
  Two ways the mode \<open>all\<close> misses what was asked.  A mode spelled \<open>ALL\<close> is accepted by the validation as
  \<open>all\<close> and then evaluated as \<open>any\<close>; and a repeated name makes the mode match nothing, even an owner that
  carries every name.
\<close>

theorem all_mode_defects:
  "QueryMode_Value (Some ''ALL'') = Some ''all'' \<and>
   nameFilter tbl userID names (Some ''ALL'') owner = nameFilter tbl userID names None owner \<and>
   \<not> nameFilter tbl userID [a, a] (Some ''all'') owner"
proof -
  have "QueryMode_Value (Some ''ALL'') = Some ''all''" by code_simp
  moreover have "\<not> nameFilter tbl userID [a, a] (Some ''all'') owner"
    unfolding nameFilter_carries isAllMode_def all_names by simp
  ultimately show ?thesis by (simp add: nameFilter_def isAllMode_def)
qed

end
