(* ===== verification/Known_Tx.thy ===== *)
theory Known_Tx
  imports Meta_Base
begin

text \<open>
  The known-transaction repository: \<open>src/pkg/storage/internal/metastore/knowntx.go\<close> and the known-tx part
  of \<open>monitor.go\<close>.  The table \<open>known_txs\<close> is a list of rows with distinct raw transaction ids.  The store
  clock is read once per statement; its reading is the argument \<open>now\<close>.  A \<open>NULL\<close> blob is the empty byte
  list, as \<open>bytesArg\<close> binds it, and the JSON array of competing ids is the list itself.
\<close>

section \<open>Rows\<close>

record known_cols =
  kt_Status :: req_status
  kt_ArcadeStatus :: "arc_status option"
  kt_Attempts :: nat
  kt_RebroadcastAttempts :: nat
  kt_WasBroadcast :: bool
  kt_Notified :: bool
  kt_Batch :: "string option"
  kt_Notify :: string
  kt_RawTx :: bytes
  kt_InputBEEF :: bytes
  kt_BlockHeight :: "nat option"
  kt_BlockHash :: bytes
  kt_MerklePath :: bytes
  kt_MerkleRoot :: bytes
  kt_CompetingTxs :: "string list"
  kt_SuspectSince :: "time option"
  kt_VerifiedRejectedAt :: "time option"
  kt_RejectReason :: "string option"
  kt_CreatedAt :: time
  kt_UpdatedAt :: time

record known_tx = known_cols +
  kt_TxID :: string

record known_row = known_cols +
  kr_txid :: bytes
  kr_LastPolledAt :: time

text \<open>\<open>scan\<close>: the broadcast flag is reported sticky, the column or the status' own evidence.\<close>

definition knowntx_scan :: "known_row \<Rightarrow> known_tx" where
  "knowntx_scan r =
     known_cols.extend
       ((known_cols.truncate r)\<lparr>kt_WasBroadcast := kt_WasBroadcast r \<or> WasBroadcastStatus (kt_Status r)\<rparr>)
       (known_tx.fields (case decTxIDPtr (kr_txid r) of Some t \<Rightarrow> t | None \<Rightarrow> ''''))"

definition existsByTxID :: "known_row list \<Rightarrow> bytes \<Rightarrow> bool" where
  "existsByTxID rows raw \<longleftrightarrow> (\<exists>r \<in> set rows. kr_txid r = raw)"

text \<open>
  The shape all guarded single-row transitions share: an \<open>UPDATE\<close> of the row with this id under a
  condition, and, when no row was affected, a second query that tells a missing row from a refused one.
\<close>

definition guarded_update ::
    "known_row list \<Rightarrow> bytes \<Rightarrow> (known_row \<Rightarrow> bool) \<Rightarrow> (known_row \<Rightarrow> known_row) \<Rightarrow> known_row list \<times> meta_error option" where
  "guarded_update rows raw guard f =
     (let p = (\<lambda>r. kr_txid r = raw \<and> guard r) in
      if 0 < affected p rows then (update_where p f rows, None)
      else if \<not> existsByTxID rows raw then (rows, Some ErrNotFound)
      else (rows, Some ErrStatusUpdateSkipped))"

text \<open>An \<open>UPDATE\<close> that must find its row.\<close>

definition required_update ::
    "known_row list \<Rightarrow> bytes \<Rightarrow> (known_row \<Rightarrow> known_row) \<Rightarrow> known_row list \<times> meta_error option" where
  "required_update rows raw f =
     (let p = (\<lambda>r. kr_txid r = raw) in
      if affected p rows = 0 then (rows, Some ErrNotFound) else (update_where p f rows, None))"

definition with_txid ::
    "known_row list \<Rightarrow> string \<Rightarrow> (bytes \<Rightarrow> known_row list \<times> meta_error option) \<Rightarrow> known_row list \<times> meta_error option" where
  "with_txid rows txid f = (case encTxID txid of Inl e \<Rightarrow> (rows, Some e) | Inr raw \<Rightarrow> f raw)"

section \<open>Writes\<close>

definition upsert_row :: "time \<Rightarrow> known_tx \<Rightarrow> bytes \<Rightarrow> known_row" where
  "upsert_row now kt raw =
     known_cols.extend
       ((known_cols.truncate kt)\<lparr>
          kt_WasBroadcast := kt_WasBroadcast kt \<or> WasBroadcastStatus (kt_Status kt),
          kt_Notify := (if kt_Notify kt = '''' then ''{}'' else kt_Notify kt),
          kt_SuspectSince := map_option encTime (kt_SuspectSince kt),
          kt_VerifiedRejectedAt := map_option encTime (kt_VerifiedRejectedAt kt),
          kt_CreatedAt := encTime now,
          kt_UpdatedAt := encTime now\<rparr>)
       (known_row.fields raw epoch)"

text \<open>\<open>ON CONFLICT DO UPDATE\<close>: the new values, with the sticky columns merged and the creation time kept.\<close>

definition upsert_merge :: "known_row \<Rightarrow> known_row \<Rightarrow> known_row" where
  "upsert_merge new old =
     new\<lparr>kt_ArcadeStatus := (case kt_ArcadeStatus new of None \<Rightarrow> kt_ArcadeStatus old | Some a \<Rightarrow> Some a),
         kt_WasBroadcast := kt_WasBroadcast old \<or> kt_WasBroadcast new,
         kt_RejectReason := (case kt_RejectReason new of None \<Rightarrow> kt_RejectReason old | Some a \<Rightarrow> Some a),
         kt_CreatedAt := kt_CreatedAt old,
         kr_LastPolledAt := kr_LastPolledAt old\<rparr>"

definition Upsert ::
    "time \<Rightarrow> known_row list \<Rightarrow> known_tx \<Rightarrow> req_status list \<Rightarrow> known_row list \<times> meta_error option" where
  "Upsert now rows kt skips =
     with_txid rows (kt_TxID kt) (\<lambda>raw.
       let new = upsert_row now kt raw;
           p = (\<lambda>r. kr_txid r = raw \<and> kt_Status r \<notin> set skips) in
       if \<not> existsByTxID rows raw then (rows @ [new], None)
       else if affected p rows = 0 \<and> skips \<noteq> [] then (rows, Some ErrStatusUpdateSkipped)
       else (update_where p (upsert_merge new) rows, None))"

definition set_status :: "time \<Rightarrow> req_status \<Rightarrow> known_row \<Rightarrow> known_row" where
  "set_status now status r =
     r\<lparr>kt_Status := status, kt_WasBroadcast := kt_WasBroadcast r \<or> WasBroadcastStatus status,
       kt_UpdatedAt := encTime now\<rparr>"

definition KnownTx_UpdateStatus ::
    "time \<Rightarrow> known_row list \<Rightarrow> string \<Rightarrow> req_status \<Rightarrow> req_status list \<Rightarrow> known_row list \<times> meta_error option" where
  "KnownTx_UpdateStatus now rows txid status skips =
     with_txid rows txid (\<lambda>raw. guarded_update rows raw (\<lambda>r. kt_Status r \<notin> set skips) (set_status now status))"

definition BulkUpdateStatus ::
    "time \<Rightarrow> known_row list \<Rightarrow> string list \<Rightarrow> req_status \<Rightarrow> req_status list \<Rightarrow> known_row list \<times> meta_error option" where
  "BulkUpdateStatus now rows txids status skips =
     (if txids = [] then (rows, None)
      else case sortedRawTxIDs txids of
        Inl e \<Rightarrow> (rows, Some e)
      | Inr ids \<Rightarrow> (update_where (\<lambda>r. kr_txid r \<in> set ids \<and> kt_Status r \<notin> set skips) (set_status now status) rows, None))"

definition rejectReasonArg :: "string \<Rightarrow> string option" where
  "rejectReasonArg reason = (if reason = '''' then None else Some reason)"

definition keep_reason :: "string \<Rightarrow> string option \<Rightarrow> string option" where
  "keep_reason reason old = (case rejectReasonArg reason of None \<Rightarrow> old | Some a \<Rightarrow> Some a)"

definition MarkSuspectFailed ::
    "time \<Rightarrow> known_row list \<Rightarrow> string \<Rightarrow> time \<Rightarrow> string \<Rightarrow> known_row list \<times> meta_error option" where
  "MarkSuspectFailed now rows txid suspectSince rejectReason =
     with_txid rows txid (\<lambda>raw. required_update rows raw
       (\<lambda>r. r\<lparr>kt_Status := KnownTxStatusSuspectFailed, kt_SuspectSince := Some (encTime suspectSince),
              kt_VerifiedRejectedAt := None, kt_RejectReason := keep_reason rejectReason (kt_RejectReason r),
              kt_UpdatedAt := encTime now\<rparr>))"

definition StampVerifiedRejected ::
    "time \<Rightarrow> known_row list \<Rightarrow> string \<Rightarrow> time \<Rightarrow> known_row list \<times> meta_error option" where
  "StampVerifiedRejected now rows txid at =
     with_txid rows txid (\<lambda>raw.
       (update_where
          (\<lambda>r. kr_txid r = raw \<and> kt_Status r = KnownTxStatusSuspectFailed \<and> kt_VerifiedRejectedAt r = None)
          (\<lambda>r. r\<lparr>kt_VerifiedRejectedAt := Some (encTime at), kt_UpdatedAt := encTime now\<rparr>) rows, None))"

definition TransitionSuspect ::
    "time \<Rightarrow> known_row list \<Rightarrow> string \<Rightarrow> req_status \<Rightarrow> known_row list \<times> meta_error option" where
  "TransitionSuspect now rows txid newStatus =
     with_txid rows txid (\<lambda>raw. guarded_update rows raw
       (\<lambda>r. kt_Status r = KnownTxStatusSuspectFailed)
       (\<lambda>r. r\<lparr>kt_Status := newStatus, kt_UpdatedAt := encTime now\<rparr>))"

definition casFromPreBroadcast ::
    "time \<Rightarrow> known_row list \<Rightarrow> string \<Rightarrow> req_status \<Rightarrow> known_row list \<times> meta_error option" where
  "casFromPreBroadcast now rows txid newStatus =
     with_txid rows txid (\<lambda>raw. guarded_update rows raw
       (\<lambda>r. kt_Status r \<in> set knownTxPreBroadcastStatuses \<and> \<not> kt_WasBroadcast r)
       (\<lambda>r. r\<lparr>kt_Status := newStatus, kt_UpdatedAt := encTime now\<rparr>))"

definition TransitionToAborted :: "time \<Rightarrow> known_row list \<Rightarrow> string \<Rightarrow> known_row list \<times> meta_error option" where
  "TransitionToAborted now rows txid = casFromPreBroadcast now rows txid KnownTxStatusAborted"

definition ClaimForSend :: "time \<Rightarrow> known_row list \<Rightarrow> string \<Rightarrow> known_row list \<times> meta_error option" where
  "ClaimForSend now rows txid = casFromPreBroadcast now rows txid ProvenTxStatusSending"

definition ReclaimStaleSend ::
    "time \<Rightarrow> known_row list \<Rightarrow> string \<Rightarrow> time \<Rightarrow> known_row list \<times> meta_error option" where
  "ReclaimStaleSend now rows txid grace =
     with_txid rows txid (\<lambda>raw. guarded_update rows raw
       (\<lambda>r. kt_Status r = ProvenTxStatusSending \<and> \<not> kt_WasBroadcast r \<and> kt_UpdatedAt r \<le> encTime (now - grace))
       (\<lambda>r. r\<lparr>kt_UpdatedAt := encTime now\<rparr>))"

definition SetProof ::
    "time \<Rightarrow> known_row list \<Rightarrow> string \<Rightarrow> nat \<Rightarrow> bytes \<Rightarrow> bytes \<Rightarrow> bytes \<Rightarrow> known_row list \<times> meta_error option" where
  "SetProof now rows txid height blockHash merklePath merkleRoot =
     with_txid rows txid (\<lambda>raw. required_update rows raw
       (\<lambda>r. r\<lparr>kt_Status := ProvenTxStatusCompleted, kt_WasBroadcast := True, kt_Notified := True,
              kt_BlockHeight := Some height, kt_BlockHash := blockHash, kt_MerklePath := merklePath,
              kt_MerkleRoot := merkleRoot, kt_InputBEEF := [], kt_UpdatedAt := encTime now\<rparr>))"

definition IncreaseAttempts :: "time \<Rightarrow> known_row list \<Rightarrow> string list \<Rightarrow> known_row list \<times> meta_error option" where
  "IncreaseAttempts now rows txids =
     (if txids = [] then (rows, None)
      else case encAll txids of
        Inl e \<Rightarrow> (rows, Some e)
      | Inr ids \<Rightarrow>
          (update_where (\<lambda>r. kr_txid r \<in> set ids)
             (\<lambda>r. r\<lparr>kt_Attempts := Suc (kt_Attempts r), kt_UpdatedAt := encTime now\<rparr>) rows, None))"

definition SetBatch :: "time \<Rightarrow> known_row list \<Rightarrow> string list \<Rightarrow> string \<Rightarrow> known_row list \<times> meta_error option" where
  "SetBatch now rows txids batch =
     (if txids = [] then (rows, None)
      else case encAll txids of
        Inl e \<Rightarrow> (rows, Some e)
      | Inr ids \<Rightarrow>
          (update_where (\<lambda>r. kr_txid r \<in> set ids)
             (\<lambda>r. r\<lparr>kt_Batch := Some batch, kt_UpdatedAt := encTime now\<rparr>) rows, None))"

definition SetArcadeStatus :: "time \<Rightarrow> known_row list \<Rightarrow> string \<Rightarrow> arc_status \<Rightarrow> known_row list \<times> meta_error option" where
  "SetArcadeStatus now rows txid arcadeStatus =
     with_txid rows txid (\<lambda>raw. required_update rows raw
       (\<lambda>r. r\<lparr>kt_ArcadeStatus := Some arcadeStatus, kt_UpdatedAt := encTime now\<rparr>))"

definition BulkSetArcadeStatus ::
    "time \<Rightarrow> known_row list \<Rightarrow> string list \<Rightarrow> arc_status \<Rightarrow> known_row list \<times> meta_error option" where
  "BulkSetArcadeStatus now rows txids arcadeStatus =
     (if txids = [] then (rows, None)
      else case sortedRawTxIDs txids of
        Inl e \<Rightarrow> (rows, Some e)
      | Inr ids \<Rightarrow>
          (update_where (\<lambda>r. kr_txid r \<in> set ids)
             (\<lambda>r. r\<lparr>kt_ArcadeStatus := Some arcadeStatus, kt_UpdatedAt := encTime now\<rparr>) rows, None))"

definition MarkPolled :: "time \<Rightarrow> known_row list \<Rightarrow> string list \<Rightarrow> known_row list \<times> meta_error option" where
  "MarkPolled now rows txids =
     (if txids = [] then (rows, None)
      else case sortedRawTxIDs txids of
        Inl e \<Rightarrow> (rows, Some e)
      | Inr ids \<Rightarrow> (update_where (\<lambda>r. kr_txid r \<in> set ids) (\<lambda>r. r\<lparr>kr_LastPolledAt := encTime now\<rparr>) rows, None))"

definition MarkSuspect ::
    "time \<Rightarrow> known_row list \<Rightarrow> string \<Rightarrow> time \<Rightarrow> string list \<Rightarrow> arc_status \<Rightarrow> string \<Rightarrow> known_row list \<times> meta_error option" where
  "MarkSuspect now rows txid suspectSince competingTxs arcadeStatus rejectReason =
     with_txid rows txid (\<lambda>raw. required_update rows raw
       (\<lambda>r. r\<lparr>kt_Status := KnownTxStatusSuspectFailed, kt_ArcadeStatus := Some arcadeStatus,
              kt_CompetingTxs := competingTxs, kt_SuspectSince := Some (encTime suspectSince),
              kt_VerifiedRejectedAt := None, kt_RejectReason := keep_reason rejectReason (kt_RejectReason r),
              kt_UpdatedAt := encTime now\<rparr>))"

definition ClearProof :: "time \<Rightarrow> known_row list \<Rightarrow> string \<Rightarrow> req_status \<Rightarrow> known_row list \<times> meta_error option" where
  "ClearProof now rows txid newStatus =
     with_txid rows txid (\<lambda>raw. required_update rows raw
       (\<lambda>r. r\<lparr>kt_Status := newStatus, kt_ArcadeStatus := None, kt_BlockHeight := None, kt_BlockHash := [],
              kt_MerklePath := [], kt_MerkleRoot := [], kt_UpdatedAt := encTime now\<rparr>))"

section \<open>Reads\<close>

definition FindByTxID :: "known_row list \<Rightarrow> string \<Rightarrow> meta_error + known_tx option" where
  "FindByTxID rows txid =
     (case encTxID txid of
        Inl e \<Rightarrow> Inl e
      | Inr raw \<Rightarrow> Inr (map_option knowntx_scan (find (\<lambda>r. kr_txid r = raw) rows)))"

definition FindByTxIDs :: "known_row list \<Rightarrow> string list \<Rightarrow> meta_error + known_tx list" where
  "FindByTxIDs rows txids =
     (if txids = [] then Inr []
      else case encAll txids of
        Inl e \<Rightarrow> Inl e
      | Inr ids \<Rightarrow> Inr (map knowntx_scan (filter (\<lambda>r. kr_txid r \<in> set ids) rows)))"

definition GetRawTx :: "known_row list \<Rightarrow> string \<Rightarrow> meta_error + bytes option" where
  "GetRawTx rows txid =
     (case encTxID txid of
        Inl e \<Rightarrow> Inl e
      | Inr raw \<Rightarrow>
          (case find (\<lambda>r. kr_txid r = raw) rows of
             None \<Rightarrow> Inr None
           | Some r \<Rightarrow> if kt_RawTx r = [] then Inr None else Inr (Some (kt_RawTx r))))"

definition FindStatuses :: "known_row list \<Rightarrow> string list \<Rightarrow> meta_error + (string \<times> req_status) list" where
  "FindStatuses rows txids =
     (if txids = [] then Inr []
      else case encAll txids of
        Inl e \<Rightarrow> Inl e
      | Inr ids \<Rightarrow>
          Inr (List.map_filter (\<lambda>r. map_option (\<lambda>t. (t, kt_Status r)) (decTxIDPtr (kr_txid r)))
                 (filter (\<lambda>r. kr_txid r \<in> set ids) rows)))"

definition FindSuspectFailed :: "time \<Rightarrow> known_row list \<Rightarrow> time \<Rightarrow> int \<Rightarrow> known_tx list" where
  "FindSuspectFailed now rows grace limit =
     map knowntx_scan
       (limitOffset limit 0
          (sort_key (\<lambda>r. the (kt_SuspectSince r))
             (filter (\<lambda>r. kt_Status r = KnownTxStatusSuspectFailed \<and>
                (case kt_SuspectSince r of None \<Rightarrow> False | Some t \<Rightarrow> t \<le> encTime (now - grace))) rows)))"

definition FindUnsent :: "known_row list \<Rightarrow> int \<Rightarrow> known_tx list" where
  "FindUnsent rows limit =
     map knowntx_scan
       (limitOffset limit 0
          (sort_key (\<lambda>r. (kt_CreatedAt r, kr_txid r)) (filter (\<lambda>r. kt_Status r = ProvenTxStatusUnsent) rows)))"

definition resendable :: "time \<Rightarrow> time \<Rightarrow> known_row \<Rightarrow> bool" where
  "resendable now grace r \<longleftrightarrow>
     \<not> kt_WasBroadcast r \<and> kt_RawTx r \<noteq> [] \<and>
     (kt_Status r = ProvenTxStatusUnsent \<or>
      (kt_Status r \<in> {ProvenTxStatusUnprocessed, ProvenTxStatusSending} \<and> kt_UpdatedAt r \<le> encTime (now - grace)))"

definition FindResendable :: "time \<Rightarrow> known_row list \<Rightarrow> time \<Rightarrow> int \<Rightarrow> known_tx list" where
  "FindResendable now rows grace limit =
     map knowntx_scan
       (limitOffset limit 0 (sort_key (\<lambda>r. (kt_CreatedAt r, kr_txid r)) (filter (resendable now grace) rows)))"

definition pollOrder :: "known_row \<Rightarrow> time \<times> time \<times> bytes" where
  "pollOrder r = (kr_LastPolledAt r, kt_UpdatedAt r, kr_txid r)"

definition FindByStatusOlderThan :: "known_row list \<Rightarrow> time \<Rightarrow> int \<Rightarrow> req_status list \<Rightarrow> known_tx list" where
  "FindByStatusOlderThan rows cutoff limit statuses =
     (if statuses = [] then []
      else map knowntx_scan
        (limitOffset limit 0
           (sort_key pollOrder (filter (\<lambda>r. kt_Status r \<in> set statuses \<and> kt_UpdatedAt r \<le> encTime cutoff) rows))))"

definition noArcadeStatus :: "known_row \<Rightarrow> bool" where
  "noArcadeStatus r \<longleftrightarrow> kt_ArcadeStatus r = None \<or> kt_ArcadeStatus r = Some no_status"

definition FindMissingArcadeStatus :: "known_row list \<Rightarrow> time \<Rightarrow> int \<Rightarrow> req_status list \<Rightarrow> known_tx list" where
  "FindMissingArcadeStatus rows cutoff limit statuses =
     (if statuses = [] then []
      else map knowntx_scan
        (limitOffset limit 0
           (sort_key pollOrder
              (filter (\<lambda>r. kt_Status r \<in> set statuses \<and> kt_UpdatedAt r \<le> encTime cutoff \<and> noArcadeStatus r) rows))))"

definition CountMissingArcadeStatus :: "known_row list \<Rightarrow> req_status list \<Rightarrow> nat" where
  "CountMissingArcadeStatus rows statuses =
     (if statuses = [] then 0 else length (filter (\<lambda>r. kt_Status r \<in> set statuses \<and> noArcadeStatus r) rows))"

definition FindProvenAtOrAbove :: "known_row list \<Rightarrow> nat \<Rightarrow> int \<Rightarrow> known_tx list" where
  "FindProvenAtOrAbove rows height limit =
     map knowntx_scan
       (limitOffset limit 0
          (sort_key (\<lambda>r. (the (kt_BlockHeight r), kr_txid r))
             (filter (\<lambda>r. kt_Status r = ProvenTxStatusCompleted \<and>
                (case kt_BlockHeight r of None \<Rightarrow> False | Some h \<Rightarrow> height \<le> h)) rows)))"

definition newest_first :: "known_row \<Rightarrow> time \<times> bytes" where
  "newest_first r = (- kt_UpdatedAt r, kr_txid r)"

definition ListByArcadeStatus :: "known_row list \<Rightarrow> arc_status \<Rightarrow> int \<Rightarrow> known_tx list" where
  "ListByArcadeStatus rows arcadeStatus limit =
     map knowntx_scan
       (limitOffset limit 0
          (sort_key newest_first
             (filter (if arcadeStatus = no_status then noArcadeStatus else (\<lambda>r. kt_ArcadeStatus r = Some arcadeStatus)) rows)))"

definition ListRecent :: "known_row list \<Rightarrow> int \<Rightarrow> known_tx list" where
  "ListRecent rows limit = map knowntx_scan (limitOffset limit 0 (sort_key newest_first rows))"

definition ListByStatus :: "known_row list \<Rightarrow> req_status \<Rightarrow> int \<Rightarrow> known_tx list" where
  "ListByStatus rows status limit =
     map knowntx_scan (limitOffset limit 0 (sort_key newest_first (filter (\<lambda>r. kt_Status r = status) rows)))"

text \<open>
  \<open>CountByArcadeStatus\<close>: one group per distinct column value, in the order the rows are met; the group of
  \<open>NULL\<close> is reported under the empty status, and each assignment to the map overwrites.
\<close>

definition arcade_groups :: "known_row list \<Rightarrow> arc_status option list" where
  "arcade_groups rows = remdups (map kt_ArcadeStatus rows)"

definition CountByArcadeStatus :: "known_row list \<Rightarrow> arc_status \<Rightarrow> nat option" where
  "CountByArcadeStatus rows =
     foldl (\<lambda>out g. out((case g of None \<Rightarrow> no_status | Some a \<Rightarrow> a) \<mapsto> length (filter (\<lambda>r. kt_ArcadeStatus r = g) rows)))
       (\<lambda>_. None) (arcade_groups rows)"

end
