(* ===== verification/Transactions.thy ===== *)
theory Transactions
  imports Labels Known_Tx
begin

text \<open>
  The wallet transactions: \<open>src/pkg/storage/internal/metastore/transactions.go\<close> and the transaction part of
  \<open>monitor.go\<close>.  The table \<open>transactions\<close> is a list of rows in insertion order with distinct ids and
  distinct references; a \<open>NULL\<close> transaction id is \<open>None\<close>.  The foreign key into \<open>users\<close> is not modelled.
\<close>

section \<open>Rows\<close>

record tx_cols =
  t_TransactionID :: nat
  t_UserID :: int
  t_ProvenTxID :: "int option"
  t_Status :: tx_status
  t_Reference :: string
  t_IsOutgoing :: bool
  t_Satoshis :: int
  t_Description :: string
  t_Version :: "u32 option"
  t_LockTime :: "u32 option"
  t_InputBEEF :: bytes
  t_CreatedAt :: time
  t_UpdatedAt :: time

record table_transaction = tx_cols +
  t_TxID :: "string option"

record tx_row = tx_cols +
  tr_txid :: "bytes option"

record new_tx =
  nx_UserID :: int
  nx_Status :: tx_status
  nx_Reference :: string
  nx_IsOutgoing :: bool
  nx_Satoshis :: int
  nx_Description :: string
  nx_Version :: "u32 option"
  nx_LockTime :: "u32 option"
  nx_InputBEEF :: bytes
  nx_Labels :: "string list"

definition tx_scan :: "tx_row \<Rightarrow> table_transaction" where
  "tx_scan r = tx_cols.extend (tx_cols.truncate r)
     (table_transaction.fields (case tr_txid r of None \<Rightarrow> None | Some b \<Rightarrow> decTxIDPtr b))"

section \<open>Writes\<close>

text \<open>One unit of work: the row, then its label edges; the reference is unique over all users.\<close>

definition tx_insert ::
    "(nat \<Rightarrow> time) \<Rightarrow> tx_row list \<times> named_table \<Rightarrow> new_tx \<Rightarrow> (tx_row list \<times> named_table) \<times> (meta_error + nat)" where
  "tx_insert clk db nx =
     (let (rows, labels) = db in
      if \<exists>r \<in> set rows. t_Reference r = nx_Reference nx then (db, Inl ErrConstraint)
      else
        (let i = nextID (map t_TransactionID rows);
             r = \<lparr>t_TransactionID = i, t_UserID = nx_UserID nx, t_ProvenTxID = None, t_Status = nx_Status nx,
                  t_Reference = nx_Reference nx, t_IsOutgoing = nx_IsOutgoing nx, t_Satoshis = nx_Satoshis nx,
                  t_Description = nx_Description nx, t_Version = nx_Version nx, t_LockTime = nx_LockTime nx,
                  t_InputBEEF = nx_InputBEEF nx, t_CreatedAt = encTime (clk 0), t_UpdatedAt = encTime (clk 0),
                  tr_txid = None\<rparr>
         in ((rows @ [r], Labels_Attach (\<lambda>k. clk (Suc k)) labels (nx_UserID nx) i (nx_Labels nx)), Inr i)))"

definition existsByID :: "tx_row list \<Rightarrow> nat \<Rightarrow> bool" where
  "existsByID rows i \<longleftrightarrow> (\<exists>r \<in> set rows. t_TransactionID r = i)"

definition SetTxID :: "time \<Rightarrow> tx_row list \<Rightarrow> nat \<Rightarrow> string \<Rightarrow> tx_row list \<times> meta_error option" where
  "SetTxID now rows transactionID txid =
     (case encTxID txid of
        Inl e \<Rightarrow> (rows, Some e)
      | Inr raw \<Rightarrow>
          (let p = (\<lambda>r. t_TransactionID r = transactionID \<and> (tr_txid r = None \<or> tr_txid r = Some raw)) in
           if 0 < affected p rows
           then (update_where p (\<lambda>r. r\<lparr>tr_txid := Some raw, t_UpdatedAt := encTime now\<rparr>) rows, None)
           else if \<not> existsByID rows transactionID then (rows, Some ErrNotFound)
           else (rows, Some ErrTxIDMismatch)))"

text \<open>A guard of no statuses means no guard, and then nothing is ever reported as skipped.\<close>

definition applyStatusUpdate ::
    "time \<Rightarrow> tx_row list \<Rightarrow> (tx_row \<Rightarrow> bool) \<Rightarrow> tx_status \<Rightarrow> tx_status list \<Rightarrow> tx_row list \<times> meta_error option" where
  "applyStatusUpdate now rows cond st expected =
     (let p = (\<lambda>r. cond r \<and> (expected = [] \<or> t_Status r \<in> set expected)) in
      (update_where p (\<lambda>r. r\<lparr>t_Status := st, t_UpdatedAt := encTime now\<rparr>) rows,
       if affected p rows = 0 \<and> expected \<noteq> [] then Some ErrStatusUpdateSkipped else None))"

definition Tx_UpdateStatus ::
    "time \<Rightarrow> tx_row list \<Rightarrow> nat \<Rightarrow> tx_status \<Rightarrow> tx_status list \<Rightarrow> tx_row list \<times> meta_error option" where
  "Tx_UpdateStatus now rows transactionID st expected =
     applyStatusUpdate now rows (\<lambda>r. t_TransactionID r = transactionID) st expected"

definition UpdateStatusByTxID ::
    "time \<Rightarrow> tx_row list \<Rightarrow> string \<Rightarrow> tx_status \<Rightarrow> tx_status list \<Rightarrow> tx_row list \<times> meta_error option" where
  "UpdateStatusByTxID now rows txid st expected =
     (case encTxID txid of
        Inl e \<Rightarrow> (rows, Some e)
      | Inr raw \<Rightarrow> applyStatusUpdate now rows (\<lambda>r. tr_txid r = Some raw) st expected)"

definition BulkUpdateStatusByTxIDs ::
    "time \<Rightarrow> tx_row list \<Rightarrow> string list \<Rightarrow> tx_status \<Rightarrow> tx_status list \<Rightarrow> tx_row list \<times> meta_error option" where
  "BulkUpdateStatusByTxIDs now rows txids st expected =
     (if txids = [] then (rows, None)
      else case sortedRawTxIDs txids of
        Inl e \<Rightarrow> (rows, Some e)
      | Inr ids \<Rightarrow>
          (update_where (\<lambda>r. (\<exists>raw \<in> set ids. tr_txid r = Some raw) \<and> (expected = [] \<or> t_Status r \<in> set expected))
             (\<lambda>r. r\<lparr>t_Status := st, t_UpdatedAt := encTime now\<rparr>) rows, None))"

definition clear_beef :: "time \<Rightarrow> tx_row \<Rightarrow> tx_row" where
  "clear_beef now r = r\<lparr>t_InputBEEF := [], t_UpdatedAt := encTime now\<rparr>"

definition ClearInputBEEFByTxID :: "time \<Rightarrow> tx_row list \<Rightarrow> string \<Rightarrow> tx_row list \<times> meta_error option" where
  "ClearInputBEEFByTxID now rows txid =
     (case encTxID txid of
        Inl e \<Rightarrow> (rows, Some e)
      | Inr raw \<Rightarrow> (update_where (\<lambda>r. tr_txid r = Some raw \<and> t_InputBEEF r \<noteq> []) (clear_beef now) rows, None))"

definition BulkClearInputBEEFByTxIDs :: "time \<Rightarrow> tx_row list \<Rightarrow> string list \<Rightarrow> tx_row list \<times> meta_error option" where
  "BulkClearInputBEEFByTxIDs now rows txids =
     (if txids = [] then (rows, None)
      else case sortedRawTxIDs txids of
        Inl e \<Rightarrow> (rows, Some e)
      | Inr ids \<Rightarrow>
          (update_where (\<lambda>r. (\<exists>raw \<in> set ids. tr_txid r = Some raw) \<and> t_InputBEEF r \<noteq> []) (clear_beef now) rows, None))"

section \<open>Queries\<close>

definition FindByID :: "tx_row list \<Rightarrow> nat \<Rightarrow> table_transaction option" where
  "FindByID rows i = map_option tx_scan (find (\<lambda>r. t_TransactionID r = i) rows)"

definition FindByReference :: "tx_row list \<Rightarrow> int \<Rightarrow> string \<Rightarrow> table_transaction option" where
  "FindByReference rows userID reference =
     map_option tx_scan (find (\<lambda>r. t_UserID r = userID \<and> t_Reference r = reference) rows)"

text \<open>\<open>ORDER BY transaction_id DESC\<close>.\<close>

definition newest_tx_first :: "tx_row list \<Rightarrow> tx_row list" where
  "newest_tx_first rows = rev (sort_key t_TransactionID rows)"

definition Tx_FindByTxID :: "tx_row list \<Rightarrow> int \<Rightarrow> string \<Rightarrow> meta_error + table_transaction list" where
  "Tx_FindByTxID rows userID txid =
     (case encTxID txid of
        Inl e \<Rightarrow> Inl e
      | Inr raw \<Rightarrow> Inr (map tx_scan (newest_tx_first (filter (\<lambda>r. t_UserID r = userID \<and> tr_txid r = Some raw) rows))))"

definition FindByTxIDAllUsers :: "tx_row list \<Rightarrow> string \<Rightarrow> meta_error + table_transaction list" where
  "FindByTxIDAllUsers rows txid =
     (case encTxID txid of
        Inl e \<Rightarrow> Inl e
      | Inr raw \<Rightarrow> Inr (map tx_scan (newest_tx_first (filter (\<lambda>r. tr_txid r = Some raw) rows))))"

definition GetInputBEEFByTxID :: "tx_row list \<Rightarrow> string \<Rightarrow> meta_error + bytes option" where
  "GetInputBEEFByTxID rows txid =
     (case encTxID txid of
        Inl e \<Rightarrow> Inl e
      | Inr raw \<Rightarrow>
          Inr (case limitOffset 1 0 (sort_key t_TransactionID (filter (\<lambda>r. tr_txid r = Some raw \<and> t_InputBEEF r \<noteq> []) rows)) of
                 [] \<Rightarrow> None
               | r # _ \<Rightarrow> Some (t_InputBEEF r)))"

text \<open>Rows come newest first and every assignment to the result map overwrites.\<close>

fun beefLoop :: "tx_row list \<Rightarrow> (string \<times> bytes) list \<Rightarrow> (string \<times> bytes) list" where
  "beefLoop [] out = out"
| "beefLoop (r # rs) out =
     (case tr_txid r of
        None \<Rightarrow> beefLoop rs out
      | Some raw \<Rightarrow>
          (case decTxIDPtr raw of
             None \<Rightarrow> beefLoop rs out
           | Some t \<Rightarrow> beefLoop rs (AList.update t (t_InputBEEF r) out)))"

definition InputBEEFByTxIDs :: "tx_row list \<Rightarrow> string list \<Rightarrow> meta_error + (string \<times> bytes) list" where
  "InputBEEFByTxIDs rows txids =
     (if txids = [] then Inr []
      else case encAll txids of
        Inl e \<Rightarrow> Inl e
      | Inr ids \<Rightarrow>
          Inr (beefLoop (newest_tx_first (filter (\<lambda>r. (\<exists>raw \<in> set ids. tr_txid r = Some raw) \<and> t_InputBEEF r \<noteq> []) rows)) []))"

definition abandoned :: "time \<Rightarrow> tx_row \<Rightarrow> bool" where
  "abandoned cutoff r \<longleftrightarrow> t_Status r \<in> {TxStatusUnsigned, TxStatusNoSend} \<and> t_CreatedAt r \<le> encTime cutoff"

definition FindAbandonedBefore :: "tx_row list \<Rightarrow> time \<Rightarrow> int \<Rightarrow> table_transaction list" where
  "FindAbandonedBefore rows cutoff limit =
     map tx_scan (limitOffset limit 0
       (sort_key (\<lambda>r. (t_CreatedAt r, t_TransactionID r)) (filter (abandoned cutoff) rows)))"

definition FindAbandoned :: "time \<Rightarrow> tx_row list \<Rightarrow> time \<Rightarrow> int \<Rightarrow> table_transaction list" where
  "FindAbandoned now rows grace limit = FindAbandonedBefore rows (now - grace) limit"

text \<open>One group per status; the map of the source lists the statuses that occur.\<close>

definition Tx_CountByStatus :: "tx_row list \<Rightarrow> int \<Rightarrow> tx_status \<Rightarrow> nat option" where
  "Tx_CountByStatus rows userID st =
     (let n = length (filter (\<lambda>r. t_UserID r = userID \<and> t_Status r = st) rows) in if n = 0 then None else Some n)"

text \<open>
  \<open>buildTxWhere\<close>: malformed transaction ids are skipped, and a list in which all are malformed adds no
  condition.
\<close>

fun goodTxIDs :: "string list \<Rightarrow> bytes list" where
  "goodTxIDs [] = []"
| "goodTxIDs (t # ts) = (case encTxID t of Inl e \<Rightarrow> goodTxIDs ts | Inr raw \<Rightarrow> raw # goodTxIDs ts)"

definition buildTxWhere ::
    "named_table \<Rightarrow> int \<Rightarrow> tx_status list \<Rightarrow> string list \<Rightarrow> string list \<Rightarrow> string option \<Rightarrow> tx_row \<Rightarrow> bool" where
  "buildTxWhere labels userID statuses txids names mode r \<longleftrightarrow>
     t_UserID r = userID \<and>
     (statuses = [] \<or> t_Status r \<in> set statuses) \<and>
     (goodTxIDs txids = [] \<or> (\<exists>raw \<in> set (goodTxIDs txids). tr_txid r = Some raw)) \<and>
     nameFilter labels userID names mode (t_TransactionID r)"

definition listAndCount ::
    "tx_row list \<Rightarrow> (tx_row \<Rightarrow> bool) \<Rightarrow> int \<Rightarrow> nat \<Rightarrow> table_transaction list \<times> nat" where
  "listAndCount rows cond limit offset =
     (let hits = filter cond rows in
      if length hits = 0 then ([], 0)
      else (map tx_scan (limitOffset limit offset (sort_key t_TransactionID hits)), length hits))"

definition ListActions ::
    "tx_row list \<Rightarrow> named_table \<Rightarrow> int \<Rightarrow> tx_status list \<Rightarrow> string list \<Rightarrow> string option \<Rightarrow> int \<Rightarrow> nat
      \<Rightarrow> table_transaction list \<times> nat" where
  "ListActions rows labels userID statuses names mode limit offset =
     listAndCount rows (buildTxWhere labels userID statuses [] names mode) limit offset"

definition ListTransactions ::
    "tx_row list \<Rightarrow> named_table \<Rightarrow> int \<Rightarrow> tx_status list \<Rightarrow> string list \<Rightarrow> string list \<Rightarrow> string option \<Rightarrow> int \<Rightarrow> nat
      \<Rightarrow> table_transaction list \<times> nat" where
  "ListTransactions rows labels userID statuses txids names mode limit offset =
     listAndCount rows (buildTxWhere labels userID statuses txids names mode) limit offset"

definition GetLabelsForTransactions :: "named_table \<Rightarrow> nat list \<Rightarrow> nat \<Rightarrow> string list" where
  "GetLabelsForTransactions labels txIDs i = (if i \<in> set txIDs then attachedNames labels i else [])"

text \<open>\<open>FindMinedOnDeadTransactions\<close> of \<open>monitor.go\<close>: the known transactions mined for a transaction given up.\<close>

definition deadTransactionStatuses :: "tx_status list" where
  "deadTransactionStatuses = [TxStatusAborted, TxStatusFailed]"

definition FindMinedOnDeadTransactions :: "known_row list \<Rightarrow> tx_row list \<Rightarrow> arc_status list \<Rightarrow> int \<Rightarrow> known_tx list" where
  "FindMinedOnDeadTransactions knowns rows arcadeStatuses limit =
     (if arcadeStatuses = [] then []
      else map knowntx_scan (limitOffset limit 0 (sort_key pollOrder
        (filter (\<lambda>k. (\<exists>a \<in> set arcadeStatuses. kt_ArcadeStatus k = Some a) \<and>
                     (\<exists>r \<in> set rows. tr_txid r = Some (kr_txid k) \<and> t_Status r \<in> set deadTransactionStatuses)) knowns))))"

section \<open>Invariant and calls\<close>

definition tx_inv :: "tx_row list \<Rightarrow> bool" where
  "tx_inv rows \<longleftrightarrow> distinct (map t_TransactionID rows) \<and> distinct (map t_Reference rows)"

definition txrow :: "tx_row list \<Rightarrow> nat \<Rightarrow> tx_row option" where
  "txrow rows i = find (\<lambda>r. t_TransactionID r = i) rows"

datatype tx_call =
    TxInsert "nat \<Rightarrow> time" new_tx
  | TxSetTxID time nat string
  | TxUpdateStatus time nat tx_status "tx_status list"
  | TxUpdateStatusByTxID time string tx_status "tx_status list"
  | TxBulkUpdateStatus time "string list" tx_status "tx_status list"
  | TxClearBEEF time string
  | TxBulkClearBEEF time "string list"

fun exec_tx :: "tx_call \<Rightarrow> tx_row list \<times> named_table \<Rightarrow> tx_row list \<times> named_table" where
  "exec_tx (TxInsert clk nx) db = fst (tx_insert clk db nx)"
| "exec_tx (TxSetTxID now i t) db = (fst (SetTxID now (fst db) i t), snd db)"
| "exec_tx (TxUpdateStatus now i st ex) db = (fst (Tx_UpdateStatus now (fst db) i st ex), snd db)"
| "exec_tx (TxUpdateStatusByTxID now t st ex) db = (fst (UpdateStatusByTxID now (fst db) t st ex), snd db)"
| "exec_tx (TxBulkUpdateStatus now ts st ex) db = (fst (BulkUpdateStatusByTxIDs now (fst db) ts st ex), snd db)"
| "exec_tx (TxClearBEEF now t) db = (fst (ClearInputBEEFByTxID now (fst db) t), snd db)"
| "exec_tx (TxBulkClearBEEF now ts) db = (fst (BulkClearInputBEEFByTxIDs now (fst db) ts), snd db)"

definition exec_txs :: "tx_call list \<Rightarrow> tx_row list \<times> named_table \<Rightarrow> tx_row list \<times> named_table" where
  "exec_txs cs db = foldl (\<lambda>db c. exec_tx c db) db cs"

text \<open>What every call keeps of a row that has a transaction id.\<close>

definition tx_kept :: "tx_row \<Rightarrow> tx_row \<Rightarrow> bool" where
  "tx_kept r r' \<longleftrightarrow> t_TransactionID r' = t_TransactionID r \<and> t_UserID r' = t_UserID r \<and> t_Reference r' = t_Reference r \<and>
     t_IsOutgoing r' = t_IsOutgoing r \<and> t_CreatedAt r' = t_CreatedAt r \<and> (tr_txid r \<noteq> None \<longrightarrow> tr_txid r' = tr_txid r)"

lemma tx_kept_refl [simp]: "tx_kept r r"
  by (simp add: tx_kept_def)

lemma tx_kept_trans: "tx_kept r r' \<Longrightarrow> tx_kept r' r'' \<Longrightarrow> tx_kept r r''"
  by (auto simp: tx_kept_def)

lemma tx_kept_fields [simp]:
  "tx_kept r (r\<lparr>t_Status := st, t_UpdatedAt := t\<rparr>)" "tx_kept r (clear_beef now r)"
  "tr_txid r = None \<or> tr_txid r = Some raw \<Longrightarrow> tx_kept r (r\<lparr>tr_txid := Some raw, t_UpdatedAt := t\<rparr>)"
  by (auto simp: tx_kept_def clear_beef_def)

text \<open>A statement that keeps these columns keeps the invariant and every row.\<close>

lemma tx_update_kept:
  assumes "\<And>r. p r \<Longrightarrow> tx_kept r (f r)"
  shows "tx_inv (update_where p f rows) = tx_inv rows"
    and "txrow rows i = Some r \<Longrightarrow> \<exists>r'. txrow (update_where p f rows) i = Some r' \<and> tx_kept r r'"
proof -
  have k: "p r \<Longrightarrow> t_TransactionID (f r) = t_TransactionID r" "p r \<Longrightarrow> t_Reference (f r) = t_Reference r" for r
    using assms by (auto simp: tx_kept_def)
  show "tx_inv (update_where p f rows) = tx_inv rows"
    using map_update_where [of p t_TransactionID f rows] map_update_where [of p t_Reference f rows] k by (simp add: tx_inv_def)
  show "\<exists>r'. txrow (update_where p f rows) i = Some r' \<and> tx_kept r r'" if "txrow rows i = Some r"
    using that assms find_update_where [of p t_TransactionID f i rows] k by (auto simp: txrow_def)
qed

lemma tx_insert_kept:
  assumes "tx_inv (fst db)"
  shows "tx_inv (fst (fst (tx_insert clk db nx)))"
    and "txrow (fst db) i = Some r \<Longrightarrow> \<exists>r'. txrow (fst (fst (tx_insert clk db nx))) i = Some r' \<and> tx_kept r r'"
proof -
  obtain rows labels where db: "db = (rows, labels)" by (cases db)
  have fresh: "nextID (map t_TransactionID rows) \<notin> t_TransactionID ` set rows"
    using nextID_fresh [of _ "map t_TransactionID rows"] by force
  show "tx_inv (fst (fst (tx_insert clk db nx)))"
    using assms fresh by (auto simp: tx_insert_def db Let_def tx_inv_def)
  show "\<exists>r'. txrow (fst (fst (tx_insert clk db nx))) i = Some r' \<and> tx_kept r r'" if "txrow (fst db) i = Some r"
    using that by (auto simp: tx_insert_def db Let_def txrow_def find_append_key)
qed

definition kept_by_statement :: "tx_row list \<Rightarrow> tx_row list \<Rightarrow> bool" where
  "kept_by_statement rows rows' \<longleftrightarrow> (\<exists>p f. (\<forall>r. p r \<longrightarrow> tx_kept r (f r)) \<and> rows' = update_where p f rows)"

lemma kept_by_update: "(\<And>r. p r \<Longrightarrow> tx_kept r (f r)) \<Longrightarrow> kept_by_statement rows (update_where p f rows)"
  unfolding kept_by_statement_def by blast

lemma kept_same [simp]: "kept_by_statement rows rows"
  using kept_by_update [of "\<lambda>_. False" id rows] by simp

lemma kept_status:
  "kept_by_statement rows (fst (applyStatusUpdate now rows cond st ex))"
  "kept_by_statement rows (fst (BulkUpdateStatusByTxIDs now rows ts st ex))"
  by (auto simp: applyStatusUpdate_def Let_def BulkUpdateStatusByTxIDs_def intro: kept_by_update split: sum.splits)

lemma kept_beef:
  "kept_by_statement rows (fst (ClearInputBEEFByTxID now rows t))"
  "kept_by_statement rows (fst (BulkClearInputBEEFByTxIDs now rows ts))"
  by (auto simp: ClearInputBEEFByTxID_def BulkClearInputBEEFByTxIDs_def intro: kept_by_update split: sum.splits)

lemma kept_SetTxID: "kept_by_statement rows (fst (SetTxID now rows i t))"
  by (auto simp: SetTxID_def Let_def intro: kept_by_update split: sum.splits)

lemma exec_tx_statement: "(\<nexists>clk nx. c = TxInsert clk nx) \<Longrightarrow> kept_by_statement (fst db) (fst (exec_tx c db))"
  by (cases c) (simp_all add: kept_SetTxID kept_status kept_beef Tx_UpdateStatus_def UpdateStatusByTxID_def split: sum.splits)

lemma exec_tx_kept:
  assumes "tx_inv (fst db)"
  shows "tx_inv (fst (exec_tx c db)) \<and>
    (\<forall>i r. txrow (fst db) i = Some r \<longrightarrow> (\<exists>r'. txrow (fst (exec_tx c db)) i = Some r' \<and> tx_kept r r'))"
proof (cases "\<exists>clk nx. c = TxInsert clk nx")
  case True
  then show ?thesis using tx_insert_kept [OF assms] by auto
next
  case False
  from exec_tx_statement [OF False, of db] obtain p f where k: "\<And>r. p r \<Longrightarrow> tx_kept r (f r)"
      and eq: "fst (exec_tx c db) = update_where p f (fst db)" unfolding kept_by_statement_def by blast
  show ?thesis unfolding eq using tx_update_kept [of p f "fst db", OF k] assms by blast
qed

lemma exec_txs_kept:
  assumes "tx_inv (fst db)"
  shows "tx_inv (fst (exec_txs cs db)) \<and>
    (\<forall>i r. txrow (fst db) i = Some r \<longrightarrow> (\<exists>r'. txrow (fst (exec_txs cs db)) i = Some r' \<and> tx_kept r r'))"
  using assms
proof (induction cs arbitrary: db)
  case (Cons c cs)
  note step = exec_tx_kept [OF Cons.prems, of c] and rest = Cons.IH [of "exec_tx c db"]
  have eq: "exec_txs (c # cs) db = exec_txs cs (exec_tx c db)" by (simp add: exec_txs_def)
  show ?case unfolding eq using step rest tx_kept_trans by blast
qed (simp add: exec_txs_def)

lemma decTxIDPtr_eq: "raw \<noteq> [] \<Longrightarrow> decTxIDPtr raw' = Some (hexEncode raw) \<longleftrightarrow> raw' = raw"
proof
  assume "decTxIDPtr raw' = Some (hexEncode raw)"
  then have "hexDecode (hexEncode raw') = hexDecode (hexEncode raw)" by (auto simp: decTxIDPtr_def split: if_splits)
  then show "raw' = raw" by (simp add: hexDecode_hexEncode)
qed (simp add: decTxIDPtr_def)

lemma beefLoop_lookup:
  assumes "raw \<noteq> []"
  shows "map_of (beefLoop rs out) (hexEncode raw) =
    (case filter (\<lambda>r. tr_txid r = Some raw) (rev rs) of [] \<Rightarrow> map_of out (hexEncode raw) | r # _ \<Rightarrow> Some (t_InputBEEF r))"
proof (induction rs arbitrary: out)
  case (Cons r rs)
  consider (hit) "tr_txid r = Some raw" | (none) "tr_txid r = None"
    | (other) raw' where "tr_txid r = Some raw'" "raw' \<noteq> raw" by (cases "tr_txid r") auto
  then show ?case
  proof cases
    case hit
    then have "decTxIDPtr raw = Some (hexEncode raw)" using assms by (simp add: decTxIDPtr_def)
    with hit Cons.IH show ?thesis by (simp add: update_conv split: list.splits)
  next
    case none
    with Cons.IH show ?thesis by (simp split: list.splits)
  next
    case other
    then have "decTxIDPtr raw' \<noteq> Some (hexEncode raw)" using decTxIDPtr_eq [OF assms] by blast
    with other Cons.IH show ?thesis by (cases "decTxIDPtr raw'") (auto simp: update_conv split: list.splits)
  qed
qed simp

lemma encAll_mem: "encAll ts = Inr raws \<Longrightarrow> t \<in> set ts \<Longrightarrow> encTxID t = Inr raw \<Longrightarrow> raw \<in> set raws"
  by (induction ts arbitrary: raws) (auto split: sum.splits)

section \<open>Properties\<close>

text \<open>
  C36: A transaction row is bound to its transaction id for good.  Over any sequence of repository calls
  ids and references stay unique, a row keeps its owner, its reference and its creation time, and a
  transaction id once set is never replaced: setting a different id is refused with the mismatch error and
  changes nothing, and setting the same id again is accepted, as the re-drive of a broadcast needs it.
\<close>

theorem tx_binding_final:
  assumes "tx_inv (fst db)" "txrow (fst db) i = Some r" "tr_txid r = Some raw"
  shows "tx_inv (fst (exec_txs cs db)) \<and>
    (\<exists>r'. txrow (fst (exec_txs cs db)) i = Some r' \<and> tr_txid r' = Some raw \<and> t_UserID r' = t_UserID r \<and>
       t_Reference r' = t_Reference r \<and> t_CreatedAt r' = t_CreatedAt r) \<and>
    (encTxID t = Inr raw' \<and> raw' \<noteq> raw \<longrightarrow> SetTxID now (fst db) i t = (fst db, Some ErrTxIDMismatch)) \<and>
    (encTxID t = Inr raw \<longrightarrow> snd (SetTxID now (fst db) i t) = None)"
proof (intro conjI impI)
  show "tx_inv (fst (exec_txs cs db))"
    "\<exists>r'. txrow (fst (exec_txs cs db)) i = Some r' \<and> tr_txid r' = Some raw \<and> t_UserID r' = t_UserID r \<and>
       t_Reference r' = t_Reference r \<and> t_CreatedAt r' = t_CreatedAt r"
    using exec_txs_kept [OF assms(1), of cs] assms(2,3) unfolding tx_kept_def by (simp, fastforce)
  have r: "r \<in> set (fst db)" "t_TransactionID r = i" using assms(2) by (auto simp: txrow_def find_Some_iff)
  show "snd (SetTxID now (fst db) i t) = None" if "encTxID t = Inr raw"
  proof -
    have "affected (\<lambda>r. t_TransactionID r = i \<and> (tr_txid r = None \<or> tr_txid r = Some raw)) (fst db) \<noteq> 0"
      unfolding affected_0 using r assms(3) by blast
    with that show ?thesis by (simp add: SetTxID_def Let_def)
  qed
  assume t: "encTxID t = Inr raw' \<and> raw' \<noteq> raw"
  have "r' = r" if "r' \<in> set (fst db)" "t_TransactionID r' = i" for r'
    using that r assms(1) by (auto simp: tx_inv_def distinct_map inj_on_def)
  with t assms(3) have "affected (\<lambda>r. t_TransactionID r = i \<and> (tr_txid r = None \<or> tr_txid r = Some raw')) (fst db) = 0"
    by (auto simp: affected_0)
  with t r show "SetTxID now (fst db) i t = (fst db, Some ErrTxIDMismatch)" by (auto simp: SetTxID_def existsByID_def Let_def)
qed

definition w_tx :: "nat \<Rightarrow> string \<Rightarrow> tx_status \<Rightarrow> bytes option \<Rightarrow> tx_row" where
  "w_tx i ref st raw = \<lparr>t_TransactionID = i, t_UserID = 1, t_ProvenTxID = None, t_Status = st, t_Reference = ref,
     t_IsOutgoing = True, t_Satoshis = 0, t_Description = [], t_Version = None, t_LockTime = None, t_InputBEEF = [1],
     t_CreatedAt = 0, t_UpdatedAt = 0, tr_txid = raw\<rparr>"

theorem tx_binding_final_witness:
  "SetTxID 5 [w_tx 1 ''r'' TxStatusSending (Some [10])] 1 ''0b'' = ([w_tx 1 ''r'' TxStatusSending (Some [10])], Some ErrTxIDMismatch)"
proof -
  have "encTxID ''0b'' = Inr [11]" by code_simp
  with tx_binding_final [of "([w_tx 1 ''r'' TxStatusSending (Some [10])], \<lparr>nt_rows = [], nt_edges = []\<rparr>)" 1
      "w_tx 1 ''r'' TxStatusSending (Some [10])" "[10]" "[]" "''0b''" "[11]" 5]
  show ?thesis by (simp add: tx_inv_def txrow_def w_tx_def)
qed

text \<open>
  The bulk load of input BEEFs agrees with the single lookup: for every id it was asked for, it returns
  exactly the blob \<open>GetInputBEEFByTxID\<close> returns, that of the oldest row still holding one, or nothing.
\<close>

theorem bulk_beef_agrees:
  assumes "raw \<noteq> []" "hexEncode raw \<in> set txids" "InputBEEFByTxIDs rows txids = Inr m"
  shows "GetInputBEEFByTxID rows (hexEncode raw) = Inr (map_of m (hexEncode raw))"
proof -
  let ?hit = "\<lambda>ids r. (\<exists>raw \<in> set ids. tr_txid r = Some raw) \<and> t_InputBEEF r \<noteq> []"
  have enc: "encTxID (hexEncode raw) = Inr raw" by (simp add: encTxID_def hexDecode_hexEncode)
  from assms(2,3) obtain ids where ids: "encAll txids = Inr ids"
      and m: "m = beefLoop (newest_tx_first (filter (?hit ids) rows)) []"
    by (auto simp: InputBEEFByTxIDs_def split: sum.splits if_splits)
  have "raw \<in> set ids" using encAll_mem [OF ids assms(2) enc] .
  then have "filter (\<lambda>r. tr_txid r = Some raw) (rev (newest_tx_first (filter (?hit ids) rows))) =
      sort_key t_TransactionID (filter (\<lambda>r. tr_txid r = Some raw \<and> t_InputBEEF r \<noteq> []) rows)"
    unfolding newest_tx_first_def rev_rev_ident filter_sort filter_filter by (intro arg_cong2 [of _ _ _ _ "sort_key"] refl filter_cong) auto
  then show ?thesis
    unfolding m beefLoop_lookup [OF assms(1)] by (simp add: GetInputBEEFByTxID_def enc limitOffset_def split: list.splits)
qed

text \<open>
  A filter of only malformed transaction ids does not filter: when none of the ids asked for decodes, the
  list is the unfiltered list of the user's transactions.
\<close>

theorem malformed_txids_list_everything:
  "ListTransactions rows labels userID statuses [''xyz''] names mode limit offset =
     ListActions rows labels userID statuses names mode limit offset"
proof -
  have "goodTxIDs [''xyz''] = []" by code_simp
  then have "buildTxWhere labels userID statuses [''xyz''] names mode = buildTxWhere labels userID statuses [] names mode"
    by (auto simp: buildTxWhere_def fun_eq_iff)
  then show ?thesis by (simp add: ListTransactions_def ListActions_def)
qed

end
