(* ===== verification/Outputs.thy ===== *)
theory Outputs
  imports Transactions
begin

text \<open>
  The descriptive output rows: \<open>src/pkg/storage/internal/metastore/outputs.go\<close>.  A row names its parent
  transaction by id; the queries join it with the row of \<open>transactions\<close>, which the foreign key makes
  unique and present (a row without a parent drops out of the join).
\<close>

section \<open>Rows\<close>

record output_cols =
  o_OutputID :: nat
  o_UserID :: int
  o_TransactionID :: nat
  o_Vout :: u32
  o_Satoshis :: int
  o_LockingScript :: bytes
  o_Basket :: "string option"
  o_SpentBy :: "nat option"
  o_Change :: bool
  o_Type :: string
  o_ProvidedBy :: string
  o_Purpose :: string
  o_Description :: string
  o_DerivationPrefix :: "string option"
  o_DerivationSuffix :: "string option"
  o_SenderIdentityKey :: "string option"
  o_CustomInstructions :: "string option"
  o_CreatedAt :: time
  o_UpdatedAt :: time

text \<open>\<open>OutputRow\<close>: the columns with the parent's transaction id and, on request, the tags.\<close>

record output_row = output_cols +
  o_TxID :: "string option"
  o_Tags :: "string list"

record new_output =
  no_UserID :: int
  no_TransactionID :: nat
  no_Vout :: u32
  no_Satoshis :: int
  no_LockingScript :: bytes
  no_Basket :: "string option"
  no_SpentBy :: "nat option"
  no_Change :: bool
  no_Type :: string
  no_ProvidedBy :: string
  no_Purpose :: string
  no_Description :: string
  no_DerivationPrefix :: "string option"
  no_DerivationSuffix :: "string option"
  no_SenderIdentityKey :: "string option"
  no_CustomInstructions :: "string option"
  no_Tags :: "string list"

definition DefaultListOutputsStatuses :: "tx_status list" where
  "DefaultListOutputsStatuses = [TxStatusCompleted, TxStatusUnprocessed, TxStatusSending, TxStatusUnproven,
     TxStatusUnsigned, TxStatusNoSend, TxStatusNonFinal]"

definition parent :: "tx_row list \<Rightarrow> output_cols \<Rightarrow> tx_row option" where
  "parent txs o' = find (\<lambda>t. t_TransactionID t = o_TransactionID o') txs"

text \<open>One row of \<open>outputs o JOIN transactions t\<close>, scanned.\<close>

definition output_scan :: "output_cols \<times> tx_row \<Rightarrow> output_row" where
  "output_scan ot = output_cols.extend (fst ot)
     (output_row.fields (case tr_txid (snd ot) of None \<Rightarrow> None | Some b \<Rightarrow> decTxIDPtr b) [])"

definition join_parent :: "tx_row list \<Rightarrow> output_cols list \<Rightarrow> (output_cols \<times> tx_row) list" where
  "join_parent txs outs = List.map_filter (\<lambda>o'. map_option (\<lambda>t. (o', t)) (parent txs o')) outs"

definition by_output_id :: "(output_cols \<times> tx_row) list \<Rightarrow> (output_cols \<times> tx_row) list" where
  "by_output_id ots = sort_key (\<lambda>ot. o_OutputID (fst ot)) ots"

section \<open>Writes\<close>

definition output_insert ::
    "(nat \<Rightarrow> time) \<Rightarrow> output_cols list \<times> named_table \<Rightarrow> new_output \<Rightarrow> (output_cols list \<times> named_table) \<times> (meta_error + nat)" where
  "output_insert clk db no =
     (let (outs, tags) = db in
      if \<exists>o' \<in> set outs. o_TransactionID o' = no_TransactionID no \<and> o_Vout o' = no_Vout no then (db, Inl ErrConstraint)
      else
        (let i = nextID (map o_OutputID outs);
             o' = \<lparr>o_OutputID = i, o_UserID = no_UserID no, o_TransactionID = no_TransactionID no, o_Vout = no_Vout no,
                   o_Satoshis = no_Satoshis no, o_LockingScript = no_LockingScript no, o_Basket = no_Basket no,
                   o_SpentBy = no_SpentBy no, o_Change = no_Change no, o_Type = no_Type no, o_ProvidedBy = no_ProvidedBy no,
                   o_Purpose = no_Purpose no, o_Description = no_Description no, o_DerivationPrefix = no_DerivationPrefix no,
                   o_DerivationSuffix = no_DerivationSuffix no, o_SenderIdentityKey = no_SenderIdentityKey no,
                   o_CustomInstructions = no_CustomInstructions no, o_CreatedAt = encTime (clk 0), o_UpdatedAt = encTime (clk 0)\<rparr>
         in ((outs @ [o'], Tags_Attach (\<lambda>k. clk (Suc k)) tags (no_UserID no) i (no_Tags no)), Inr i)))"

text \<open>The outpoint condition of \<open>RelinquishOutput\<close>: the user's output of the user's transaction.\<close>

definition outpointCond :: "tx_row list \<Rightarrow> int \<Rightarrow> bytes \<Rightarrow> u32 \<Rightarrow> output_cols \<Rightarrow> bool" where
  "outpointCond txs userID raw vout o' \<longleftrightarrow> o_UserID o' = userID \<and> o_Vout o' = vout \<and>
     (\<exists>t \<in> set txs. t_TransactionID t = o_TransactionID o' \<and> t_UserID t = userID \<and> tr_txid t = Some raw)"

definition RelinquishOutput ::
    "time \<Rightarrow> tx_row list \<Rightarrow> output_cols list \<Rightarrow> int \<Rightarrow> string \<Rightarrow> string \<Rightarrow> u32 \<Rightarrow> output_cols list \<times> meta_error option" where
  "RelinquishOutput now txs outs userID basket txid vout =
     (case encTxID txid of
        Inl e \<Rightarrow> (outs, Some e)
      | Inr raw \<Rightarrow>
          (let p = (\<lambda>o'. outpointCond txs userID raw vout o' \<and> (basket \<noteq> '''' \<longrightarrow> o_Basket o' = Some basket)) in
           if 0 < affected p outs
           then (update_where p (\<lambda>o'. o'\<lparr>o_Basket := None, o_UpdatedAt := encTime now\<rparr>) outs, None)
           else if \<exists>o' \<in> set outs. outpointCond txs userID raw vout o' then (outs, Some ErrOutputBasketMismatch)
           else (outs, Some ErrNotFound)))"

definition MarkSpent :: "time \<Rightarrow> output_cols list \<Rightarrow> nat \<Rightarrow> nat list \<Rightarrow> output_cols list" where
  "MarkSpent now outs spendingTransactionID outputIDs =
     update_where (\<lambda>o'. o_OutputID o' \<in> set outputIDs)
       (\<lambda>o'. o'\<lparr>o_SpentBy := Some spendingTransactionID, o_UpdatedAt := encTime now\<rparr>) outs"

definition ClearSpentBy :: "time \<Rightarrow> output_cols list \<Rightarrow> nat \<Rightarrow> output_cols list" where
  "ClearSpentBy now outs spendingTransactionID =
     update_where (\<lambda>o'. o_SpentBy o' = Some spendingTransactionID)
       (\<lambda>o'. o'\<lparr>o_SpentBy := None, o_UpdatedAt := encTime now\<rparr>) outs"

section \<open>Queries\<close>

text \<open>An absent filter does not restrict.\<close>

definition opt_eq :: "'a option \<Rightarrow> 'a \<Rightarrow> bool" where
  "opt_eq f x \<longleftrightarrow> f = None \<or> f = Some x"

record find_outputs_args =
  fo_UserID :: "int option"
  fo_OutputID :: "nat option"
  fo_TransactionID :: "nat option"
  fo_Satoshis :: "int option"
  fo_Vout :: "u32 option"
  fo_Change :: "bool option"
  fo_TxID :: "string option"
  fo_TxStatus :: "tx_status list"

definition FindOutputs :: "tx_row list \<Rightarrow> output_cols list \<Rightarrow> find_outputs_args \<Rightarrow> meta_error + output_row list" where
  "FindOutputs txs outs a =
     (case (case fo_TxID a of None \<Rightarrow> Inr None | Some t \<Rightarrow> (case encTxID t of Inl e \<Rightarrow> Inl e | Inr raw \<Rightarrow> Inr (Some raw))) of
        Inl e \<Rightarrow> Inl e
      | Inr raw \<Rightarrow>
          Inr (map output_scan (by_output_id (filter (\<lambda>(o', t).
            opt_eq (fo_UserID a) (o_UserID o') \<and> opt_eq (fo_OutputID a) (o_OutputID o') \<and>
            opt_eq (fo_TransactionID a) (o_TransactionID o') \<and> opt_eq (fo_Satoshis a) (o_Satoshis o') \<and>
            opt_eq (fo_Vout a) (o_Vout o') \<and> opt_eq (fo_Change a) (o_Change o') \<and>
            (raw \<noteq> None \<longrightarrow> tr_txid t = raw) \<and> (fo_TxStatus a = [] \<or> t_Status t \<in> set (fo_TxStatus a)))
            (join_parent txs outs)))))"

definition FindChangeOutputsByTxIDs :: "tx_row list \<Rightarrow> output_cols list \<Rightarrow> string list \<Rightarrow> meta_error + output_row list" where
  "FindChangeOutputsByTxIDs txs outs txids =
     (if txids = [] then Inr []
      else case encAll txids of
        Inl e \<Rightarrow> Inl e
      | Inr ids \<Rightarrow>
          Inr (map output_scan (by_output_id (filter (\<lambda>(o', t). (\<exists>raw \<in> set ids. tr_txid t = Some raw) \<and> o_Change o')
            (join_parent txs outs)))))"

text \<open>\<open>FindOutputsByOutpoints\<close> asks in chunks of \<open>outpointChunk\<close> outpoints and appends the pages.\<close>

definition outpointChunk :: nat where
  "outpointChunk = 400"

definition outpointPage :: "tx_row list \<Rightarrow> output_cols list \<Rightarrow> int \<Rightarrow> (bytes \<times> u32) list \<Rightarrow> output_row list" where
  "outpointPage txs outs userID keys =
     map output_scan (by_output_id (filter (\<lambda>(o', t). o_UserID o' = userID \<and>
       (\<exists>(raw, vout) \<in> set keys. tr_txid t = Some raw \<and> o_Vout o' = vout)) (join_parent txs outs)))"

function chunkLoop :: "tx_row list \<Rightarrow> output_cols list \<Rightarrow> int \<Rightarrow> (string \<times> u32) list \<Rightarrow> meta_error + output_row list" where
  "chunkLoop txs outs userID ops =
     (if ops = [] then Inr []
      else case encAll (map fst (take outpointChunk ops)) of
        Inl e \<Rightarrow> Inl e
      | Inr raws \<Rightarrow>
          (case chunkLoop txs outs userID (drop outpointChunk ops) of
             Inl e \<Rightarrow> Inl e
           | Inr rest \<Rightarrow> Inr (outpointPage txs outs userID (zip raws (map snd (take outpointChunk ops))) @ rest)))"
  by pat_completeness auto
termination by (relation "measure (\<lambda>(_, _, _, ops). length ops)") (auto simp: outpointChunk_def)

definition FindOutputsByOutpoints ::
    "tx_row list \<Rightarrow> output_cols list \<Rightarrow> int \<Rightarrow> (string \<times> u32) list \<Rightarrow> meta_error + output_row list" where
  "FindOutputsByOutpoints txs outs userID ops = chunkLoop txs outs userID ops"

definition CountInBasket :: "output_cols list \<Rightarrow> int \<Rightarrow> string \<Rightarrow> nat" where
  "CountInBasket outs userID basket = length (filter (\<lambda>o'. o_UserID o' = userID \<and> o_Basket o' = Some basket) outs)"

definition attachTags :: "named_table \<Rightarrow> output_row list \<Rightarrow> output_row list" where
  "attachTags tags rows = map (\<lambda>o'. o'\<lparr>o_Tags := attachedNames tags (o_OutputID o')\<rparr>) rows"

record list_outputs_filter =
  lo_UserID :: int
  lo_Basket :: string
  lo_Tags :: "string list"
  lo_TagQueryMode :: "string option"
  lo_Statuses :: "tx_status list"
  lo_Limit :: int
  lo_Offset :: nat
  lo_IncludeTags :: bool

definition ListOutputs ::
    "tx_row list \<Rightarrow> output_cols list \<Rightarrow> named_table \<Rightarrow> list_outputs_filter \<Rightarrow> output_row list \<times> nat" where
  "ListOutputs txs outs tags f =
     (let hits = filter (\<lambda>(o', t). o_UserID o' = lo_UserID f \<and> (lo_Basket f \<noteq> '''' \<longrightarrow> o_Basket o' = Some (lo_Basket f)) \<and>
            (lo_Statuses f = [] \<or> t_Status t \<in> set (lo_Statuses f)) \<and>
            nameFilter tags (lo_UserID f) (lo_Tags f) (lo_TagQueryMode f) (o_OutputID o')) (join_parent txs outs)
      in if length hits = 0 then ([], 0)
         else (let page = map output_scan (limitOffset (lo_Limit f) (lo_Offset f) (by_output_id hits))
               in (if lo_IncludeTags f then attachTags tags page else page, length hits)))"

definition GetBRC29Material ::
    "output_cols list \<Rightarrow> nat \<Rightarrow> (string option \<times> string option \<times> string option \<times> string option) option" where
  "GetBRC29Material outs outputID =
     map_option (\<lambda>o'. (o_DerivationPrefix o', o_DerivationSuffix o', o_SenderIdentityKey o', o_CustomInstructions o'))
       (find (\<lambda>o'. o_OutputID o' = outputID) outs)"

section \<open>Facts\<close>

declare chunkLoop.simps [simp del]

definition outputs_fk :: "tx_row list \<Rightarrow> output_cols list \<Rightarrow> bool" where
  "outputs_fk txs outs \<longleftrightarrow> (\<forall>o' \<in> set outs. parent txs o' \<noteq> None)"

lemma join_parent_fk: "outputs_fk txs outs \<Longrightarrow> join_parent txs outs = map (\<lambda>o'. (o', the (parent txs o'))) outs"
  by (induction outs) (auto simp: join_parent_def outputs_fk_def List.map_filter_def)

lemma set_by_output_id [simp]: "set (by_output_id ots) = set ots"
  by (simp add: by_output_id_def)

lemma outpointPage_append: "set (outpointPage txs outs u (ks @ ks')) = set (outpointPage txs outs u ks) \<union> set (outpointPage txs outs u ks')"
proof -
  let ?P = "\<lambda>ks (o', t). o_UserID o' = u \<and> (\<exists>(raw, vout) \<in> set ks. tr_txid t = Some raw \<and> o_Vout o' = vout)"
  have "{x \<in> set (join_parent txs outs). ?P (ks @ ks') x} = {x \<in> set (join_parent txs outs). ?P ks x} \<union> {x \<in> set (join_parent txs outs). ?P ks' x}"
    by auto
  then show ?thesis unfolding outpointPage_def set_map set_by_output_id set_filter by (simp only: image_Un)
qed

lemma outpointPage_Nil [simp]: "outpointPage txs outs u [] = []"
  by (simp add: outpointPage_def by_output_id_def)

lemma encAll_append:
  "encAll (ts @ ts') = (case encAll ts of Inl e \<Rightarrow> Inl e | Inr a \<Rightarrow> (case encAll ts' of Inl e \<Rightarrow> Inl e | Inr b \<Rightarrow> Inr (a @ b)))"
  by (induction ts) (auto split: sum.splits)

lemma encAll_length: "encAll ts = Inr raws \<Longrightarrow> length raws = length ts"
  by (induction ts arbitrary: raws) (auto split: sum.splits)

section \<open>Properties\<close>

text \<open>
  Looking outputs up in chunks is the same as looking them up at once: the chunked query fails exactly
  when one of the ids is malformed, and otherwise returns exactly the rows of the user whose parent
  transaction and index are among the outpoints asked for.
\<close>

theorem chunked_lookup_exact:
  "case encAll (map fst ops) of
     Inl e \<Rightarrow> FindOutputsByOutpoints txs outs userID ops = Inl e
   | Inr raws \<Rightarrow> (\<exists>rows. FindOutputsByOutpoints txs outs userID ops = Inr rows \<and>
        set rows = set (outpointPage txs outs userID (zip raws (map snd ops))))"
  unfolding FindOutputsByOutpoints_def
proof (induction txs outs userID ops rule: chunkLoop.induct)
  case (1 txs outs userID ops)
  show ?case
  proof (cases "ops = []")
    case False
    let ?a = "take outpointChunk ops" and ?b = "drop outpointChunk ops"
    have split: "map fst ops = map fst ?a @ map fst ?b" by (simp flip: map_append)
    show ?thesis
    proof (cases "encAll (map fst ?a)")
      case (Inl e)
      then show ?thesis using False by (simp add: chunkLoop.simps [of _ _ _ ops] split encAll_append)
    next
      case (Inr raws)
      note IH = 1 [OF False Inr]
      show ?thesis
      proof (cases "encAll (map fst ?b)")
        case (Inl e)
        with IH Inr False show ?thesis by (simp add: chunkLoop.simps [of _ _ _ ops] split encAll_append)
      next
        case (Inr raws')
        note b = this
        from IH b obtain rest where rest: "chunkLoop txs outs userID ?b = Inr rest"
            "set rest = set (outpointPage txs outs userID (zip raws' (map snd ?b)))" by auto
        have a: "encAll (map fst ?a) = Inr raws" by fact
        have "map snd ops = map snd ?a @ map snd ?b" by (simp flip: map_append)
        moreover have "length raws = length (map snd ?a)" using encAll_length [OF a] by simp
        ultimately have "zip (raws @ raws') (map snd ops) = zip raws (map snd ?a) @ zip raws' (map snd ?b)" by (simp only: zip_append)
        with a b rest False show ?thesis
          by (simp add: chunkLoop.simps [of _ _ _ ops] split encAll_append outpointPage_append)
      qed
    qed
  qed (simp add: chunkLoop.simps)
qed

text \<open>
  The cheap count of a basket is the total the listing computes for the same user and basket without a
  status filter, because every output has exactly one parent transaction.
\<close>

theorem CountInBasket_is_list_total:
  assumes "outputs_fk txs outs" "basket \<noteq> ''''" "lo_UserID f = userID" "lo_Basket f = basket" "lo_Statuses f = []" "lo_Tags f = []"
  shows "CountInBasket outs userID basket = snd (ListOutputs txs outs tags f)"
proof -
  have "snd (ListOutputs txs outs tags f) = length (filter (\<lambda>(o', t). o_UserID o' = userID \<and> o_Basket o' = Some basket) (join_parent txs outs))"
    using assms(2-) by (simp add: ListOutputs_def Let_def nameFilter_def)
  also have "\<dots> = length (filter (\<lambda>o'. o_UserID o' = userID \<and> o_Basket o' = Some basket) outs)"
    by (simp add: join_parent_fk [OF assms(1)] filter_map comp_def)
  finally show ?thesis by (simp add: CountInBasket_def)
qed

definition w_out :: "nat \<Rightarrow> nat \<Rightarrow> u32 \<Rightarrow> string option \<Rightarrow> output_cols" where
  "w_out i tx vout basket = \<lparr>o_OutputID = i, o_UserID = 1, o_TransactionID = tx, o_Vout = vout, o_Satoshis = 5, o_LockingScript = [],
     o_Basket = basket, o_SpentBy = None, o_Change = True, o_Type = [], o_ProvidedBy = [], o_Purpose = [], o_Description = [],
     o_DerivationPrefix = None, o_DerivationSuffix = None, o_SenderIdentityKey = None, o_CustomInstructions = None,
     o_CreatedAt = 0, o_UpdatedAt = 0\<rparr>"

end
