(* ===== verification/Outbox.thy ===== *)
theory Outbox
  imports Outputs
begin

text \<open>
  The crash-recovery outbox (\<open>src/pkg/storage/internal/metastore/outbox.go\<close>) and the job leases of the
  monitor (\<open>monitor.go\<close>).  The outbox is a list of rows with distinct keys; the payload is a parameter of
  the row, the JSON document as the value it decodes to.
\<close>

section \<open>The outbox\<close>

definition MaxOutboxAttempts :: nat where
  "MaxOutboxAttempts = 10"

record 'p outbox_entry =
  ob_TxID :: bytes
  ob_OpType :: string
  ob_Chunk :: nat
  ob_Payload :: 'p
  ob_Attempts :: nat
  ob_LastError :: "string option"
  ob_CreatedAt :: time

definition ob_key :: "'p outbox_entry \<Rightarrow> bytes \<times> string \<times> nat" where
  "ob_key e = (ob_TxID e, ob_OpType e, ob_Chunk e)"

definition Enqueue ::
    "time \<Rightarrow> 'p outbox_entry list \<Rightarrow> bytes \<Rightarrow> string \<Rightarrow> nat \<Rightarrow> 'p \<Rightarrow> 'p outbox_entry list" where
  "Enqueue now rows txid opType chunk payload =
     (if \<exists>e \<in> set rows. ob_key e = (txid, opType, chunk) then rows
      else rows @ [\<lparr>ob_TxID = txid, ob_OpType = opType, ob_Chunk = chunk, ob_Payload = payload, ob_Attempts = 0,
             ob_LastError = None, ob_CreatedAt = encTime now\<rparr>])"

text \<open>Rows with the same creation time, type and chunk come in the order of the table.\<close>

definition FetchPending :: "'p outbox_entry list \<Rightarrow> int \<Rightarrow> 'p outbox_entry list" where
  "FetchPending rows limit =
     (if limit \<le> 0 then []
      else take (nat limit) (sort_key (\<lambda>e. (ob_CreatedAt e, ob_OpType e, ob_Chunk e))
             (filter (\<lambda>e. ob_Attempts e < MaxOutboxAttempts) rows)))"

definition MarkDone :: "'p outbox_entry list \<Rightarrow> bytes \<Rightarrow> string \<Rightarrow> nat \<Rightarrow> 'p outbox_entry list" where
  "MarkDone rows txid opType chunk = filter (\<lambda>e. ob_key e \<noteq> (txid, opType, chunk)) rows"

definition RecordError :: "'p outbox_entry list \<Rightarrow> bytes \<Rightarrow> string \<Rightarrow> nat \<Rightarrow> string \<Rightarrow> 'p outbox_entry list" where
  "RecordError rows txid opType chunk errMsg =
     update_where (\<lambda>e. ob_key e = (txid, opType, chunk))
       (\<lambda>e. e\<lparr>ob_Attempts := Suc (ob_Attempts e), ob_LastError := Some errMsg\<rparr>) rows"

definition CountPending :: "'p outbox_entry list \<Rightarrow> nat" where
  "CountPending rows = length (filter (\<lambda>e. ob_Attempts e < MaxOutboxAttempts) rows)"

definition CountParked :: "'p outbox_entry list \<Rightarrow> nat" where
  "CountParked rows = length (filter (\<lambda>e. ob_Attempts e \<ge> MaxOutboxAttempts) rows)"

section \<open>The leases\<close>

record lease =
  l_Job :: string
  l_Owner :: string
  l_Until :: int

text \<open>The insert that ensures the row, then the conditional update whose row count decides.\<close>

definition Acquire :: "lease list \<Rightarrow> string \<Rightarrow> string \<Rightarrow> int \<Rightarrow> int \<Rightarrow> lease list \<times> bool" where
  "Acquire rows job owner leaseUntil now =
     (let rows1 = (if \<exists>l \<in> set rows. l_Job l = job then rows
                   else rows @ [\<lparr>l_Job = job, l_Owner = owner, l_Until = leaseUntil\<rparr>]);
          p = (\<lambda>l. l_Job l = job \<and> (l_Owner l = owner \<or> l_Until l < now))
      in (update_where p (\<lambda>l. l\<lparr>l_Owner := owner, l_Until := leaseUntil\<rparr>) rows1, 0 < affected p rows1))"

definition Release :: "lease list \<Rightarrow> string \<Rightarrow> string \<Rightarrow> int \<Rightarrow> lease list" where
  "Release rows job owner now =
     update_where (\<lambda>l. l_Job l = job \<and> l_Owner l = owner) (\<lambda>l. l\<lparr>l_Until := now\<rparr>) rows"

section \<open>Facts\<close>

definition outbox_inv :: "'p outbox_entry list \<Rightarrow> bool" where
  "outbox_inv rows \<longleftrightarrow> distinct (map ob_key rows)"

definition entry_at :: "'p outbox_entry list \<Rightarrow> bytes \<times> string \<times> nat \<Rightarrow> 'p outbox_entry option" where
  "entry_at rows k = find (\<lambda>e. ob_key e = k) rows"

lemma entry_at_None: "entry_at rows k = None \<longleftrightarrow> (\<forall>e \<in> set rows. ob_key e \<noteq> k)"
  by (auto simp: entry_at_def find_None_iff)

lemma entry_at_mem: "outbox_inv rows \<Longrightarrow> e \<in> set rows \<Longrightarrow> entry_at rows (ob_key e) = Some e"
  by (induction rows) (auto simp: outbox_inv_def entry_at_def image_iff)

lemma entry_at_Some: "entry_at rows k = Some e \<Longrightarrow> e \<in> set rows \<and> ob_key e = k"
  by (auto simp: entry_at_def find_Some_iff)

lemma Enqueue_entry:
  "entry_at (Enqueue now rows t op ch pl) k =
     (case entry_at rows k of
        Some e \<Rightarrow> Some e
      | None \<Rightarrow> if k = (t, op, ch)
          then Some \<lparr>ob_TxID = t, ob_OpType = op, ob_Chunk = ch, ob_Payload = pl, ob_Attempts = 0, ob_LastError = None, ob_CreatedAt = encTime now\<rparr>
          else None)"
proof (cases "\<exists>e \<in> set rows. ob_key e = (t, op, ch)")
  case True
  then have "entry_at rows (t, op, ch) \<noteq> None" by (auto simp: entry_at_None)
  with True show ?thesis by (auto simp: Enqueue_def split: option.splits)
next
  case False
  then have "Enqueue now rows t op ch pl = rows @ [\<lparr>ob_TxID = t, ob_OpType = op, ob_Chunk = ch, ob_Payload = pl,
      ob_Attempts = 0, ob_LastError = None, ob_CreatedAt = encTime now\<rparr>]" by (simp only: Enqueue_def if_False)
  then show ?thesis by (auto simp: entry_at_def find_append_key ob_key_def split: option.splits)
qed

lemma MarkDone_entry: "entry_at (MarkDone rows t op ch) k = (if k = (t, op, ch) then None else entry_at rows k)"
  by (induction rows) (auto simp: entry_at_def MarkDone_def)

lemma RecordError_entry:
  "entry_at (RecordError rows t op ch msg) k = map_option (\<lambda>e. if k = (t, op, ch)
     then e\<lparr>ob_Attempts := Suc (ob_Attempts e), ob_LastError := Some msg\<rparr> else e) (entry_at rows k)"
proof -
  have "entry_at (RecordError rows t op ch msg) k = map_option (\<lambda>e. if ob_key e = (t, op, ch)
     then e\<lparr>ob_Attempts := Suc (ob_Attempts e), ob_LastError := Some msg\<rparr> else e) (entry_at rows k)"
    unfolding entry_at_def RecordError_def by (rule find_update_where) (simp add: ob_key_def)
  then show ?thesis by (cases "entry_at rows k") (auto dest: entry_at_Some)
qed

lemma outbox_inv_ops:
  "outbox_inv rows \<Longrightarrow> outbox_inv (Enqueue now rows t op ch pl)"
  "outbox_inv rows \<Longrightarrow> outbox_inv (MarkDone rows t op ch)"
  "outbox_inv rows \<Longrightarrow> outbox_inv (RecordError rows t op ch msg)"
proof -
  assume inv: "outbox_inv rows"
  show "outbox_inv (Enqueue now rows t op ch pl)"
    using inv by (force simp: outbox_inv_def Enqueue_def ob_key_def)
  show "outbox_inv (MarkDone rows t op ch)"
    using inv by (simp add: outbox_inv_def MarkDone_def distinct_map_filter)
  have "map ob_key (RecordError rows t op ch msg) = map ob_key rows"
    unfolding RecordError_def by (rule map_update_where) (simp add: ob_key_def)
  with inv show "outbox_inv (RecordError rows t op ch msg)" by (simp add: outbox_inv_def)
qed

lemma FetchPending_mem:
  assumes "e \<in> set rows" "int (length rows) \<le> limit"
  shows "e \<in> set (FetchPending rows limit) \<longleftrightarrow> ob_Attempts e < MaxOutboxAttempts"
proof -
  have pos: "\<not> limit \<le> 0" using assms length_pos_if_in_set [of e rows] by linarith
  have "length (filter (\<lambda>e. ob_Attempts e < MaxOutboxAttempts) rows) \<le> nat limit"
    using length_filter_le [of "\<lambda>e. ob_Attempts e < MaxOutboxAttempts" rows] assms(2) by linarith
  with pos assms(1) show ?thesis by (simp add: FetchPending_def)
qed

datatype 'p outbox_call = ObEnqueue time bytes string nat 'p | ObDone bytes string nat | ObError bytes string nat string

fun exec_ob :: "'p outbox_call \<Rightarrow> 'p outbox_entry list \<Rightarrow> 'p outbox_entry list" where
  "exec_ob (ObEnqueue now t op ch pl) rows = Enqueue now rows t op ch pl"
| "exec_ob (ObDone t op ch) rows = MarkDone rows t op ch"
| "exec_ob (ObError t op ch msg) rows = RecordError rows t op ch msg"

fun is_done :: "bytes \<times> string \<times> nat \<Rightarrow> 'p outbox_call \<Rightarrow> bool" where
  "is_done k (ObDone t op ch) = (k = (t, op, ch))"
| "is_done k _ = False"

fun is_error :: "bytes \<times> string \<times> nat \<Rightarrow> 'p outbox_call \<Rightarrow> bool" where
  "is_error k (ObError t op ch msg) = (k = (t, op, ch))"
| "is_error k _ = False"

lemma exec_ob_entry:
  assumes "entry_at rows k = Some e" "\<not> is_done k c"
  shows "\<exists>e'. entry_at (exec_ob c rows) k = Some e' \<and> ob_Payload e' = ob_Payload e \<and> ob_CreatedAt e' = ob_CreatedAt e \<and>
    ob_Attempts e' = ob_Attempts e + (if is_error k c then 1 else 0)"
  using assms by (cases c) (auto simp: Enqueue_entry MarkDone_entry RecordError_entry)

section \<open>Properties\<close>

text \<open>
  C37: An outbox entry is durable.  Until it is marked done, an entry stays in the table with the payload and
  the creation time it was first enqueued with, whatever is enqueued again under its key or happens to other
  entries; its attempts count its recorded errors, and with a large enough limit it is fetched exactly while
  they are fewer than ten.
\<close>

theorem outbox_entry_durable:
  assumes "outbox_inv rows" "entry_at rows k = Some e" "list_all (\<lambda>c. \<not> is_done k c) cs"
  shows "\<exists>e'. entry_at (foldl (\<lambda>rows c. exec_ob c rows) rows cs) k = Some e' \<and> ob_Payload e' = ob_Payload e \<and>
    ob_CreatedAt e' = ob_CreatedAt e \<and> ob_Attempts e' = ob_Attempts e + length (filter (is_error k) cs) \<and>
    (int (length (foldl (\<lambda>rows c. exec_ob c rows) rows cs)) \<le> limit \<longrightarrow>
      (e' \<in> set (FetchPending (foldl (\<lambda>rows c. exec_ob c rows) rows cs) limit) \<longleftrightarrow>
        ob_Attempts e + length (filter (is_error k) cs) < MaxOutboxAttempts))"
proof -
  let ?rows = "foldl (\<lambda>rows c. exec_ob c rows) rows cs"
  have "\<exists>e'. entry_at ?rows k = Some e' \<and> ob_Payload e' = ob_Payload e \<and> ob_CreatedAt e' = ob_CreatedAt e \<and>
      ob_Attempts e' = ob_Attempts e + length (filter (is_error k) cs)"
    using assms(2,3)
  proof (induction cs arbitrary: rows e)
    case (Cons c cs)
    from exec_ob_entry [OF Cons.prems(1)] Cons.prems(2) obtain e1 where e1: "entry_at (exec_ob c rows) k = Some e1"
        "ob_Payload e1 = ob_Payload e" "ob_CreatedAt e1 = ob_CreatedAt e"
        "ob_Attempts e1 = ob_Attempts e + (if is_error k c then 1 else 0)" by auto
    from Cons.IH [OF e1(1)] Cons.prems(2) e1(2-) show ?case by auto
  qed simp
  then obtain e' where e': "entry_at ?rows k = Some e'" "ob_Payload e' = ob_Payload e" "ob_CreatedAt e' = ob_CreatedAt e"
      "ob_Attempts e' = ob_Attempts e + length (filter (is_error k) cs)" by blast
  have "e' \<in> set ?rows" using e'(1) entry_at_Some by blast
  then have "int (length ?rows) \<le> limit \<longrightarrow> (e' \<in> set (FetchPending ?rows limit) \<longleftrightarrow> ob_Attempts e' < MaxOutboxAttempts)"
    by (intro impI) (rule FetchPending_mem)
  with e' show ?thesis by auto
qed

definition w_entry :: "nat \<Rightarrow> unit outbox_entry" where
  "w_entry n = \<lparr>ob_TxID = [10], ob_OpType = ''UNSPEND'', ob_Chunk = 0, ob_Payload = (), ob_Attempts = n, ob_LastError = None, ob_CreatedAt = 0\<rparr>"

theorem outbox_entry_durable_witness:
  "\<exists>e'. entry_at (foldl (\<lambda>rows c. exec_ob c rows) [w_entry 9] [ObError [10] ''UNSPEND'' 0 ''x'']) ([10], ''UNSPEND'', 0) = Some e' \<and>
     ob_Attempts e' = 10"
  using outbox_entry_durable [of "[w_entry 9]" "([10], ''UNSPEND'', 0)" "w_entry 9" "[ObError [10] ''UNSPEND'' 0 ''x'']" 1]
  by (auto simp: outbox_inv_def entry_at_def ob_key_def w_entry_def)

text \<open>The calls another instance makes on the leases.\<close>

datatype lease_call = LAcquire string int int | LRelease string int

fun exec_lease :: "string \<Rightarrow> lease_call \<Rightarrow> lease list \<Rightarrow> lease list" where
  "exec_lease job (LAcquire owner leaseUntil now) rows = fst (Acquire rows job owner leaseUntil now)"
| "exec_lease job (LRelease owner now) rows = Release rows job owner now"

fun call_owner :: "lease_call \<Rightarrow> string" where
  "call_owner (LAcquire owner leaseUntil now) = owner"
| "call_owner (LRelease owner now) = owner"

fun call_time :: "lease_call \<Rightarrow> int" where
  "call_time (LAcquire owner leaseUntil now) = now"
| "call_time (LRelease owner now) = now"

definition held :: "lease list \<Rightarrow> string \<Rightarrow> string \<Rightarrow> int \<Rightarrow> bool" where
  "held rows job owner leaseUntil \<longleftrightarrow> (\<exists>l \<in> set rows. l_Job l = job) \<and>
     (\<forall>l \<in> set rows. l_Job l = job \<longrightarrow> l_Owner l = owner \<and> l_Until l = leaseUntil)"

lemma held_others:
  assumes "held rows job owner leaseUntil" "call_owner c \<noteq> owner" "call_time c \<le> leaseUntil"
  shows "held (exec_lease job c rows) job owner leaseUntil"
  using assms by (cases c) (auto simp: held_def Acquire_def Release_def Let_def update_where_def)

lemma Acquire_wins:
  assumes "distinct (map l_Job rows)" "Acquire rows job owner leaseUntil now = (rows', True)"
  shows "held rows' job owner leaseUntil"
proof -
  let ?new = "\<lparr>l_Job = job, l_Owner = owner, l_Until = leaseUntil\<rparr>"
  define rows1 where "rows1 = (if \<exists>l \<in> set rows. l_Job l = job then rows else rows @ [?new])"
  have d: "distinct (map l_Job rows1)" using assms(1) by (auto simp: rows1_def)
  from assms(2) obtain l where l: "l \<in> set rows1" "l_Job l = job" "l_Owner l = owner \<or> l_Until l < now"
    unfolding Acquire_def Let_def rows1_def [symmetric] by (auto simp: affected_def filter_empty_conv)
  let ?p = "\<lambda>l. l_Job l = job \<and> (l_Owner l = owner \<or> l_Until l < now)"
  have uniq: "?p l'" if "l' \<in> set rows1" "l_Job l' = job" for l'
  proof -
    have "l' = l" using that l(1,2) d by (auto simp: distinct_map inj_on_def)
    with l show ?thesis by blast
  qed
  have rows': "rows' = update_where ?p (\<lambda>l. l\<lparr>l_Owner := owner, l_Until := leaseUntil\<rparr>) rows1"
    using assms(2) unfolding Acquire_def Let_def rows1_def [symmetric] by simp
  have "l_Owner l' = owner \<and> l_Until l' = leaseUntil" if l': "l' \<in> set rows'" "l_Job l' = job" for l'
  proof -
    from l'(1) obtain r where r: "r \<in> set rows1" "l' = (if ?p r then r\<lparr>l_Owner := owner, l_Until := leaseUntil\<rparr> else r)"
      unfolding rows' set_update_where by blast
    then have "l_Job r = job" using l'(2) by (cases "?p r") simp_all
    from uniq [OF r(1) this] show ?thesis unfolding r(2) by simp
  qed
  moreover have "l\<lparr>l_Owner := owner, l_Until := leaseUntil\<rparr> \<in> set rows'"
    unfolding rows' set_update_where using l by (intro image_eqI [of _ _ l]) auto
  moreover have "l_Job (l\<lparr>l_Owner := owner, l_Until := leaseUntil\<rparr>) = job" using l(2) by simp
  ultimately show ?thesis unfolding held_def by blast
qed

text \<open>
  C38: A lease is exclusive.  Once an instance has acquired the lease of a job, no acquire or release by other
  instances takes effect while the lease has not expired: the holder keeps it unchanged and every acquire of
  another instance is refused; after it has expired another instance gets it.
\<close>

theorem lease_exclusive:
  assumes "distinct (map l_Job rows)" "Acquire rows job owner leaseUntil now = (rows1, True)"
    and "list_all (\<lambda>c. call_owner c \<noteq> owner \<and> call_time c \<le> leaseUntil) cs" "other \<noteq> owner"
  shows "held (foldl (\<lambda>rows c. exec_lease job c rows) rows1 cs) job owner leaseUntil \<and>
    (snd (Acquire (foldl (\<lambda>rows c. exec_lease job c rows) rows1 cs) job other until' now') \<longleftrightarrow> leaseUntil < now')"
proof -
  let ?rows = "foldl (\<lambda>rows c. exec_lease job c rows) rows1 cs"
  have h: "held ?rows job owner leaseUntil"
    using Acquire_wins [OF assms(1,2)] assms(3) by (induction cs arbitrary: rows1) (auto intro: held_others)
  then have ex: "\<exists>l \<in> set ?rows. l_Job l = job" by (simp add: held_def)
  have "snd (Acquire ?rows job other until' now') \<longleftrightarrow> (\<exists>l \<in> set ?rows. l_Job l = job \<and> (l_Owner l = other \<or> l_Until l < now'))"
    unfolding Acquire_def Let_def if_P [OF ex] by (auto simp: affected_def filter_empty_conv)
  also have "\<dots> \<longleftrightarrow> leaseUntil < now'" using h assms(4) by (auto simp: held_def)
  finally show ?thesis using h by simp
qed

theorem lease_exclusive_witness:
  "\<not> snd (Acquire [\<lparr>l_Job = ''j'', l_Owner = ''a'', l_Until = 10\<rparr>] ''j'' ''b'' 20 10)"
  using lease_exclusive [of "[]" "''j''" "''a''" 10 0 "[\<lparr>l_Job = ''j'', l_Owner = ''a'', l_Until = 10\<rparr>]" "[]" "''b''" 20 10]
  by (simp add: Acquire_def update_where_def affected_def)
end
