(* ===== verification/Utxo_Types.thy ===== *)
theory Utxo_Types
  imports Arcade_Prelude
begin

text \<open>
  The vocabulary every store backend shares, from \<open>src/pkg/utxostore\<close>: the coin row and the batch
  items of \<open>types.go\<close>, the input validation of \<open>validate.go\<close> and the error taxonomy of
  \<open>errors.go\<close>.  An error value is a constructor; its rendered text is not modelled.
\<close>

section \<open>types.go\<close>

type_synonym tier = u8

definition TierSending :: tier where "TierSending = 1"
definition TierUnproven :: tier where "TierUnproven = 2"
definition TierMined :: tier where "TierMined = 3"

definition DefaultP2PKHInputSize :: u32 where "DefaultP2PKHInputSize = 107"

definition Valid :: "tier \<Rightarrow> bool" where
  "Valid t \<longleftrightarrow> TierSending \<le> t \<and> t \<le> TierMined"

text \<open>\<open>Outpoint\<close>: the minting transaction and the output index; comparable, used as a map key.\<close>

datatype outpoint = Outpoint (op_TxID: hash) (op_Vout: u32)

record scope =
  sc_UserID :: int
  sc_Basket :: string
  sc_Tier :: tier

text \<open>\<open>UTXO\<close>; \<open>ReservedBy = ""\<close> means claimable, \<open>SpentBy = nil\<close> is \<^term>\<open>None\<close>.\<close>

record utxo =
  u_Outpoint :: outpoint
  u_UserID :: int
  u_Basket :: string
  u_Satoshis :: u64
  u_InputSize :: u32
  u_Tier :: tier
  u_ReservedBy :: string
  u_ReservedAt :: time
  u_SpentBy :: "hash option"
  u_Frozen :: bool
  u_Pinned :: bool
  u_CreatedAt :: time

record mint =
  m_Outpoint :: outpoint
  m_UserID :: int
  m_Basket :: string
  m_Satoshis :: u64
  m_InputSize :: u32
  m_Tier :: tier

record spend_op =
  sp_Outpoint :: outpoint
  sp_Reservation :: string
  sp_SpendingTxID :: hash

text \<open>\<open>Balance\<close>: an absent key of a Go map reads as zero, so the maps are total functions.\<close>

record balance =
  b_Claimable :: "tier \<Rightarrow> u64"
  b_Reserved :: u64
  b_ClaimableCount :: "tier \<Rightarrow> nat"
  b_ReservedCount :: nat

record reservation_ref =
  rr_Reservation :: string
  rr_UserID :: int
  rr_ReservedAt :: time
  rr_Outpoints :: "outpoint list"

record remove_by_mint_report =
  rep_Removed :: "outpoint list"
  rep_AlreadyReserved :: "reservation_ref list"
  rep_AlreadySpentBy :: "hash list"

section \<open>errors.go\<close>

text \<open>Programmer errors of \<open>validate.go\<close>: plain errors, one constructor per message.\<close>

datatype plain_error =
    EmptyReservation
  | BadScopeUser
  | EmptyScopeBasket
  | BadScopeTier tier
  | EmptyOps
  | MintBadUser outpoint
  | MintEmptyBasket outpoint
  | MintBadTier outpoint tier
  | SpendEmptyReservation outpoint
  | NotMintOutput outpoint hash
  | BadTargetTier tier

datatype item_error =
    NotFoundError outpoint
  | AlreadyExistsError outpoint
  | ReservedError outpoint string
  | SpentError outpoint hash
  | FrozenError outpoint
  | ItemPlain plain_error

text \<open>
  What a method returns as its error.  \<open>ErrBatchJoin\<close> and \<open>ErrBatchCount\<close> are the two shapes of
  \<open>ErrBatch\<close>: with the item errors joined, and with the count of failed items.
\<close>

datatype store_error =
    ErrClosed
  | Plain plain_error
  | NotFound outpoint
  | ErrBatchJoin "item_error list"
  | ErrBatchCount nat nat
  | ErrContention

definition JoinBatch :: "item_error list \<Rightarrow> store_error option" where
  "JoinBatch itemErrs = (if itemErrs = [] then None else Some (ErrBatchJoin itemErrs))"

definition BatchCountErr :: "nat \<Rightarrow> nat \<Rightarrow> store_error option" where
  "BatchCountErr failed items = (if failed = 0 then None else Some (ErrBatchCount failed items))"

section \<open>validate.go\<close>

text \<open>A validator returns \<^term>\<open>None\<close> for Go's \<open>nil\<close>.\<close>

definition ValidateReservation :: "string \<Rightarrow> plain_error option" where
  "ValidateReservation reservation = (if reservation = '''' then Some EmptyReservation else None)"

definition ValidateScope :: "scope \<Rightarrow> plain_error option" where
  "ValidateScope sc =
     (if sc_UserID sc \<le> 0 then Some BadScopeUser
      else if sc_Basket sc = '''' then Some EmptyScopeBasket
      else if \<not> Valid (sc_Tier sc) then Some (BadScopeTier (sc_Tier sc))
      else None)"

definition ValidateClaim :: "scope \<Rightarrow> string \<Rightarrow> plain_error option" where
  "ValidateClaim sc reservation =
     (case ValidateReservation reservation of Some e \<Rightarrow> Some e | None \<Rightarrow> ValidateScope sc)"

definition ValidateReserveOutpoints :: "string \<Rightarrow> outpoint list \<Rightarrow> plain_error option" where
  "ValidateReserveOutpoints reservation ops =
     (case ValidateReservation reservation of
        Some e \<Rightarrow> Some e
      | None \<Rightarrow> if length ops = 0 then Some EmptyOps else None)"

definition ValidateMint :: "mint \<Rightarrow> plain_error option" where
  "ValidateMint m =
     (if m_UserID m \<le> 0 then Some (MintBadUser (m_Outpoint m))
      else if m_Basket m = '''' then Some (MintEmptyBasket (m_Outpoint m))
      else if \<not> Valid (m_Tier m) then Some (MintBadTier (m_Outpoint m) (m_Tier m))
      else None)"

definition ValidateSpend :: "spend_op \<Rightarrow> plain_error option" where
  "ValidateSpend sp =
     (if sp_Reservation sp = '''' then Some (SpendEmptyReservation (sp_Outpoint sp)) else None)"

fun ValidateMintOutpoints :: "hash \<Rightarrow> outpoint list \<Rightarrow> plain_error option" where
  "ValidateMintOutpoints mintTxID [] = None"
| "ValidateMintOutpoints mintTxID (op # ops) =
     (if op_TxID op \<noteq> mintTxID then Some (NotMintOutput op mintTxID)
      else ValidateMintOutpoints mintTxID ops)"

section \<open>Facts\<close>

lemma ValidateClaim_None:
  "ValidateClaim sc reservation = None \<longleftrightarrow>
     reservation \<noteq> '''' \<and> 0 < sc_UserID sc \<and> sc_Basket sc \<noteq> '''' \<and> Valid (sc_Tier sc)"
  by (auto simp: ValidateClaim_def ValidateReservation_def ValidateScope_def)

lemma ValidateMint_None:
  "ValidateMint m = None \<longleftrightarrow> 0 < m_UserID m \<and> m_Basket m \<noteq> '''' \<and> Valid (m_Tier m)"
  by (auto simp: ValidateMint_def)

lemma ValidateReservation_None: "ValidateReservation r = None \<longleftrightarrow> r \<noteq> ''''"
  by (simp add: ValidateReservation_def)

lemma ValidateReserveOutpoints_None:
  "ValidateReserveOutpoints r ops = None \<longleftrightarrow> r \<noteq> '''' \<and> ops \<noteq> []"
  by (simp add: ValidateReserveOutpoints_def ValidateReservation_def)

lemma ValidateSpend_None: "ValidateSpend sp = None \<longleftrightarrow> sp_Reservation sp \<noteq> ''''"
  by (simp add: ValidateSpend_def)

lemma ValidateMintOutpoints_None:
  "ValidateMintOutpoints h ops = None \<longleftrightarrow> (\<forall>op \<in> set ops. op_TxID op = h)"
  by (induction ops) auto

lemmas validate_None = ValidateClaim_None ValidateMint_None ValidateReservation_None
  ValidateReserveOutpoints_None ValidateSpend_None ValidateMintOutpoints_None

lemma Valid_cases: "Valid t \<longleftrightarrow> t = TierSending \<or> t = TierUnproven \<or> t = TierMined"
proof -
  have "(1 \<le> t \<and> t \<le> 3) \<longleftrightarrow> (1 \<le> unat t \<and> unat t \<le> 3)" by (simp add: word_le_nat_alt)
  also have "\<dots> \<longleftrightarrow> unat t = unat (1::u8) \<or> unat t = unat (2::u8) \<or> unat t = unat (3::u8)" by auto
  also have "\<dots> \<longleftrightarrow> t = 1 \<or> t = 2 \<or> t = 3" by (simp only: word_unat_eq_iff)
  finally show ?thesis
    by (simp add: Valid_def TierSending_def TierUnproven_def TierMined_def)
qed

end
