(* ===== verification/Memstore.thy ===== *)
theory Memstore
  imports Utxo_Types
begin

text \<open>
  The reference store \<open>src/pkg/utxostore/memstore/memstore.go\<close>.  Every method is one critical
  section under \<open>s.mu\<close>, so a method is a function from the store to the store and its result.
  A pointer \<open>*row\<close> into \<open>s.rows\<close> is the key of the row.  \<open>s.now\<close> is the function \<open>s_now\<close> of the
  number of clock readings so far: nothing is assumed of the times it returns.  The insertion
  counter is a \<^typ>\<open>nat\<close>: the 64-bit counter of the source would need \<open>2^64\<close> mints to wrap.
\<close>

section \<open>State\<close>

record row =
  r_utxo :: utxo
  r_seq :: nat

record store =
  s_rows :: "(outpoint \<times> row) list"
  s_nextSeq :: nat
  s_closed :: bool
  s_now :: "nat \<Rightarrow> time"
  s_ticks :: nat

definition New :: "(nat \<Rightarrow> time) \<Rightarrow> store" where
  "New now = \<lparr>s_rows = [], s_nextSeq = 0, s_closed = False, s_now = now, s_ticks = 0\<rparr>"

text \<open>One reading of the clock: the time, and the store after it.\<close>

definition now_time :: "store \<Rightarrow> time" where
  "now_time s = s_now s (s_ticks s)"

definition ticked :: "store \<Rightarrow> store" where
  "ticked s = s\<lparr>s_ticks := Suc (s_ticks s)\<rparr>"

definition Health :: "store \<Rightarrow> bool \<Rightarrow> nat \<times> string \<times> store_error option" where
  "Health s checkLiveness =
     (if s_closed s then (503, ''closed'', Some ErrClosed) else (200, ''OK'', None))"

section \<open>Inventory\<close>

definition same_identity :: "utxo \<Rightarrow> mint \<Rightarrow> bool" where
  "same_identity u m \<longleftrightarrow> u_UserID u = m_UserID m \<and> u_Basket u = m_Basket m \<and>
     u_Satoshis u = m_Satoshis m \<and> u_InputSize u = m_InputSize m"

definition minted :: "mint \<Rightarrow> time \<Rightarrow> utxo" where
  "minted m t = \<lparr>u_Outpoint = m_Outpoint m, u_UserID = m_UserID m, u_Basket = m_Basket m,
     u_Satoshis = m_Satoshis m, u_InputSize = m_InputSize m, u_Tier = m_Tier m,
     u_ReservedBy = '''', u_ReservedAt = zero_time, u_SpentBy = None,
     u_Frozen = False, u_Pinned = False, u_CreatedAt = t\<rparr>"

definition mintOne :: "store \<Rightarrow> mint \<Rightarrow> store \<times> item_error option" where
  "mintOne s m =
     (case ValidateMint m of
        Some e \<Rightarrow> (s, Some (ItemPlain e))
      | None \<Rightarrow>
         (case map_of (s_rows s) (m_Outpoint m) of
            Some existing \<Rightarrow>
              if same_identity (r_utxo existing) m then (s, None)
              else (s, Some (AlreadyExistsError (m_Outpoint m)))
          | None \<Rightarrow>
              (let seq = Suc (s_nextSeq s);
                   r = \<lparr>r_utxo = minted m (now_time s), r_seq = seq\<rparr>
               in ((ticked s)\<lparr>s_nextSeq := seq, s_rows := s_rows s @ [(m_Outpoint m, r)]\<rparr>, None))))"

text \<open>The batch: every item is tried; its error goes to the item's own \<open>Err\<close> slot.\<close>

fun mintLoop :: "store \<Rightarrow> mint list \<Rightarrow> store \<times> item_error option list" where
  "mintLoop s [] = (s, [])"
| "mintLoop s (m # ms) =
     (let (s', e) = mintOne s m; (s'', es) = mintLoop s' ms in (s'', e # es))"

definition failures :: "item_error option list \<Rightarrow> nat" where
  "failures es = length (filter (\<lambda>e. e \<noteq> None) es)"

definition Mint :: "store \<Rightarrow> mint list \<Rightarrow> store \<times> item_error option list \<times> store_error option" where
  "Mint s mints =
     (if s_closed s then (s, [], Some ErrClosed)
      else let (s', errs) = mintLoop s mints
           in (s', errs, BatchCountErr (failures errs) (length mints)))"

definition Get :: "store \<Rightarrow> outpoint \<Rightarrow> store_error + utxo" where
  "Get s op =
     (if s_closed s then Inl ErrClosed
      else case map_of (s_rows s) op of None \<Rightarrow> Inl (NotFound op) | Some r \<Rightarrow> Inr (r_utxo r))"

definition refuse_remove :: "outpoint \<Rightarrow> utxo \<Rightarrow> item_error option" where
  "refuse_remove op u =
     (case u_SpentBy u of
        Some w \<Rightarrow> Some (SpentError op w)
      | None \<Rightarrow>
          if u_ReservedBy u \<noteq> '''' then Some (ReservedError op (u_ReservedBy u))
          else if u_Frozen u then Some (FrozenError op)
          else None)"

fun removeLoop ::
    "(outpoint \<times> row) list \<Rightarrow> outpoint list \<Rightarrow> bool \<Rightarrow> (outpoint \<times> row) list \<times> item_error list" where
  "removeLoop rs [] force = (rs, [])"
| "removeLoop rs (op # ops) force =
     (case map_of rs op of
        None \<Rightarrow> removeLoop rs ops force
      | Some r \<Rightarrow>
          (case (if force then None else refuse_remove op (r_utxo r)) of
             Some e \<Rightarrow> (let (rs', es) = removeLoop rs ops force in (rs', e # es))
           | None \<Rightarrow> removeLoop (del_key op rs) ops force))"

definition Remove :: "store \<Rightarrow> outpoint list \<Rightarrow> bool \<Rightarrow> store \<times> store_error option" where
  "Remove s ops force =
     (if s_closed s then (s, Some ErrClosed)
      else let (rs, itemErrs) = removeLoop (s_rows s) ops force
           in (s\<lparr>s_rows := rs\<rparr>, JoinBatch itemErrs))"

section \<open>Claims\<close>

definition claimable :: "row \<Rightarrow> scope \<Rightarrow> bool" where
  "claimable r sc = (let u = r_utxo r in
     u_UserID u = sc_UserID sc \<and> u_Basket u = sc_Basket sc \<and> u_Tier u = sc_Tier sc \<and>
     u_ReservedBy u = '''' \<and> u_SpentBy u = None \<and> \<not> u_Frozen u)"

definition set_reserved :: "string \<Rightarrow> time \<Rightarrow> row \<Rightarrow> row" where
  "set_reserved reservation t r =
     r\<lparr>r_utxo := (r_utxo r)\<lparr>u_ReservedBy := reservation, u_ReservedAt := t\<rparr>\<rparr>"

text \<open>\<open>reserve\<close> stamps the row at a key and returns a copy of the stamped coin.\<close>

definition reserve :: "store \<Rightarrow> outpoint \<times> row \<Rightarrow> string \<Rightarrow> store \<times> utxo" where
  "reserve s kr reservation =
     (let r' = set_reserved reservation (now_time s) (snd kr)
      in ((ticked s)\<lparr>s_rows := upd_key (fst kr) (set_reserved reservation (now_time s)) (s_rows s)\<rparr>,
          r_utxo r'))"

fun reserveLoop :: "store \<Rightarrow> (outpoint \<times> row) list \<Rightarrow> string \<Rightarrow> store \<times> utxo list" where
  "reserveLoop s [] reservation = (s, [])"
| "reserveLoop s (kr # krs) reservation =
     (let (s', u) = reserve s kr reservation; (s'', us) = reserveLoop s' krs reservation
      in (s'', u # us))"

text \<open>The scan of \<open>ClaimSmallestSufficient\<close> over the rows, with the best row so far.\<close>

definition better :: "outpoint \<times> row \<Rightarrow> outpoint \<times> row \<Rightarrow> bool" where
  "better a b \<longleftrightarrow>
     u_Satoshis (r_utxo (snd a)) < u_Satoshis (r_utxo (snd b)) \<or>
     (u_Satoshis (r_utxo (snd a)) = u_Satoshis (r_utxo (snd b)) \<and> r_seq (snd a) < r_seq (snd b))"

fun bestLoop ::
    "scope \<Rightarrow> u64 \<Rightarrow> (outpoint \<times> row) list \<Rightarrow> (outpoint \<times> row) option \<Rightarrow> (outpoint \<times> row) option" where
  "bestLoop sc minSats [] best = best"
| "bestLoop sc minSats (kr # rs) best =
     bestLoop sc minSats rs
       (if \<not> claimable (snd kr) sc \<or> u_Satoshis (r_utxo (snd kr)) < minSats then best
        else case best of None \<Rightarrow> Some kr | Some b \<Rightarrow> if better kr b then Some kr else best)"

definition ClaimSmallestSufficient ::
    "store \<Rightarrow> scope \<Rightarrow> string \<Rightarrow> u64 \<Rightarrow> store \<times> (store_error + utxo option)" where
  "ClaimSmallestSufficient s sc reservation minSats =
     (if s_closed s then (s, Inl ErrClosed)
      else case ValidateClaim sc reservation of
        Some e \<Rightarrow> (s, Inl (Plain e))
      | None \<Rightarrow>
          (case bestLoop sc minSats (s_rows s) None of
             None \<Rightarrow> (s, Inr None)
           | Some kr \<Rightarrow> (let (s', u) = reserve s kr reservation in (s', Inr (Some u)))))"

text \<open>Largest first, ties newest first; and, for \<open>ClaimExact\<close>, oldest first.\<close>

definition desc_key :: "outpoint \<times> row \<Rightarrow> int \<times> int" where
  "desc_key kr = (- uint (u_Satoshis (r_utxo (snd kr))), - int (r_seq (snd kr)))"

definition seq_key :: "outpoint \<times> row \<Rightarrow> nat" where
  "seq_key kr = r_seq (snd kr)"

definition ClaimLargestInsufficient ::
    "store \<Rightarrow> scope \<Rightarrow> string \<Rightarrow> u64 \<Rightarrow> int \<Rightarrow> store \<times> (store_error + utxo list)" where
  "ClaimLargestInsufficient s sc reservation capSats limit =
     (if s_closed s then (s, Inl ErrClosed)
      else case ValidateClaim sc reservation of
        Some e \<Rightarrow> (s, Inl (Plain e))
      | None \<Rightarrow>
          if limit \<le> 0 then (s, Inr [])
          else
            (let candidates = filter (\<lambda>kr. claimable (snd kr) sc \<and> u_Satoshis (r_utxo (snd kr)) < capSats) (s_rows s);
                 picked = take (nat (min limit (int (length candidates)))) (sort_key desc_key candidates);
                 (s', us) = reserveLoop s picked reservation
             in (s', Inr us)))"

definition ClaimExact ::
    "store \<Rightarrow> scope \<Rightarrow> string \<Rightarrow> u64 \<Rightarrow> int \<Rightarrow> store \<times> (store_error + utxo list)" where
  "ClaimExact s sc reservation denomination cnt =
     (if s_closed s then (s, Inl ErrClosed)
      else case ValidateClaim sc reservation of
        Some e \<Rightarrow> (s, Inl (Plain e))
      | None \<Rightarrow>
          if cnt \<le> 0 then (s, Inr [])
          else
            (let candidates = filter (\<lambda>kr. claimable (snd kr) sc \<and> u_Satoshis (r_utxo (snd kr)) = denomination) (s_rows s);
                 picked = take (nat (min cnt (int (length candidates)))) (sort_key seq_key candidates);
                 (s', us) = reserveLoop s picked reservation
             in (s', Inr us)))"

section \<open>Reserving named coins\<close>

fun distinctLoop :: "outpoint list \<Rightarrow> outpoint list \<Rightarrow> outpoint list" where
  "distinctLoop seen [] = []"
| "distinctLoop seen (op # ops) =
     (if op \<in> set seen then distinctLoop seen ops else op # distinctLoop (op # seen) ops)"

definition distinctOutpoints :: "outpoint list \<Rightarrow> outpoint list" where
  "distinctOutpoints ops = distinctLoop [] ops"

text \<open>The classification of one named outpoint: refused, already held by this token, or to stamp.\<close>

datatype reserve_class = Refused item_error | Satisfied | ToStamp

definition classifyReserve :: "(outpoint \<times> row) list \<Rightarrow> int \<Rightarrow> string \<Rightarrow> outpoint \<Rightarrow> reserve_class" where
  "classifyReserve rs userID reservation op =
     (case map_of rs op of
        None \<Rightarrow> Refused (NotFoundError op)
      | Some r \<Rightarrow>
          if u_UserID (r_utxo r) \<noteq> userID then Refused (NotFoundError op)
          else case u_SpentBy (r_utxo r) of
            Some w \<Rightarrow> Refused (SpentError op w)
          | None \<Rightarrow>
              if u_ReservedBy (r_utxo r) \<noteq> '''' \<and> u_ReservedBy (r_utxo r) \<noteq> reservation
              then Refused (ReservedError op (u_ReservedBy (r_utxo r)))
              else if u_Frozen (r_utxo r) then Refused (FrozenError op)
              else if u_ReservedBy (r_utxo r) = reservation then Satisfied
              else ToStamp)"

fun classifyLoop ::
    "(outpoint \<times> row) list \<Rightarrow> int \<Rightarrow> string \<Rightarrow> outpoint list \<Rightarrow> item_error list \<times> outpoint list" where
  "classifyLoop rs userID reservation [] = ([], [])"
| "classifyLoop rs userID reservation (op # ops) =
     (let (es, st) = classifyLoop rs userID reservation ops
      in case classifyReserve rs userID reservation op of
           Refused e \<Rightarrow> (e # es, st)
         | Satisfied \<Rightarrow> (es, st)
         | ToStamp \<Rightarrow> (es, op # st))"

fun stampLoop :: "(outpoint \<times> row) list \<Rightarrow> string \<Rightarrow> time \<Rightarrow> outpoint list \<Rightarrow> (outpoint \<times> row) list" where
  "stampLoop rs reservation t [] = rs"
| "stampLoop rs reservation t (op # ops) =
     stampLoop (upd_key op (set_reserved reservation t) rs) reservation t ops"

definition ReserveOutpoints ::
    "store \<Rightarrow> int \<Rightarrow> string \<Rightarrow> outpoint list \<Rightarrow> store \<times> store_error option" where
  "ReserveOutpoints s userID reservation ops =
     (if s_closed s then (s, Some ErrClosed)
      else case ValidateReserveOutpoints reservation ops of
        Some e \<Rightarrow> (s, Some (Plain e))
      | None \<Rightarrow>
          (let (itemErrs, toStamp) =
                 classifyLoop (s_rows s) userID reservation (distinctOutpoints ops)
           in if 0 < length itemErrs then (s, JoinBatch itemErrs)
              else ((ticked s)\<lparr>s_rows := stampLoop (s_rows s) reservation (now_time s) toStamp\<rparr>, None)))"

section \<open>Releases and the pin\<close>

definition heldBy :: "row \<Rightarrow> int \<Rightarrow> string \<Rightarrow> bool" where
  "heldBy r userID reservation \<longleftrightarrow>
     u_UserID (r_utxo r) = userID \<and> u_ReservedBy (r_utxo r) = reservation \<and> u_SpentBy (r_utxo r) = None"

definition count_rows :: "(row \<Rightarrow> bool) \<Rightarrow> (outpoint \<times> row) list \<Rightarrow> nat" where
  "count_rows p rs = length (filter (\<lambda>kr. p (snd kr)) rs)"

definition clear_reservation :: "row \<Rightarrow> row" where
  "clear_reservation r =
     r\<lparr>r_utxo := (r_utxo r)\<lparr>u_ReservedBy := '''', u_ReservedAt := zero_time\<rparr>\<rparr>"

definition ReleaseReservation :: "store \<Rightarrow> int \<Rightarrow> string \<Rightarrow> store \<times> (store_error + nat)" where
  "ReleaseReservation s userID reservation =
     (if s_closed s then (s, Inl ErrClosed)
      else case ValidateReservation reservation of
        Some e \<Rightarrow> (s, Inl (Plain e))
      | None \<Rightarrow>
          (let hit = (\<lambda>r. heldBy r userID reservation \<and> \<not> u_Pinned (r_utxo r))
           in (s\<lparr>s_rows := upd_all (\<lambda>r. if hit r then clear_reservation r else r) (s_rows s)\<rparr>,
               Inr (count_rows hit (s_rows s)))))"

definition set_pin :: "bool \<Rightarrow> row \<Rightarrow> row" where
  "set_pin pinned r = r\<lparr>r_utxo := (r_utxo r)\<lparr>u_Pinned := pinned\<rparr>\<rparr>"

definition setPinned :: "store \<Rightarrow> int \<Rightarrow> string \<Rightarrow> bool \<Rightarrow> store \<times> (store_error + nat)" where
  "setPinned s userID reservation pinned =
     (if s_closed s then (s, Inl ErrClosed)
      else case ValidateReservation reservation of
        Some e \<Rightarrow> (s, Inl (Plain e))
      | None \<Rightarrow>
          (let hit = (\<lambda>r. \<not> (\<not> heldBy r userID reservation \<or> u_Pinned (r_utxo r) = pinned))
           in (s\<lparr>s_rows := upd_all (\<lambda>r. if hit r then set_pin pinned r else r) (s_rows s)\<rparr>,
               Inr (count_rows hit (s_rows s)))))"

definition Pin :: "store \<Rightarrow> int \<Rightarrow> string \<Rightarrow> store \<times> (store_error + nat)" where
  "Pin s userID reservation = setPinned s userID reservation True"

definition Unpin :: "store \<Rightarrow> int \<Rightarrow> string \<Rightarrow> store \<times> (store_error + nat)" where
  "Unpin s userID reservation = setPinned s userID reservation False"

fun releaseLoop :: "(outpoint \<times> row) list \<Rightarrow> string \<Rightarrow> outpoint list \<Rightarrow> (outpoint \<times> row) list" where
  "releaseLoop rs reservation [] = rs"
| "releaseLoop rs reservation (op # ops) =
     (case map_of rs op of
        None \<Rightarrow> releaseLoop rs reservation ops
      | Some r \<Rightarrow>
          if u_ReservedBy (r_utxo r) \<noteq> reservation \<or> u_SpentBy (r_utxo r) \<noteq> None
          then releaseLoop rs reservation ops
          else releaseLoop (upd_key op (\<lambda>r. set_pin False (clear_reservation r)) rs) reservation ops)"

definition ReleaseOutpoints :: "store \<Rightarrow> string \<Rightarrow> outpoint list \<Rightarrow> store \<times> store_error option" where
  "ReleaseOutpoints s reservation ops =
     (if s_closed s then (s, Some ErrClosed)
      else case ValidateReservation reservation of
        Some e \<Rightarrow> (s, Some (Plain e))
      | None \<Rightarrow> (s\<lparr>s_rows := releaseLoop (s_rows s) reservation ops\<rparr>, None))"

section \<open>Spends\<close>

definition set_spent :: "hash \<Rightarrow> row \<Rightarrow> row" where
  "set_spent txid r = r\<lparr>r_utxo := (r_utxo r)\<lparr>u_SpentBy := Some txid, u_Pinned := False\<rparr>\<rparr>"

definition spendOne ::
    "(outpoint \<times> row) list \<Rightarrow> spend_op \<Rightarrow> bool \<Rightarrow> (outpoint \<times> row) list \<times> item_error option" where
  "spendOne rs sp force =
     (case ValidateSpend sp of
        Some e \<Rightarrow> (rs, Some (ItemPlain e))
      | None \<Rightarrow>
         (case map_of rs (sp_Outpoint sp) of
            None \<Rightarrow> (rs, Some (NotFoundError (sp_Outpoint sp)))
          | Some r \<Rightarrow>
             (case u_SpentBy (r_utxo r) of
                Some w \<Rightarrow> if w = sp_SpendingTxID sp then (rs, None)
                          else (rs, Some (SpentError (sp_Outpoint sp) w))
              | None \<Rightarrow>
                  if \<not> force \<and> u_Frozen (r_utxo r) then (rs, Some (FrozenError (sp_Outpoint sp)))
                  else if \<not> force \<and> u_ReservedBy (r_utxo r) \<noteq> sp_Reservation sp
                  then (rs, Some (ReservedError (sp_Outpoint sp) (u_ReservedBy (r_utxo r))))
                  else (upd_key (sp_Outpoint sp) (set_spent (sp_SpendingTxID sp)) rs, None))))"

fun spendLoop ::
    "(outpoint \<times> row) list \<Rightarrow> spend_op list \<Rightarrow> bool \<Rightarrow> (outpoint \<times> row) list \<times> item_error option list" where
  "spendLoop rs [] force = (rs, [])"
| "spendLoop rs (sp # sps) force =
     (let (rs', e) = spendOne rs sp force; (rs'', es) = spendLoop rs' sps force in (rs'', e # es))"

definition Spend ::
    "store \<Rightarrow> spend_op list \<Rightarrow> bool \<Rightarrow> store \<times> item_error option list \<times> store_error option" where
  "Spend s spends force =
     (if s_closed s then (s, [], Some ErrClosed)
      else let (rs, errs) = spendLoop (s_rows s) spends force
           in (s\<lparr>s_rows := rs\<rparr>, errs, BatchCountErr (failures errs) (length spends)))"

definition set_unspent :: "row \<Rightarrow> row" where
  "set_unspent r = r\<lparr>r_utxo := (r_utxo r)\<lparr>u_SpentBy := None, u_ReservedBy := '''',
     u_ReservedAt := zero_time, u_Pinned := False\<rparr>\<rparr>"

fun unspendLoop :: "(outpoint \<times> row) list \<Rightarrow> hash \<Rightarrow> outpoint list \<Rightarrow> (outpoint \<times> row) list \<times> nat" where
  "unspendLoop rs txid [] = (rs, 0)"
| "unspendLoop rs txid (op # ops) =
     (case map_of rs op of
        None \<Rightarrow> unspendLoop rs txid ops
      | Some r \<Rightarrow>
          if u_SpentBy (r_utxo r) \<noteq> Some txid then unspendLoop rs txid ops
          else (let (rs', n) = unspendLoop (upd_key op set_unspent rs) txid ops in (rs', Suc n)))"

definition Unspend :: "store \<Rightarrow> hash \<Rightarrow> outpoint list \<Rightarrow> store \<times> (store_error + nat)" where
  "Unspend s spendingTxID ops =
     (if s_closed s then (s, Inl ErrClosed)
      else let (rs, n) = unspendLoop (s_rows s) spendingTxID ops in (s\<lparr>s_rows := rs\<rparr>, Inr n))"

definition RemoveSpentBy :: "store \<Rightarrow> hash \<Rightarrow> store \<times> (store_error + nat)" where
  "RemoveSpentBy s spendingTxID =
     (if s_closed s then (s, Inl ErrClosed)
      else let hit = (\<lambda>r. u_SpentBy (r_utxo r) = Some spendingTxID)
           in (s\<lparr>s_rows := del_if hit (s_rows s)\<rparr>, Inr (count_rows hit (s_rows s))))"

section \<open>Tiers, invalidated mints, holds\<close>

definition set_tier :: "tier \<Rightarrow> row \<Rightarrow> row" where
  "set_tier t r = r\<lparr>r_utxo := (r_utxo r)\<lparr>u_Tier := t\<rparr>\<rparr>"

fun promoteLoop :: "(outpoint \<times> row) list \<Rightarrow> outpoint list \<Rightarrow> tier \<Rightarrow> (outpoint \<times> row) list \<times> nat" where
  "promoteLoop rs [] to = (rs, 0)"
| "promoteLoop rs (op # ops) to =
     (case map_of rs op of
        None \<Rightarrow> promoteLoop rs ops to
      | Some r \<Rightarrow>
          if u_Tier (r_utxo r) = to then promoteLoop rs ops to
          else (let (rs', n) = promoteLoop (upd_key op (set_tier to) rs) ops to in (rs', Suc n)))"

definition Promote :: "store \<Rightarrow> outpoint list \<Rightarrow> tier \<Rightarrow> store \<times> (store_error + nat)" where
  "Promote s ops to =
     (if s_closed s then (s, Inl ErrClosed)
      else if \<not> Valid to then (s, Inl (Plain (BadTargetTier to)))
      else let (rs, n) = promoteLoop (s_rows s) ops to in (s\<lparr>s_rows := rs\<rparr>, Inr n))"

text \<open>
  \<open>RemoveByMintTx\<close>.  The report under construction carries the references in first-seen order
  (\<open>reservedRefs\<close> and \<open>refOrder\<close> of the source), and \<open>seenSpenders\<close> holds exactly the
  transactions already listed in \<open>AlreadySpentBy\<close>.
\<close>

fun addRef :: "reservation_ref list \<Rightarrow> outpoint \<Rightarrow> utxo \<Rightarrow> reservation_ref list" where
  "addRef [] op u = [\<lparr>rr_Reservation = u_ReservedBy u, rr_UserID = u_UserID u,
     rr_ReservedAt = u_ReservedAt u, rr_Outpoints = [op]\<rparr>]"
| "addRef (ref # refs) op u =
     (if rr_Reservation ref = u_ReservedBy u
      then ref\<lparr>rr_ReservedAt := (if u_ReservedAt u < rr_ReservedAt ref then u_ReservedAt u else rr_ReservedAt ref),
               rr_Outpoints := rr_Outpoints ref @ [op]\<rparr> # refs
      else ref # addRef refs op u)"

fun removeMintLoop ::
    "(outpoint \<times> row) list \<Rightarrow> remove_by_mint_report \<Rightarrow> outpoint list
      \<Rightarrow> (outpoint \<times> row) list \<times> remove_by_mint_report" where
  "removeMintLoop rs rep [] = (rs, rep)"
| "removeMintLoop rs rep (op # ops) =
     (case map_of rs op of
        None \<Rightarrow> removeMintLoop rs rep ops
      | Some r \<Rightarrow>
          (case u_SpentBy (r_utxo r) of
             Some w \<Rightarrow>
               removeMintLoop rs
                 (if w \<in> set (rep_AlreadySpentBy rep) then rep
                  else rep\<lparr>rep_AlreadySpentBy := rep_AlreadySpentBy rep @ [w]\<rparr>) ops
           | None \<Rightarrow>
               if u_ReservedBy (r_utxo r) \<noteq> ''''
               then removeMintLoop rs (rep\<lparr>rep_AlreadyReserved := addRef (rep_AlreadyReserved rep) op (r_utxo r)\<rparr>) ops
               else removeMintLoop (del_key op rs) (rep\<lparr>rep_Removed := rep_Removed rep @ [op]\<rparr>) ops))"

definition empty_report :: remove_by_mint_report where
  "empty_report = \<lparr>rep_Removed = [], rep_AlreadyReserved = [], rep_AlreadySpentBy = []\<rparr>"

definition RemoveByMintTx ::
    "store \<Rightarrow> hash \<Rightarrow> outpoint list \<Rightarrow> store \<times> remove_by_mint_report \<times> store_error option" where
  "RemoveByMintTx s mintTxID ops =
     (if s_closed s then (s, empty_report, Some ErrClosed)
      else case ValidateMintOutpoints mintTxID ops of
        Some e \<Rightarrow> (s, empty_report, Some (Plain e))
      | None \<Rightarrow> (let (rs, rep) = removeMintLoop (s_rows s) empty_report ops in (s\<lparr>s_rows := rs\<rparr>, rep, None)))"

definition set_frozen :: "bool \<Rightarrow> row \<Rightarrow> row" where
  "set_frozen frozen r = r\<lparr>r_utxo := (r_utxo r)\<lparr>u_Frozen := frozen\<rparr>\<rparr>"

fun frozenLoop ::
    "(outpoint \<times> row) list \<Rightarrow> outpoint list \<Rightarrow> bool \<Rightarrow> (outpoint \<times> row) list \<times> item_error list" where
  "frozenLoop rs [] frozen = (rs, [])"
| "frozenLoop rs (op # ops) frozen =
     (case map_of rs op of
        None \<Rightarrow> (let (rs', es) = frozenLoop rs ops frozen in (rs', NotFoundError op # es))
      | Some r \<Rightarrow> frozenLoop (upd_key op (set_frozen frozen) rs) ops frozen)"

definition setFrozen :: "store \<Rightarrow> outpoint list \<Rightarrow> bool \<Rightarrow> store \<times> store_error option" where
  "setFrozen s ops frozen =
     (if s_closed s then (s, Some ErrClosed)
      else let (rs, itemErrs) = frozenLoop (s_rows s) ops frozen
           in (s\<lparr>s_rows := rs\<rparr>, JoinBatch itemErrs))"

definition Freeze :: "store \<Rightarrow> outpoint list \<Rightarrow> store \<times> store_error option" where
  "Freeze s ops = setFrozen s ops True"

definition Unfreeze :: "store \<Rightarrow> outpoint list \<Rightarrow> store \<times> store_error option" where
  "Unfreeze s ops = setFrozen s ops False"

section \<open>Queries\<close>

definition empty_balance :: balance where
  "empty_balance = \<lparr>b_Claimable = (\<lambda>_. 0), b_Reserved = 0, b_ClaimableCount = (\<lambda>_. 0), b_ReservedCount = 0\<rparr>"

definition addBalance :: "int \<Rightarrow> string \<Rightarrow> utxo \<Rightarrow> balance \<Rightarrow> balance" where
  "addBalance userID basket u b =
     (if u_UserID u \<noteq> userID \<or> u_Basket u \<noteq> basket \<or> u_SpentBy u \<noteq> None then b
      else if u_ReservedBy u \<noteq> ''''
      then b\<lparr>b_Reserved := b_Reserved b + u_Satoshis u, b_ReservedCount := Suc (b_ReservedCount b)\<rparr>
      else if \<not> u_Frozen u
      then b\<lparr>b_Claimable := (b_Claimable b)(u_Tier u := b_Claimable b (u_Tier u) + u_Satoshis u),
             b_ClaimableCount := (b_ClaimableCount b)(u_Tier u := Suc (b_ClaimableCount b (u_Tier u)))\<rparr>
      else b)"

fun balanceLoop :: "int \<Rightarrow> string \<Rightarrow> (outpoint \<times> row) list \<Rightarrow> balance \<Rightarrow> balance" where
  "balanceLoop userID basket [] b = b"
| "balanceLoop userID basket (kr # rs) b =
     balanceLoop userID basket rs (addBalance userID basket (r_utxo (snd kr)) b)"

definition Balance :: "store \<Rightarrow> int \<Rightarrow> string \<Rightarrow> balance \<times> store_error option" where
  "Balance s userID basket =
     (if s_closed s then (empty_balance, Some ErrClosed)
      else (balanceLoop userID basket (s_rows s) empty_balance, None))"

text \<open>A group of \<open>findStale\<close>: the reference and the least insertion number of its rows.\<close>

record stale_group =
  g_ref :: reservation_ref
  g_minSeq :: nat

fun addGroup :: "stale_group list \<Rightarrow> row \<Rightarrow> stale_group list" where
  "addGroup [] r = (let u = r_utxo r in
     [\<lparr>g_ref = \<lparr>rr_Reservation = u_ReservedBy u, rr_UserID = u_UserID u,
         rr_ReservedAt = u_ReservedAt u, rr_Outpoints = [u_Outpoint u]\<rparr>, g_minSeq = r_seq r\<rparr>])"
| "addGroup (g # gs) r = (let u = r_utxo r in
     if rr_UserID (g_ref g) = u_UserID u \<and> rr_Reservation (g_ref g) = u_ReservedBy u
     then \<lparr>g_ref = (g_ref g)\<lparr>rr_ReservedAt := (if u_ReservedAt u < rr_ReservedAt (g_ref g)
                                              then u_ReservedAt u else rr_ReservedAt (g_ref g)),
                           rr_Outpoints := rr_Outpoints (g_ref g) @ [u_Outpoint u]\<rparr>,
           g_minSeq = (if r_seq r < g_minSeq g then r_seq r else g_minSeq g)\<rparr> # gs
     else g # addGroup gs r)"

definition stale_row :: "bool \<Rightarrow> row \<Rightarrow> bool" where
  "stale_row includePinned r \<longleftrightarrow>
     \<not> (u_ReservedBy (r_utxo r) = '''' \<or> u_SpentBy (r_utxo r) \<noteq> None) \<and>
     \<not> (u_Pinned (r_utxo r) \<and> \<not> includePinned)"

fun groupLoop :: "bool \<Rightarrow> (outpoint \<times> row) list \<Rightarrow> stale_group list \<Rightarrow> stale_group list" where
  "groupLoop includePinned [] gs = gs"
| "groupLoop includePinned (kr # rs) gs =
     groupLoop includePinned rs (if stale_row includePinned (snd kr) then addGroup gs (snd kr) else gs)"

definition group_key :: "stale_group \<Rightarrow> time \<times> nat" where
  "group_key g = (rr_ReservedAt (g_ref g), g_minSeq g)"

definition findStale :: "store \<Rightarrow> time \<Rightarrow> int \<Rightarrow> bool \<Rightarrow> store_error + reservation_ref list" where
  "findStale s olderThan limit includePinned =
     (if s_closed s then Inl ErrClosed
      else if limit \<le> 0 then Inr []
      else
        (let groups = groupLoop includePinned (s_rows s) [];
             stale = filter (\<lambda>g. rr_ReservedAt (g_ref g) < olderThan) groups
         in Inr (map g_ref (take (nat (min limit (int (length stale)))) (sort_key group_key stale)))))"

definition FindStaleReservations :: "store \<Rightarrow> time \<Rightarrow> int \<Rightarrow> store_error + reservation_ref list" where
  "FindStaleReservations s olderThan limit = findStale s olderThan limit False"

definition FindStaleReservationsIncludingPinned ::
    "store \<Rightarrow> time \<Rightarrow> int \<Rightarrow> store_error + reservation_ref list" where
  "FindStaleReservationsIncludingPinned s olderThan limit = findStale s olderThan limit True"

definition Close :: "store \<Rightarrow> store" where
  "Close s = s\<lparr>s_closed := True\<rparr>"

end
