(* ===== verification/Memstore_Inv.thy ===== *)
theory Memstore_Inv
  imports Memstore
begin

text \<open>
  The invariant of the reference store and its preservation by every method: keys and insertion
  numbers are unique, every row is owned, tiered and filed under its own outpoint, and a pinned row
  is reserved and unspent.  \<open>call\<close> lists the methods that change the store; the reachable stores
  are those a sequence of calls produces from \<^const>\<open>New\<close>.
\<close>

section \<open>The invariant\<close>

definition row_wf :: "outpoint \<Rightarrow> row \<Rightarrow> bool" where
  "row_wf k r = (let u = r_utxo r in
     u_Outpoint u = k \<and> 0 < u_UserID u \<and> u_Basket u \<noteq> '''' \<and> Valid (u_Tier u) \<and>
     (u_Pinned u \<longrightarrow> u_ReservedBy u \<noteq> '''' \<and> u_SpentBy u = None) \<and>
     (u_ReservedBy u = '''' \<longrightarrow> u_ReservedAt u = zero_time))"

definition rows_inv :: "nat \<Rightarrow> (outpoint \<times> row) list \<Rightarrow> bool" where
  "rows_inv n rs \<longleftrightarrow> alist_wf rs \<and> distinct (map seq_key rs) \<and>
     (\<forall>(k, r) \<in> set rs. row_wf k r \<and> 0 < r_seq r \<and> r_seq r \<le> n)"

definition store_inv :: "store \<Rightarrow> bool" where
  "store_inv s \<longleftrightarrow> rows_inv (s_nextSeq s) (s_rows s)"

text \<open>The abstract content of a store: the coin at each outpoint.\<close>

definition coins :: "store \<Rightarrow> outpoint \<Rightarrow> utxo option" where
  "coins s op = map_option r_utxo (map_of (s_rows s) op)"

lemmas row_ops = set_reserved_def clear_reservation_def set_pin_def set_spent_def set_unspent_def
  set_tier_def set_frozen_def

lemma r_seq_row_ops [simp]:
  "r_seq (set_reserved t i r) = r_seq r" "r_seq (clear_reservation r) = r_seq r"
  "r_seq (set_pin p r) = r_seq r" "r_seq (set_spent h r) = r_seq r" "r_seq (set_unspent r) = r_seq r"
  "r_seq (set_tier t' r) = r_seq r" "r_seq (set_frozen f r) = r_seq r"
  by (simp_all add: row_ops)

lemma seq_key_upd_key: "(\<And>r. r_seq (f r) = r_seq r) \<Longrightarrow> map seq_key (upd_key k f rs) = map seq_key rs"
  by (induction rs) (auto simp: upd_key_def seq_key_def)

lemma seq_key_upd_all: "(\<And>r. r_seq (f r) = r_seq r) \<Longrightarrow> map seq_key (upd_all f rs) = map seq_key rs"
  by (induction rs) (auto simp: upd_all_def seq_key_def)

lemma rows_inv_lookup:
  "rows_inv n rs \<Longrightarrow> map_of rs k = Some r \<Longrightarrow> row_wf k r \<and> 0 < r_seq r \<and> r_seq r \<le> n"
  by (auto simp: rows_inv_def dest: map_of_SomeD)

lemma rows_inv_upd_key [inv_intros]:
  assumes inv: "rows_inv n rs" and seq: "\<And>r. r_seq (f r) = r_seq r"
    and wf: "\<And>r. map_of rs k = Some r \<Longrightarrow> row_wf k r \<Longrightarrow> row_wf k (f r)"
  shows "rows_inv n (upd_key k f rs)"
proof -
  have "row_wf k' r' \<and> 0 < r_seq r' \<and> r_seq r' \<le> n" if "(k', r') \<in> set (upd_key k f rs)" for k' r'
  proof -
    from that obtain r where r: "(k', r) \<in> set rs" and r': "r' = (if k' = k then f r else r)"
      by (auto simp: set_upd_key)
    from r inv have "map_of rs k' = Some r" by (simp add: rows_inv_def alist_wf_lookup)
    with rows_inv_lookup [OF inv this] wf seq r' show ?thesis by auto
  qed
  with inv show ?thesis by (auto simp: rows_inv_def seq_key_upd_key [OF seq])
qed

lemma rows_inv_upd_all [inv_intros]:
  assumes inv: "rows_inv n rs" and seq: "\<And>r. r_seq (f r) = r_seq r"
    and wf: "\<And>k r. row_wf k r \<Longrightarrow> row_wf k (f r)"
  shows "rows_inv n (upd_all f rs)"
  using inv wf unfolding rows_inv_def
  by (fastforce simp: set_upd_all seq_key_upd_all [OF seq] seq)

lemma rows_inv_filter [inv_intros]: "rows_inv n rs \<Longrightarrow> rows_inv n (filter p rs)"
  by (auto simp: rows_inv_def distinct_map inj_on_def)

lemma rows_inv_del_key [inv_intros]: "rows_inv n rs \<Longrightarrow> rows_inv n (del_key k rs)"
  unfolding del_key_def by (rule rows_inv_filter)

lemma rows_inv_del_if [inv_intros]: "rows_inv n rs \<Longrightarrow> rows_inv n (del_if p rs)"
  unfolding del_if_def by (rule rows_inv_filter)

lemma rows_inv_mono: "rows_inv n rs \<Longrightarrow> n \<le> n' \<Longrightarrow> rows_inv n' rs"
  by (fastforce simp: rows_inv_def)

lemma rows_inv_snoc [inv_intros]:
  assumes "rows_inv n rs" "map_of rs k = None" "row_wf k r" "r_seq r = Suc n"
  shows "rows_inv (Suc n) (rs @ [(k, r)])"
  using assms by (force simp: rows_inv_def seq_key_def)

section \<open>Preservation, method by method\<close>

lemma row_wf_reserved:
  "row_wf k r \<Longrightarrow> u_ReservedBy (r_utxo r) = '''' \<Longrightarrow> t \<noteq> '''' \<Longrightarrow> row_wf k (set_reserved t i r)"
  by (auto simp: row_wf_def row_ops Let_def)

lemma row_wf_release:
  "row_wf k r \<Longrightarrow> row_wf k (set_pin False (clear_reservation r))"
  "row_wf k r \<Longrightarrow> \<not> u_Pinned (r_utxo r) \<Longrightarrow> row_wf k (clear_reservation r)"
  "row_wf k r \<Longrightarrow> row_wf k (set_spent h r)"
  "row_wf k r \<Longrightarrow> row_wf k (set_unspent r)"
  "row_wf k r \<Longrightarrow> Valid t \<Longrightarrow> row_wf k (set_tier t r)"
  "row_wf k r \<Longrightarrow> row_wf k (set_frozen b r)"
  "row_wf k r \<Longrightarrow> heldBy r uid t' \<Longrightarrow> t' \<noteq> '''' \<Longrightarrow> row_wf k (set_pin b r)"
  by (auto simp: row_wf_def row_ops Let_def heldBy_def)

lemma mintOne_inv: "store_inv s \<Longrightarrow> store_inv (fst (mintOne s m))"
  by (auto simp: mintOne_def store_inv_def minted_def row_wf_def Let_def ticked_def validate_None
      split: option.splits intro!: rows_inv_snoc)

lemma mintLoop_inv: "store_inv s \<Longrightarrow> store_inv (fst (mintLoop s ms))"
proof (induction ms arbitrary: s)
  case (Cons m ms)
  from mintOne_inv [OF Cons.prems, of m] Cons.IH show ?case
    by (auto simp: case_prod_unfold Let_def)
qed simp

lemma removeLoop_inv: "rows_inv n rs \<Longrightarrow> rows_inv n (fst (removeLoop rs ops force))"
  by (induction rs ops force rule: removeLoop.induct)
    (auto simp: case_prod_unfold Let_def rows_inv_del_key split: option.splits if_splits)

lemma reserve_inv:
  assumes "store_inv s" "map_of (s_rows s) k = Some r" "u_ReservedBy (r_utxo r) = ''''" "t \<noteq> ''''"
  shows "store_inv (fst (reserve s (k, r) t))"
  using assms by (auto simp: store_inv_def reserve_def ticked_def Let_def intro!: rows_inv_upd_key row_wf_reserved)

lemma reserve_rows [simp]:
  "s_rows (fst (reserve s kr t)) = upd_key (fst kr) (set_reserved t (now_time s)) (s_rows s)"
  "s_nextSeq (fst (reserve s kr t)) = s_nextSeq s"
  "s_closed (fst (reserve s kr t)) = s_closed s"
  "s_now (fst (reserve s kr t)) = s_now s"
  by (simp_all add: reserve_def ticked_def Let_def)

text \<open>The candidate list a claim stamps: distinct rows of the store, none of them reserved.\<close>

definition free_candidates :: "store \<Rightarrow> (outpoint \<times> row) list \<Rightarrow> bool" where
  "free_candidates s krs \<longleftrightarrow> distinct (map fst krs) \<and>
     (\<forall>(k, r) \<in> set krs. map_of (s_rows s) k = Some r \<and> u_ReservedBy (r_utxo r) = '''')"

lemma free_candidates_reserve:
  "free_candidates s (kr # krs) \<Longrightarrow> free_candidates (fst (reserve s kr t)) krs"
  by (fastforce simp: free_candidates_def image_iff)

lemma reserveLoop_inv:
  "store_inv s \<Longrightarrow> free_candidates s krs \<Longrightarrow> t \<noteq> '''' \<Longrightarrow> store_inv (fst (reserveLoop s krs t))"
proof (induction krs arbitrary: s)
  case (Cons kr krs)
  obtain k r where kr: "kr = (k, r)" by (cases kr)
  have "store_inv (fst (reserve s kr t))"
    using Cons.prems kr by (auto simp: free_candidates_def intro!: reserve_inv)
  with Cons.IH [OF this free_candidates_reserve [OF Cons.prems(2)] Cons.prems(3)] show ?case
    by (simp add: case_prod_unfold Let_def)
qed simp

lemma bestLoop_mem:
  "bestLoop sc m rs best = Some kr \<Longrightarrow>
     best = Some kr \<or> (kr \<in> set rs \<and> claimable (snd kr) sc \<and> m \<le> u_Satoshis (r_utxo (snd kr)))"
  by (induction rs arbitrary: best)
    (fastforce split: if_splits option.splits)+

lemma claimable_free: "claimable r sc \<Longrightarrow> u_ReservedBy (r_utxo r) = ''''"
  by (simp add: claimable_def Let_def)

lemma store_inv_mem: "store_inv s \<Longrightarrow> (k, r) \<in> set (s_rows s) \<longleftrightarrow> map_of (s_rows s) k = Some r"
  by (simp add: store_inv_def rows_inv_def alist_wf_lookup)

lemma picked_candidates:
  assumes "store_inv s" and "\<And>kr. p kr \<Longrightarrow> claimable (snd kr) sc"
  shows "free_candidates s (take n (sort_key f (filter p (s_rows s))))"
proof -
  have "distinct (map fst (s_rows s))"
    using assms(1) by (simp add: store_inv_def rows_inv_def alist_wf_def)
  then have "distinct (map fst (filter p (s_rows s)))"
    by (simp add: distinct_map inj_on_def)
  then have "distinct (map fst (sort_key f (filter p (s_rows s))))"
    by (simp add: distinct_map)
  then have "distinct (map fst (take n (sort_key f (filter p (s_rows s)))))"
    by (simp add: take_map [symmetric] distinct_take)
  moreover have "map_of (s_rows s) k = Some r \<and> u_ReservedBy (r_utxo r) = ''''"
    if "(k, r) \<in> set (take n (sort_key f (filter p (s_rows s))))" for k r
  proof -
    have "(k, r) \<in> set (filter p (s_rows s))" using that by (auto dest: in_set_takeD)
    then show ?thesis using store_inv_mem [OF assms(1)] assms(2) [of "(k, r)"]
      by (auto dest: claimable_free)
  qed
  ultimately show ?thesis by (auto simp: free_candidates_def)
qed

lemma ClaimSmallestSufficient_inv:
  "store_inv s \<Longrightarrow> store_inv (fst (ClaimSmallestSufficient s sc t m))"
  by (auto simp: ClaimSmallestSufficient_def case_prod_unfold Let_def store_inv_mem validate_None
      split: option.splits dest!: bestLoop_mem intro!: reserve_inv dest: claimable_free)

lemma ClaimLargestInsufficient_inv:
  "store_inv s \<Longrightarrow> store_inv (fst (ClaimLargestInsufficient s sc t c l))"
  by (auto simp: ClaimLargestInsufficient_def case_prod_unfold Let_def validate_None
      split: option.splits intro!: reserveLoop_inv picked_candidates)

lemma ClaimExact_inv: "store_inv s \<Longrightarrow> store_inv (fst (ClaimExact s sc t d c))"
  by (auto simp: ClaimExact_def case_prod_unfold Let_def validate_None
      split: option.splits intro!: reserveLoop_inv picked_candidates)

lemma set_distinctLoop: "set (distinctLoop seen ops) = set ops - set seen"
  by (induction seen ops rule: distinctLoop.induct) auto

lemma distinct_distinctLoop: "distinct (distinctLoop seen ops)"
  by (induction seen ops rule: distinctLoop.induct) (auto simp: set_distinctLoop)

lemma set_distinctOutpoints [simp]: "set (distinctOutpoints ops) = set ops"
  by (simp add: distinctOutpoints_def set_distinctLoop)

lemma distinct_distinctOutpoints [simp]: "distinct (distinctOutpoints ops)"
  by (simp add: distinctOutpoints_def distinct_distinctLoop)

lemma classifyReserve_ToStamp:
  "classifyReserve rs uid t op = ToStamp \<longleftrightarrow>
     (\<exists>r. map_of rs op = Some r \<and> u_UserID (r_utxo r) = uid \<and> u_SpentBy (r_utxo r) = None \<and>
        u_ReservedBy (r_utxo r) = '''' \<and> \<not> u_Frozen (r_utxo r) \<and> t \<noteq> '''')"
  by (auto simp: classifyReserve_def split: option.splits if_splits)

lemma classifyLoop_filter:
  "snd (classifyLoop rs uid t ops) = filter (\<lambda>op. classifyReserve rs uid t op = ToStamp) ops"
  by (induction ops) (simp_all add: case_prod_unfold Let_def split: reserve_class.split)

lemma classifyLoop_errs:
  "fst (classifyLoop rs uid t ops) = [] \<longleftrightarrow>
     (\<forall>op \<in> set ops. classifyReserve rs uid t op = Satisfied \<or> classifyReserve rs uid t op = ToStamp)"
  by (induction ops) (simp_all add: case_prod_unfold Let_def split: reserve_class.split)

lemma stampLoop_inv:
  "rows_inv n rs \<Longrightarrow> distinct ops \<Longrightarrow> t \<noteq> '''' \<Longrightarrow>
     (\<And>op r. op \<in> set ops \<Longrightarrow> map_of rs op = Some r \<Longrightarrow> u_ReservedBy (r_utxo r) = '''') \<Longrightarrow>
     rows_inv n (stampLoop rs t i ops)"
proof (induction ops arbitrary: rs)
  case (Cons op ops)
  have "rows_inv n (upd_key op (set_reserved t i) rs)"
    using Cons.prems by (auto intro!: rows_inv_upd_key row_wf_reserved)
  moreover have "u_ReservedBy (r_utxo r) = ''''"
    if "op' \<in> set ops" "map_of (upd_key op (set_reserved t i) rs) op' = Some r" for op' r
    using that Cons.prems by (auto split: if_splits)
  ultimately show ?case using Cons.IH [of "upd_key op (set_reserved t i) rs"] Cons.prems
    by (simp del: map_of_upd_key)
qed simp

lemma ReserveOutpoints_inv:
  assumes "store_inv s" shows "store_inv (fst (ReserveOutpoints s uid t ops))"
proof -
  have "rows_inv (s_nextSeq s)
      (stampLoop (s_rows s) t i (snd (classifyLoop (s_rows s) uid t (distinctOutpoints ops))))"
    if "t \<noteq> ''''" for i
    using assms that
    by (auto intro!: stampLoop_inv simp: store_inv_def classifyLoop_filter classifyReserve_ToStamp)
  with assms show ?thesis
    by (auto simp: ReserveOutpoints_def case_prod_unfold Let_def validate_None store_inv_def ticked_def
        split: option.splits)
qed

lemma ReleaseReservation_inv: "store_inv s \<Longrightarrow> store_inv (fst (ReleaseReservation s uid t))"
  by (auto simp: ReleaseReservation_def store_inv_def Let_def split: option.splits
      intro!: rows_inv_upd_all row_wf_release)

lemma setPinned_inv: "store_inv s \<Longrightarrow> store_inv (fst (setPinned s uid t b))"
  by (auto simp: setPinned_def store_inv_def Let_def validate_None split: option.splits
      intro!: rows_inv_upd_all row_wf_release)

lemma rows_inv_row_ops [simp]:
  assumes "rows_inv n rs"
  shows "rows_inv n (upd_key op (\<lambda>r. set_pin False (clear_reservation r)) rs)"
    and "rows_inv n (upd_key op (set_spent h) rs)"
    and "rows_inv n (upd_key op set_unspent rs)"
    and "Valid t \<Longrightarrow> rows_inv n (upd_key op (set_tier t) rs)"
    and "rows_inv n (upd_key op (set_frozen b) rs)"
  by (rule rows_inv_upd_key [OF assms]; simp add: row_wf_release)+

lemma releaseLoop_inv: "rows_inv n rs \<Longrightarrow> rows_inv n (releaseLoop rs t ops)"
  by (induction rs t ops rule: releaseLoop.induct)
    (auto split: option.splits)

lemma spendOne_inv: "rows_inv n rs \<Longrightarrow> rows_inv n (fst (spendOne rs sp force))"
  by (auto simp: spendOne_def split: option.splits)

lemma spendLoop_inv: "rows_inv n rs \<Longrightarrow> rows_inv n (fst (spendLoop rs sps force))"
proof (induction sps arbitrary: rs)
  case (Cons sp sps)
  from Cons.IH [OF spendOne_inv [OF Cons.prems, of sp force]] show ?case
    by (simp add: case_prod_unfold Let_def)
qed simp

lemma unspendLoop_inv: "rows_inv n rs \<Longrightarrow> rows_inv n (fst (unspendLoop rs h ops))"
  by (induction rs h ops rule: unspendLoop.induct)
    (auto simp: case_prod_unfold Let_def split: option.splits)

lemma promoteLoop_inv: "rows_inv n rs \<Longrightarrow> Valid t \<Longrightarrow> rows_inv n (fst (promoteLoop rs ops t))"
  by (induction rs ops t rule: promoteLoop.induct)
    (auto simp: case_prod_unfold Let_def split: option.splits)

lemma removeMintLoop_inv: "rows_inv n rs \<Longrightarrow> rows_inv n (fst (removeMintLoop rs rep ops))"
  by (induction rs rep ops rule: removeMintLoop.induct)
    (auto split: option.splits simp: rows_inv_del_key)

lemma frozenLoop_inv: "rows_inv n rs \<Longrightarrow> rows_inv n (fst (frozenLoop rs ops b))"
  by (induction rs ops b rule: frozenLoop.induct)
    (auto simp: case_prod_unfold Let_def split: option.splits)

section \<open>Calls and reachable stores\<close>

datatype call =
    CallMint "mint list"
  | CallRemove "outpoint list" bool
  | CallClaimSmallestSufficient scope string u64
  | CallClaimLargestInsufficient scope string u64 int
  | CallClaimExact scope string u64 int
  | CallReserveOutpoints int string "outpoint list"
  | CallReleaseReservation int string
  | CallReleaseOutpoints string "outpoint list"
  | CallPin int string
  | CallUnpin int string
  | CallSpend "spend_op list" bool
  | CallUnspend hash "outpoint list"
  | CallRemoveSpentBy hash
  | CallPromote "outpoint list" tier
  | CallRemoveByMintTx hash "outpoint list"
  | CallFreeze "outpoint list"
  | CallUnfreeze "outpoint list"
  | CallClose

fun exec_call :: "call \<Rightarrow> store \<Rightarrow> store" where
  "exec_call (CallMint ms) s = fst (Mint s ms)"
| "exec_call (CallRemove ops force) s = fst (Remove s ops force)"
| "exec_call (CallClaimSmallestSufficient sc t m) s = fst (ClaimSmallestSufficient s sc t m)"
| "exec_call (CallClaimLargestInsufficient sc t c l) s = fst (ClaimLargestInsufficient s sc t c l)"
| "exec_call (CallClaimExact sc t d n) s = fst (ClaimExact s sc t d n)"
| "exec_call (CallReserveOutpoints uid t ops) s = fst (ReserveOutpoints s uid t ops)"
| "exec_call (CallReleaseReservation uid t) s = fst (ReleaseReservation s uid t)"
| "exec_call (CallReleaseOutpoints t ops) s = fst (ReleaseOutpoints s t ops)"
| "exec_call (CallPin uid t) s = fst (Pin s uid t)"
| "exec_call (CallUnpin uid t) s = fst (Unpin s uid t)"
| "exec_call (CallSpend sps force) s = fst (Spend s sps force)"
| "exec_call (CallUnspend h ops) s = fst (Unspend s h ops)"
| "exec_call (CallRemoveSpentBy h) s = fst (RemoveSpentBy s h)"
| "exec_call (CallPromote ops t) s = fst (Promote s ops t)"
| "exec_call (CallRemoveByMintTx h ops) s = fst (RemoveByMintTx s h ops)"
| "exec_call (CallFreeze ops) s = fst (Freeze s ops)"
| "exec_call (CallUnfreeze ops) s = fst (Unfreeze s ops)"
| "exec_call CallClose s = Close s"

inductive reachable :: "(nat \<Rightarrow> time) \<Rightarrow> store \<Rightarrow> bool" for now where
  start: "reachable now (New now)"
| step: "reachable now s \<Longrightarrow> reachable now (exec_call c s)"

lemma exec_call_inv [inv_intros]:
  assumes "store_inv s"
  shows "store_inv (exec_call c s)"
proof (cases c)
  case (CallMint ms)
  then show ?thesis
    using mintLoop_inv [OF assms, of ms] assms by (simp add: Mint_def case_prod_unfold Let_def)
qed (use assms in \<open>auto simp: Remove_def Spend_def Unspend_def RemoveSpentBy_def Promote_def RemoveByMintTx_def
      ReleaseOutpoints_def Pin_def Unpin_def Freeze_def Unfreeze_def setFrozen_def Close_def
      case_prod_unfold Let_def
      ClaimSmallestSufficient_inv ClaimLargestInsufficient_inv ClaimExact_inv ReserveOutpoints_inv
      ReleaseReservation_inv setPinned_inv
    split: option.splits\<close>,
  auto simp: store_inv_def rows_inv_del_if removeLoop_inv releaseLoop_inv spendLoop_inv unspendLoop_inv
    promoteLoop_inv removeMintLoop_inv frozenLoop_inv)

lemma New_inv: "store_inv (New now)"
  by (simp add: store_inv_def rows_inv_def New_def)

lemma reachable_inv: "reachable now s \<Longrightarrow> store_inv s"
  by (induction rule: reachable.induct) (auto intro: New_inv exec_call_inv)

end
