(* ===== verification/Store_Interface.thy ===== *)
theory Store_Interface
  imports Utxo_Types
begin

text \<open>
  The contract of \<open>utxostore.Store\<close> (\<open>src/pkg/utxostore/store.go\<close>) that the funder is written
  against, as locales.  \<open>store_ops\<close> is the set of methods the funder calls.  The locale
  \<open>utxo_backend\<close> states what every backend promises: each call is one atomic transition on the
  coins (\<open>view\<close>), a claim only ever takes claimable coins of its scope and stamps nothing else, a
  release undoes exactly the reservations it names.  \<open>exact_backend\<close> adds the exact selection
  that the conformance suite asks of the non-approximate backends.
\<close>

section \<open>Coins as the interface sees them\<close>

definition claimable_coin :: "scope \<Rightarrow> utxo \<Rightarrow> bool" where
  "claimable_coin sc u \<longleftrightarrow> u_UserID u = sc_UserID sc \<and> u_Basket u = sc_Basket sc \<and> u_Tier u = sc_Tier sc \<and>
     u_ReservedBy u = '''' \<and> u_SpentBy u = None \<and> \<not> u_Frozen u"

definition held_copy :: "string \<Rightarrow> utxo \<Rightarrow> utxo \<Rightarrow> bool" where
  "held_copy t u u' \<longleftrightarrow> (\<exists>i. u' = u\<lparr>u_ReservedBy := t, u_ReservedAt := i\<rparr>)"

definition freed :: "utxo \<Rightarrow> utxo" where
  "freed u = u\<lparr>u_ReservedBy := '''', u_ReservedAt := zero_time\<rparr>"

definition unpinned :: "utxo \<Rightarrow> utxo" where
  "unpinned u = u\<lparr>u_Pinned := False\<rparr>"

definition coin_wf :: "outpoint \<Rightarrow> utxo \<Rightarrow> bool" where
  "coin_wf op u \<longleftrightarrow> u_Outpoint u = op \<and> 0 < u_UserID u \<and> u_Basket u \<noteq> '''' \<and> Valid (u_Tier u) \<and>
     (u_Pinned u \<longrightarrow> u_ReservedBy u \<noteq> '''' \<and> u_SpentBy u = None) \<and>
     (u_ReservedBy u = '''' \<longrightarrow> u_ReservedAt u = zero_time)"

text \<open>The live membership of a reservation, and what a janitor release does to a coin.\<close>

definition held_coin :: "int \<Rightarrow> string \<Rightarrow> utxo \<Rightarrow> bool" where
  "held_coin userID t u \<longleftrightarrow> u_UserID u = userID \<and> u_ReservedBy u = t \<and> u_SpentBy u = None"

definition janitor_free :: "int \<Rightarrow> string \<Rightarrow> utxo \<Rightarrow> utxo" where
  "janitor_free userID t u = (if held_coin userID t u \<and> \<not> u_Pinned u then freed u else u)"

definition token_free :: "string \<Rightarrow> utxo \<Rightarrow> utxo" where
  "token_free t u = (if u_ReservedBy u = t \<and> u_SpentBy u = None then unpinned (freed u) else u)"

text \<open>
  \<open>claimed t p V us V'\<close>: from the coins \<open>V\<close>, the coins \<open>us\<close> were claimed under the token \<open>t\<close>,
  each of them satisfying \<open>p\<close> before, and \<open>V'\<close> differs from \<open>V\<close> at those outpoints only.
\<close>

definition claimed ::
    "string \<Rightarrow> (utxo \<Rightarrow> bool) \<Rightarrow> (outpoint \<Rightarrow> utxo option) \<Rightarrow> utxo list \<Rightarrow> (outpoint \<Rightarrow> utxo option) \<Rightarrow> bool" where
  "claimed t p V us V' \<longleftrightarrow> distinct (map u_Outpoint us) \<and>
     (\<forall>u \<in> set us. \<exists>u0. V (u_Outpoint u) = Some u0 \<and> p u0 \<and> held_copy t u0 u \<and> V' (u_Outpoint u) = Some u) \<and>
     (\<forall>op. op \<notin> u_Outpoint ` set us \<longrightarrow> V' op = V op)"

section \<open>The methods the funder calls\<close>

record 's store_ops =
  ClaimSmallest :: "'s \<Rightarrow> scope \<Rightarrow> string \<Rightarrow> u64 \<Rightarrow> 's \<times> (store_error + utxo option)"
  ClaimLargest :: "'s \<Rightarrow> scope \<Rightarrow> string \<Rightarrow> u64 \<Rightarrow> int \<Rightarrow> 's \<times> (store_error + utxo list)"
  ClaimExactly :: "'s \<Rightarrow> scope \<Rightarrow> string \<Rightarrow> u64 \<Rightarrow> int \<Rightarrow> 's \<times> (store_error + utxo list)"
  ReleaseToken :: "'s \<Rightarrow> int \<Rightarrow> string \<Rightarrow> 's \<times> (store_error + nat)"
  ReleaseOps :: "'s \<Rightarrow> string \<Rightarrow> outpoint list \<Rightarrow> 's \<times> store_error option"
  Prober :: "('s \<Rightarrow> scope \<Rightarrow> u64 \<Rightarrow> store_error + bool) option"

section \<open>The contract\<close>

locale utxo_backend =
  fixes ops :: "'s store_ops"
    and view :: "'s \<Rightarrow> outpoint \<Rightarrow> utxo option"
    and inv :: "'s \<Rightarrow> bool"
    and usable :: "'s \<Rightarrow> bool"
  assumes view_wf: "inv s \<Longrightarrow> view s op = Some u \<Longrightarrow> coin_wf op u"
    and view_finite: "inv s \<Longrightarrow> finite (dom (view s))"
    and smallest_law: "inv s \<Longrightarrow> ClaimSmallest ops s sc t m = (s', r) \<Longrightarrow>
      inv s' \<and> (usable s \<longrightarrow> usable s') \<and>
      (case r of
         Inl e \<Rightarrow> view s' = view s
       | Inr None \<Rightarrow> view s' = view s
       | Inr (Some u) \<Rightarrow> t \<noteq> '''' \<and>
           claimed t (\<lambda>u0. claimable_coin sc u0 \<and> m \<le> u_Satoshis u0) (view s) [u] (view s'))"
    and largest_law: "inv s \<Longrightarrow> ClaimLargest ops s sc t c l = (s', rs) \<Longrightarrow>
      inv s' \<and> (usable s \<longrightarrow> usable s') \<and>
      (case rs of
         Inl e \<Rightarrow> view s' = view s
       | Inr us \<Rightarrow> length us \<le> nat l \<and> (us \<noteq> [] \<longrightarrow> t \<noteq> '''') \<and>
           claimed t (\<lambda>u0. claimable_coin sc u0 \<and> u_Satoshis u0 < c) (view s) us (view s'))"
    and exact_law: "inv s \<Longrightarrow> ClaimExactly ops s sc t d n = (s', rs) \<Longrightarrow>
      inv s' \<and> (usable s \<longrightarrow> usable s') \<and>
      (case rs of
         Inl e \<Rightarrow> view s' = view s
       | Inr us \<Rightarrow> length us \<le> nat n \<and> (us \<noteq> [] \<longrightarrow> t \<noteq> '''') \<and>
           claimed t (\<lambda>u0. claimable_coin sc u0 \<and> u_Satoshis u0 = d) (view s) us (view s'))"
    and release_token_law: "inv s \<Longrightarrow> ReleaseToken ops s uid t = (s', rn) \<Longrightarrow>
      inv s' \<and> (usable s \<longrightarrow> usable s') \<and>
      (case rn of
         Inl e \<Rightarrow> view s' = view s \<and> \<not> (usable s \<and> t \<noteq> '''')
       | Inr n \<Rightarrow> view s' = (\<lambda>op. map_option (janitor_free uid t) (view s op)))"
    and release_ops_law: "inv s \<Longrightarrow> ReleaseOps ops s t os = (s', ro) \<Longrightarrow>
      inv s' \<and> (usable s \<longrightarrow> usable s') \<and>
      (case ro of
         Some e \<Rightarrow> view s' = view s \<and> \<not> (usable s \<and> t \<noteq> '''')
       | None \<Rightarrow> t \<noteq> '''' \<and>
           view s' = (\<lambda>op. if op \<in> set os then map_option (token_free t) (view s op) else view s op))"
begin

text \<open>A coin a claim returned was free before, so it is returned by no two claims of one batch.\<close>

lemma smallest_free:
  assumes "inv s" "ClaimSmallest ops s sc t m = (s', Inr (Some u))"
  shows "\<exists>u0. view s (u_Outpoint u) = Some u0 \<and> u_ReservedBy u0 = '''' \<and> u_SpentBy u0 = None"
  using smallest_law [OF assms] by (auto simp: claimed_def claimable_coin_def)

end

locale exact_backend = utxo_backend +
  assumes smallest_best: "inv s \<Longrightarrow> ClaimSmallest ops s sc t m = (s', Inr (Some u)) \<Longrightarrow>
      view s op = Some v \<Longrightarrow> claimable_coin sc v \<Longrightarrow> m \<le> u_Satoshis v \<Longrightarrow> u_Satoshis u \<le> u_Satoshis v"
    and smallest_none: "inv s \<Longrightarrow> ClaimSmallest ops s sc t m = (s', Inr None) \<Longrightarrow>
      view s op = Some v \<Longrightarrow> claimable_coin sc v \<Longrightarrow> u_Satoshis v < m"
    and largest_sorted: "inv s \<Longrightarrow> ClaimLargest ops s sc t c l = (s', Inr us) \<Longrightarrow>
      sorted_wrt (\<lambda>u v. u_Satoshis v \<le> u_Satoshis u) us"
    and largest_full: "inv s \<Longrightarrow> ClaimLargest ops s sc t c l = (s', Inr us) \<Longrightarrow>
      view s op = Some v \<Longrightarrow> claimable_coin sc v \<Longrightarrow> u_Satoshis v < c \<Longrightarrow> 0 < l \<Longrightarrow>
      op \<in> u_Outpoint ` set us \<or>
      (length us = nat l \<and> (\<forall>u \<in> set us. u_Satoshis v \<le> u_Satoshis u))"
    and exact_full: "inv s \<Longrightarrow> ClaimExactly ops s sc t d n = (s', Inr us) \<Longrightarrow>
      view s op = Some v \<Longrightarrow> claimable_coin sc v \<Longrightarrow> u_Satoshis v = d \<Longrightarrow> 0 < n \<Longrightarrow>
      op \<in> u_Outpoint ` set us \<or> length us = nat n"

section \<open>Consequences of \<open>claimed\<close>\<close>

lemma claimed_Nil [simp]: "claimed t p V [] V' \<longleftrightarrow> V' = V"
  by (auto simp: claimed_def)

lemma claimed_mono: "claimed t p V us V' \<Longrightarrow> (\<And>u. p u \<Longrightarrow> q u) \<Longrightarrow> claimed t q V us V'"
  unfolding claimed_def by blast

lemma held_copy_simps:
  assumes "held_copy t u u'"
  shows "u_ReservedBy u' = t" "u_Outpoint u' = u_Outpoint u" "u_UserID u' = u_UserID u"
    "u_Basket u' = u_Basket u" "u_Satoshis u' = u_Satoshis u" "u_InputSize u' = u_InputSize u"
    "u_Tier u' = u_Tier u" "u_SpentBy u' = u_SpentBy u" "u_Frozen u' = u_Frozen u"
    "u_Pinned u' = u_Pinned u" "u_CreatedAt u' = u_CreatedAt u"
  using assms by (auto simp: held_copy_def)

lemma freed_held_copy:
  "held_copy t u u' \<Longrightarrow> u_ReservedBy u = '''' \<Longrightarrow> u_ReservedAt u = zero_time \<Longrightarrow> freed u' = u"
  by (auto simp: held_copy_def freed_def)

end
