(* ===== verification/Memstore_Claims.thy ===== *)
theory Memstore_Claims
  imports Memstore_Inv Store_Interface
begin

text \<open>
  What the claims select: the best-fit coin, the largest coins below a cap, the coins of one
  denomination, each with its tie-break; what they leave of the other rows; and that none of it
  depends on the iteration order of the map.
\<close>

section \<open>Best fit\<close>

definition fits :: "scope \<Rightarrow> u64 \<Rightarrow> outpoint \<times> row \<Rightarrow> bool" where
  "fits sc m kr \<longleftrightarrow> claimable (snd kr) sc \<and> m \<le> u_Satoshis (r_utxo (snd kr))"

definition asc_key :: "outpoint \<times> row \<Rightarrow> u64 \<times> nat" where
  "asc_key kr = (u_Satoshis (r_utxo (snd kr)), r_seq (snd kr))"

lemma better_key: "better a b \<longleftrightarrow> asc_key a < asc_key b"
  by (auto simp: better_def asc_key_def less_prod_def)

text \<open>The scan keeps the least key of the best row so far and the fitting rows still to come.\<close>

lemma bestLoop_least:
  "bestLoop sc m rs best = Some b \<Longrightarrow>
     (\<forall>b0. best = Some b0 \<longrightarrow> asc_key b \<le> asc_key b0) \<and> (\<forall>kr \<in> set rs. fits sc m kr \<longrightarrow> asc_key b \<le> asc_key kr)"
proof (induction rs arbitrary: best)
  case Nil
  then show ?case by simp
next
  case (Cons kr rs)
  show ?case
  proof (cases "fits sc m kr")
    case True
    then have guard: "\<not> (\<not> claimable (snd kr) sc \<or> u_Satoshis (r_utxo (snd kr)) < m)"
      by (auto simp: fits_def)
    show ?thesis
    proof (cases best)
      case None
      with Cons.prems guard have "bestLoop sc m rs (Some kr) = Some b" by simp
      from Cons.IH [OF this] None show ?thesis by simp
    next
      case (Some b0)
      show ?thesis
      proof (cases "better kr b0")
        case True
        with Some Cons.prems guard have "bestLoop sc m rs (Some kr) = Some b" by simp
        from Cons.IH [OF this] Some True show ?thesis by (auto simp: better_key)
      next
        case False
        with Some Cons.prems guard have "bestLoop sc m rs (Some b0) = Some b" by simp
        from Cons.IH [OF this] Some False show ?thesis by (auto simp: better_key)
      qed
    qed
  next
    case False
    then have "\<not> claimable (snd kr) sc \<or> u_Satoshis (r_utxo (snd kr)) < m" by (auto simp: fits_def)
    with Cons.prems have "bestLoop sc m rs best = Some b" by (simp only: bestLoop.simps if_True)
    from Cons.IH [OF this] False show ?thesis by simp
  qed
qed

lemma bestLoop_None: "bestLoop sc m rs best = None \<longleftrightarrow> best = None \<and> (\<forall>kr \<in> set rs. \<not> fits sc m kr)"
  by (induction rs arbitrary: best) (auto simp: fits_def split: option.splits)

lemma store_inv_seq_inj:
  assumes "store_inv s" "kr \<in> set (s_rows s)" "kr' \<in> set (s_rows s)" "r_seq (snd kr) = r_seq (snd kr')"
  shows "kr = kr'"
  using assms by (auto simp: store_inv_def rows_inv_def distinct_map inj_on_def seq_key_def)

lemma ClaimSmallestSufficient_cases:
  assumes open_: "\<not> s_closed s" and ok: "ValidateClaim sc t = None"
  obtains
    (none) "ClaimSmallestSufficient s sc t m = (s, Inr None)" "\<forall>kr \<in> set (s_rows s). \<not> fits sc m kr"
  | (some) k r where "bestLoop sc m (s_rows s) None = Some (k, r)"
      "ClaimSmallestSufficient s sc t m =
         (fst (reserve s (k, r) t), Inr (Some (r_utxo (set_reserved t (now_time s) r))))"
      "(k, r) \<in> set (s_rows s)" "fits sc m (k, r)"
proof (cases "bestLoop sc m (s_rows s) None")
  case None
  with that(1) open_ ok show thesis by (simp add: ClaimSmallestSufficient_def bestLoop_None)
next
  case (Some kr)
  obtain k r where kr: "kr = (k, r)" by (cases kr)
  from bestLoop_mem [OF Some] kr have "(k, r) \<in> set (s_rows s)" "fits sc m (k, r)"
    by (auto simp: fits_def)
  with that(2) Some kr open_ ok show thesis
    by (simp add: ClaimSmallestSufficient_def reserve_def case_prod_unfold Let_def)
qed

section \<open>Reserving a list of candidates\<close>

lemma coins_reserve:
  "map_of (s_rows s) k = Some r \<Longrightarrow>
     coins (fst (reserve s (k, r) t)) = (coins s)(k \<mapsto> r_utxo (set_reserved t (now_time s) r))"
  by (auto simp: coins_def fun_eq_iff)

text \<open>
  The coins a claim returns are the stamped copies of the picked rows, in order; the store holds
  exactly those copies at the picked outpoints and every other coin unchanged.
\<close>

lemma held_copy_reserved: "held_copy t (r_utxo r) (r_utxo (set_reserved t i r))"
  by (auto simp: held_copy_def set_reserved_def)

lemma reserveLoop_coins:
  "free_candidates s krs \<Longrightarrow> reserveLoop s krs t = (s', us) \<Longrightarrow>
     list_all2 (\<lambda>kr u. held_copy t (r_utxo (snd kr)) u \<and> coins s' (fst kr) = Some u) krs us \<and>
     (\<forall>op. op \<notin> fst ` set krs \<longrightarrow> coins s' op = coins s op)"
proof (induction krs arbitrary: s us)
  case Nil
  then show ?case by simp
next
  case (Cons kr krs)
  obtain k r where kr: "kr = (k, r)" by (cases kr)
  let ?s1 = "fst (reserve s kr t)" and ?u = "r_utxo (set_reserved t (now_time s) r)"
  have look: "map_of (s_rows s) k = Some r" and notin: "k \<notin> fst ` set krs"
    using Cons.prems(1) kr by (auto simp: free_candidates_def)
  have c1: "coins ?s1 = (coins s)(k \<mapsto> ?u)" unfolding kr by (rule coins_reserve [OF look])
  obtain us' where us: "us = ?u # us'" and loop: "reserveLoop ?s1 krs t = (s', us')"
    using Cons.prems(2) kr by (auto simp: case_prod_unfold Let_def reserve_def)
  from Cons.IH [OF free_candidates_reserve [OF Cons.prems(1)] loop]
  have tail: "list_all2 (\<lambda>kr u. held_copy t (r_utxo (snd kr)) u \<and> coins s' (fst kr) = Some u) krs us'"
    and rest: "\<forall>op. op \<notin> fst ` set krs \<longrightarrow> coins s' op = coins ?s1 op" by auto
  have "coins s' k = Some ?u" using rest notin c1 by simp
  with tail rest c1 kr us show ?case by (auto simp: held_copy_reserved)
qed

lemma claimable_coin_row: "claimable r sc = claimable_coin sc (r_utxo r)"
  by (simp add: claimable_def claimable_coin_def Let_def)

lemma coins_wf: "store_inv s \<Longrightarrow> coins s op = Some u \<Longrightarrow> coin_wf op u"
  by (auto simp: coins_def store_inv_def row_wf_def coin_wf_def Let_def dest!: rows_inv_lookup)

lemma coins_finite: "finite (dom (coins s))"
proof (rule finite_subset)
  show "dom (coins s) \<subseteq> fst ` set (s_rows s)"
    by (auto simp: coins_def dom_def dest: map_of_SomeD intro: rev_image_eqI)
qed simp

lemma reserveLoop_claimed:
  assumes inv: "store_inv s" and free: "free_candidates s krs"
    and loop: "reserveLoop s krs t = (s', us)" and p: "\<And>k r. (k, r) \<in> set krs \<Longrightarrow> p (r_utxo r)"
  shows "claimed t p (coins s) us (coins s')" and "map u_Outpoint us = map fst krs"
    and "map u_Satoshis us = map (\<lambda>kr. u_Satoshis (r_utxo (snd kr))) krs"
proof -
  from reserveLoop_coins [OF free loop]
  have all2: "list_all2 (\<lambda>kr u. held_copy t (r_utxo (snd kr)) u \<and> coins s' (fst kr) = Some u) krs us"
    and rest: "\<forall>op. op \<notin> fst ` set krs \<longrightarrow> coins s' op = coins s op" by auto
  have look: "map_of (s_rows s) k = Some r" if "(k, r) \<in> set krs" for k r
    using free that by (auto simp: free_candidates_def)
  have out: "u_Outpoint (r_utxo r) = k" if "(k, r) \<in> set krs" for k r
    using inv look [OF that] by (auto simp: store_inv_def row_wf_def Let_def dest!: rows_inv_lookup)
  have "list_all2 (\<lambda>kr u. fst kr = u_Outpoint u) krs us"
    by (rule list.rel_mono_strong [OF all2]) (auto simp: out held_copy_simps)
  then show outs: "map u_Outpoint us = map fst krs" by (simp add: list_all2_map_eq)
  have "list_all2 (\<lambda>kr u. u_Satoshis (r_utxo (snd kr)) = u_Satoshis u) krs us"
    by (rule list.rel_mono_strong [OF all2]) (auto simp: held_copy_simps)
  then show "map u_Satoshis us = map (\<lambda>kr. u_Satoshis (r_utxo (snd kr))) krs"
    by (simp add: list_all2_map_eq)
  have set_outs: "u_Outpoint ` set us = fst ` set krs" using arg_cong [OF outs, of set] by simp
  have "\<exists>u0. coins s (u_Outpoint u) = Some u0 \<and> p u0 \<and> held_copy t u0 u \<and> coins s' (u_Outpoint u) = Some u"
    if "u \<in> set us" for u
  proof -
    from all2 that obtain k r where kr: "(k, r) \<in> set krs" and "held_copy t (r_utxo r) u" "coins s' k = Some u"
      by (auto dest!: list_all2_right)
    with out [OF kr] look [OF kr] p [OF kr] show ?thesis
      by (auto simp: held_copy_simps coins_def)
  qed
  moreover have "distinct (map u_Outpoint us)" using outs free by (simp add: free_candidates_def)
  ultimately show "claimed t p (coins s) us (coins s')"
    using rest set_outs by (auto simp: claimed_def)
qed

section \<open>The frame of a claim\<close>

lemma reserve_closed: "s_closed (fst (reserveLoop s krs t)) = s_closed s"
  by (induction krs arbitrary: s) (simp_all add: case_prod_unfold Let_def)

lemma reserveLoop_closed: "reserveLoop s krs t = (s', us) \<Longrightarrow> s_closed s' = s_closed s"
  using reserve_closed [of s krs t] by simp

lemma ClaimSmallestSufficient_law:
  assumes inv: "store_inv s" and run: "ClaimSmallestSufficient s sc t m = (s', r)"
  shows "s_closed s' = s_closed s"
    and "case r of Inl e \<Rightarrow> coins s' = coins s | Inr None \<Rightarrow> coins s' = coins s
       | Inr (Some u) \<Rightarrow> t \<noteq> '''' \<and>
           claimed t (\<lambda>u0. claimable_coin sc u0 \<and> m \<le> u_Satoshis u0) (coins s) [u] (coins s')"
proof -
  consider (err) "s' = s" "\<exists>e. r = Inl e" | (ok) "\<not> s_closed s" "ValidateClaim sc t = None"
    using run by (auto simp: ClaimSmallestSufficient_def split: if_splits option.splits)
  then have "s_closed s' = s_closed s \<and> (case r of Inl e \<Rightarrow> coins s' = coins s | Inr None \<Rightarrow> coins s' = coins s
       | Inr (Some u) \<Rightarrow> t \<noteq> '''' \<and>
           claimed t (\<lambda>u0. claimable_coin sc u0 \<and> m \<le> u_Satoshis u0) (coins s) [u] (coins s'))"
  proof cases
    case err
    then show ?thesis by auto
  next
    case ok
    show ?thesis
    proof (cases rule: ClaimSmallestSufficient_cases [OF ok, of m])
      case 1
      with run show ?thesis by auto
    next
      case (2 k row)
      let ?u = "r_utxo (set_reserved t (now_time s) row)"
      have free: "free_candidates s [(k, row)]"
        using 2(3,4) store_inv_mem [OF inv] by (auto simp: free_candidates_def fits_def claimable_free)
      have "reserveLoop s [(k, row)] t = (s', [?u])"
        using run 2(2) by (simp add: reserve_def Let_def)
      from reserveLoop_claimed(1) [OF inv free this, of "\<lambda>u0. claimable_coin sc u0 \<and> m \<le> u_Satoshis u0"]
      have "claimed t (\<lambda>u0. claimable_coin sc u0 \<and> m \<le> u_Satoshis u0) (coins s) [?u] (coins s')"
        using 2(4) by (auto simp: fits_def claimable_coin_row)
      with run 2(2) ok(2) show ?thesis by (auto simp: validate_None)
    qed
  qed
  then show "s_closed s' = s_closed s"
    and "case r of Inl e \<Rightarrow> coins s' = coins s | Inr None \<Rightarrow> coins s' = coins s
       | Inr (Some u) \<Rightarrow> t \<noteq> '''' \<and>
           claimed t (\<lambda>u0. claimable_coin sc u0 \<and> m \<le> u_Satoshis u0) (coins s) [u] (coins s')"
    by blast+
qed

text \<open>Both batch claims reserve a prefix of their sorted candidates.\<close>

lemma batch_law:
  assumes inv: "store_inv s" and run: "reserveLoop s (take n (sort_key f (filter P (s_rows s)))) t = (s', us)"
    and P: "\<And>kr. P kr \<longleftrightarrow> claimable (snd kr) sc \<and> q (r_utxo (snd kr))"
  shows "claimed t (\<lambda>u0. claimable_coin sc u0 \<and> q u0) (coins s) us (coins s')"
    and "length us = min n (length (filter P (s_rows s)))"
    and "map u_Satoshis us = map (\<lambda>kr. u_Satoshis (r_utxo (snd kr))) (take n (sort_key f (filter P (s_rows s))))"
    and "map u_Outpoint us = map fst (take n (sort_key f (filter P (s_rows s))))"
proof -
  have free: "free_candidates s (take n (sort_key f (filter P (s_rows s))))"
    by (rule picked_candidates [OF inv, where sc = sc]) (simp add: P)
  have q: "claimable_coin sc (r_utxo r) \<and> q (r_utxo r)"
    if "(k, r) \<in> set (take n (sort_key f (filter P (s_rows s))))" for k r
    using in_set_takeD [OF that] P [of "(k, r)"] by (auto simp: claimable_coin_row)
  note law = reserveLoop_claimed [OF inv free run, of "\<lambda>u0. claimable_coin sc u0 \<and> q u0"]
  show "claimed t (\<lambda>u0. claimable_coin sc u0 \<and> q u0) (coins s) us (coins s')" by (rule law(1)) (rule q)
  show outs: "map u_Outpoint us = map fst (take n (sort_key f (filter P (s_rows s))))" by (rule law(2)) (rule q)
  show "map u_Satoshis us = map (\<lambda>kr. u_Satoshis (r_utxo (snd kr))) (take n (sort_key f (filter P (s_rows s))))"
    by (rule law(3)) (rule q)
  from arg_cong [OF outs, of length] show "length us = min n (length (filter P (s_rows s)))" by simp
qed

text \<open>A coin of the store is a row; a qualifying row is picked or sorts after every picked row.\<close>

lemma batch_maximal:
  assumes inv: "store_inv s" and P: "\<And>kr. P kr \<longleftrightarrow> claimable (snd kr) sc \<and> q (r_utxo (snd kr))"
    and v: "coins s op = Some v" "claimable_coin sc v" "q v"
    and out: "op \<notin> fst ` set (take n (sort_key f (filter P (s_rows s))))"
  obtains r where "r_utxo r = v" "n < length (filter P (s_rows s))"
    "\<forall>kr \<in> set (take n (sort_key f (filter P (s_rows s)))). f kr \<le> f (op, r)"
proof -
  from v(1) obtain r where r: "map_of (s_rows s) op = Some r" "r_utxo r = v"
    by (auto simp: coins_def)
  then have mem: "(op, r) \<in> set (sort_key f (filter P (s_rows s)))"
    using v P [of "(op, r)"] by (auto simp: claimable_coin_row dest: map_of_SomeD)
  with out have drop: "(op, r) \<in> set (drop n (sort_key f (filter P (s_rows s))))"
    using in_set_take_or_drop [OF mem, of n] by force
  then have "n < length (filter P (s_rows s))"
    by (metis drop_eq_Nil2 empty_iff length_sort linorder_not_less list.set(1))
  moreover have "\<forall>kr \<in> set (take n (sort_key f (filter P (s_rows s)))). f kr \<le> f (op, r)"
    using drop by (auto intro: sorted_key_take_drop [where f = f])
  ultimately show thesis using that r by blast
qed

lemma ClaimLargestInsufficient_run:
  assumes "ClaimLargestInsufficient s sc t c l = (s', rr)"
  obtains (err) e where "s' = s" "rr = Inl e"
  | (zero) "s' = s" "rr = Inr []" "l \<le> 0"
  | (run) us where "0 < l" "t \<noteq> ''''" "rr = Inr us"
      "reserveLoop s (take (nat l) (sort_key desc_key
         (filter (\<lambda>kr. claimable (snd kr) sc \<and> u_Satoshis (r_utxo (snd kr)) < c) (s_rows s)))) t = (s', us)"
proof -
  have take_min: "take (nat (min l (int (length xs)))) (sort_key desc_key xs) = take (nat l) (sort_key desc_key xs)"
    for xs :: "(outpoint \<times> row) list"
    by (cases "l \<le> int (length xs)") (auto simp: min_def take_all)
  show thesis
    using assms err zero run unfolding ClaimLargestInsufficient_def
    by (auto simp: Let_def take_min case_prod_unfold validate_None prod_eq_iff split: if_splits option.splits)
qed

lemma ClaimExact_run:
  assumes "ClaimExact s sc t d l = (s', rr)"
  obtains (err) e where "s' = s" "rr = Inl e"
  | (zero) "s' = s" "rr = Inr []" "l \<le> 0"
  | (run) us where "0 < l" "t \<noteq> ''''" "rr = Inr us"
      "reserveLoop s (take (nat l) (sort_key seq_key
         (filter (\<lambda>kr. claimable (snd kr) sc \<and> u_Satoshis (r_utxo (snd kr)) = d) (s_rows s)))) t = (s', us)"
proof -
  have take_min: "take (nat (min l (int (length xs)))) (sort_key seq_key xs) = take (nat l) (sort_key seq_key xs)"
    for xs :: "(outpoint \<times> row) list"
    by (cases "l \<le> int (length xs)") (auto simp: min_def take_all)
  show thesis
    using assms err zero run unfolding ClaimExact_def
    by (auto simp: Let_def take_min case_prod_unfold validate_None prod_eq_iff split: if_splits option.splits)
qed

section \<open>Releases on the coins\<close>

lemma heldBy_coin: "heldBy r uid t = held_coin uid t (r_utxo r)"
  by (simp add: heldBy_def held_coin_def)

lemma r_utxo_clear: "r_utxo (clear_reservation r) = freed (r_utxo r)"
  by (simp add: clear_reservation_def freed_def)

lemma r_utxo_release: "r_utxo (set_pin False (clear_reservation r)) = unpinned (freed (r_utxo r))"
  by (simp add: clear_reservation_def freed_def set_pin_def unpinned_def)

lemma ReleaseReservation_coins:
  assumes "ReleaseReservation s uid t = (s', r)"
  shows "s_closed s' = s_closed s" and
    "case r of Inl e \<Rightarrow> coins s' = coins s \<and> (s_closed s \<or> t = '''')
     | Inr n \<Rightarrow> coins s' = (\<lambda>op. map_option (janitor_free uid t) (coins s op))"
proof -
  have "map_option r_utxo (map_option (\<lambda>r. if heldBy r uid t \<and> \<not> u_Pinned (r_utxo r) then clear_reservation r else r) x)
      = map_option (janitor_free uid t) (map_option r_utxo x)" for x
    by (cases x) (auto simp: janitor_free_def heldBy_coin r_utxo_clear)
  then show "s_closed s' = s_closed s" and
    "case r of Inl e \<Rightarrow> coins s' = coins s \<and> (s_closed s \<or> t = '''')
     | Inr n \<Rightarrow> coins s' = (\<lambda>op. map_option (janitor_free uid t) (coins s op))"
    using assms by (auto simp: ReleaseReservation_def Let_def coins_def fun_eq_iff ValidateReservation_def split: if_splits)
qed

lemma token_free_idem: "t \<noteq> '''' \<Longrightarrow> token_free t (token_free t u) = token_free t u"
  by (simp add: token_free_def freed_def unpinned_def)

lemma releaseLoop_coins:
  "t \<noteq> '''' \<Longrightarrow> map_option r_utxo (map_of (releaseLoop rs t ops) op) =
     (if op \<in> set ops then map_option (token_free t) (map_option r_utxo (map_of rs op))
      else map_option r_utxo (map_of rs op))"
proof (induction rs t ops rule: releaseLoop.induct)
  case (2 rs t op' ops)
  show ?case
  proof (cases "map_of rs op'")
    case None
    with 2 show ?thesis by auto
  next
    case (Some r)
    show ?thesis
    proof (cases "u_ReservedBy (r_utxo r) \<noteq> t \<or> u_SpentBy (r_utxo r) \<noteq> None")
      case True
      with 2 Some have "map_option r_utxo (map_of (releaseLoop rs t ops) op) =
          (if op \<in> set ops then map_option (token_free t) (map_option r_utxo (map_of rs op))
           else map_option r_utxo (map_of rs op))" by blast
      moreover have "token_free t (r_utxo r) = r_utxo r" using True by (auto simp: token_free_def)
      ultimately show ?thesis using True Some by auto
    next
      case False
      then have "r_utxo (set_pin False (clear_reservation r)) = token_free t (r_utxo r)"
        by (simp add: r_utxo_release token_free_def)
      with False Some 2 show ?thesis by (auto simp: token_free_idem)
    qed
  qed
qed simp

lemma ReleaseOutpoints_coins:
  assumes "ReleaseOutpoints s t os = (s', r)"
  shows "s_closed s' = s_closed s" and
    "case r of Some e \<Rightarrow> coins s' = coins s \<and> (s_closed s \<or> t = '''')
     | None \<Rightarrow> t \<noteq> '''' \<and> coins s' = (\<lambda>op. if op \<in> set os then map_option (token_free t) (coins s op) else coins s op)"
  using assms
  by (auto simp: ReleaseOutpoints_def coins_def fun_eq_iff ValidateReservation_def releaseLoop_coins split: if_splits)

section \<open>The reference store meets the contract\<close>

definition mem_ops :: "store store_ops" where
  "mem_ops = \<lparr>ClaimSmallest = ClaimSmallestSufficient, ClaimLargest = ClaimLargestInsufficient,
     ClaimExactly = ClaimExact, ReleaseToken = ReleaseReservation, ReleaseOps = ReleaseOutpoints,
     Prober = None\<rparr>"

lemma exec_call_invD:
  assumes "store_inv s"
  shows "ClaimSmallestSufficient s sc t m = (s', x1) \<Longrightarrow> store_inv s'"
    and "ClaimLargestInsufficient s sc t c l = (s', x2) \<Longrightarrow> store_inv s'"
    and "ClaimExact s sc t d l = (s', x2) \<Longrightarrow> store_inv s'"
    and "ReleaseReservation s uid t = (s', x3) \<Longrightarrow> store_inv s'"
    and "ReleaseOutpoints s t os = (s', x4) \<Longrightarrow> store_inv s'"
  using ClaimSmallestSufficient_inv [OF assms] ClaimLargestInsufficient_inv [OF assms] ClaimExact_inv [OF assms]
    ReleaseReservation_inv [OF assms] exec_call_inv [OF assms, of "CallReleaseOutpoints t os"]
  by (metis fst_conv exec_call.simps(8))+

lemma desc_key_le: "desc_key a \<le> desc_key b \<Longrightarrow> u_Satoshis (r_utxo (snd b)) \<le> u_Satoshis (r_utxo (snd a))"
  by (auto simp: desc_key_def less_eq_prod_def word_le_def word_less_def)

lemma ClaimLargestInsufficient_sorted:
  assumes "store_inv s" "ClaimLargestInsufficient s sc t c l = (s', Inr us)"
  shows "sorted_wrt (\<lambda>u v. u_Satoshis v \<le> u_Satoshis u) us"
  using assms(2)
proof (cases rule: ClaimLargestInsufficient_run)
  case (run us')
  let ?ks = "take (nat l) (sort_key desc_key
         (filter (\<lambda>kr. claimable (snd kr) sc \<and> u_Satoshis (r_utxo (snd kr)) < c) (s_rows s)))"
  have "sorted (map desc_key ?ks)" by (simp only: take_map [symmetric] sorted_wrt_take sorted_sort_key)
  then have "sorted_wrt (\<lambda>a b. u_Satoshis (r_utxo (snd b)) \<le> u_Satoshis (r_utxo (snd a))) ?ks"
    by (auto simp: sorted_map intro: sorted_wrt_mono_rel [rotated] desc_key_le)
  then have "sorted_wrt (\<lambda>x y. y \<le> x) (map (\<lambda>kr. u_Satoshis (r_utxo (snd kr))) ?ks)"
    by (simp add: sorted_wrt_map)
  also have "map (\<lambda>kr. u_Satoshis (r_utxo (snd kr))) ?ks = map u_Satoshis us'"
    by (rule batch_law(3) [OF assms(1) run(4), where sc = sc and q = "\<lambda>u. u_Satoshis u < c", symmetric]) simp
  finally show ?thesis using run(3) by (simp add: sorted_wrt_map)
qed auto

lemma ClaimLargestInsufficient_full:
  assumes inv: "store_inv s" and run0: "ClaimLargestInsufficient s sc t c l = (s', Inr us)"
    and v: "coins s op = Some v" "claimable_coin sc v" "u_Satoshis v < c" and l: "0 < l"
  shows "op \<in> u_Outpoint ` set us \<or> (length us = nat l \<and> (\<forall>u \<in> set us. u_Satoshis v \<le> u_Satoshis u))"
  using run0
proof (cases rule: ClaimLargestInsufficient_run)
  case (run us')
  let ?P = "\<lambda>kr. claimable (snd kr) sc \<and> u_Satoshis (r_utxo (snd kr)) < c"
  let ?ks = "take (nat l) (sort_key desc_key (filter ?P (s_rows s)))"
  note law = batch_law [OF inv run(4), where sc = sc and q = "\<lambda>u. u_Satoshis u < c"]
  have us: "us' = us" using run(3) by simp
  have outs: "map u_Outpoint us = map fst ?ks" using law(4) us by simp
  have sats: "map u_Satoshis us = map (\<lambda>kr. u_Satoshis (r_utxo (snd kr))) ?ks" using law(3) us by simp
  show ?thesis
  proof (cases "op \<in> fst ` set ?ks")
    case True
    then show ?thesis using arg_cong [OF outs, of set] by simp
  next
    case False
    have ge: "length us = nat l \<and> (\<forall>kr \<in> set ?ks. u_Satoshis v \<le> u_Satoshis (r_utxo (snd kr)))"
    proof (rule batch_maximal [OF inv _ v(1,2), where P = ?P and q = "\<lambda>u. u_Satoshis u < c"])
      fix r
      assume r: "r_utxo r = v" "nat l < length (filter ?P (s_rows s))" "\<forall>kr \<in> set ?ks. desc_key kr \<le> desc_key (op, r)"
      have "length us = length ?ks" using arg_cong [OF outs, of length] by simp
      moreover have "\<forall>kr \<in> set ?ks. u_Satoshis v \<le> u_Satoshis (r_utxo (snd kr))"
        using r(1,3) by (auto dest!: bspec desc_key_le)
      ultimately show ?thesis using r(2) by simp
    qed (use v False in simp_all)
    have eq: "u_Satoshis ` set us = (\<lambda>kr. u_Satoshis (r_utxo (snd kr))) ` set ?ks"
      using arg_cong [OF sats, of set] by simp
    have "\<forall>x \<in> u_Satoshis ` set us. u_Satoshis v \<le> x" unfolding eq using ge by simp
    with ge show ?thesis by simp
  qed
qed (use l in auto)

lemma ClaimExact_full:
  assumes inv: "store_inv s" and run0: "ClaimExact s sc t d l = (s', Inr us)"
    and v: "coins s op = Some v" "claimable_coin sc v" "u_Satoshis v = d" and l: "0 < l"
  shows "op \<in> u_Outpoint ` set us \<or> length us = nat l"
  using run0
proof (cases rule: ClaimExact_run)
  case (run us')
  let ?P = "\<lambda>kr. claimable (snd kr) sc \<and> u_Satoshis (r_utxo (snd kr)) = d"
  let ?ks = "take (nat l) (sort_key seq_key (filter ?P (s_rows s)))"
  note law = batch_law [OF inv run(4), where sc = sc and q = "\<lambda>u. u_Satoshis u = d"]
  have us: "us' = us" using run(3) by simp
  have outs: "map u_Outpoint us = map fst ?ks" using law(4) us by simp
  show ?thesis
  proof (cases "op \<in> fst ` set ?ks")
    case True
    then show ?thesis using arg_cong [OF outs, of set] by simp
  next
    case False
    show ?thesis
    proof (rule batch_maximal [OF inv _ v(1,2), where P = ?P and q = "\<lambda>u. u_Satoshis u = d"])
      fix r
      assume "nat l < length (filter ?P (s_rows s))"
      moreover have "length us = length ?ks" using arg_cong [OF outs, of length] by simp
      ultimately show ?thesis by simp
    qed (use v False in simp_all)
  qed
qed (use l in auto)

lemma ClaimSmallestSufficient_best:
  assumes inv: "store_inv s" and run: "ClaimSmallestSufficient s sc t m = (s', Inr res)"
    and v: "coins s op = Some v" "claimable_coin sc v" "m \<le> u_Satoshis v"
  shows "\<exists>u. res = Some u \<and> u_Satoshis u \<le> u_Satoshis v"
proof -
  have ok: "\<not> s_closed s" "ValidateClaim sc t = None"
    using run by (auto simp: ClaimSmallestSufficient_def split: if_splits option.splits)
  from v obtain r where r: "(op, r) \<in> set (s_rows s)" "r_utxo r = v"
    by (auto simp: coins_def dest: map_of_SomeD)
  then have fit: "fits sc m (op, r)" using v by (simp add: fits_def claimable_coin_row)
  show ?thesis
  proof (cases rule: ClaimSmallestSufficient_cases [OF ok, of m])
    case 1
    with r fit show ?thesis by blast
  next
    case (2 k row)
    have "asc_key (k, row) \<le> asc_key (op, r)" using bestLoop_least [OF 2(1)] r fit by blast
    with run 2(2) r(2) show ?thesis
      by (auto simp: asc_key_def less_eq_prod_def set_reserved_def less_imp_le)
  qed
qed

interpretation mem: exact_backend mem_ops coins store_inv "\<lambda>s. \<not> s_closed s"
proof unfold_locales
  fix s op u assume "store_inv s" "coins s op = Some u"
  then show "coin_wf op u" by (rule coins_wf)
next
  fix s :: store show "finite (dom (coins s))" by (rule coins_finite)
next
  fix s sc t m s' r assume "store_inv s" "ClaimSmallest mem_ops s sc t m = (s', r)"
  then show "store_inv s' \<and> (\<not> s_closed s \<longrightarrow> \<not> s_closed s') \<and>
      (case r of Inl e \<Rightarrow> coins s' = coins s | Inr None \<Rightarrow> coins s' = coins s
       | Inr (Some u) \<Rightarrow> t \<noteq> '''' \<and>
           claimed t (\<lambda>u0. claimable_coin sc u0 \<and> m \<le> u_Satoshis u0) (coins s) [u] (coins s'))"
    using ClaimSmallestSufficient_law exec_call_invD(1) by (simp add: mem_ops_def)
next
  fix s sc t c l s' rs assume inv: "store_inv s" and run: "ClaimLargest mem_ops s sc t c l = (s', rs)"
  have run': "ClaimLargestInsufficient s sc t c l = (s', rs)" using run by (simp add: mem_ops_def)
  from run' have "s_closed s' = s_closed s \<and>
      (case rs of Inl e \<Rightarrow> coins s' = coins s | Inr us \<Rightarrow> length us \<le> nat l \<and> (us \<noteq> [] \<longrightarrow> t \<noteq> '''') \<and>
           claimed t (\<lambda>u0. claimable_coin sc u0 \<and> u_Satoshis u0 < c) (coins s) us (coins s'))"
  proof (cases rule: ClaimLargestInsufficient_run)
    case (run us)
    note law = batch_law(1,2) [OF inv run(4), where sc = sc and q = "\<lambda>u. u_Satoshis u < c"]
    show ?thesis using law run reserveLoop_closed [OF run(4)] by simp
  qed auto
  then show "store_inv s' \<and> (\<not> s_closed s \<longrightarrow> \<not> s_closed s') \<and>
      (case rs of Inl e \<Rightarrow> coins s' = coins s | Inr us \<Rightarrow> length us \<le> nat l \<and> (us \<noteq> [] \<longrightarrow> t \<noteq> '''') \<and>
           claimed t (\<lambda>u0. claimable_coin sc u0 \<and> u_Satoshis u0 < c) (coins s) us (coins s'))"
    using exec_call_invD(2) [OF inv run'] by auto
next
  fix s sc t d l s' rs assume inv: "store_inv s" and run: "ClaimExactly mem_ops s sc t d l = (s', rs)"
  have run': "ClaimExact s sc t d l = (s', rs)" using run by (simp add: mem_ops_def)
  from run' have "s_closed s' = s_closed s \<and>
      (case rs of Inl e \<Rightarrow> coins s' = coins s | Inr us \<Rightarrow> length us \<le> nat l \<and> (us \<noteq> [] \<longrightarrow> t \<noteq> '''') \<and>
           claimed t (\<lambda>u0. claimable_coin sc u0 \<and> u_Satoshis u0 = d) (coins s) us (coins s'))"
  proof (cases rule: ClaimExact_run)
    case (run us)
    note law = batch_law(1,2) [OF inv run(4), where sc = sc and q = "\<lambda>u. u_Satoshis u = d"]
    show ?thesis using law run reserveLoop_closed [OF run(4)] by simp
  qed auto
  then show "store_inv s' \<and> (\<not> s_closed s \<longrightarrow> \<not> s_closed s') \<and>
      (case rs of Inl e \<Rightarrow> coins s' = coins s | Inr us \<Rightarrow> length us \<le> nat l \<and> (us \<noteq> [] \<longrightarrow> t \<noteq> '''') \<and>
           claimed t (\<lambda>u0. claimable_coin sc u0 \<and> u_Satoshis u0 = d) (coins s) us (coins s'))"
    using exec_call_invD(3) [OF inv run'] by auto
next
  fix s uid t s' rn assume "store_inv s" "ReleaseToken mem_ops s uid t = (s', rn)"
  then show "store_inv s' \<and> (\<not> s_closed s \<longrightarrow> \<not> s_closed s') \<and>
      (case rn of Inl e \<Rightarrow> coins s' = coins s \<and> \<not> (\<not> s_closed s \<and> t \<noteq> '''')
       | Inr n \<Rightarrow> coins s' = (\<lambda>op. map_option (janitor_free uid t) (coins s op)))"
    using exec_call_invD(4) [of s uid t s' rn] ReleaseReservation_coins [of s uid t s' rn]
    by (simp add: mem_ops_def split: sum.splits)
next
  fix s t os s' ro assume "store_inv s" "ReleaseOps mem_ops s t os = (s', ro)"
  then show "store_inv s' \<and> (\<not> s_closed s \<longrightarrow> \<not> s_closed s') \<and>
      (case ro of Some e \<Rightarrow> coins s' = coins s \<and> \<not> (\<not> s_closed s \<and> t \<noteq> '''')
       | None \<Rightarrow> t \<noteq> '''' \<and>
           coins s' = (\<lambda>op. if op \<in> set os then map_option (token_free t) (coins s op) else coins s op))"
    using exec_call_invD(5) [of s t os s' ro] ReleaseOutpoints_coins [of s t os s' ro]
    by (simp add: mem_ops_def split: option.splits)
next
  fix s sc t m s' u op v
  assume "store_inv s" "ClaimSmallest mem_ops s sc t m = (s', Inr (Some u))"
    "coins s op = Some v" "claimable_coin sc v" "m \<le> u_Satoshis v"
  then show "u_Satoshis u \<le> u_Satoshis v"
    using ClaimSmallestSufficient_best [of s sc t m s' "Some u" op v] by (simp add: mem_ops_def)
next
  fix s sc t m s' op v
  assume "store_inv s" "ClaimSmallest mem_ops s sc t m = (s', Inr None)" "coins s op = Some v" "claimable_coin sc v"
  then show "u_Satoshis v < m"
    using ClaimSmallestSufficient_best [of s sc t m s' None op v] by (auto simp: mem_ops_def not_less [symmetric])
next
  fix s sc t c l s' us assume "store_inv s" "ClaimLargest mem_ops s sc t c l = (s', Inr us)"
  then show "sorted_wrt (\<lambda>u v. u_Satoshis v \<le> u_Satoshis u) us"
    using ClaimLargestInsufficient_sorted [of s sc t c l s' us] by (simp add: mem_ops_def)
next
  fix s sc t c l s' us op v
  assume "store_inv s" "ClaimLargest mem_ops s sc t c l = (s', Inr us)"
    "coins s op = Some v" "claimable_coin sc v" "u_Satoshis v < c" "0 < l"
  then show "op \<in> u_Outpoint ` set us \<or> (length us = nat l \<and> (\<forall>u \<in> set us. u_Satoshis v \<le> u_Satoshis u))"
    using ClaimLargestInsufficient_full [of s sc t c l s' us op v] by (simp add: mem_ops_def)
next
  fix s sc t d n s' us op v
  assume "store_inv s" "ClaimExactly mem_ops s sc t d n = (s', Inr us)"
    "coins s op = Some v" "claimable_coin sc v" "u_Satoshis v = d" "0 < n"
  then show "op \<in> u_Outpoint ` set us \<or> length us = nat n"
    using ClaimExact_full [of s sc t d n s' us op v] by (simp add: mem_ops_def)
qed

end
