(* ===== verification/Memstore_Life.thy ===== *)
theory Memstore_Life
  imports Memstore_Claims
begin

text \<open>
  The life of a coin: an abstract state machine for one coin, and the proof that every method of the
  in-memory store moves every coin along it.  The store's concurrency promises are properties of the
  machine, lifted to sequences of calls.
\<close>

section \<open>The machine\<close>

fun claims_for :: "call \<Rightarrow> string \<Rightarrow> bool" where
  "claims_for (CallClaimSmallestSufficient sc t m) t' \<longleftrightarrow> t' = t"
| "claims_for (CallClaimLargestInsufficient sc t c l) t' \<longleftrightarrow> t' = t"
| "claims_for (CallClaimExact sc t d n) t' \<longleftrightarrow> t' = t"
| "claims_for (CallReserveOutpoints uid t ops) t' \<longleftrightarrow> t' = t"
| "claims_for _ t' \<longleftrightarrow> False"

inductive coin_step :: "call \<Rightarrow> utxo \<Rightarrow> utxo \<Rightarrow> bool" where
  stay: "coin_step c u u"
| claim: "claims_for c t \<Longrightarrow> t \<noteq> '''' \<Longrightarrow> u_ReservedBy u = '''' \<Longrightarrow> u_SpentBy u = None \<Longrightarrow> \<not> u_Frozen u \<Longrightarrow>
    coin_step c u (u\<lparr>u_ReservedBy := t, u_ReservedAt := i\<rparr>)"
| janitor: "held_coin uid t u \<Longrightarrow> \<not> u_Pinned u \<Longrightarrow> coin_step (CallReleaseReservation uid t) u (freed u)"
| release: "u_ReservedBy u = t \<Longrightarrow> u_SpentBy u = None \<Longrightarrow> u_Outpoint u \<in> set ops \<Longrightarrow>
    coin_step (CallReleaseOutpoints t ops) u (unpinned (freed u))"
| pin: "held_coin uid t u \<Longrightarrow> t \<noteq> '''' \<Longrightarrow> coin_step (CallPin uid t) u (u\<lparr>u_Pinned := True\<rparr>)"
| unpin: "held_coin uid t u \<Longrightarrow> t \<noteq> '''' \<Longrightarrow> coin_step (CallUnpin uid t) u (u\<lparr>u_Pinned := False\<rparr>)"
| spend: "sp \<in> set sps \<Longrightarrow> sp_Outpoint sp = u_Outpoint u \<Longrightarrow> u_SpentBy u = None \<Longrightarrow>
    force \<or> (\<not> u_Frozen u \<and> u_ReservedBy u = sp_Reservation sp \<and> u_ReservedBy u \<noteq> '''') \<Longrightarrow>
    coin_step (CallSpend sps force) u (u\<lparr>u_SpentBy := Some (sp_SpendingTxID sp), u_Pinned := False\<rparr>)"
| unspend: "u_SpentBy u = Some h \<Longrightarrow> u_Outpoint u \<in> set ops \<Longrightarrow>
    coin_step (CallUnspend h ops) u (u\<lparr>u_SpentBy := None, u_ReservedBy := '''', u_ReservedAt := zero_time, u_Pinned := False\<rparr>)"
| promote: "u_Outpoint u \<in> set ops \<Longrightarrow> Valid t \<Longrightarrow> coin_step (CallPromote ops t) u (u\<lparr>u_Tier := t\<rparr>)"
| freeze: "u_Outpoint u \<in> set ops \<Longrightarrow> coin_step (CallFreeze ops) u (u\<lparr>u_Frozen := True\<rparr>)"
| unfreeze: "u_Outpoint u \<in> set ops \<Longrightarrow> coin_step (CallUnfreeze ops) u (u\<lparr>u_Frozen := False\<rparr>)"

fun coin_removed :: "call \<Rightarrow> utxo \<Rightarrow> bool" where
  "coin_removed (CallRemove ops force) u \<longleftrightarrow> u_Outpoint u \<in> set ops \<and>
     (force \<or> (u_SpentBy u = None \<and> u_ReservedBy u = '''' \<and> \<not> u_Frozen u))"
| "coin_removed (CallRemoveSpentBy h) u \<longleftrightarrow> u_SpentBy u = Some h"
| "coin_removed (CallRemoveByMintTx h ops) u \<longleftrightarrow> u_Outpoint u \<in> set ops \<and> op_TxID (u_Outpoint u) = h \<and>
     u_SpentBy u = None \<and> u_ReservedBy u = ''''"
| "coin_removed _ u \<longleftrightarrow> False"

fun coin_minted :: "call \<Rightarrow> utxo \<Rightarrow> bool" where
  "coin_minted (CallMint ms) u \<longleftrightarrow> (\<exists>m \<in> set ms. \<exists>t. u = minted m t \<and> ValidateMint m = None)"
| "coin_minted _ u \<longleftrightarrow> False"

text \<open>What one call does to the coin at an outpoint, if there is one.\<close>

definition coin_move :: "call \<Rightarrow> utxo option \<Rightarrow> utxo option \<Rightarrow> bool" where
  "coin_move c x y \<longleftrightarrow>
     (case (x, y) of
        (None, None) \<Rightarrow> True
      | (None, Some u) \<Rightarrow> coin_minted c u
      | (Some u, None) \<Rightarrow> coin_removed c u
      | (Some u, Some u') \<Rightarrow> coin_step c u u')"

lemma coin_move_refl [simp]: "coin_move c x x"
  by (cases x) (auto simp: coin_move_def intro: stay)

section \<open>The loops, one coin at a time\<close>

lemma mintLoop_step: "fst (mintLoop s (m # ms)) = fst (mintLoop (fst (mintOne s m)) ms)"
  by (simp add: case_prod_unfold Let_def)

lemma mintLoop_Some: "map_of (s_rows s) op = Some r0 \<Longrightarrow> map_of (s_rows (fst (mintLoop s ms))) op = Some r0"
proof (induction ms arbitrary: s)
  case (Cons m ms)
  have "map_of (s_rows (fst (mintOne s m))) op = Some r0"
    using Cons.prems by (auto simp: mintOne_def Let_def ticked_def split: option.splits)
  from Cons.IH [OF this] show ?case unfolding mintLoop_step .
qed simp

lemma mintLoop_None:
  "map_of (s_rows s) op = None \<Longrightarrow> map_of (s_rows (fst (mintLoop s ms))) op = Some r \<Longrightarrow>
     \<exists>m \<in> set ms. m_Outpoint m = op \<and> ValidateMint m = None \<and> (\<exists>t. r_utxo r = minted m t)"
proof (induction ms arbitrary: s)
  case (Cons m ms)
  note run = Cons.prems(2) [unfolded mintLoop_step]
  show ?case
  proof (cases "map_of (s_rows (fst (mintOne s m))) op")
    case None
    from Cons.IH [OF None run] show ?thesis by auto
  next
    case (Some r1)
    from mintLoop_Some [OF Some] run have "r1 = r" by simp
    with Some Cons.prems(1) have "m_Outpoint m = op \<and> ValidateMint m = None \<and> r_utxo r = minted m (now_time s)"
      by (auto simp: mintOne_def Let_def ticked_def split: option.splits if_splits)
    thus ?thesis by auto
  qed
qed simp

lemma removeLoop_coin:
  "map_of (fst (removeLoop rs ops force)) op = map_of rs op \<or>
   (map_of (fst (removeLoop rs ops force)) op = None \<and> op \<in> set ops \<and>
      (\<exists>r. map_of rs op = Some r \<and> (force \<or> refuse_remove op (r_utxo r) = None)))"
proof (induction ops arbitrary: rs)
  case (Cons op' ops)
  show ?case
  proof (cases "\<exists>r. map_of rs op' = Some r \<and> (force \<or> refuse_remove op' (r_utxo r) = None)")
    case True
    then obtain r where r: "map_of rs op' = Some r" "force \<or> refuse_remove op' (r_utxo r) = None" by blast
    hence "fst (removeLoop rs (op' # ops) force) = fst (removeLoop (del_key op' rs) ops force)" by auto
    with Cons.IH [of "del_key op' rs"] r show ?thesis by (cases "op = op'") auto
  next
    case False
    hence "fst (removeLoop rs (op' # ops) force) = fst (removeLoop rs ops force)"
      by (auto simp: case_prod_unfold Let_def split: option.splits)
    with Cons.IH [of rs] show ?thesis by auto
  qed
qed simp

lemma removeMintLoop_coin:
  "map_of (fst (removeMintLoop rs rep ops)) op = map_of rs op \<or>
   (map_of (fst (removeMintLoop rs rep ops)) op = None \<and> op \<in> set ops \<and>
      (\<exists>r. map_of rs op = Some r \<and> u_SpentBy (r_utxo r) = None \<and> u_ReservedBy (r_utxo r) = ''''))"
proof (induction ops arbitrary: rs rep)
  case (Cons op' ops)
  show ?case
  proof (cases "\<exists>r. map_of rs op' = Some r \<and> u_SpentBy (r_utxo r) = None \<and> u_ReservedBy (r_utxo r) = ''''")
    case True
    then obtain r where r: "map_of rs op' = Some r" "u_SpentBy (r_utxo r) = None" "u_ReservedBy (r_utxo r) = ''''" by blast
    hence "\<exists>rep'. fst (removeMintLoop rs rep (op' # ops)) = fst (removeMintLoop (del_key op' rs) rep' ops)" by auto
    then obtain rep' where "fst (removeMintLoop rs rep (op' # ops)) = fst (removeMintLoop (del_key op' rs) rep' ops)" ..
    with Cons.IH [of "del_key op' rs" rep'] r show ?thesis by (cases "op = op'") auto
  next
    case False
    hence "\<exists>rep'. fst (removeMintLoop rs rep (op' # ops)) = fst (removeMintLoop rs rep' ops)"
      by (auto split: option.splits)
    then obtain rep' where "fst (removeMintLoop rs rep (op' # ops)) = fst (removeMintLoop rs rep' ops)" ..
    with Cons.IH [of rs rep'] show ?thesis by auto
  qed
qed simp

lemma stampLoop_coin:
  "map_of (stampLoop rs t i ops) op = (if op \<in> set ops then map_option (set_reserved t i) (map_of rs op) else map_of rs op)"
proof (induction rs t i ops rule: stampLoop.induct)
  case (2 rs t i op' ops)
  have "set_reserved t i (set_reserved t i r) = set_reserved t i r" for r by (simp add: set_reserved_def)
  with 2 show ?case by (cases "map_of rs op") auto
qed simp

lemma spendOne_coin:
  "map_of (fst (spendOne rs sp force)) op = map_of rs op \<or>
   (\<exists>r. map_of rs op = Some r \<and> sp_Outpoint sp = op \<and> u_SpentBy (r_utxo r) = None \<and>
      (force \<or> (\<not> u_Frozen (r_utxo r) \<and> u_ReservedBy (r_utxo r) = sp_Reservation sp \<and> sp_Reservation sp \<noteq> '''')) \<and>
      map_of (fst (spendOne rs sp force)) op = Some (set_spent (sp_SpendingTxID sp) r))"
  by (auto simp: spendOne_def ValidateSpend_def ValidateReservation_def split: option.splits if_splits)

lemma spendLoop_spent:
  "map_of rs op = Some r \<Longrightarrow> u_SpentBy (r_utxo r) = Some w \<Longrightarrow> map_of (fst (spendLoop rs sps force)) op = Some r"
proof (induction sps arbitrary: rs)
  case (Cons sp sps)
  have "map_of (fst (spendOne rs sp force)) op = Some r" using spendOne_coin [of rs sp force op] Cons.prems by auto
  with Cons.IH [OF this Cons.prems(2)] show ?case by (simp add: case_prod_unfold Let_def)
qed simp

lemma spendLoop_coin:
  "map_of (fst (spendLoop rs sps force)) op = map_of rs op \<or>
   (\<exists>r. \<exists>sp \<in> set sps. map_of rs op = Some r \<and> sp_Outpoint sp = op \<and> u_SpentBy (r_utxo r) = None \<and>
      (force \<or> (\<not> u_Frozen (r_utxo r) \<and> u_ReservedBy (r_utxo r) = sp_Reservation sp \<and> sp_Reservation sp \<noteq> '''')) \<and>
      map_of (fst (spendLoop rs sps force)) op = Some (set_spent (sp_SpendingTxID sp) r))"
proof (induction sps arbitrary: rs)
  case (Cons sp sps)
  let ?rs = "fst (spendOne rs sp force)"
  have loop: "fst (spendLoop rs (sp # sps) force) = fst (spendLoop ?rs sps force)" by (simp add: case_prod_unfold Let_def)
  show ?case
  proof (cases "map_of ?rs op = map_of rs op")
    case True
    with Cons.IH [of ?rs] loop show ?thesis by auto
  next
    case False
    with spendOne_coin [of rs sp force op] obtain r where r: "map_of rs op = Some r" "sp_Outpoint sp = op"
        "u_SpentBy (r_utxo r) = None" "force \<or> (\<not> u_Frozen (r_utxo r) \<and> u_ReservedBy (r_utxo r) = sp_Reservation sp \<and> sp_Reservation sp \<noteq> '''')"
        "map_of ?rs op = Some (set_spent (sp_SpendingTxID sp) r)" by auto
    have "map_of (fst (spendLoop ?rs sps force)) op = Some (set_spent (sp_SpendingTxID sp) r)"
      using r(5) by (rule spendLoop_spent) (simp add: set_spent_def)
    with r loop show ?thesis by (auto intro!: disjI2 exI [of _ r] bexI [of _ sp])
  qed
qed simp

lemma unspendLoop_coin:
  "map_of (fst (unspendLoop rs h ops)) op =
     (if op \<in> set ops then map_option (\<lambda>r. if u_SpentBy (r_utxo r) = Some h then set_unspent r else r) (map_of rs op)
      else map_of rs op)"
proof (induction rs h ops rule: unspendLoop.induct)
  case (2 rs h op' ops)
  then show ?case
    by (cases "map_of rs op'"; cases "map_of rs op") (auto simp: case_prod_unfold Let_def set_unspent_def)
qed simp

lemma promoteLoop_coin:
  "map_of (fst (promoteLoop rs ops t)) op = (if op \<in> set ops then map_option (set_tier t) (map_of rs op) else map_of rs op)"
proof (induction rs ops t rule: promoteLoop.induct)
  case (2 rs op' ops t)
  have same: "set_tier (u_Tier (r_utxo r)) r = r" for r by (simp add: set_tier_def)
  have idem: "set_tier t (set_tier t r) = set_tier t r" for r by (simp add: set_tier_def)
  from 2 show ?case
    by (cases "map_of rs op'"; cases "map_of rs op") (auto simp: case_prod_unfold Let_def same idem)
qed simp

lemma frozenLoop_coin:
  "map_of (fst (frozenLoop rs ops b)) op = (if op \<in> set ops then map_option (set_frozen b) (map_of rs op) else map_of rs op)"
proof (induction rs ops b rule: frozenLoop.induct)
  case (2 rs op' ops b)
  have idem: "set_frozen b (set_frozen b r) = set_frozen b r" for r by (simp add: set_frozen_def)
  from 2 show ?case
    by (cases "map_of rs op'"; cases "map_of rs op") (auto simp: case_prod_unfold Let_def idem)
qed simp

section \<open>The store refines the machine\<close>

lemma claimed_move:
  assumes c: "claimed t p V us V'" and p: "\<And>u. p u \<Longrightarrow> claimable_coin sc u" and t: "us \<noteq> [] \<longrightarrow> t \<noteq> ''''" "claims_for c t"
  shows "coin_move c (V op) (V' op)"
proof (cases "op \<in> u_Outpoint ` set us")
  case True
  then obtain u where u: "u \<in> set us" "op = u_Outpoint u" by auto
  from c u(1) obtain u1 where u1: "V (u_Outpoint u) = Some u1 \<and> p u1 \<and> held_copy t u1 u \<and> V' (u_Outpoint u) = Some u"
    unfolding claimed_def by blast
  then obtain i where "u = u1\<lparr>u_ReservedBy := t, u_ReservedAt := i\<rparr>" by (auto simp: held_copy_def)
  with u1 u(2) obtain u0 i where u0: "V op = Some u0" "p u0" "V' op = Some (u0\<lparr>u_ReservedBy := t, u_ReservedAt := i\<rparr>)"
    by auto
  moreover have "t \<noteq> ''''" using t(1) u by auto
  ultimately show ?thesis using p t(2) by (auto simp: coin_move_def claimable_coin_def intro!: coin_step.claim)
next
  case False
  with c show ?thesis by (simp add: claimed_def)
qed

lemma coin_move_claims:
  assumes inv: "store_inv s"
  shows "coin_move (CallClaimSmallestSufficient sc t m) (coins s op) (coins (fst (ClaimSmallestSufficient s sc t m)) op)"
    and "coin_move (CallClaimLargestInsufficient sc t m l) (coins s op) (coins (fst (ClaimLargestInsufficient s sc t m l)) op)"
    and "coin_move (CallClaimExact sc t m l) (coins s op) (coins (fst (ClaimExact s sc t m l)) op)"
proof -
  obtain s1 r1 where 1: "ClaimSmallest mem_ops s sc t m = (s1, r1)" by fastforce
  obtain s2 r2 where 2: "ClaimLargest mem_ops s sc t m l = (s2, r2)" by fastforce
  obtain s3 r3 where 3: "ClaimExactly mem_ops s sc t m l = (s3, r3)" by fastforce
  show "coin_move (CallClaimSmallestSufficient sc t m) (coins s op) (coins (fst (ClaimSmallestSufficient s sc t m)) op)"
    using mem.smallest_law [OF inv 1] 1
    by (cases r1) (auto simp: mem_ops_def split: option.splits intro: claimed_move [where sc = sc])
  show "coin_move (CallClaimLargestInsufficient sc t m l) (coins s op) (coins (fst (ClaimLargestInsufficient s sc t m l)) op)"
    using mem.largest_law [OF inv 2] 2 by (cases r2) (auto simp: mem_ops_def intro: claimed_move [where sc = sc])
  show "coin_move (CallClaimExact sc t m l) (coins s op) (coins (fst (ClaimExact s sc t m l)) op)"
    using mem.exact_law [OF inv 3] 3 by (cases r3) (auto simp: mem_ops_def intro: claimed_move [where sc = sc])
qed

lemma coin_outpoint: "store_inv s \<Longrightarrow> coins s op = Some u \<Longrightarrow> u_Outpoint u = op"
  using coins_wf by (auto simp: coin_wf_def)

lemma coin_moveI_upd:
  assumes "y = x \<or> y = map_option f x" "\<And>u. x = Some u \<Longrightarrow> y = map_option f x \<Longrightarrow> coin_step c u (f u)"
  shows "coin_move c x y"
  using assms by (cases x) (auto simp: coin_move_def intro: stay)

lemma coin_move_releases:
  assumes inv: "store_inv s"
  shows "coin_move (CallReleaseReservation uid t) (coins s op) (coins (fst (ReleaseReservation s uid t)) op)"
    and "coin_move (CallReleaseOutpoints t ops) (coins s op) (coins (fst (ReleaseOutpoints s t ops)) op)"
    and "coin_move (CallPin uid t) (coins s op) (coins (fst (Pin s uid t)) op)"
    and "coin_move (CallUnpin uid t) (coins s op) (coins (fst (Unpin s uid t)) op)"
proof -
  obtain s1 r1 where 1: "ReleaseReservation s uid t = (s1, r1)" by fastforce
  have "coins s1 op = coins s op \<or> coins s1 op = map_option (janitor_free uid t) (coins s op)"
    using ReleaseReservation_coins(2) [OF 1] by (cases r1) auto
  hence "coin_move (CallReleaseReservation uid t) (coins s op) (coins s1 op)"
    by (rule coin_moveI_upd) (auto simp: janitor_free_def intro: stay janitor)
  thus "coin_move (CallReleaseReservation uid t) (coins s op) (coins (fst (ReleaseReservation s uid t)) op)" using 1 by simp
  obtain s2 r2 where 2: "ReleaseOutpoints s t ops = (s2, r2)" by fastforce
  let ?f = "\<lambda>u. if op \<in> set ops then token_free t u else u"
  have "coins s2 op = coins s op \<or> coins s2 op = map_option ?f (coins s op)"
    using ReleaseOutpoints_coins(2) [OF 2] by (cases r2) auto
  hence "coin_move (CallReleaseOutpoints t ops) (coins s op) (coins s2 op)"
    using coin_outpoint [OF inv]
    by (elim coin_moveI_upd) (auto simp: token_free_def intro: stay coin_step.release)
  thus "coin_move (CallReleaseOutpoints t ops) (coins s op) (coins (fst (ReleaseOutpoints s t ops)) op)" using 2 by simp
  have setp: "coins (fst (setPinned s uid t b)) op = coins s op \<or>
      coins (fst (setPinned s uid t b)) op = map_option (\<lambda>u. if held_coin uid t u \<and> t \<noteq> '''' then u\<lparr>u_Pinned := b\<rparr> else u) (coins s op)" for b
    by (cases "map_of (s_rows s) op")
       (auto simp: setPinned_def Let_def coins_def validate_None heldBy_coin set_pin_def split: option.splits)
  show "coin_move (CallPin uid t) (coins s op) (coins (fst (Pin s uid t)) op)"
    unfolding Pin_def using setp [of True] by (rule coin_moveI_upd) (auto intro: stay pin)
  show "coin_move (CallUnpin uid t) (coins s op) (coins (fst (Unpin s uid t)) op)"
    unfolding Unpin_def using setp [of False] by (rule coin_moveI_upd) (auto intro: stay unpin)
qed

lemma coins_upd: "coins (s\<lparr>s_rows := rs\<rparr>) op = map_option r_utxo (map_of rs op)"
  by (simp add: coins_def)

lemma coin_move_spends:
  assumes inv: "store_inv s"
  shows "coin_move (CallSpend sps force) (coins s op) (coins (fst (Spend s sps force)) op)"
    and "coin_move (CallUnspend h ops) (coins s op) (coins (fst (Unspend s h ops)) op)"
    and "coin_move (CallRemoveSpentBy h) (coins s op) (coins (fst (RemoveSpentBy s h)) op)"
proof -
  have wf: "alist_wf (s_rows s)" using inv by (simp add: store_inv_def rows_inv_def)
  have out: "map_of (s_rows s) op = Some r \<Longrightarrow> u_Outpoint (r_utxo r) = op" for r
    using coin_outpoint [OF inv, of op "r_utxo r"] by (simp add: coins_def)
  show "coin_move (CallSpend sps force) (coins s op) (coins (fst (Spend s sps force)) op)"
  proof (cases "s_closed s")
    case False
    hence new: "coins (fst (Spend s sps force)) op = map_option r_utxo (map_of (fst (spendLoop (s_rows s) sps force)) op)"
      by (simp add: Spend_def case_prod_unfold Let_def coins_upd)
    from spendLoop_coin [of "s_rows s" sps force op] show ?thesis
    proof
      assume "map_of (fst (spendLoop (s_rows s) sps force)) op = map_of (s_rows s) op"
      with new show ?thesis by (simp add: coins_def)
    next
      assume "\<exists>r. \<exists>sp \<in> set sps. map_of (s_rows s) op = Some r \<and> sp_Outpoint sp = op \<and> u_SpentBy (r_utxo r) = None \<and>
        (force \<or> (\<not> u_Frozen (r_utxo r) \<and> u_ReservedBy (r_utxo r) = sp_Reservation sp \<and> sp_Reservation sp \<noteq> '''')) \<and>
        map_of (fst (spendLoop (s_rows s) sps force)) op = Some (set_spent (sp_SpendingTxID sp) r)"
      then obtain r sp where r: "map_of (s_rows s) op = Some r"
          "map_of (fst (spendLoop (s_rows s) sps force)) op = Some (set_spent (sp_SpendingTxID sp) r)"
          and sp: "sp \<in> set sps" "sp_Outpoint sp = op" "u_SpentBy (r_utxo r) = None"
          "force \<or> (\<not> u_Frozen (r_utxo r) \<and> u_ReservedBy (r_utxo r) = sp_Reservation sp \<and> sp_Reservation sp \<noteq> '''')" by blast
      have "coin_step (CallSpend sps force) (r_utxo r) ((r_utxo r)\<lparr>u_SpentBy := Some (sp_SpendingTxID sp), u_Pinned := False\<rparr>)"
        using sp out [OF r(1)] by (intro coin_step.spend) auto
      moreover have "coins s op = Some (r_utxo r)" using r(1) by (simp add: coins_def)
      ultimately show ?thesis unfolding new r(2) by (simp add: coin_move_def set_spent_def)
    qed
  qed (simp add: Spend_def)
  show "coin_move (CallUnspend h ops) (coins s op) (coins (fst (Unspend s h ops)) op)"
  proof (cases "s_closed s")
    case False
    let ?f = "\<lambda>u. if op \<in> set ops \<and> u_SpentBy u = Some h
        then u\<lparr>u_SpentBy := None, u_ReservedBy := '''', u_ReservedAt := zero_time, u_Pinned := False\<rparr> else u"
    have "coins (fst (Unspend s h ops)) op = map_option ?f (coins s op)"
      using False by (cases "map_of (s_rows s) op")
        (auto simp: Unspend_def case_prod_unfold Let_def coins_upd coins_def unspendLoop_coin set_unspent_def)
    hence "coins (fst (Unspend s h ops)) op = coins s op \<or> coins (fst (Unspend s h ops)) op = map_option ?f (coins s op)" ..
    thus ?thesis by (rule coin_moveI_upd) (auto dest: coin_outpoint [OF inv] intro: stay coin_step.unspend)
  qed (simp add: Unspend_def)
  show "coin_move (CallRemoveSpentBy h) (coins s op) (coins (fst (RemoveSpentBy s h)) op)"
    by (auto simp: RemoveSpentBy_def Let_def coins_upd coins_def map_of_del_if [OF wf] coin_move_def
        split: option.splits intro: stay)
qed

lemma coin_move_tiers:
  assumes inv: "store_inv s"
  shows "coin_move (CallPromote ops t) (coins s op) (coins (fst (Promote s ops t)) op)"
    and "coin_move (CallFreeze ops) (coins s op) (coins (fst (Freeze s ops)) op)"
    and "coin_move (CallUnfreeze ops) (coins s op) (coins (fst (Unfreeze s ops)) op)"
proof -
  have "coins (fst (Promote s ops t)) op = coins s op \<or>
      coins (fst (Promote s ops t)) op = map_option (\<lambda>u. if op \<in> set ops \<and> Valid t then u\<lparr>u_Tier := t\<rparr> else u) (coins s op)"
    by (cases "map_of (s_rows s) op")
       (auto simp: Promote_def case_prod_unfold Let_def coins_upd coins_def promoteLoop_coin set_tier_def)
  thus "coin_move (CallPromote ops t) (coins s op) (coins (fst (Promote s ops t)) op)"
    by (rule coin_moveI_upd) (auto dest: coin_outpoint [OF inv] intro: stay promote)
  have fr: "coins (fst (setFrozen s ops b)) op = coins s op \<or>
      coins (fst (setFrozen s ops b)) op = map_option (\<lambda>u. if op \<in> set ops then u\<lparr>u_Frozen := b\<rparr> else u) (coins s op)" for b
    by (cases "map_of (s_rows s) op")
       (auto simp: setFrozen_def case_prod_unfold Let_def coins_upd coins_def frozenLoop_coin set_frozen_def)
  show "coin_move (CallFreeze ops) (coins s op) (coins (fst (Freeze s ops)) op)"
    unfolding Freeze_def using fr [of True] by (rule coin_moveI_upd) (auto dest: coin_outpoint [OF inv] intro: stay freeze)
  show "coin_move (CallUnfreeze ops) (coins s op) (coins (fst (Unfreeze s ops)) op)"
    unfolding Unfreeze_def using fr [of False] by (rule coin_moveI_upd) (auto dest: coin_outpoint [OF inv] intro: stay unfreeze)
qed

lemma coin_move_removes:
  assumes inv: "store_inv s"
  shows "coin_move (CallRemove ops force) (coins s op) (coins (fst (Remove s ops force)) op)"
    and "coin_move (CallRemoveByMintTx h ops) (coins s op) (coins (fst (RemoveByMintTx s h ops)) op)"
proof -
  have out: "map_of (s_rows s) op = Some r \<Longrightarrow> u_Outpoint (r_utxo r) = op" for r
    using coin_outpoint [OF inv, of op "r_utxo r"] by (simp add: coins_def)
  show "coin_move (CallRemove ops force) (coins s op) (coins (fst (Remove s ops force)) op)"
  proof (cases "s_closed s")
    case False
    hence new: "coins (fst (Remove s ops force)) op = map_option r_utxo (map_of (fst (removeLoop (s_rows s) ops force)) op)"
      by (simp add: Remove_def case_prod_unfold Let_def coins_upd)
    have ref: "refuse_remove op u = None \<longleftrightarrow> u_SpentBy u = None \<and> u_ReservedBy u = '''' \<and> \<not> u_Frozen u" for u
      by (simp add: refuse_remove_def split: option.splits)
    from removeLoop_coin [of "s_rows s" ops force op] show ?thesis
      using new out by (elim disjE) (auto simp: coins_def coin_move_def ref)
  qed (simp add: Remove_def)
  show "coin_move (CallRemoveByMintTx h ops) (coins s op) (coins (fst (RemoveByMintTx s h ops)) op)"
  proof (cases "s_closed s \<or> ValidateMintOutpoints h ops \<noteq> None")
    case False
    hence ids: "\<forall>o' \<in> set ops. op_TxID o' = h" by (simp add: validate_None)
    from False have new: "coins (fst (RemoveByMintTx s h ops)) op =
        map_option r_utxo (map_of (fst (removeMintLoop (s_rows s) empty_report ops)) op)"
      by (simp add: RemoveByMintTx_def case_prod_unfold Let_def coins_upd)
    from removeMintLoop_coin [of "s_rows s" empty_report ops op] show ?thesis
      using new out ids by (elim disjE) (auto simp: coins_def coin_move_def)
  qed (auto simp: RemoveByMintTx_def)
qed

lemma coin_move_reserve:
  assumes inv: "store_inv s"
  shows "coin_move (CallReserveOutpoints uid t ops) (coins s op) (coins (fst (ReserveOutpoints s uid t ops)) op)"
proof -
  let ?cl = "classifyLoop (s_rows s) uid t (distinctOutpoints ops)"
  show ?thesis
  proof (cases "s_closed s \<or> ValidateReserveOutpoints t ops \<noteq> None \<or> fst ?cl \<noteq> []")
    case True
    hence "fst (ReserveOutpoints s uid t ops) = s"
      by (auto simp: ReserveOutpoints_def case_prod_unfold Let_def split: option.splits)
    thus ?thesis by simp
  next
    case False
    have "op \<in> set (snd ?cl) \<Longrightarrow> \<exists>r. map_of (s_rows s) op = Some r \<and> u_SpentBy (r_utxo r) = None \<and>
        u_ReservedBy (r_utxo r) = '''' \<and> \<not> u_Frozen (r_utxo r) \<and> t \<noteq> ''''"
      by (auto simp: classifyLoop_filter classifyReserve_ToStamp)
    with False show ?thesis
      by (auto simp: ReserveOutpoints_def case_prod_unfold Let_def coins_def ticked_def stampLoop_coin coin_move_def set_reserved_def
          split: option.splits if_splits intro: stay intro!: coin_step.claim)
  qed
qed

lemma coin_move_mint:
  assumes inv: "store_inv s"
  shows "coin_move (CallMint ms) (coins s op) (coins (fst (Mint s ms)) op)"
proof (cases "s_closed s")
  case False
  show ?thesis
  proof (cases "map_of (s_rows s) op")
    case None
    with False mintLoop_None [OF None, of ms] show ?thesis
      by (auto simp: Mint_def case_prod_unfold Let_def coins_def coin_move_def split: option.splits) blast
  next
    case (Some r)
    with False mintLoop_Some [OF Some, of ms] show ?thesis
      by (simp add: Mint_def case_prod_unfold Let_def coins_def)
  qed
qed (simp add: Mint_def)

lemma exec_call_coin:
  assumes "store_inv s"
  shows "coin_move c (coins s op) (coins (exec_call c s) op)"
  using coin_move_claims [OF assms] coin_move_releases [OF assms] coin_move_spends [OF assms] coin_move_tiers [OF assms]
    coin_move_removes [OF assms] coin_move_reserve [OF assms] coin_move_mint [OF assms]
  by (cases c) (simp_all add: Close_def coins_def)

end
