(* ===== verification/Memstore_Props.thy ===== *)
theory Memstore_Props
  imports Memstore_Life
begin

text \<open>
  The properties of the in-memory store: the invariant of reachable stores, the refinement of the
  coin machine and its consequences for sequences of calls, selection order, atomicity, replays and
  the balance.
\<close>

section \<open>Sequences of calls\<close>

definition exec_calls :: "call list \<Rightarrow> store \<Rightarrow> store" where
  "exec_calls cs s = foldl (\<lambda>s c. exec_call c s) s cs"

lemma exec_calls_simps [simp]: "exec_calls [] s = s" "exec_calls (c # cs) s = exec_calls cs (exec_call c s)"
  by (simp_all add: exec_calls_def)

text \<open>
  The calls that can end the spend of the coin at \<open>op\<close> by \<open>h\<close>, and the calls that can end the hold of
  the token \<open>t\<close> on it.  Everything else, removals and spends of other coins included, is not in them.
\<close>

fun ends_spend :: "outpoint \<Rightarrow> hash \<Rightarrow> call \<Rightarrow> bool" where
  "ends_spend op h (CallUnspend h' ops) = (h' = h \<and> op \<in> set ops)"
| "ends_spend op h (CallRemoveSpentBy h') = (h' = h)"
| "ends_spend op h (CallRemove ops force) = (force \<and> op \<in> set ops)"
| "ends_spend op h _ = False"

fun ends_hold :: "outpoint \<Rightarrow> string \<Rightarrow> call \<Rightarrow> bool" where
  "ends_hold op t (CallReleaseReservation uid t') = (t' = t)"
| "ends_hold op t (CallReleaseOutpoints t' ops) = (t' = t \<and> op \<in> set ops)"
| "ends_hold op t (CallSpend sps force) = (\<exists>sp \<in> set sps. sp_Outpoint sp = op \<and> (force \<or> sp_Reservation sp = t))"
| "ends_hold op t (CallRemove ops force) = (force \<and> op \<in> set ops)"
| "ends_hold op t _ = False"

lemma exec_call_kept:
  assumes "store_inv s" "coins s op = Some u" "\<not> coin_removed c u"
  obtains u' where "coins (exec_call c s) op = Some u'" "coin_step c u u'"
  using exec_call_coin [OF assms(1), of c op] assms(2,3)
  by (cases "coins (exec_call c s) op") (auto simp: coin_move_def)

lemma calls_keep:
  assumes "store_inv s" "coins s op = Some u" "P u"
    and "\<And>c u. c \<in> set cs \<Longrightarrow> u_Outpoint u = op \<Longrightarrow> P u \<Longrightarrow> \<not> coin_removed c u"
    and "\<And>c u u'. c \<in> set cs \<Longrightarrow> u_Outpoint u = op \<Longrightarrow> coin_step c u u' \<Longrightarrow> P u \<Longrightarrow> P u'"
  shows "\<exists>u'. coins (exec_calls cs s) op = Some u' \<and> P u'"
  using assms
proof (induction cs arbitrary: s u)
  case (Cons c cs)
  note op = coin_outpoint [OF Cons.prems(1,2)]
  obtain u' where u': "coins (exec_call c s) op = Some u'" "coin_step c u u'"
    using exec_call_kept [OF Cons.prems(1,2)] Cons.prems(3) Cons.prems(4) [of c u] op by auto
  have "P u'" using Cons.prems(5) [of c u u'] Cons.prems(3) u'(2) op by simp
  have "\<exists>v. coins (exec_calls cs (exec_call c s)) op = Some v \<and> P v"
    by (rule Cons.IH [OF exec_call_inv [OF Cons.prems(1)] u'(1) \<open>P u'\<close>])
      (use Cons.prems(4,5) in \<open>metis list.set_intros(2)\<close>)+
  then show ?case by simp
qed auto

lemma coin_step_spent:
  "coin_step c u u' \<Longrightarrow> u_SpentBy u = Some h \<Longrightarrow> \<forall>ops. c = CallUnspend h ops \<longrightarrow> u_Outpoint u \<notin> set ops \<Longrightarrow> u_SpentBy u' = Some h"
  by (induction rule: coin_step.induct) (auto simp: freed_def unpinned_def held_coin_def)

lemma coin_step_held:
  "coin_step c u u' \<Longrightarrow> u_ReservedBy u = t \<Longrightarrow> u_SpentBy u = None \<Longrightarrow> t \<noteq> '''' \<Longrightarrow> \<not> ends_hold (u_Outpoint u) t c \<Longrightarrow>
     u_ReservedBy u' = t \<and> u_SpentBy u' = None"
  by (induction rule: coin_step.induct) (auto simp: freed_def unpinned_def held_coin_def)

lemma not_removed:
  "\<not> ends_spend (u_Outpoint u) h c \<Longrightarrow> u_SpentBy u = Some h \<Longrightarrow> \<not> coin_removed c u"
  "\<not> ends_hold (u_Outpoint u) t c \<Longrightarrow> u_ReservedBy u = t \<Longrightarrow> t \<noteq> '''' \<Longrightarrow> u_SpentBy u = None \<Longrightarrow> \<not> coin_removed c u"
  by (cases c; auto)+

section \<open>A small store for the witnesses\<close>

definition w_mint :: mint where
  "w_mint = \<lparr>m_Outpoint = Outpoint 7 0, m_UserID = 1, m_Basket = ''default'', m_Satoshis = 500, m_InputSize = 107,
     m_Tier = TierMined\<rparr>"

definition w_store :: store where
  "w_store = exec_call (CallMint [w_mint]) (New (\<lambda>_. 9))"

definition w_scope :: scope where
  "w_scope = \<lparr>sc_UserID = 1, sc_Basket = ''default'', sc_Tier = TierMined\<rparr>"

definition w_held :: store where
  "w_held = exec_call (CallClaimSmallestSufficient w_scope ''tx'' 100) w_store"


definition w_coin :: utxo where
  "w_coin = \<lparr>u_Outpoint = Outpoint 7 0, u_UserID = 1, u_Basket = ''default'', u_Satoshis = 500, u_InputSize = 107,
     u_Tier = TierMined, u_ReservedBy = '''', u_ReservedAt = zero_time, u_SpentBy = None, u_Frozen = False,
     u_Pinned = False, u_CreatedAt = 9\<rparr>"

lemma w_store_eq: "w_store = \<lparr>s_rows = [(Outpoint 7 0, \<lparr>r_utxo = w_coin, r_seq = 1\<rparr>)], s_nextSeq = 1, s_closed = False,
    s_now = \<lambda>_. 9, s_ticks = 1\<rparr>"
  by (simp add: w_store_def Mint_def mintOne_def New_def w_mint_def ValidateMint_def Valid_def TierMined_def TierSending_def
      minted_def w_coin_def now_time_def ticked_def Let_def)

lemma w_held_eq: "w_held = \<lparr>s_rows = [(Outpoint 7 0, \<lparr>r_utxo = w_coin\<lparr>u_ReservedBy := ''tx'', u_ReservedAt := 9\<rparr>, r_seq = 1\<rparr>)],
    s_nextSeq = 1, s_closed = False, s_now = \<lambda>_. 9, s_ticks = 2\<rparr>"
  by (simp add: w_held_def w_store_eq ClaimSmallestSufficient_def ValidateClaim_def ValidateReservation_def ValidateScope_def
      w_scope_def w_coin_def Valid_def TierMined_def TierSending_def claimable_def reserve_def now_time_def ticked_def
      set_reserved_def upd_key_def Let_def)

lemma w_reachable: "reachable (\<lambda>_. 9) w_store" "reachable (\<lambda>_. 9) w_held"
proof -
  show r: "reachable (\<lambda>_. 9) w_store" unfolding w_store_def by (intro reachable.intros)
  show "reachable (\<lambda>_. 9) w_held" unfolding w_held_def by (intro reachable.step r)
qed

lemma w_coins: "coins w_store (Outpoint 7 0) = Some w_coin"
    "coins w_held (Outpoint 7 0) = Some (w_coin\<lparr>u_ReservedBy := ''tx'', u_ReservedAt := 9\<rparr>)"
  by (simp_all add: w_store_eq w_held_eq coins_def)

section \<open>Properties\<close>

text \<open>
  C21: The invariant of every store that any sequence of calls can reach: one row per outpoint, stored
  under its own outpoint, with a valid owner, basket and tier and its own insertion number; a pinned
  coin is reserved and unspent; a coin without a reservation has no reservation time.
\<close>

theorem reachable_store_inv:
  assumes "reachable now s"
  shows "distinct (map fst (s_rows s)) \<and> distinct (map (\<lambda>kr. r_seq (snd kr)) (s_rows s)) \<and>
    (\<forall>op u. coins s op = Some u \<longrightarrow> u_Outpoint u = op \<and> 0 < u_UserID u \<and> u_Basket u \<noteq> '''' \<and> Valid (u_Tier u) \<and>
       (u_Pinned u \<longrightarrow> u_ReservedBy u \<noteq> '''' \<and> u_SpentBy u = None) \<and>
       (u_ReservedBy u = '''' \<longrightarrow> u_ReservedAt u = zero_time))"
proof -
  have inv: "store_inv s" using assms by (rule reachable_inv)
  hence "distinct (map fst (s_rows s))" "distinct (map (\<lambda>kr. r_seq (snd kr)) (s_rows s))"
    by (simp_all add: store_inv_def rows_inv_def alist_wf_def seq_key_def [abs_def])
  with coins_wf [OF inv] show ?thesis unfolding coin_wf_def by blast
qed

theorem reachable_store_inv_witness:
  "reachable (\<lambda>_. 9) w_held \<and> distinct (map fst (s_rows w_held)) \<and> u_Outpoint (w_coin\<lparr>u_ReservedBy := ''tx'', u_ReservedAt := 9\<rparr>) = Outpoint 7 0"
  using reachable_store_inv [OF w_reachable(2)] w_reachable(2) w_coins(2) by blast

text \<open>
  C3: The store refines the coin machine.  Whatever method is called, the coin at an outpoint either
  appears by a valid mint, disappears by one of the three removing methods under its condition, or
  makes one step of the machine: it is claimed only while free, unspent and not frozen; it is released
  only by its own token, and by the janitor only if it is not pinned; it is spent only while unspent,
  and without force only by the token that holds it; it is given back only by the transaction that
  spent it; its identity never changes.
\<close>

theorem memstore_refines_coin_machine:
  assumes "reachable now s"
  shows "coin_move c (coins s op) (coins (exec_call c s) op)"
  by (rule exec_call_coin [OF reachable_inv [OF assms]])

theorem memstore_refines_coin_machine_witness:
  "coin_move (CallClaimSmallestSufficient w_scope ''tx'' 100) (Some w_coin) (Some (w_coin\<lparr>u_ReservedBy := ''tx'', u_ReservedAt := 9\<rparr>))"
  using memstore_refines_coin_machine [OF w_reachable(1), of "CallClaimSmallestSufficient w_scope ''tx'' 100" "Outpoint 7 0"] w_coins
  unfolding w_held_def by simp

text \<open>
  C25: A spend is final until this spend is undone.  A coin spent by a transaction stays in the store and
  stays spent by that transaction through any sequence of calls, forced spends, freezes, promotions and
  removals of other coins included, in which no \<open>Unspend\<close> for that transaction names the coin, no
  \<open>RemoveSpentBy\<close> is for that transaction, and no forced \<open>Remove\<close> names the coin.
\<close>

theorem spend_is_final:
  assumes "reachable now s" "coins s op = Some u" "u_SpentBy u = Some h" "\<forall>c \<in> set cs. \<not> ends_spend op h c"
  shows "\<exists>u'. coins (exec_calls cs s) op = Some u' \<and> u_SpentBy u' = Some h"
proof (rule calls_keep [OF reachable_inv [OF assms(1)] assms(2)])
  fix c :: call and v :: utxo assume c: "c \<in> set cs" "u_Outpoint v = op" "u_SpentBy v = Some h"
  then show "\<not> coin_removed c v" using assms(4) not_removed(1) [of v h c] by auto
  fix v' assume "coin_step c v v'"
  then show "u_SpentBy v' = Some h" using c assms(4) by (intro coin_step_spent [of c v v' h]) fastforce+
qed (fact assms(3))

theorem spend_is_final_witness:
  "\<exists>u'. coins (exec_calls [CallSpend [\<lparr>sp_Outpoint = Outpoint 7 0, sp_Reservation = ''tx'', sp_SpendingTxID = 5\<rparr>] True,
       CallRemove [Outpoint 7 0] False, CallRemoveSpentBy 5, CallUnspend 5 [Outpoint 7 0]]
       (exec_call (CallSpend [\<lparr>sp_Outpoint = Outpoint 7 0, sp_Reservation = ''tx'', sp_SpendingTxID = 4\<rparr>] False) w_held))
     (Outpoint 7 0) = Some u' \<and> u_SpentBy u' = Some 4"
proof (rule spend_is_final)
  show "reachable (\<lambda>_. 9) (exec_call (CallSpend [\<lparr>sp_Outpoint = Outpoint 7 0, sp_Reservation = ''tx'', sp_SpendingTxID = 4\<rparr>] False) w_held)"
    by (intro reachable.step w_reachable)
  show "coins (exec_call (CallSpend [\<lparr>sp_Outpoint = Outpoint 7 0, sp_Reservation = ''tx'', sp_SpendingTxID = 4\<rparr>] False) w_held)
      (Outpoint 7 0) = Some (w_coin\<lparr>u_ReservedBy := ''tx'', u_ReservedAt := 9, u_SpentBy := Some 4\<rparr>)"
    by (simp add: w_held_eq Spend_def spendOne_def ValidateSpend_def ValidateReservation_def w_coin_def coins_def set_spent_def Let_def)
qed simp_all

text \<open>
  C26: A reservation is exclusive.  An unspent coin reserved by a token stays in the store, unspent and
  reserved by that token, through any sequence of calls in which the token is not released (as a whole,
  or for this coin), the coin is not spent under the token or by a forced spend, and no forced \<open>Remove\<close>
  names it.  No claim, no release under another token, no spend under another token, no \<open>Unspend\<close> and
  none of the other removals takes it.
\<close>

theorem reservation_is_exclusive:
  assumes "reachable now s" "coins s op = Some u" "u_ReservedBy u = t" "t \<noteq> ''''" "u_SpentBy u = None"
    and "\<forall>c \<in> set cs. \<not> ends_hold op t c"
  shows "\<exists>u'. coins (exec_calls cs s) op = Some u' \<and> u_ReservedBy u' = t \<and> u_SpentBy u' = None"
proof (rule calls_keep [OF reachable_inv [OF assms(1)] assms(2)])
  fix c :: call and v :: utxo assume c: "c \<in> set cs" "u_Outpoint v = op" "u_ReservedBy v = t \<and> u_SpentBy v = None"
  then show "\<not> coin_removed c v" using assms(4,6) not_removed(2) [of v t c] by auto
  fix v' assume "coin_step c v v'"
  then show "u_ReservedBy v' = t \<and> u_SpentBy v' = None" using c assms(4,6) coin_step_held [of c v v' t] by auto
qed (use assms in simp)

theorem reservation_is_exclusive_witness:
  "\<exists>u'. coins (exec_calls [CallClaimSmallestSufficient w_scope ''other'' 1, CallReleaseReservation 1 ''other'',
       CallSpend [\<lparr>sp_Outpoint = Outpoint 7 0, sp_Reservation = ''other'', sp_SpendingTxID = 5\<rparr>] False,
       CallRemove [Outpoint 7 0] False, CallRemoveByMintTx 7 [Outpoint 7 0]] w_held) (Outpoint 7 0) = Some u' \<and>
     u_ReservedBy u' = ''tx'' \<and> u_SpentBy u' = None"
  by (rule reservation_is_exclusive [OF w_reachable(2) w_coins(2)]) (simp_all add: w_coin_def)


section \<open>Selection\<close>

text \<open>
  C27: \<open>ClaimSmallestSufficient\<close> is best fit.  On an open store with valid arguments it returns no coin
  exactly when no claimable coin of the scope reaches the amount; otherwise the coin it returns was
  claimable and large enough, and among all such coins it is the smallest, the oldest of equals.
\<close>

theorem ClaimSmallestSufficient_best_fit:
  assumes "reachable now s" "\<not> s_closed s" "ValidateClaim sc t = None"
  shows "\<exists>s' res. ClaimSmallestSufficient s sc t m = (s', Inr res) \<and>
    (case res of
       None \<Rightarrow> s' = s \<and> (\<forall>op r. map_of (s_rows s) op = Some r \<longrightarrow> \<not> fits sc m (op, r))
     | Some u \<Rightarrow> \<exists>r. map_of (s_rows s) (u_Outpoint u) = Some r \<and> fits sc m (u_Outpoint u, r) \<and>
         u = (r_utxo r)\<lparr>u_ReservedBy := t, u_ReservedAt := now_time s\<rparr> \<and>
         (\<forall>op' r'. map_of (s_rows s) op' = Some r' \<longrightarrow> fits sc m (op', r') \<longrightarrow> op' = u_Outpoint u \<or> better (u_Outpoint u, r) (op', r')))"
proof -
  have inv: "store_inv s" using assms(1) by (rule reachable_inv)
  have mem: "map_of (s_rows s) k = Some r \<longleftrightarrow> (k, r) \<in> set (s_rows s)" for k r using store_inv_mem [OF inv] by simp
  show ?thesis
  proof (rule ClaimSmallestSufficient_cases [OF assms(2,3), of m])
    assume "ClaimSmallestSufficient s sc t m = (s, Inr None)" "\<forall>kr \<in> set (s_rows s). \<not> fits sc m kr"
    then show ?thesis using mem by auto
  next
    fix k r
    assume best: "bestLoop sc m (s_rows s) None = Some (k, r)"
      and run: "ClaimSmallestSufficient s sc t m = (fst (reserve s (k, r) t), Inr (Some (r_utxo (set_reserved t (now_time s) r))))"
      and k: "(k, r) \<in> set (s_rows s)" "fits sc m (k, r)"
    have "map_of (s_rows s) k = Some r" using k(1) mem by blast
    hence out: "u_Outpoint (r_utxo r) = k" using coin_outpoint [OF inv, of k "r_utxo r"] by (simp add: coins_def)
    have "op' = k \<or> better (k, r) (op', r')" if "map_of (s_rows s) op' = Some r'" "fits sc m (op', r')" for op' r'
    proof -
      have in': "(op', r') \<in> set (s_rows s)" using that(1) mem by blast
      have le: "asc_key (k, r) \<le> asc_key (op', r')" using bestLoop_least [OF best] in' that(2) by auto
      show ?thesis
      proof (cases "asc_key (k, r) = asc_key (op', r')")
        case True
        hence "r_seq r = r_seq r'" by (simp add: asc_key_def)
        with store_inv_seq_inj [OF inv k(1) in'] show ?thesis by simp
      qed (use le in \<open>simp add: better_key order_less_le\<close>)
    qed
    with run k mem out show ?thesis by (auto simp: set_reserved_def)
  qed
qed

theorem ClaimSmallestSufficient_best_fit_witness:
  "ValidateClaim w_scope ''tx'' = None \<and> (\<exists>s' res. ClaimSmallestSufficient w_store w_scope ''tx'' 100 = (s', Inr res) \<and>
     (res = None \<longrightarrow> s' = w_store))"
proof -
  have v: "ValidateClaim w_scope ''tx'' = None"
    by (simp add: ValidateClaim_def ValidateReservation_def ValidateScope_def w_scope_def Valid_def TierMined_def TierSending_def)
  have "\<not> s_closed w_store" by (simp add: w_store_eq)
  from ClaimSmallestSufficient_best_fit [OF w_reachable(1) this v, of 100] v show ?thesis by (auto split: option.splits)
qed

text \<open>
  C40: \<open>ClaimLargestInsufficient\<close> returns the largest claimable coins below the cap, largest first, at
  most \<open>limit\<close> of them; a coin below the cap that it leaves out is no larger than any coin it returns,
  and is left out only because the batch is full.
\<close>

theorem ClaimLargestInsufficient_largest:
  assumes "reachable now s" "ClaimLargestInsufficient s sc t cap limit = (s', Inr us)" "0 < limit"
  shows "length us \<le> nat limit \<and> sorted_wrt (\<lambda>u v. u_Satoshis v \<le> u_Satoshis u) us \<and>
    claimed t (\<lambda>u0. claimable_coin sc u0 \<and> u_Satoshis u0 < cap) (coins s) us (coins s') \<and>
    (\<forall>op v. coins s op = Some v \<longrightarrow> claimable_coin sc v \<longrightarrow> u_Satoshis v < cap \<longrightarrow>
       op \<in> u_Outpoint ` set us \<or> (length us = nat limit \<and> (\<forall>u \<in> set us. u_Satoshis v \<le> u_Satoshis u)))"
proof -
  have inv: "store_inv s" using assms(1) by (rule reachable_inv)
  have run: "ClaimLargest mem_ops s sc t cap limit = (s', Inr us)" using assms(2) by (simp add: mem_ops_def)
  from mem.largest_law [OF inv run] mem.largest_sorted [OF inv run] mem.largest_full [OF inv run] assms(3)
  show ?thesis by auto
qed

theorem ClaimLargestInsufficient_largest_witness:
  "\<exists>s' us. ClaimLargestInsufficient w_store w_scope ''tx'' 1000 16 = (s', Inr us) \<and> map u_Satoshis us = [500] \<and> length us \<le> 16 \<and>
     Outpoint 7 0 \<in> u_Outpoint ` set us"
proof -
  have run: "\<exists>s' us. ClaimLargestInsufficient w_store w_scope ''tx'' 1000 16 = (s', Inr us) \<and> map u_Satoshis us = [500]"
    by (simp add: w_store_eq ClaimLargestInsufficient_def ValidateClaim_def ValidateReservation_def ValidateScope_def
      w_scope_def w_coin_def Valid_def TierMined_def TierSending_def claimable_def reserve_def now_time_def ticked_def
      set_reserved_def upd_key_def Let_def)
  then obtain s' us where us: "ClaimLargestInsufficient w_store w_scope ''tx'' 1000 16 = (s', Inr us)" "map u_Satoshis us = [500]"
    by (elim exE conjE)
  from ClaimLargestInsufficient_largest [OF w_reachable(1) us(1)]
  have "length us \<le> 16 \<and> (Outpoint 7 0 \<in> u_Outpoint ` set us \<or> length us = 16)"
    using w_coins(1) by (auto simp: claimable_coin_def w_scope_def w_coin_def)
  moreover have "length us = 1" using arg_cong [OF us(2), of length] by simp
  ultimately show ?thesis using us by auto
qed

section \<open>The iteration order of the map\<close>

definition reordered :: "store \<Rightarrow> store \<Rightarrow> bool" where
  "reordered s s' \<longleftrightarrow> mset (s_rows s') = mset (s_rows s) \<and> s_nextSeq s' = s_nextSeq s \<and> s_closed s' = s_closed s \<and>
     s_now s' = s_now s \<and> s_ticks s' = s_ticks s"

lemma reordered_reserve:
  "reordered s s' \<Longrightarrow> reordered (fst (reserve s kr t)) (fst (reserve s' kr t)) \<and> snd (reserve s kr t) = snd (reserve s' kr t)"
  by (simp add: reordered_def reserve_def now_time_def ticked_def upd_key_def Let_def)

lemma reordered_reserveLoop:
  "reordered s s' \<Longrightarrow> reordered (fst (reserveLoop s krs t)) (fst (reserveLoop s' krs t)) \<and>
     snd (reserveLoop s krs t) = snd (reserveLoop s' krs t)"
proof (induction krs arbitrary: s s')
  case (Cons kr krs)
  note r = reordered_reserve [OF Cons.prems, of kr t]
  from Cons.IH [OF conjunct1 [OF r]] r show ?case by (simp add: case_prod_unfold Let_def)
qed simp

lemma reordered_sort:
  assumes "store_inv s" "reordered s s'" "inj_on f (set (s_rows s))"
  shows "sort_key f (filter P (s_rows s')) = sort_key f (filter P (s_rows s))"
proof -
  have "mset (filter P (s_rows s)) = mset (filter P (s_rows s'))" using assms(2) by (simp add: reordered_def)
  moreover have "inj_on f (set (filter P (s_rows s)))" using assms(3) by (rule inj_on_subset) auto
  ultimately show ?thesis by (rule sort_key_mset_cong [symmetric])
qed

lemma bestLoop_reordered:
  assumes inv: "store_inv s" and re: "reordered s s'"
  shows "bestLoop sc m (s_rows s') None = bestLoop sc m (s_rows s) None"
proof -
  have sets: "set (s_rows s') = set (s_rows s)" using re by (metis reordered_def set_mset_mset)
  show ?thesis
  proof (cases "bestLoop sc m (s_rows s) None")
    case None
    hence "bestLoop sc m (s_rows s') None = None" using sets by (simp add: bestLoop_None)
    with None show ?thesis by simp
  next
    case (Some b)
    then obtain b' where b': "bestLoop sc m (s_rows s') None = Some b'"
      using sets by (metis bestLoop_None option.exhaust)
    have in_s: "b \<in> set (s_rows s)" "fits sc m b" "b' \<in> set (s_rows s)" "fits sc m b'"
      using bestLoop_mem [OF Some] bestLoop_mem [OF b'] sets by (auto simp: fits_def)
    hence "asc_key b = asc_key b'" using bestLoop_least [OF Some] bestLoop_least [OF b'] sets by (intro order_antisym) auto
    hence "b = b'" using store_inv_seq_inj [OF inv in_s(1,3)] by (simp add: asc_key_def)
    with Some b' show ?thesis by simp
  qed
qed

text \<open>
  C28: The claims do not depend on the iteration order of Go's maps: on two stores with the same rows in
  a different order, each claim returns the same coins in the same order, and the stores it leaves again
  hold the same rows.
\<close>

theorem claims_order_independent:
  assumes "reachable now s" "reordered s s'"
  shows "snd (ClaimSmallestSufficient s sc t m) = snd (ClaimSmallestSufficient s' sc t m) \<and>
      reordered (fst (ClaimSmallestSufficient s sc t m)) (fst (ClaimSmallestSufficient s' sc t m)) \<and>
    snd (ClaimLargestInsufficient s sc t m l) = snd (ClaimLargestInsufficient s' sc t m l) \<and>
      reordered (fst (ClaimLargestInsufficient s sc t m l)) (fst (ClaimLargestInsufficient s' sc t m l)) \<and>
    snd (ClaimExact s sc t m l) = snd (ClaimExact s' sc t m l) \<and>
      reordered (fst (ClaimExact s sc t m l)) (fst (ClaimExact s' sc t m l))"
proof -
  have inv: "store_inv s" using assms(1) by (rule reachable_inv)
  have cl: "s_closed s' = s_closed s" using assms(2) by (simp add: reordered_def)
  have inj: "inj_on seq_key (set (s_rows s))" using inv by (simp add: store_inv_def rows_inv_def distinct_map)
  hence inj': "inj_on desc_key (set (s_rows s))" by (auto simp: inj_on_def desc_key_def seq_key_def)
  note so = reordered_sort [OF inv assms(2) inj] reordered_sort [OF inv assms(2) inj']
  have len: "length (filter P (s_rows s')) = length (filter P (s_rows s))" for P
    using assms(2) by (metis mset_filter reordered_def size_mset)
  note r1 = reordered_reserve [OF assms(2)] and rl = reordered_reserveLoop [OF assms(2)]
  note b = bestLoop_reordered [OF inv assms(2)]
  have 1: "snd (ClaimSmallestSufficient s sc t m) = snd (ClaimSmallestSufficient s' sc t m) \<and>
      reordered (fst (ClaimSmallestSufficient s sc t m)) (fst (ClaimSmallestSufficient s' sc t m))"
    using assms(2) r1 by (auto simp: ClaimSmallestSufficient_def cl b case_prod_unfold Let_def split: option.splits)
  have 2: "snd (ClaimLargestInsufficient s sc t m l) = snd (ClaimLargestInsufficient s' sc t m l) \<and>
      reordered (fst (ClaimLargestInsufficient s sc t m l)) (fst (ClaimLargestInsufficient s' sc t m l))"
    using assms(2) rl by (auto simp: ClaimLargestInsufficient_def cl so len case_prod_unfold Let_def split: option.splits)
  have 3: "snd (ClaimExact s sc t m l) = snd (ClaimExact s' sc t m l) \<and>
      reordered (fst (ClaimExact s sc t m l)) (fst (ClaimExact s' sc t m l))"
    using assms(2) rl by (auto simp: ClaimExact_def cl so len case_prod_unfold Let_def split: option.splits)
  from 1 2 3 show ?thesis by blast
qed

definition w_two :: store where
  "w_two = exec_call (CallMint [w_mint, w_mint\<lparr>m_Outpoint := Outpoint 8 0, m_Satoshis := 700\<rparr>]) (New (\<lambda>_. 9))"

theorem claims_order_independent_witness:
  "length (s_rows w_two) = 2 \<and> reordered w_two (w_two\<lparr>s_rows := rev (s_rows w_two)\<rparr>) \<and>
   snd (ClaimSmallestSufficient w_two w_scope ''tx'' 100) =
     snd (ClaimSmallestSufficient (w_two\<lparr>s_rows := rev (s_rows w_two)\<rparr>) w_scope ''tx'' 100)"
proof -
  have re: "reordered w_two (w_two\<lparr>s_rows := rev (s_rows w_two)\<rparr>)" by (simp add: reordered_def)
  have "reachable (\<lambda>_. 9) w_two" unfolding w_two_def by (intro reachable.intros)
  moreover have "length (s_rows w_two) = 2"
    by (simp add: w_two_def Mint_def mintOne_def New_def w_mint_def ValidateMint_def Valid_def TierMined_def TierSending_def
      minted_def now_time_def ticked_def Let_def)
  ultimately show ?thesis using re claims_order_independent [OF _ re] by blast
qed

end
