(* ===== verification/Memstore_Replay.thy ===== *)
theory Memstore_Replay
  imports Memstore_Props
begin

text \<open>
  The batch methods of the in-memory store: all-or-nothing reservation, replays that change nothing,
  what the janitor may free and list, and the balance.
\<close>

section \<open>Replays\<close>

lemma failures_zero: "BatchCountErr (failures es) n = None \<longleftrightarrow> (\<forall>e \<in> set es. e = None)"
  by (auto simp: BatchCountErr_def failures_def filter_empty_conv)

lemma spendLoop_success:
  assumes "\<forall>e \<in> set (snd (spendLoop rs sps force)). e = None" "sp \<in> set sps"
  shows "ValidateSpend sp = None \<and>
    (\<exists>r. map_of (fst (spendLoop rs sps force)) (sp_Outpoint sp) = Some r \<and> u_SpentBy (r_utxo r) = Some (sp_SpendingTxID sp))"
  using assms
proof (induction sps arbitrary: rs)
  case (Cons sp' sps)
  let ?rs = "fst (spendOne rs sp' force)"
  have loop: "fst (spendLoop rs (sp' # sps) force) = fst (spendLoop ?rs sps force)"
      "snd (spendLoop rs (sp' # sps) force) = snd (spendOne rs sp' force) # snd (spendLoop ?rs sps force)"
    by (simp_all add: case_prod_unfold Let_def)
  have ok: "snd (spendOne rs sp' force) = None" "\<forall>e \<in> set (snd (spendLoop ?rs sps force)). e = None"
    using Cons.prems(1) unfolding loop by auto
  have first: "ValidateSpend sp' = None \<and>
      (\<exists>r. map_of ?rs (sp_Outpoint sp') = Some r \<and> u_SpentBy (r_utxo r) = Some (sp_SpendingTxID sp'))"
    using ok(1) by (auto simp: spendOne_def set_spent_def split: option.splits if_splits)
  show ?case
  proof (cases "sp = sp'")
    case True
    with first spendLoop_spent show ?thesis unfolding loop by blast
  next
    case False
    with Cons.prems(2) have "sp \<in> set sps" by simp
    from Cons.IH [OF ok(2) this] show ?thesis unfolding loop .
  qed
qed simp

lemma spendLoop_noop:
  assumes "\<And>sp. sp \<in> set sps \<Longrightarrow> ValidateSpend sp = None \<and>
    (\<exists>r. map_of rs (sp_Outpoint sp) = Some r \<and> u_SpentBy (r_utxo r) = Some (sp_SpendingTxID sp))"
  shows "spendLoop rs sps force = (rs, replicate (length sps) None)"
  using assms
proof (induction sps)
  case (Cons sp sps)
  have "spendOne rs sp force = (rs, None)" using Cons.prems [of sp] by (auto simp: spendOne_def)
  with Cons.IH Cons.prems show ?case by simp
qed simp

lemma mintOne_success:
  assumes "snd (mintOne s m) = None"
  shows "ValidateMint m = None \<and>
    (\<exists>r. map_of (s_rows (fst (mintOne s m))) (m_Outpoint m) = Some r \<and> same_identity (r_utxo r) m)"
  using assms by (auto simp: mintOne_def Let_def ticked_def same_identity_def minted_def map_add_def split: option.splits if_splits)

lemma mintLoop_success:
  assumes "\<forall>e \<in> set (snd (mintLoop s ms)). e = None" "m \<in> set ms"
  shows "ValidateMint m = None \<and>
    (\<exists>r. map_of (s_rows (fst (mintLoop s ms))) (m_Outpoint m) = Some r \<and> same_identity (r_utxo r) m)"
  using assms
proof (induction ms arbitrary: s)
  case (Cons m' ms)
  have loop: "snd (mintLoop s (m' # ms)) = snd (mintOne s m') # snd (mintLoop (fst (mintOne s m')) ms)"
    by (simp add: case_prod_unfold Let_def)
  have ok: "snd (mintOne s m') = None" "\<forall>e \<in> set (snd (mintLoop (fst (mintOne s m')) ms)). e = None"
    using Cons.prems(1) unfolding loop by auto
  show ?case
  proof (cases "m = m'")
    case True
    with mintOne_success [OF ok(1)] mintLoop_Some show ?thesis unfolding mintLoop_step by blast
  next
    case False
    with Cons.prems(2) have "m \<in> set ms" by simp
    from Cons.IH [OF ok(2) this] show ?thesis unfolding mintLoop_step .
  qed
qed simp

lemma mintLoop_noop:
  assumes "\<And>m. m \<in> set ms \<Longrightarrow> ValidateMint m = None \<and> (\<exists>r. map_of (s_rows s) (m_Outpoint m) = Some r \<and> same_identity (r_utxo r) m)"
  shows "mintLoop s ms = (s, replicate (length ms) None)"
  using assms
proof (induction ms)
  case (Cons m ms)
  have "mintOne s m = (s, None)" using Cons.prems [of m] by (auto simp: mintOne_def)
  with Cons.IH Cons.prems show ?case by simp
qed simp

lemma mintLoop_closed: "s_closed (fst (mintLoop s ms)) = s_closed s"
proof (induction ms arbitrary: s)
  case (Cons m ms)
  have "s_closed (fst (mintOne s m)) = s_closed s"
    by (auto simp: mintOne_def ticked_def Let_def split: option.splits)
  with Cons.IH show ?case by (simp add: mintLoop_step del: mintLoop.simps)
qed simp

definition w_spend :: spend_op where
  "w_spend = \<lparr>sp_Outpoint = Outpoint 7 0, sp_Reservation = ''tx'', sp_SpendingTxID = 9\<rparr>"

text \<open>
  C30: \<open>Mint\<close> and \<open>Spend\<close> are idempotent: repeating a batch that succeeded, for instance after a lost
  reply, succeeds again for every item and leaves the store exactly as it is.
\<close>

theorem Mint_Spend_replay:
  assumes "Mint s ms = (s1, es, None)" "Spend s' sps force = (s2, es', None)"
  shows "Mint s1 ms = (s1, replicate (length ms) None, None) \<and>
    Spend s2 sps force = (s2, replicate (length sps) None, None)"
proof
  have m: "\<not> s_closed s" "s1 = fst (mintLoop s ms)" "\<forall>e \<in> set (snd (mintLoop s ms)). e = None"
    using assms(1) by (auto simp: Mint_def case_prod_unfold Let_def failures_zero split: if_splits)
  then have "mintLoop s1 ms = (s1, replicate (length ms) None)"
    using mintLoop_success [OF m(3)] by (intro mintLoop_noop) simp
  with m(1,2) show "Mint s1 ms = (s1, replicate (length ms) None, None)"
    by (simp add: Mint_def mintLoop_closed failures_zero)
  have sp: "\<not> s_closed s'" "s2 = s'\<lparr>s_rows := fst (spendLoop (s_rows s') sps force)\<rparr>"
      "\<forall>e \<in> set (snd (spendLoop (s_rows s') sps force)). e = None"
    using assms(2) by (auto simp: Spend_def case_prod_unfold Let_def failures_zero split: if_splits)
  then have "spendLoop (s_rows s2) sps force = (s_rows s2, replicate (length sps) None)"
    using spendLoop_success [OF sp(3)] by (intro spendLoop_noop) simp
  with sp(1,2) show "Spend s2 sps force = (s2, replicate (length sps) None, None)"
    by (simp add: Spend_def failures_zero)
qed

theorem Mint_Spend_replay_witness:
  "Mint w_store [w_mint] = (w_store, [None], None) \<and>
   Spend (fst (Spend w_held [w_spend] False)) [w_spend] False = (fst (Spend w_held [w_spend] False), [None], None)"
proof -
  have "Mint (New (\<lambda>_. 9)) [w_mint] = (w_store, [None], None)"
    unfolding w_store_eq by (simp add: Mint_def mintOne_def New_def w_mint_def ValidateMint_def Valid_def TierMined_def
        TierSending_def minted_def w_coin_def now_time_def ticked_def Let_def BatchCountErr_def failures_def)
  moreover have "Spend w_held [w_spend] False = (fst (Spend w_held [w_spend] False), [None], None)"
    by (simp add: w_held_eq w_spend_def Spend_def spendOne_def ValidateSpend_def ValidateReservation_def w_coin_def Let_def
        BatchCountErr_def failures_def)
  ultimately show ?thesis
    using Mint_Spend_replay [of "New (\<lambda>_. 9)" "[w_mint]" w_store "[None]" w_held "[w_spend]" False
        "fst (Spend w_held [w_spend] False)" "[None]"]
    by simp
qed

section \<open>Named reservations\<close>

text \<open>A reservation that succeeds: every named coin is held already or free, and the free ones are stamped.\<close>

lemma ReserveOutpoints_run:
  assumes "ReserveOutpoints s uid t ops = (s', None)"
  shows "\<not> s_closed s" "t \<noteq> ''''" "ValidateReserveOutpoints t ops = None"
    and "\<forall>op \<in> set ops. classifyReserve (s_rows s) uid t op = Satisfied \<or> classifyReserve (s_rows s) uid t op = ToStamp"
    and "s' = (ticked s)\<lparr>s_rows := stampLoop (s_rows s) t (now_time s)
           (filter (\<lambda>op. classifyReserve (s_rows s) uid t op = ToStamp) (distinctOutpoints ops))\<rparr>"
    and "coins s' op = (if op \<in> set ops \<and> classifyReserve (s_rows s) uid t op = ToStamp
      then map_option (\<lambda>u. u\<lparr>u_ReservedBy := t, u_ReservedAt := now_time s\<rparr>) (coins s op) else coins s op)"
proof -
  let ?c = "classifyReserve (s_rows s) uid t"
  have run: "\<not> s_closed s \<and> t \<noteq> '''' \<and> ValidateReserveOutpoints t ops = None \<and>
      (\<forall>op \<in> set ops. ?c op = Satisfied \<or> ?c op = ToStamp) \<and>
      s' = (ticked s)\<lparr>s_rows := stampLoop (s_rows s) t (now_time s) (filter (\<lambda>op. ?c op = ToStamp) (distinctOutpoints ops))\<rparr>"
    using assms classifyLoop_errs [of "s_rows s" uid t "distinctOutpoints ops"]
    by (auto simp: ReserveOutpoints_def case_prod_unfold Let_def JoinBatch_def classifyLoop_filter validate_None
        split: if_splits option.splits)
  then show "\<not> s_closed s" "t \<noteq> ''''" "ValidateReserveOutpoints t ops = None" "\<forall>op \<in> set ops. ?c op = Satisfied \<or> ?c op = ToStamp"
    "s' = (ticked s)\<lparr>s_rows := stampLoop (s_rows s) t (now_time s) (filter (\<lambda>op. ?c op = ToStamp) (distinctOutpoints ops))\<rparr>"
    by simp_all
  show "coins s' op = (if op \<in> set ops \<and> ?c op = ToStamp
      then map_option (\<lambda>u. u\<lparr>u_ReservedBy := t, u_ReservedAt := now_time s\<rparr>) (coins s op) else coins s op)"
    using run by (simp add: coins_def stampLoop_coin set_reserved_def option.map_comp comp_def)
qed

lemma ReserveOutpoints_refused: "ReserveOutpoints s uid t ops = (s', Some e) \<Longrightarrow> s' = s"
  by (auto simp: ReserveOutpoints_def case_prod_unfold Let_def JoinBatch_def split: if_splits option.splits)

text \<open>
  C29: \<open>ReserveOutpoints\<close> is all or nothing.  If it reports an error, no coin of the store changed; if it
  does not, every named coin belongs to the caller, is unspent, not frozen and held by the caller's
  token, and every other coin is as it was.  A replay finds all of them held and changes no coin.
\<close>

theorem ReserveOutpoints_atomic:
  assumes "ReserveOutpoints s uid t ops = (s', e)"
  shows "if e = None
    then (\<forall>op. if op \<in> set ops
           then \<exists>u. coins s' op = Some u \<and> u_UserID u = uid \<and> u_ReservedBy u = t \<and> u_SpentBy u = None \<and> \<not> u_Frozen u
           else coins s' op = coins s op) \<and>
         coins (fst (ReserveOutpoints s' uid t ops)) = coins s' \<and> snd (ReserveOutpoints s' uid t ops) = None
    else coins s' = coins s"
proof (cases e)
  case (Some x)
  with assms ReserveOutpoints_refused [of s uid t ops s' x] show ?thesis by simp
next
  case None
  let ?c = "classifyReserve (s_rows s) uid t"
  note run = ReserveOutpoints_run(1-5) [OF assms [unfolded None]] and look = ReserveOutpoints_run(6) [OF assms [unfolded None]]
  have held: "\<exists>u. coins s' op = Some u \<and> u_UserID u = uid \<and> u_ReservedBy u = t \<and> u_SpentBy u = None \<and> \<not> u_Frozen u"
    if "op \<in> set ops" for op
  proof -
    from run(4) that obtain r where r: "map_of (s_rows s) op = Some r" by (auto simp: classifyReserve_def split: option.splits)
    from run(4) that have "?c op = Satisfied \<or> ?c op = ToStamp" by simp
    then have "u_UserID (r_utxo r) = uid" "u_SpentBy (r_utxo r) = None" "\<not> u_Frozen (r_utxo r)"
        "?c op = ToStamp \<or> u_ReservedBy (r_utxo r) = t"
      using r by (auto simp: classifyReserve_def split: option.splits if_splits)
    moreover from r have "coins s op = Some (r_utxo r)" by (simp add: coins_def)
    ultimately show ?thesis using that by (auto simp: look)
  qed
  have sat: "classifyReserve (s_rows s') uid t op = Satisfied" if "op \<in> set ops" for op
    using held [OF that] by (auto simp: classifyReserve_def coins_def split: option.splits)
  have "ReserveOutpoints s' uid t ops = (ticked s', None)"
    using run(1,3) sat classifyLoop_errs [of "s_rows s'" uid t "distinctOutpoints ops"]
      classifyLoop_filter [of "s_rows s'" uid t "distinctOutpoints ops"]
    by (simp add: ReserveOutpoints_def case_prod_unfold Let_def filter_False run(5) ticked_def)
  moreover have "coins (ticked s') = coins s'" by (simp add: coins_def ticked_def fun_eq_iff)
  moreover have "if op \<in> set ops
           then \<exists>u. coins s' op = Some u \<and> u_UserID u = uid \<and> u_ReservedBy u = t \<and> u_SpentBy u = None \<and> \<not> u_Frozen u
           else coins s' op = coins s op" for op
    using held [of op] look [of op] by (cases "op \<in> set ops") simp_all
  ultimately show ?thesis using None by simp
qed

theorem ReserveOutpoints_atomic_witness:
  "\<exists>u. coins (fst (ReserveOutpoints w_store 1 ''tx'' [Outpoint 7 0])) (Outpoint 7 0) = Some u \<and> u_ReservedBy u = ''tx''"
proof -
  have "ReserveOutpoints w_store 1 ''tx'' [Outpoint 7 0] = (fst (ReserveOutpoints w_store 1 ''tx'' [Outpoint 7 0]), None)"
    by (simp add: w_store_eq ReserveOutpoints_def ValidateReserveOutpoints_def ValidateReservation_def distinctOutpoints_def
        classifyReserve_def w_coin_def Let_def)
  from ReserveOutpoints_atomic [OF this] show ?thesis
    by (auto split: if_splits dest!: spec [of _ "Outpoint 7 0"])
qed

section \<open>The pin and the janitor\<close>

definition listed :: "stale_group list \<Rightarrow> outpoint set" where
  "listed gs = (\<Union>g \<in> set gs. set (rr_Outpoints (g_ref g)))"

lemma listed_addGroup: "listed (addGroup gs r) = insert (u_Outpoint (r_utxo r)) (listed gs)"
  by (induction gs r rule: addGroup.induct) (auto simp: listed_def Let_def)

lemma listed_groupLoop:
  "listed (groupLoop p rs gs) = listed gs \<union> (\<lambda>kr. u_Outpoint (r_utxo (snd kr))) ` {kr \<in> set rs. stale_row p (snd kr)}"
  by (induction rs arbitrary: gs) (auto simp: listed_addGroup)

lemma findStale_listed:
  assumes "findStale s cutoff limit p = Inr refs" "ref \<in> set refs" "op \<in> set (rr_Outpoints ref)"
  shows "\<exists>kr \<in> set (s_rows s). stale_row p (snd kr) \<and> u_Outpoint (r_utxo (snd kr)) = op"
proof -
  have "ref \<in> g_ref ` set (groupLoop p (s_rows s) [])"
    using assms(1,2) by (auto simp: findStale_def Let_def split: if_splits dest!: in_set_takeD)
  with assms(3) have "op \<in> listed (groupLoop p (s_rows s) [])" by (auto simp: listed_def)
  moreover have "listed [] = {}" by (simp add: listed_def)
  ultimately show ?thesis by (auto simp: listed_groupLoop)
qed

text \<open>
  C31: A pin keeps a coin from the janitor.  Releasing a whole reservation leaves a pinned coin exactly
  as it was, whatever the token, and the ordinary stale query lists no reservation holding it.
\<close>

theorem pinned_coin_kept:
  assumes "reachable now s" "coins s op = Some u" "u_Pinned u"
  shows "coins (fst (ReleaseReservation s uid t)) op = Some u \<and>
    (\<forall>refs. FindStaleReservations s cutoff limit = Inr refs \<longrightarrow> (\<forall>ref \<in> set refs. op \<notin> set (rr_Outpoints ref)))"
proof
  have inv: "store_inv s" by (rule reachable_inv [OF assms(1)])
  show "coins (fst (ReleaseReservation s uid t)) op = Some u"
    using ReleaseReservation_coins(2) [of s uid t "fst (ReleaseReservation s uid t)" "snd (ReleaseReservation s uid t)"] assms(2,3)
    by (auto simp: janitor_free_def split: sum.splits)
  show "\<forall>refs. FindStaleReservations s cutoff limit = Inr refs \<longrightarrow> (\<forall>ref \<in> set refs. op \<notin> set (rr_Outpoints ref))"
  proof (intro allI impI ballI notI)
    fix refs ref assume *: "FindStaleReservations s cutoff limit = Inr refs" "ref \<in> set refs" "op \<in> set (rr_Outpoints ref)"
    from findStale_listed [OF *(1) [unfolded FindStaleReservations_def] *(2,3)]
    obtain k r where r: "(k, r) \<in> set (s_rows s)" "stale_row False r" "u_Outpoint (r_utxo r) = op" by auto
    from r(1) have "coins s k = Some (r_utxo r)" using store_inv_mem [OF inv] by (simp add: coins_def)
    with coin_outpoint [OF inv, of k "r_utxo r"] r(3) have "coins s op = Some (r_utxo r)" by simp
    with assms(2,3) r(2) show False by (auto simp: stale_row_def)
  qed
qed

definition w_pinned :: store where
  "w_pinned = exec_call (CallPin 1 ''tx'') w_held"

theorem pinned_coin_kept_witness:
  "coins (fst (ReleaseReservation w_pinned 1 ''tx'')) (Outpoint 7 0) = coins w_pinned (Outpoint 7 0) \<and>
   coins w_pinned (Outpoint 7 0) \<noteq> None"
proof -
  have r: "reachable (\<lambda>_. 9) w_pinned" unfolding w_pinned_def by (intro reachable.step w_reachable)
  have c: "coins w_pinned (Outpoint 7 0) =
      Some (w_coin\<lparr>u_ReservedBy := ''tx'', u_ReservedAt := 9, u_Pinned := True\<rparr>)"
    by (simp add: w_pinned_def w_held_eq coins_def Pin_def setPinned_def ValidateReservation_def heldBy_def w_coin_def
        set_pin_def upd_all_def Let_def)
  from pinned_coin_kept [OF r c, of 1 "''tx''"] show ?thesis by (simp add: c)
qed

section \<open>The balance\<close>

definition basket_scope :: "int \<Rightarrow> string \<Rightarrow> tier \<Rightarrow> scope" where
  "basket_scope uid b t = \<lparr>sc_UserID = uid, sc_Basket = b, sc_Tier = t\<rparr>"

definition held_in :: "int \<Rightarrow> string \<Rightarrow> row \<Rightarrow> bool" where
  "held_in uid b r \<longleftrightarrow>
     u_UserID (r_utxo r) = uid \<and> u_Basket (r_utxo r) = b \<and> u_SpentBy (r_utxo r) = None \<and> u_ReservedBy (r_utxo r) \<noteq> ''''"

definition sats_of :: "(row \<Rightarrow> bool) \<Rightarrow> (outpoint \<times> row) list \<Rightarrow> u64" where
  "sats_of p rs = sum_list (map (\<lambda>kr. u_Satoshis (r_utxo (snd kr))) (filter (\<lambda>kr. p (snd kr)) rs))"

lemma balanceLoop_sums:
  "b_Claimable (balanceLoop uid bk rs b) t = b_Claimable b t + sats_of (\<lambda>r. claimable r (basket_scope uid bk t)) rs"
  "b_ClaimableCount (balanceLoop uid bk rs b) t = b_ClaimableCount b t + count_rows (\<lambda>r. claimable r (basket_scope uid bk t)) rs"
  "b_Reserved (balanceLoop uid bk rs b) = b_Reserved b + sats_of (held_in uid bk) rs"
  "b_ReservedCount (balanceLoop uid bk rs b) = b_ReservedCount b + count_rows (held_in uid bk) rs"
  by (induction rs arbitrary: b)
    (auto simp: addBalance_def sats_of_def count_rows_def claimable_def basket_scope_def held_in_def Let_def add.assoc)

text \<open>
  The balance reports what can be claimed.  Per tier, its claimable amount and count are those of the
  coins the claims of that scope may take, and its reserved amount and count are those of the coins held
  by a token; frozen and spent coins are in neither.
\<close>

theorem Balance_counts_claimable:
  assumes "\<not> s_closed s"
  shows "\<exists>b. Balance s uid bk = (b, None) \<and>
    b_Claimable b t = sats_of (\<lambda>r. claimable r (basket_scope uid bk t)) (s_rows s) \<and>
    b_ClaimableCount b t = count_rows (\<lambda>r. claimable r (basket_scope uid bk t)) (s_rows s) \<and>
    b_Reserved b = sats_of (held_in uid bk) (s_rows s) \<and> b_ReservedCount b = count_rows (held_in uid bk) (s_rows s)"
  using assms by (simp add: Balance_def balanceLoop_sums empty_balance_def)

section \<open>Invalidated mints\<close>

definition reports :: "remove_by_mint_report \<Rightarrow> outpoint \<Rightarrow> utxo \<Rightarrow> bool" where
  "reports rep op u \<longleftrightarrow>
     (case u_SpentBy u of
        Some w \<Rightarrow> w \<in> set (rep_AlreadySpentBy rep)
      | None \<Rightarrow>
          if u_ReservedBy u = '''' then op \<in> set (rep_Removed rep)
          else \<exists>ref \<in> set (rep_AlreadyReserved rep). rr_Reservation ref = u_ReservedBy u \<and> op \<in> set (rr_Outpoints ref))"

definition covers :: "remove_by_mint_report \<Rightarrow> remove_by_mint_report \<Rightarrow> bool" where
  "covers rep' rep \<longleftrightarrow> (\<forall>op u. reports rep op u \<longrightarrow> reports rep' op u)"

lemma addRef_keeps:
  "\<exists>ref \<in> set refs. rr_Reservation ref = t \<and> op \<in> set (rr_Outpoints ref) \<Longrightarrow>
   \<exists>ref \<in> set (addRef refs op' u). rr_Reservation ref = t \<and> op \<in> set (rr_Outpoints ref)"
  by (induction refs op' u rule: addRef.induct) auto

lemma addRef_adds: "\<exists>ref \<in> set (addRef refs op u). rr_Reservation ref = u_ReservedBy u \<and> op \<in> set (rr_Outpoints ref)"
  by (induction refs op u rule: addRef.induct) auto

text \<open>One coin through the loop: what is done with it and what the report says.\<close>

definition mint_step :: "(outpoint \<times> row) list \<Rightarrow> remove_by_mint_report \<Rightarrow> outpoint \<Rightarrow> (outpoint \<times> row) list \<times> remove_by_mint_report" where
  "mint_step rs rep op =
     (case map_of rs op of
        None \<Rightarrow> (rs, rep)
      | Some r \<Rightarrow>
          (case u_SpentBy (r_utxo r) of
             Some w \<Rightarrow> (rs, if w \<in> set (rep_AlreadySpentBy rep) then rep
                          else rep\<lparr>rep_AlreadySpentBy := rep_AlreadySpentBy rep @ [w]\<rparr>)
           | None \<Rightarrow>
               if u_ReservedBy (r_utxo r) \<noteq> ''''
               then (rs, rep\<lparr>rep_AlreadyReserved := addRef (rep_AlreadyReserved rep) op (r_utxo r)\<rparr>)
               else (del_key op rs, rep\<lparr>rep_Removed := rep_Removed rep @ [op]\<rparr>)))"

lemma removeMintLoop_fold:
  "removeMintLoop rs rep (op # ops) = (let (rs', rep') = mint_step rs rep op in removeMintLoop rs' rep' ops)"
  by (simp add: mint_step_def split: option.splits)

lemma mint_step_covers: "covers (snd (mint_step rs rep op)) rep"
  using addRef_keeps by (fastforce simp: covers_def reports_def mint_step_def split: option.splits)

lemma removeMintLoop_covers: "covers (snd (removeMintLoop rs rep ops)) rep"
proof (induction ops arbitrary: rs rep)
  case (Cons op ops)
  from mint_step_covers [of rs rep op] Cons.IH show ?case
    unfolding removeMintLoop_fold covers_def by (auto simp: case_prod_unfold Let_def)
qed (simp add: covers_def)

lemma mint_step_reports: "map_of rs op = Some r \<Longrightarrow> reports (snd (mint_step rs rep op)) op (r_utxo r)"
  using addRef_adds by (auto simp: reports_def mint_step_def split: option.splits)

lemma mint_step_other: "op' \<noteq> op \<Longrightarrow> map_of (fst (mint_step rs rep op)) op' = map_of rs op'"
  by (auto simp: mint_step_def split: option.splits)

lemma removeMintLoop_reports:
  "map_of rs op = Some r \<Longrightarrow> op \<in> set ops \<Longrightarrow> reports (snd (removeMintLoop rs rep ops)) op (r_utxo r)"
proof (induction ops arbitrary: rs rep)
  case (Cons op' ops)
  show ?case
  proof (cases "op = op'")
    case True
    with mint_step_reports [OF Cons.prems(1)] removeMintLoop_covers show ?thesis
      unfolding removeMintLoop_fold covers_def by (auto simp: case_prod_unfold Let_def)
  next
    case False
    with Cons.prems mint_step_other Cons.IH show ?thesis
      unfolding removeMintLoop_fold by (simp add: case_prod_unfold Let_def)
  qed
qed simp

lemma removeMintLoop_kept:
  "map_of rs op = Some r \<Longrightarrow> u_SpentBy (r_utxo r) \<noteq> None \<or> u_ReservedBy (r_utxo r) \<noteq> '''' \<or> op \<notin> set ops \<Longrightarrow>
     map_of (fst (removeMintLoop rs rep ops)) op = Some r"
  using removeMintLoop_coin [of rs rep ops op] by auto

lemma removeMintLoop_gone:
  "map_of rs op = Some r \<Longrightarrow> u_SpentBy (r_utxo r) = None \<Longrightarrow> u_ReservedBy (r_utxo r) = '''' \<Longrightarrow> op \<in> set ops \<Longrightarrow>
     map_of (fst (removeMintLoop rs rep ops)) op = None"
proof (induction ops arbitrary: rs rep)
  case (Cons op' ops)
  show ?case
  proof (cases "op = op'")
    case True
    then have "map_of (fst (mint_step rs rep op')) op = None" using Cons.prems by (simp add: mint_step_def)
    with removeMintLoop_coin [of "fst (mint_step rs rep op')" "snd (mint_step rs rep op')" ops op] show ?thesis
      unfolding removeMintLoop_fold by (auto simp: case_prod_unfold Let_def)
  next
    case False
    with Cons.prems mint_step_other Cons.IH show ?thesis
      unfolding removeMintLoop_fold by (simp add: case_prod_unfold Let_def)
  qed
qed simp

text \<open>
  \<open>RemoveByMintTx\<close> accounts for every coin it was given.  A free coin is removed and listed as
  removed; a coin some transaction spent is kept and its spender is listed; a coin a reservation holds is
  kept and listed under that reservation; a coin that was not named is not touched.
\<close>

theorem RemoveByMintTx_accounts:
  assumes "RemoveByMintTx s h ops = (s', rep, None)" "coins s op = Some u"
  shows "coins s' op = (if op \<in> set ops \<and> u_SpentBy u = None \<and> u_ReservedBy u = '''' then None else Some u) \<and>
    (op \<in> set ops \<longrightarrow> reports rep op u)"
proof -
  have run: "s' = s\<lparr>s_rows := fst (removeMintLoop (s_rows s) empty_report ops)\<rparr>"
      "rep = snd (removeMintLoop (s_rows s) empty_report ops)"
    using assms(1) by (auto simp: RemoveByMintTx_def case_prod_unfold Let_def split: if_splits option.splits)
  from assms(2) obtain r where r: "map_of (s_rows s) op = Some r" "u = r_utxo r" by (auto simp: coins_def)
  show ?thesis
    using removeMintLoop_kept [OF r(1)] removeMintLoop_gone [OF r(1)] removeMintLoop_reports [OF r(1)]
    by (auto simp: run coins_upd r(2))
qed

end
