(* ===== verification/Satoshi.thy ===== *)
theory Satoshi
  imports Arcade_Prelude
begin

text \<open>
  The signed satoshi value of \<open>src/pkg/internal/satoshi/satoshi.go\<close>, with its arithmetic checked
  against the supply bound.  \<open>Value\<close> is an \<open>int64\<close>: an \<^typ>\<open>int\<close> whose sums, differences and
  products pass through \<^const>\<open>i64_wrap\<close> before the check, as in the source.
\<close>

definition MaxSatoshis :: int where
  "MaxSatoshis = 2100000000000000"

datatype sat_error = ExceededMax int | BelowMin int | NegativeToUint64

definition validateInt :: "int \<Rightarrow> sat_error option" where
  "validateInt v =
     (if MaxSatoshis < v then Some (ExceededMax v)
      else if v < - MaxSatoshis then Some (BelowMin v) else None)"

definition validateUint :: "int \<Rightarrow> sat_error option" where
  "validateUint v = (if MaxSatoshis < v then Some (ExceededMax v) else None)"

text \<open>The dynamic type of the argument: every Go integer type is signed or unsigned.\<close>

datatype go_int = Signed int | Unsigned nat

fun int_of :: "go_int \<Rightarrow> int" where
  "int_of (Signed v) = v"
| "int_of (Unsigned n) = int n"

fun Validate :: "go_int \<Rightarrow> sat_error option" where
  "Validate (Signed v) = validateInt v"
| "Validate (Unsigned n) = validateUint (int n)"

definition From :: "go_int \<Rightarrow> sat_error + int" where
  "From x = (case Validate x of Some e \<Rightarrow> Inl e | None \<Rightarrow> Inr (int_of x))"

definition UInt64 :: "int \<Rightarrow> sat_error + nat" where
  "UInt64 v = (if v < 0 then Inl NegativeToUint64 else Inr (nat v))"

definition Zero :: int where
  "Zero = 0"

definition checked2 :: "(int \<Rightarrow> int \<Rightarrow> int) \<Rightarrow> go_int \<Rightarrow> go_int \<Rightarrow> sat_error + int" where
  "checked2 f a b =
     (case From a of Inl e \<Rightarrow> Inl e | Inr satsA \<Rightarrow>
      (case From b of Inl e \<Rightarrow> Inl e | Inr satsB \<Rightarrow>
        (let c = i64_wrap (f satsA satsB)
         in case validateInt c of Some e \<Rightarrow> Inl e | None \<Rightarrow> Inr c)))"

definition Add :: "go_int \<Rightarrow> go_int \<Rightarrow> sat_error + int" where
  "Add a b = checked2 (+) a b"

definition Subtract :: "go_int \<Rightarrow> go_int \<Rightarrow> sat_error + int" where
  "Subtract a b = checked2 (-) a b"

definition Multiply :: "go_int \<Rightarrow> go_int \<Rightarrow> sat_error + int" where
  "Multiply a b = checked2 (*) a b"

fun sumLoop :: "int \<Rightarrow> go_int list \<Rightarrow> sat_error + int" where
  "sumLoop val [] = Inr val"
| "sumLoop val (x # xs) =
     (case From x of Inl e \<Rightarrow> Inl e | Inr satsB \<Rightarrow>
       (let val' = i64_wrap (val + satsB)
        in case validateInt val' of Some e \<Rightarrow> Inl e | None \<Rightarrow> sumLoop val' xs))"

definition Sum :: "go_int list \<Rightarrow> sat_error + int" where
  "Sum xs = sumLoop Zero xs"

definition Equal :: "go_int \<Rightarrow> go_int \<Rightarrow> sat_error + bool" where
  "Equal a b =
     (case From a of Inl e \<Rightarrow> Inl e | Inr satsA \<Rightarrow>
      (case From b of Inl e \<Rightarrow> Inl e | Inr satsB \<Rightarrow> Inr (satsA = satsB)))"

text \<open>The panicking variants, for values already of type \<open>Value\<close>.\<close>

definition MustAdd :: "int \<Rightarrow> int \<Rightarrow> ('e, int) go" where
  "MustAdd a b = must (Add (Signed a) (Signed b))"

definition MustSubtract :: "int \<Rightarrow> int \<Rightarrow> ('e, int) go" where
  "MustSubtract a b = must (Subtract (Signed a) (Signed b))"

definition MustMultiply :: "int \<Rightarrow> int \<Rightarrow> ('e, int) go" where
  "MustMultiply a b = must (Multiply (Signed a) (Signed b))"

definition MustFrom :: "go_int \<Rightarrow> ('e, int) go" where
  "MustFrom x = must (From x)"

definition MustUInt64 :: "int \<Rightarrow> ('e, nat) go" where
  "MustUInt64 v = must (UInt64 v)"

definition MustSum :: "go_int list \<Rightarrow> ('e, int) go" where
  "MustSum xs = must (Sum xs)"

definition MustEqual :: "go_int \<Rightarrow> go_int \<Rightarrow> ('e, bool) go" where
  "MustEqual a b = must (Equal a b)"

section \<open>Facts\<close>

definition in_range :: "int \<Rightarrow> bool" where
  "in_range v \<longleftrightarrow> - MaxSatoshis \<le> v \<and> v \<le> MaxSatoshis"

lemma validateInt_None: "validateInt v = None \<longleftrightarrow> in_range v"
  by (auto simp: validateInt_def in_range_def)

lemma From_Inr: "From x = Inr v \<longleftrightarrow> v = int_of x \<and> in_range (int_of x)"
  by (cases x) (auto simp: From_def validateInt_def validateUint_def in_range_def MaxSatoshis_def)

lemma From_ok: "in_range (int_of x) \<Longrightarrow> From x = Inr (int_of x)"
  by (simp add: From_Inr)

lemma From_bad: "\<not> in_range (int_of x) \<Longrightarrow> \<exists>e. From x = Inl e"
  by (cases "From x") (auto simp: From_Inr)

lemma checked2_Inr:
  "checked2 f a b = Inr c \<longleftrightarrow>
     in_range (int_of a) \<and> in_range (int_of b) \<and> c = i64_wrap (f (int_of a) (int_of b)) \<and> in_range c"
proof (cases "in_range (int_of a) \<and> in_range (int_of b)")
  case True
  then have "checked2 f a b = (let c = i64_wrap (f (int_of a) (int_of b))
      in case validateInt c of Some e \<Rightarrow> Inl e | None \<Rightarrow> Inr c)"
    by (simp add: checked2_def From_ok)
  with True show ?thesis
    by (cases "validateInt (i64_wrap (f (int_of a) (int_of b)))") (auto simp: Let_def validateInt_None [symmetric])
next
  case False
  then have "\<exists>e. checked2 f a b = Inl e"
    using From_bad [of a] From_bad [of b]
    by (cases "in_range (int_of a)") (auto simp: checked2_def From_ok)
  with False show ?thesis by auto
qed

lemma sum_no_wrap:
  assumes "in_range a" "in_range b"
  shows "i64_wrap (a + b) = a + b" "i64_wrap (a - b) = a - b"
  using assms by (auto simp: in_range_def MaxSatoshis_def intro!: i64_wrap_id)

lemma Add_Inr:
  "Add a b = Inr c \<longleftrightarrow>
     in_range (int_of a) \<and> in_range (int_of b) \<and> c = int_of a + int_of b \<and> in_range c"
  by (auto simp: Add_def checked2_Inr sum_no_wrap)

lemma Subtract_Inr:
  "Subtract a b = Inr c \<longleftrightarrow>
     in_range (int_of a) \<and> in_range (int_of b) \<and> c = int_of a - int_of b \<and> in_range c"
  by (auto simp: Subtract_def checked2_Inr sum_no_wrap)

lemma MustAdd_Ok: "MustAdd a b = Ok c \<longleftrightarrow> in_range a \<and> in_range b \<and> c = a + b \<and> in_range c"
  by (simp add: MustAdd_def must_Ok Add_Inr)

lemma MustSubtract_Ok: "MustSubtract a b = Ok c \<longleftrightarrow> in_range a \<and> in_range b \<and> c = a - b \<and> in_range c"
  by (simp add: MustSubtract_def must_Ok Subtract_Inr)

lemma MustFrom_Ok: "MustFrom x = Ok c \<longleftrightarrow> in_range (int_of x) \<and> c = int_of x"
  by (auto simp: MustFrom_def must_Ok From_Inr)

lemma MustUInt64_Ok: "MustUInt64 v = Ok n \<longleftrightarrow> 0 \<le> v \<and> n = nat v"
  by (auto simp: MustUInt64_def must_Ok UInt64_def)

lemmas must_arith_Ok = MustAdd_Ok MustSubtract_Ok MustFrom_Ok MustUInt64_Ok

lemma must_not_Err: "must x \<noteq> Err e"
  by (cases x) auto

lemma must_arith_not_Err [simp]:
  "MustAdd a b \<noteq> Err e" "MustSubtract a b \<noteq> Err e" "MustFrom x \<noteq> Err e" "MustUInt64 v \<noteq> Err e"
  by (simp_all add: MustAdd_def MustSubtract_def MustFrom_def MustUInt64_def must_not_Err)

lemma sumLoop_Inr:
  "in_range val \<Longrightarrow> sumLoop val xs = Inr s \<longleftrightarrow>
     s = val + sum_list (map int_of xs) \<and> (\<forall>x \<in> set xs. in_range (int_of x)) \<and>
     (\<forall>k \<le> length xs. in_range (val + sum_list (map int_of (take k xs))))"
proof (induction xs arbitrary: val)
  case Nil
  then show ?case by auto
next
  case (Cons x xs)
  have split: "(\<forall>k \<le> length (x # xs). in_range (val + sum_list (map int_of (take k (x # xs))))) \<longleftrightarrow>
      in_range val \<and> (\<forall>k \<le> length xs. in_range (val + int_of x + sum_list (map int_of (take k xs))))"
    by (auto simp: less_Suc_eq_le [symmetric] All_less_Suc2 add.assoc)
  show ?case
  proof (cases "in_range (int_of x) \<and> in_range (val + int_of x)")
    case True
    then have "sumLoop val (x # xs) = sumLoop (val + int_of x) xs"
      using Cons.prems by (simp add: From_ok sum_no_wrap validateInt_None [THEN iffD2] Let_def)
    with Cons.IH [of "val + int_of x"] True Cons.prems show ?thesis unfolding split by (auto simp: add.assoc)
  next
    case False
    have "\<exists>e. sumLoop val (x # xs) = Inl e"
    proof (cases "in_range (int_of x)")
      case True
      with False have "validateInt (val + int_of x) \<noteq> None" by (simp add: validateInt_None)
      with True Cons.prems show ?thesis by (auto simp: From_ok sum_no_wrap Let_def)
    next
      case False
      with From_bad [of x] show ?thesis by auto
    qed
    moreover have "\<not> ((\<forall>y \<in> set (x # xs). in_range (int_of y)) \<and>
        (\<forall>k \<le> length xs. in_range (val + int_of x + sum_list (map int_of (take k xs)))))"
      using False by (auto dest: spec [of _ 0])
    ultimately show ?thesis unfolding split by auto
  qed
qed

section \<open>Properties\<close>

text \<open>
  Checked satoshi sums are exact.  \<open>Add\<close> and \<open>Subtract\<close> succeed exactly when both arguments and
  the true result are within the supply bound, and then return the true result: the \<open>int64\<close> arithmetic
  never wraps.  \<open>Sum\<close> does the same for a list, checking every partial sum.
\<close>

theorem checked_sums_exact:
  "(Add a b = Inr c \<longleftrightarrow>
     in_range (int_of a) \<and> in_range (int_of b) \<and> in_range c \<and> c = int_of a + int_of b) \<and>
   (Subtract a b = Inr c \<longleftrightarrow>
     in_range (int_of a) \<and> in_range (int_of b) \<and> in_range c \<and> c = int_of a - int_of b) \<and>
   (Sum xs = Inr c \<longleftrightarrow>
     list_all (in_range \<circ> int_of) xs \<and> c = sum_list (map int_of xs) \<and>
     list_all (\<lambda>k. in_range (sum_list (map int_of (take k xs)))) [0 ..< Suc (length xs)])"
proof -
  have zero: "in_range Zero" by (simp add: in_range_def Zero_def MaxSatoshis_def)
  have "Sum xs = Inr c \<longleftrightarrow>
     list_all (in_range \<circ> int_of) xs \<and> c = sum_list (map int_of xs) \<and>
     list_all (\<lambda>k. in_range (sum_list (map int_of (take k xs)))) [0 ..< Suc (length xs)]"
    unfolding Sum_def sumLoop_Inr [OF zero] by (auto simp: list_all_iff Zero_def less_Suc_eq_le)
  then show ?thesis by (auto simp: Add_Inr Subtract_Inr)
qed

text \<open>
  Checked products are not exact.  \<open>Multiply\<close> multiplies in \<open>int64\<close> and checks the bound only
  afterwards, so a product that overflows can pass: both factors below are within the bound, the true
  product is eight thousand times the supply, and the result is zero without an error.
\<close>

theorem Multiply_wraps:
  "in_range (2 ^ 32) \<and> \<not> in_range (2 ^ 32 * 2 ^ 32) \<and>
   Multiply (Unsigned (2 ^ 32)) (Unsigned (2 ^ 32)) = Inr 0"
  by (simp add: Multiply_def checked2_Inr in_range_def MaxSatoshis_def i64_wrap_def)

end
