(* ===== verification/Go_Float.thy ===== *)
theory Go_Float
  imports Complex_Main
begin

text \<open>
  Go's \<open>float64\<close> arithmetic on the non-negative values the fee formulas use: a finite float is the
  rational it denotes, and a quotient or a product is the exact rational rounded to 53 significant
  bits, ties to even.  Sizes and rates are far from overflow and underflow, so the exponent range
  does not enter.
\<close>

section \<open>Definitions\<close>

fun bit_len :: "nat \<Rightarrow> nat" where
  "bit_len n = (if n = 0 then 0 else Suc (bit_len (n div 2)))"

declare bit_len.simps [simp del]

text \<open>The binary exponent of a positive rational: \<open>2 ^ E \<le> x < 2 ^ (E + 1)\<close>.\<close>

definition bin_exp :: "rat \<Rightarrow> int" where
  "bin_exp x =
     (let (n, d) = quotient_of x; k = int (bit_len (nat n)) - int (bit_len (nat d))
      in if 2 powi k \<le> x then k else k - 1)"

definition round_even :: "rat \<Rightarrow> int" where
  "round_even y =
     (let f = \<lfloor>y\<rfloor>; r = y - of_int f
      in if r < 1 / 2 then f else if 1 / 2 < r then f + 1 else if even f then f else f + 1)"

definition rnd64 :: "rat \<Rightarrow> rat" where
  "rnd64 x =
     (if x = 0 then 0
      else let ulp = 2 powi (bin_exp x - 52) in of_int (round_even (x / ulp)) * ulp)"

section \<open>The exponent\<close>

lemma bit_len_bounds: "0 < n \<Longrightarrow> 2 ^ (bit_len n - 1) \<le> n \<and> n < 2 ^ bit_len n"
proof (induction n rule: bit_len.induct)
  case (1 n)
  show ?case
  proof (cases "n div 2 = 0")
    case True
    with "1.prems" have "n = 1" by presburger
    then show ?thesis by (simp add: bit_len.simps [of "Suc 0"] bit_len.simps [of 0])
  next
    case False
    then have IH: "2 ^ (bit_len (n div 2) - 1) \<le> n div 2" "n div 2 < 2 ^ bit_len (n div 2)"
      using "1.IH" "1.prems" by auto
    have pos: "0 < bit_len (n div 2)" using False by (subst bit_len.simps) simp
    have eq: "bit_len n = Suc (bit_len (n div 2))" using "1.prems" by (subst bit_len.simps) simp
    have "(2::nat) ^ bit_len (n div 2) = 2 * 2 ^ (bit_len (n div 2) - 1)"
      using pos by (metis Suc_diff_1 power_Suc)
    with IH show ?thesis unfolding eq by simp linarith
  qed
qed

lemma bit_len_powi:
  assumes "0 < m"
  shows "2 powi (int (bit_len (nat m)) - 1) \<le> (of_int m :: rat)"
    and "(of_int m :: rat) < 2 powi int (bit_len (nat m))"
proof -
  obtain k where k: "bit_len (nat m) = Suc k" using assms by (subst (asm) bit_len.simps) auto
  have b: "2 ^ k \<le> nat m" "nat m < 2 ^ Suc k" using bit_len_bounds [of "nat m"] assms k by auto
  have m: "(of_int m :: rat) = of_nat (nat m)" using assms by simp
  have "of_nat (2 ^ k) \<le> (of_nat (nat m) :: rat)" using b(1) by (simp only: of_nat_le_iff)
  then show "2 powi (int (bit_len (nat m)) - 1) \<le> (of_int m :: rat)" unfolding k m by simp
  have "(of_nat (nat m) :: rat) < of_nat (2 ^ Suc k)" using b(2) by (simp only: of_nat_less_iff)
  then show "(of_int m :: rat) < 2 powi int (bit_len (nat m))" unfolding k m by (simp only: power_int_of_nat) simp
qed

lemma bin_exp_bounds:
  assumes "0 < x"
  shows "2 powi (bin_exp x) \<le> x" and "x < 2 powi (bin_exp x + 1)"
proof -
  obtain n d where q: "quotient_of x = (n, d)" by (cases "quotient_of x")
  have d: "0 < d" and x: "x = of_int n / of_int d"
    using quotient_of_denom_pos [OF q] quotient_of_div [OF q] by auto
  with assms have n: "0 < n" by (simp add: zero_less_divide_iff)
  let ?a = "int (bit_len (nat n))" and ?b = "int (bit_len (nat d))"
  have "x < 2 powi ?a / 2 powi (?b - 1)"
    unfolding x using bit_len_powi [OF n] bit_len_powi [OF d] n d by (intro frac_less) auto
  also have "\<dots> = 2 powi (?a - ?b + 1)"
    by (subst power_int_diff [symmetric]) (simp_all add: algebra_simps)
  finally have hi: "x < 2 powi (?a - ?b + 1)" .
  have "2 powi (?a - 1) / 2 powi ?b < x"
    unfolding x using bit_len_powi [OF n] bit_len_powi [OF d] n d by (intro frac_less2) auto
  also have "2 powi (?a - 1) / 2 powi ?b = (2::rat) powi (?a - ?b - 1)"
    by (subst power_int_diff [symmetric]) (simp_all add: algebra_simps)
  finally have lo: "2 powi (?a - ?b - 1) \<le> x" by simp
  show "2 powi (bin_exp x) \<le> x" using lo by (simp add: bin_exp_def q Let_def)
  show "x < 2 powi (bin_exp x + 1)" using hi by (auto simp: bin_exp_def q Let_def)
qed

section \<open>Rounding\<close>

lemma round_even_error: "\<bar>of_int (round_even y) - y\<bar> \<le> 1 / 2"
  by (auto simp: round_even_def Let_def abs_if; linarith)

lemma round_even_int [simp]: "round_even (of_int k) = k"
  by (simp add: round_even_def Let_def)

lemma round_even_mono:
  assumes "x \<le> y" shows "round_even x \<le> round_even y"
proof (cases "\<lfloor>x\<rfloor> = \<lfloor>y\<rfloor>")
  case True
  with assms show ?thesis by (auto simp: round_even_def Let_def)
next
  case False
  with floor_mono [OF assms] have "\<lfloor>x\<rfloor> + 1 \<le> \<lfloor>y\<rfloor>" by linarith
  moreover have "round_even x \<le> \<lfloor>x\<rfloor> + 1" "\<lfloor>y\<rfloor> \<le> round_even y" by (auto simp: round_even_def Let_def)
  ultimately show ?thesis by linarith
qed

lemma rnd64_0 [simp]: "rnd64 0 = 0"
  by (simp add: rnd64_def)

lemma rnd64_error:
  assumes "0 \<le> x" shows "\<bar>rnd64 x - x\<bar> \<le> x / 2 ^ 53"
proof (cases "x = 0")
  case False
  with assms have x: "0 < x" by simp
  define ulp :: rat where "ulp = 2 powi (bin_exp x - 52)"
  have ulp: "0 < ulp" by (simp add: ulp_def)
  have "rnd64 x - x = (of_int (round_even (x / ulp)) - x / ulp) * ulp"
    using False ulp by (simp add: rnd64_def ulp_def [symmetric] Let_def algebra_simps)
  then have "\<bar>rnd64 x - x\<bar> = \<bar>of_int (round_even (x / ulp)) - x / ulp\<bar> * ulp"
    using ulp by (simp add: abs_mult)
  also have "\<dots> \<le> 1 / 2 * ulp"
    using ulp by (intro mult_right_mono round_even_error) simp
  also have "\<dots> = 2 powi (bin_exp x) / 2 ^ 53"
    by (simp add: ulp_def power_int_diff)
  also have "\<dots> \<le> x / 2 ^ 53"
    using bin_exp_bounds(1) [OF x] by (intro divide_right_mono) auto
  finally show ?thesis .
qed simp

lemma rnd64_ge: "0 \<le> x \<Longrightarrow> x * (1 - 1 / 2 ^ 53) \<le> rnd64 x"
  using rnd64_error [of x] unfolding abs_le_iff by (simp add: algebra_simps)

lemma rnd64_le: "0 \<le> x \<Longrightarrow> rnd64 x \<le> x * (1 + 1 / 2 ^ 53)"
  using rnd64_error [of x] unfolding abs_le_iff by (simp add: algebra_simps)

lemma rnd64_nonneg: "0 \<le> x \<Longrightarrow> 0 \<le> rnd64 x"
  by (rule order_trans [OF _ rnd64_ge]) simp_all

text \<open>Rounding is monotone: within a binade by \<open>round_even\<close>, across binades at the power of two.\<close>

lemma rnd64_in_binade:
  assumes "0 < x"
  shows "2 powi (bin_exp x) \<le> rnd64 x" and "rnd64 x \<le> 2 powi (bin_exp x + 1)"
proof -
  define ulp :: rat where "ulp = 2 powi (bin_exp x - 52)"
  have ulp: "0 < ulp" by (simp add: ulp_def)
  have e52: "2 powi (bin_exp x) = of_int (2 ^ 52) * ulp" and e53: "2 powi (bin_exp x + 1) = of_int (2 ^ 53) * ulp"
    by (simp_all add: ulp_def power_int_diff power_int_add)
  have r: "rnd64 x = of_int (round_even (x / ulp)) * ulp"
    using assms by (simp add: rnd64_def ulp_def Let_def)
  have "round_even (of_int (2 ^ 52)) \<le> round_even (x / ulp)"
    using bin_exp_bounds(1) [OF assms] ulp unfolding e52 by (intro round_even_mono) (simp add: field_simps)
  then have lo: "2 ^ 52 \<le> round_even (x / ulp)" by (simp only: round_even_int)
  have "round_even (x / ulp) \<le> round_even (of_int (2 ^ 53))"
    using bin_exp_bounds(2) [OF assms] ulp unfolding e53 by (intro round_even_mono) (simp add: field_simps)
  then have hi: "round_even (x / ulp) \<le> 2 ^ 53" by (simp only: round_even_int)
  show "2 powi (bin_exp x) \<le> rnd64 x" unfolding r e52
    using lo ulp by (intro mult_right_mono) (simp_all only: of_int_le_iff order_less_imp_le)
  show "rnd64 x \<le> 2 powi (bin_exp x + 1)" unfolding r e53
    using hi ulp by (intro mult_right_mono) (simp_all only: of_int_le_iff order_less_imp_le)
qed

lemma rnd64_mono:
  assumes "0 \<le> x" "x \<le> y" shows "rnd64 x \<le> rnd64 y"
proof (cases "x = 0")
  case True
  with assms rnd64_nonneg [of y] show ?thesis by simp
next
  case False
  with assms have x: "0 < x" and y: "0 < y" by auto
  show ?thesis
  proof (cases "bin_exp x = bin_exp y")
    case True
    have "round_even (x / 2 powi (bin_exp y - 52)) \<le> round_even (y / 2 powi (bin_exp y - 52))"
      using assms by (intro round_even_mono divide_right_mono) auto
    then show ?thesis
      using x y True by (simp add: rnd64_def Let_def)
  next
    case False
    have "2 powi (bin_exp x) < (2::rat) powi (bin_exp y + 1)"
      using bin_exp_bounds(1) [OF x] bin_exp_bounds(2) [OF y] assms(2) by simp
    then have "bin_exp x < bin_exp y + 1"
      using power_int_increasing [of "bin_exp y + 1" "bin_exp x" "2::rat"] by (meson leD leI one_le_numeral)
    with False have "bin_exp x + 1 \<le> bin_exp y" by simp
    then have "2 powi (bin_exp x + 1) \<le> (2::rat) powi (bin_exp y)" by (intro power_int_increasing) auto
    with rnd64_in_binade(2) [OF x] rnd64_in_binade(1) [OF y] show ?thesis by simp
  qed
qed

end
