(* ===== verification/Fees.thy ===== *)
theory Fees
  imports Satoshi Go_Float
begin

text \<open>
  Transaction sizes (\<open>src/pkg/internal/txutils\<close>), the static sat/kB fee model of
  \<open>src/pkg/defs/fee_model.go\<close> and the funder's fee calculator
  (\<open>src/pkg/storage/internal/funder/fee_calculator.go\<close>).  The conversion helpers of
  \<open>go-softwarelab/common\<close> and the varint of \<open>go-sdk\<close> are not part of the repository: they are the
  fields of \<open>golib\<close>, a parameter of every definition that calls them, and \<open>golib_ok\<close> states what
  their documentation promises.
\<close>

section \<open>Third-party helpers\<close>

record golib =
  lib_Float64 :: "int \<Rightarrow> rat option"
  lib_Float64FromUnsigned :: "nat \<Rightarrow> rat option"
  lib_Int64 :: "rat \<Rightarrow> int option"
  lib_NoLessThanU :: "nat \<Rightarrow> nat \<Rightarrow> nat"
  lib_NoLessThanI :: "int \<Rightarrow> int \<Rightarrow> int"
  lib_ValueBetween :: "nat \<Rightarrow> nat \<Rightarrow> nat \<Rightarrow> nat"
  lib_ConvertToUInt64 :: "int \<Rightarrow> nat option"
  lib_VarIntLength :: "nat \<Rightarrow> nat"

text \<open>
  Conversions are exact where the value is representable and \<open>to.Int64\<close> fails outside \<open>int64\<close>;
  \<open>NoLessThan\<close> is a lower clamp, \<open>ValueBetween\<close> a clamp into a non-empty interval,
  \<open>must.ConvertToUInt64\<close> panics (\<^term>\<open>None\<close>) on negative values; \<open>VarInt.Length\<close> is the length
  of Bitcoin's compact size encoding.
\<close>

definition golib_ok :: "golib \<Rightarrow> bool" where
  "golib_ok L \<longleftrightarrow>
     (\<forall>v. \<bar>v\<bar> \<le> 2 ^ 53 \<longrightarrow> lib_Float64 L v = Some (of_int v)) \<and>
     (\<forall>n \<le> 2 ^ 53. lib_Float64FromUnsigned L n = Some (of_nat n)) \<and>
     (\<forall>v. \<bar>v\<bar> < 2 ^ 63 \<longrightarrow> lib_Int64 L (of_int v) = Some v) \<and>
     (\<forall>v. 2 ^ 63 \<le> \<bar>v\<bar> \<longrightarrow> lib_Int64 L (of_int v) = None) \<and>
     (\<forall>v lo. lib_NoLessThanU L v lo = max v lo) \<and>
     (\<forall>v lo. lib_NoLessThanI L v lo = max v lo) \<and>
     (\<forall>v lo hi. lo \<le> hi \<longrightarrow> lib_ValueBetween L v lo hi = (if v < lo then lo else if hi < v then hi else v)) \<and>
     (\<forall>v. lib_ConvertToUInt64 L v = (if v < 0 then None else Some (nat v))) \<and>
     (\<forall>n. lib_VarIntLength L n = (if n < 253 then 1 else if n < 65536 then 3 else if n < 4294967296 then 5 else 9))"

section \<open>txutils\<close>

definition P2PKHUnlockingScriptLength :: nat where "P2PKHUnlockingScriptLength = 107"
definition P2PKHLockingScriptLength :: nat where "P2PKHLockingScriptLength = 25"
definition txEnvelopeSize :: nat where "txEnvelopeSize = 4 + 4"
definition satoshisSize :: nat where "satoshisSize = 8"
definition inputConstSize :: nat where "inputConstSize = 32 + 4 + 4"

definition varIntSize :: "golib \<Rightarrow> nat \<Rightarrow> nat" where
  "varIntSize L val = lib_VarIntLength L val"

definition TransactionInputSize :: "golib \<Rightarrow> nat \<Rightarrow> nat" where
  "TransactionInputSize L scriptSize = u64_wrap (inputConstSize + varIntSize L scriptSize + scriptSize)"

definition TransactionOutputSize :: "golib \<Rightarrow> nat \<Rightarrow> nat" where
  "TransactionOutputSize L scriptSize = u64_wrap (varIntSize L scriptSize + scriptSize + satoshisSize)"

fun sizeLoop :: "(nat \<Rightarrow> nat) \<Rightarrow> nat \<Rightarrow> nat list \<Rightarrow> nat" where
  "sizeLoop f acc [] = acc"
| "sizeLoop f acc (l # ls) = sizeLoop f (u64_wrap (acc + f l)) ls"

definition TransactionSizeFromScriptLengths :: "golib \<Rightarrow> nat list \<Rightarrow> nat list \<Rightarrow> nat" where
  "TransactionSizeFromScriptLengths L inputScriptLengths outputScriptLengths =
     (let inputsSize = sizeLoop (TransactionInputSize L) 0 inputScriptLengths;
          outputsSize = sizeLoop (TransactionOutputSize L) 0 outputScriptLengths
      in u64_wrap (txEnvelopeSize + varIntSize L (length inputScriptLengths) + inputsSize +
           varIntSize L (length outputScriptLengths) + outputsSize))"

definition P2PKHOutputSize :: "golib \<Rightarrow> nat" where
  "P2PKHOutputSize L = TransactionOutputSize L P2PKHLockingScriptLength"

definition P2PKHEstimatedInputSize :: "golib \<Rightarrow> nat" where
  "P2PKHEstimatedInputSize L = TransactionInputSize L P2PKHUnlockingScriptLength"

definition MinRequiredFee :: "nat \<Rightarrow> int \<Rightarrow> nat" where
  "MinRequiredFee sizeBytes satPerKB =
     (if satPerKB \<le> 0 \<or> sizeBytes = 0 then 0
      else let fee = u64_wrap (sizeBytes * nat satPerKB) div 1000
           in if fee = 0 then 1 else fee)"

section \<open>Fee model and calculator\<close>

record fee_model =
  fm_Type :: string
  fm_Value :: int

definition SatPerKB :: string where "SatPerKB = ''sat/kb''"

text \<open>\<open>feeCalc\<close> holds the rate as a float.  \<open>newFeeCalculator\<close> panics on a configuration bug.\<close>

definition newFeeCalculator :: "golib \<Rightarrow> fee_model \<Rightarrow> ('e, rat) go" where
  "newFeeCalculator L model =
     (if fm_Type model \<noteq> SatPerKB then Panic
      else if fm_Value model < 0 then Panic
      else case lib_Float64 L (fm_Value model) of None \<Rightarrow> Panic | Some v \<Rightarrow> Ok v)"

datatype fee_error = InvalidTxSize | FeeNotInt64 | FeeNotSatoshi sat_error

definition bytesPerKB :: rat where "bytesPerKB = 1000"

definition fee_formula :: "rat \<Rightarrow> rat \<Rightarrow> int" where
  "fee_formula sz rate = \<lceil>rnd64 (rnd64 (sz / bytesPerKB) * rate)\<rceil>"

definition Calculate :: "golib \<Rightarrow> rat \<Rightarrow> nat \<Rightarrow> fee_error + int" where
  "Calculate L rate txSize =
     (case lib_Float64FromUnsigned L txSize of
        None \<Rightarrow> Inl InvalidTxSize
      | Some sz \<Rightarrow>
          (case lib_Int64 L (of_int (fee_formula sz rate)) of
             None \<Rightarrow> Inl FeeNotInt64
           | Some fee \<Rightarrow> (case From (Signed fee) of Inl e \<Rightarrow> Inl (FeeNotSatoshi e) | Inr sats \<Rightarrow> Inr sats)))"

text \<open>\<open>defs.feeForSize\<close>: the same formula on \<open>float64(sizeBytes)\<close> and \<open>float64(Value)\<close>.\<close>

definition fuelInputSizeBytes :: nat where "fuelInputSizeBytes = 148"

definition feeForSize :: "nat \<Rightarrow> fee_model \<Rightarrow> nat" where
  "feeForSize sizeBytes feeModel =
     (if fm_Value feeModel \<le> 0 then 0
      else nat (fee_formula (rnd64 (of_nat sizeBytes)) (rnd64 (of_int (fm_Value feeModel)))))"

definition MarginalFuelInputFee :: "fee_model \<Rightarrow> nat" where
  "MarginalFuelInputFee feeModel = feeForSize fuelInputSizeBytes feeModel"

section \<open>Facts: sizes\<close>

lemma p2pkh_sizes:
  assumes "golib_ok L"
  shows "P2PKHOutputSize L = 34" and "P2PKHEstimatedInputSize L = 148"
  using assms
  by (simp_all add: golib_ok_def P2PKHOutputSize_def P2PKHEstimatedInputSize_def TransactionOutputSize_def
      TransactionInputSize_def varIntSize_def P2PKHLockingScriptLength_def P2PKHUnlockingScriptLength_def
      satoshisSize_def inputConstSize_def)

lemma minSpend_size:
  assumes "golib_ok L"
  shows "TransactionSizeFromScriptLengths L [P2PKHUnlockingScriptLength] [P2PKHLockingScriptLength] = 192"
proof -
  have "varIntSize L 1 = 1" using assms by (simp add: golib_ok_def varIntSize_def)
  with p2pkh_sizes [OF assms] show ?thesis
    by (simp add: TransactionSizeFromScriptLengths_def P2PKHOutputSize_def P2PKHEstimatedInputSize_def txEnvelopeSize_def)
qed

section \<open>Facts: the fee formula\<close>

lemma fee_formula_nonneg: "0 \<le> sz \<Longrightarrow> 0 \<le> rate \<Longrightarrow> 0 \<le> fee_formula sz rate"
  unfolding fee_formula_def bytesPerKB_def
  using rnd64_nonneg [of "sz / 1000"] rnd64_nonneg [of "rnd64 (sz / 1000) * rate"] by simp

lemma fee_formula_mono:
  assumes "0 \<le> sz" "sz \<le> sz'" "0 \<le> rate"
  shows "fee_formula sz rate \<le> fee_formula sz' rate"
  unfolding fee_formula_def bytesPerKB_def using assms
  by (intro ceiling_mono rnd64_mono mult_right_mono mult_nonneg_nonneg rnd64_nonneg) (auto intro: divide_right_mono)

text \<open>Two roundings change the exact quotient by a relative error below \<open>2 ^ -51\<close>.\<close>

lemma fee_rounding:
  assumes "0 \<le> sz" "0 \<le> rate"
  defines "v \<equiv> sz * rate / 1000" and "z \<equiv> rnd64 (rnd64 (sz / 1000) * rate)"
  shows "v * (1 - 1 / 2 ^ 52) \<le> z" and "z \<le> v * (1 + 1 / 2 ^ 51)"
proof -
  let ?e = "1 / 2 ^ 53 :: rat" and ?y = "rnd64 (sz / 1000)"
  have v: "0 \<le> v" and y: "0 \<le> ?y" using assms by (auto simp: rnd64_nonneg)
  have ylo: "sz / 1000 * (1 - ?e) \<le> ?y" and yhi: "?y \<le> sz / 1000 * (1 + ?e)"
    using rnd64_ge [of "sz / 1000"] rnd64_le [of "sz / 1000"] assms(1) by auto
  have "v * (1 - ?e) * (1 - ?e) = sz / 1000 * (1 - ?e) * rate * (1 - ?e)" by (simp add: v_def)
  also have "\<dots> \<le> ?y * rate * (1 - ?e)" using ylo assms(2) by (intro mult_right_mono) auto
  also have "\<dots> \<le> z" unfolding z_def using y assms(2) by (intro rnd64_ge) simp
  finally have "v * ((1 - ?e) * (1 - ?e)) \<le> z" by (simp only: mult.assoc)
  moreover have "v * (1 - 1 / 2 ^ 52) \<le> v * ((1 - ?e) * (1 - ?e))" using v by (intro mult_left_mono) auto
  ultimately show "v * (1 - 1 / 2 ^ 52) \<le> z" by simp
  have "z \<le> ?y * rate * (1 + ?e)" unfolding z_def using y assms(2) by (intro rnd64_le) simp
  also have "\<dots> \<le> sz / 1000 * (1 + ?e) * rate * (1 + ?e)" using yhi assms(2) by (intro mult_right_mono) auto
  also have "\<dots> = v * ((1 + ?e) * (1 + ?e))" by (simp add: v_def)
  also have "\<dots> \<le> v * (1 + 1 / 2 ^ 51)" using v by (intro mult_left_mono) auto
  finally show "z \<le> v * (1 + 1 / 2 ^ 51)" .
qed

lemma fee_exact:
  fixes sz rate :: nat
  assumes "sz * rate < 2 ^ 51"
  defines "v \<equiv> of_nat (sz * rate) / (1000 :: rat)"
  shows "\<lceil>v\<rceil> \<le> fee_formula (of_nat sz) (of_nat rate)"
    and "fee_formula (of_nat sz) (of_nat rate) \<le> \<lceil>v\<rceil> + 1"
    and "\<not> 1000 dvd sz * rate \<Longrightarrow> fee_formula (of_nat sz) (of_nat rate) = \<lceil>v\<rceil>"
proof -
  define z where "z = rnd64 (rnd64 (of_nat sz / 1000) * of_nat rate)"
  have fz: "fee_formula (of_nat sz) (of_nat rate) = \<lceil>z\<rceil>" by (simp add: fee_formula_def bytesPerKB_def z_def)
  have v0: "0 \<le> v" by (simp add: v_def)
  have "(of_nat (sz * rate) :: rat) < of_nat (2 ^ 51)" using assms(1) by (subst of_nat_less_iff)
  hence small: "v < 2 ^ 51 / 1000" by (simp add: v_def mult.commute)
  have lo: "v * (1 - 1 / 2 ^ 52) \<le> z" and hi: "z \<le> v * (1 + 1 / 2 ^ 51)"
    using fee_rounding [of "of_nat sz" "of_nat rate"] by (auto simp: v_def z_def)
  have lo': "v - 1 / 1000 < z" using lo small by (simp add: algebra_simps)
  have hi': "z < v + 1 / 1000" using hi small by (simp add: algebra_simps)
  show "fee_formula (of_nat sz) (of_nat rate) \<le> \<lceil>v\<rceil> + 1" unfolding fz using hi' by linarith
  have frac: "v \<le> of_int \<lceil>v\<rceil> - 1 / 1000 \<and> of_int \<lceil>v\<rceil> - 1 + 1 / 1000 \<le> v" if "\<not> 1000 dvd sz * rate"
  proof -
    let ?n = "int (sz * rate)"
    have "?n mod 1000 \<noteq> 0" using that by presburger
    hence m: "1 \<le> ?n mod 1000" "?n mod 1000 \<le> 999" by auto
    have "(of_int ?n :: rat) = of_int (1000 * (?n div 1000) + ?n mod 1000)" by (simp only: mult_div_mod_eq)
    also have "\<dots> = 1000 * of_int (?n div 1000) + of_int (?n mod 1000)"
      by (simp only: of_int_add of_int_mult of_int_numeral)
    finally have n: "(of_int ?n :: rat) = 1000 * of_int (?n div 1000) + of_int (?n mod 1000)" .
    have "v = of_int ?n / 1000" by (simp add: v_def)
    hence veq: "v = of_int (?n div 1000) + of_int (?n mod 1000) / 1000"
      unfolding n by (simp add: add_divide_distrib)
    have r: "(1 :: rat) \<le> of_int (?n mod 1000)" "of_int (?n mod 1000) \<le> (999 :: rat)"
      using m by simp_all
    have "\<lceil>v\<rceil> = ?n div 1000 + 1" using r unfolding veq by (intro ceiling_unique) auto
    thus ?thesis using r veq by simp
  qed
  show ge: "\<lceil>v\<rceil> \<le> fee_formula (of_nat sz) (of_nat rate)"
  proof (cases "1000 dvd sz * rate")
    case True
    then obtain k where "sz * rate = 1000 * k" by blast
    hence "v = of_int (int k)" by (simp add: v_def)
    thus ?thesis unfolding fz using lo' by simp linarith
  next
    case False
    from frac [OF this] lo' show ?thesis unfolding fz by linarith
  qed
  show "fee_formula (of_nat sz) (of_nat rate) = \<lceil>v\<rceil>" if "\<not> 1000 dvd sz * rate"
    using frac [OF that] hi' ge unfolding fz by linarith
qed

lemma fee_floor:
  fixes sz rate :: nat
  assumes "fee_formula (of_nat sz) (of_nat rate) < 2 ^ 51" "0 < sz" "0 < rate"
  shows "\<lfloor>of_nat (sz * rate) / (1000 :: rat)\<rfloor> \<le> fee_formula (of_nat sz) (of_nat rate)"
    and "1 \<le> fee_formula (of_nat sz) (of_nat rate)"
proof -
  define z where "z = rnd64 (rnd64 (of_nat sz / 1000) * of_nat rate)"
  define v where "v = of_nat (sz * rate) / (1000 :: rat)"
  have fz: "fee_formula (of_nat sz) (of_nat rate) = \<lceil>z\<rceil>" by (simp add: fee_formula_def bytesPerKB_def z_def)
  have v0: "0 < v" using assms(2,3) by (simp add: v_def)
  have lo: "v * (1 - 1 / 2 ^ 52) \<le> z"
    using fee_rounding [of "of_nat sz" "of_nat rate"] by (auto simp: v_def z_def)
  have "z \<le> of_int (2 ^ 51)" using assms(1) unfolding fz by (intro iffD1 [OF ceiling_le_iff]) simp
  hence "v < 2 ^ 52" using lo by simp
  hence "v - 1 < z" using lo by (simp add: algebra_simps)
  thus "\<lfloor>of_nat (sz * rate) / (1000 :: rat)\<rfloor> \<le> fee_formula (of_nat sz) (of_nat rate)"
    unfolding fz v_def [symmetric] by linarith
  have "0 < z" using lo v0 by simp
  thus "1 \<le> fee_formula (of_nat sz) (of_nat rate)" unfolding fz by simp
qed

section \<open>The calculator\<close>

lemma newFeeCalculator_Ok:
  assumes "golib_ok L" "fm_Value m \<le> 2 ^ 53"
  shows "newFeeCalculator L m = Ok r \<longleftrightarrow> fm_Type m = SatPerKB \<and> 0 \<le> fm_Value m \<and> r = of_int (fm_Value m)"
  using assms by (auto simp: newFeeCalculator_def golib_ok_def)

lemma Calculate_Inr:
  assumes L: "golib_ok L" and sz: "txSize \<le> 2 ^ 53"
  shows "Calculate L r txSize = Inr fee \<longleftrightarrow> fee = fee_formula (of_nat txSize) r \<and> in_range fee"
proof -
  have f: "lib_Float64FromUnsigned L txSize = Some (of_nat txSize)" using L sz by (simp add: golib_ok_def)
  show ?thesis
  proof (cases "\<bar>fee_formula (of_nat txSize) r\<bar> < 2 ^ 63")
    case True
    then have "lib_Int64 L (of_int (fee_formula (of_nat txSize) r)) = Some (fee_formula (of_nat txSize) r)"
      using L by (simp add: golib_ok_def)
    with f show ?thesis
      using From_Inr [of "Signed (fee_formula (of_nat txSize) r)"]
      by (cases "From (Signed (fee_formula (of_nat txSize) r))") (auto simp: Calculate_def)
  next
    case False
    then have "lib_Int64 L (of_int (fee_formula (of_nat txSize) r)) = None"
      using L by (simp add: golib_ok_def)
    with f False show ?thesis by (auto simp: Calculate_def in_range_def MaxSatoshis_def)
  qed
qed

lemma MinRequiredFee_le:
  "MinRequiredFee sz rate \<le> (if 0 < rate \<and> 0 < sz then max 1 (sz * nat rate div 1000) else 0)"
proof -
  have "u64_wrap (sz * nat rate) div 1000 \<le> sz * nat rate div 1000"
    by (intro div_le_mono) (simp add: u64_wrap_def)
  then show ?thesis by (auto simp: MinRequiredFee_def Let_def)
qed

lemma Calculate_covers:
  assumes "golib_ok L" "txSize \<le> 2 ^ 53" "fm_Value model \<le> 2 ^ 53"
    and "newFeeCalculator L model = Ok rate" "Calculate L rate txSize = Inr fee" and le: "sz \<le> txSize"
  shows "int (MinRequiredFee sz (fm_Value model)) \<le> fee"
proof -
  have "0 \<le> fm_Value model" "rate = of_int (fm_Value model)"
    using newFeeCalculator_Ok [OF assms(1,3)] assms(4) by auto
  then obtain r where r: "fm_Value model = int r" "rate = of_nat r" by (metis nonneg_int_cases of_int_of_nat_eq)
  have fee: "fee = fee_formula (of_nat txSize) (of_nat r)" "in_range fee"
    using Calculate_Inr assms(1,2,5) r(2) by auto
  show ?thesis
  proof (cases "0 < r \<and> 0 < txSize")
    case True
    have "fee_formula (of_nat txSize) (of_nat r) < 2 ^ 51"
      using fee by (simp add: in_range_def MaxSatoshis_def)
    from fee_floor [OF this] True
    have "\<lfloor>of_nat (txSize * r) / (1000 :: rat)\<rfloor> \<le> fee" "1 \<le> fee" by (simp_all only: fee(1))
    moreover have "\<lfloor>of_nat (txSize * r) / (1000 :: rat)\<rfloor> = int (txSize * r div 1000)"
      using floor_divide_of_nat_eq [where 'a = rat, of "txSize * r" 1000] by simp
    moreover have "sz * r div 1000 \<le> txSize * r div 1000" using le by (intro div_le_mono mult_le_mono1)
    ultimately show ?thesis
      using MinRequiredFee_le [of sz "int r"] unfolding r(1) by (auto simp: max_def split: if_splits)
  next
    case False
    with MinRequiredFee_le [of sz "int r"] le have "MinRequiredFee sz (int r) = 0" by auto
    with fee fee_formula_nonneg show ?thesis unfolding r(1) by simp
  qed
qed

text \<open>
  A transaction funded at the funder's fee passes the storage's own relay check: whenever
  \<open>feeCalc.Calculate\<close> returns a fee, it is at least \<open>MinRequiredFee\<close> of the same size at the same
  rate, in spite of the two float roundings, the truncation and the one satoshi minimum.
\<close>

theorem Calculate_ge_MinRequiredFee:
  assumes "golib_ok L" "txSize \<le> 2 ^ 53" "fm_Value model \<le> 2 ^ 53"
    and "newFeeCalculator L model = Ok rate" "Calculate L rate txSize = Inr fee"
  shows "int (MinRequiredFee txSize (fm_Value model)) \<le> fee"
  using Calculate_covers [OF assms order_refl] .

definition std_golib :: golib where
  "std_golib = \<lparr>lib_Float64 = \<lambda>v. Some (of_int v), lib_Float64FromUnsigned = \<lambda>n. Some (of_nat n),
     lib_Int64 = \<lambda>x. if \<bar>\<lfloor>x\<rfloor>\<bar> < 2 ^ 63 then Some \<lfloor>x\<rfloor> else None,
     lib_NoLessThanU = max, lib_NoLessThanI = max,
     lib_ValueBetween = \<lambda>v lo hi. if v < lo then lo else if hi < v then hi else v,
     lib_ConvertToUInt64 = \<lambda>v. if v < 0 then None else Some (nat v),
     lib_VarIntLength = \<lambda>n. if n < 253 then 1 else if n < 65536 then 3 else if n < 4294967296 then 5 else 9\<rparr>"

lemma std_golib_ok: "golib_ok std_golib"
  unfolding golib_ok_def std_golib_def by (simp add: max_def)

text \<open>Evaluation of a rounding once the binade is known.\<close>

lemma bin_exp_eqI:
  assumes "2 powi e \<le> x" "x < 2 powi (e + 1)"
  shows "bin_exp x = e"
proof -
  have "(0::rat) < 2 powi e" by simp
  hence x: "0 < x" using assms(1) by linarith
  note b = bin_exp_bounds [OF x]
  have "e < bin_exp x + 1"
  proof (rule ccontr)
    assume "\<not> e < bin_exp x + 1"
    hence "(2::rat) powi (bin_exp x + 1) \<le> 2 powi e" by (intro power_int_increasing) auto
    with assms(1) b(2) show False by linarith
  qed
  moreover have "bin_exp x < e + 1"
  proof (rule ccontr)
    assume "\<not> bin_exp x < e + 1"
    hence "(2::rat) powi (e + 1) \<le> 2 powi bin_exp x" by (intro power_int_increasing) auto
    with assms(2) b(1) show False by linarith
  qed
  ultimately show ?thesis by simp
qed

lemma round_even_eqI:
  assumes "\<bar>y - of_int n\<bar> < 1 / 2"
  shows "round_even y = n"
proof (cases "of_int n \<le> y")
  case True
  hence "\<lfloor>y\<rfloor> = n" using assms by (intro floor_unique) auto
  thus ?thesis using assms True by (simp add: round_even_def Let_def)
next
  case False
  hence "\<lfloor>y\<rfloor> = n - 1" using assms by (intro floor_unique) auto
  thus ?thesis using assms False by (simp add: round_even_def Let_def)
qed

lemma rnd64_eval:
  assumes "2 ^ 52 / 2 ^ k \<le> x" "x < 2 ^ 53 / 2 ^ k" "\<bar>x * 2 ^ k - of_int n\<bar> < 1 / 2"
  shows "rnd64 x = of_int n / 2 ^ k"
proof -
  have pk: "2 powi (int m - int k) = (2 :: rat) ^ m / 2 ^ k" for m by (simp add: power_int_diff)
  have "bin_exp x = 52 - int k"
    using assms pk [of 52] pk [of 53] by (intro bin_exp_eqI) (simp_all add: algebra_simps)
  moreover have "2 powi (- int k) = 1 / (2 :: rat) ^ k" using pk [of 0] by simp
  moreover have "0 < (2 ^ 52 / 2 ^ k :: rat)" by simp
  hence "x \<noteq> 0" using assms(1) by linarith
  ultimately show ?thesis using round_even_eqI [OF assms(3)] by (simp add: rnd64_def Let_def)
qed

lemma fee_formula_eval:
  "rnd64 (sz / 1000) = y \<Longrightarrow> rnd64 (y * rate) = z \<Longrightarrow> fee_formula sz rate = \<lceil>z\<rceil>"
  by (simp add: fee_formula_def bytesPerKB_def)

lemma fee_70_100: "fee_formula 70 100 = 8"
proof -
  have "rnd64 (70 / 1000) = of_int 5044031582654956 / 2 ^ 56" by (rule rnd64_eval) simp_all
  moreover have "rnd64 (of_int 5044031582654956 / 2 ^ 56 * 100) = of_int 7881299347898369 / 2 ^ 50"
    by (rule rnd64_eval) simp_all
  ultimately have "fee_formula 70 100 = \<lceil>of_int 7881299347898369 / 2 ^ 50 :: rat\<rceil>" by (rule fee_formula_eval)
  also have "\<dots> = 8" by (rule ceiling_unique) simp_all
  finally show ?thesis .
qed

lemma fee_226_100: "fee_formula 226 100 = 23"
proof -
  have "fee_formula 226 100 = \<lceil>of_nat (226 * 100) / 1000 :: rat\<rceil>" using fee_exact(3) [of 226 100] by simp
  also have "\<dots> = 23" by (rule ceiling_unique) simp_all
  finally show ?thesis .
qed

lemma Calculate_value:
  assumes "golib_ok L" "0 < txSize" "0 < rate" "txSize * rate < 2 ^ 51"
  shows "\<exists>fee. Calculate L (of_nat rate) txSize = Inr fee \<and>
           (if 1000 dvd txSize * rate then fee \<in> {int (txSize * rate div 1000), int (txSize * rate div 1000) + 1}
            else fee = int (txSize * rate div 1000) + 1)"
proof -
  let ?v = "of_nat (txSize * rate) / (1000 :: rat)" and ?q = "txSize * rate div 1000"
  let ?f = "fee_formula (of_nat txSize) (of_nat rate)"
  have fl: "\<lfloor>?v\<rfloor> = int ?q" using floor_divide_of_nat_eq [where 'a = rat, of "txSize * rate" 1000] by simp
  note ex = fee_exact [OF assms(4)]
  have q: "?q < 2 ^ 42" using assms(4) by (simp add: less_mult_imp_div_less)
  have c: "\<lceil>?v\<rceil> \<le> int ?q + 1" using fl by linarith
  have "in_range ?f"
    using ex(2) c q fee_formula_nonneg [of "of_nat txSize" "of_nat rate"]
    by (simp add: in_range_def MaxSatoshis_def)
  moreover have "txSize \<le> txSize * rate" using assms(3) by simp
  hence "txSize \<le> 2 ^ 53" by (rule order_trans) (use assms(4) in simp)
  ultimately have run: "Calculate L (of_nat rate) txSize = Inr ?f"
    using Calculate_Inr [OF assms(1), of txSize "of_nat rate" ?f] by simp
  show ?thesis
  proof (cases "1000 dvd txSize * rate")
    case True
    then obtain k where k: "txSize * rate = 1000 * k" by blast
    hence "?v = of_int (int k)" by simp
    hence "\<lceil>?v\<rceil> = int ?q" unfolding k by simp
    hence "?f = int ?q \<or> ?f = int ?q + 1" using ex(1,2) by linarith
    with run True show ?thesis by auto
  next
    case False
    have "?v \<noteq> of_int \<lfloor>?v\<rfloor>"
    proof
      assume "?v = of_int \<lfloor>?v\<rfloor>"
      hence "of_nat (txSize * rate) = (of_nat (1000 * ?q) :: rat)" unfolding fl by (simp add: field_simps)
      hence "txSize * rate = 1000 * ?q" by (simp only: of_nat_eq_iff)
      with False show False by (metis dvd_triv_left)
    qed
    hence "\<lceil>?v\<rceil> = int ?q + 1" using fl by linarith
    with run ex(3) [OF False] False show ?thesis by simp
  qed
qed

text \<open>
  The float formula computes the intended fee.  For sizes and rates whose product stays below
  \<open>2 ^ 51\<close>, \<open>feeCalc.Calculate\<close> returns exactly the size times the rate over a thousand, rounded up,
  unless that quotient is a whole number of satoshis, where it may return one satoshi more; it never
  returns less.
\<close>

theorem Calculate_rounds_up:
  assumes "golib_ok L" "0 < txSize" "0 < rate" "txSize * rate < 2 ^ 51"
  shows "\<exists>fee. Calculate L (of_nat rate) txSize = Inr fee \<and>
           (if 1000 dvd txSize * rate then fee \<in> {int (txSize * rate div 1000), int (txSize * rate div 1000) + 1}
            else fee = int (txSize * rate div 1000) + 1)"
  using Calculate_value [OF assms] .

text \<open>
  The one satoshi excess is real: at 100 sat/kB, a transaction of 70 bytes is charged 8 satoshis,
  although the exact fee is the whole number 7, because the quotient 0.07 is rounded up in binary
  before it is multiplied.
\<close>

theorem Calculate_overcharges:
  "golib_ok L \<Longrightarrow> Calculate L 100 70 = Inr 8 \<and> 70 * 100 = (1000 :: nat) * 7"
  by (simp add: Calculate_Inr fee_70_100 in_range_def MaxSatoshis_def)

end
