(* ===== verification/Funder_Errors.thy ===== *)
theory Funder_Errors
  imports Fees Utxo_Types
begin

text \<open>
  The errors a funding attempt returns: the sentinels of \<open>src/pkg/storage/internal/funder/errors.go\<close>, the
  wrapped errors of the store and the arithmetic, and the refusals of malformed arguments.
\<close>

datatype fund_error =
    NotEnoughFunds
  | UTXOContention
  | HiddenInventory tier
  | StoreFailed store_error
  | FeeFailed fee_error
  | ValueFailed sat_error
  | LowDenomination nat nat
  | ArgReservation
  | ArgUser
  | ArgBasket
  | ArgTiers
  | ArgMaxChange
  | ArgBadTier tier

end
