(* ===== verification/Provider.thy ===== *)
theory Provider
  imports Outbox Memstore_Replay Funder_Errors
begin

text \<open>
  The ground of the storage provider (\<open>src/pkg/storage\<close>): its state, the metadata database beside the UTXO
  store; units of work (\<open>metastore/uow.go\<close>); calls of the UTXO store that may fail; and the small codecs of
  \<open>reconciler.go\<close>.

  The UTXO store is the reference store.  A call of it may fail for a reason outside the program, before or
  after it took effect: \<open>p_faults\<close> says what happens to the n-th call, and nothing is assumed of it.  The
  clock is read through \<open>p_clock\<close>, a function of the number of readings; \<open>p_posts\<close> is the history of the
  transactions handed to the network, oldest first.  In Mode A both stores are one
  database and a unit of work that fails rolls back both; in Mode B it rolls back the metadata only.

  The hash and transaction codecs of the Go SDK, SHA-256 and the text of an error are parameters, collected in
  \<open>sdk\<close>.
\<close>

section \<open>Errors and the SDK\<close>

datatype perr =
    MetaErr meta_error
  | StoreErr store_error
  | ErrAuthorization
  | ErrNotAbortableAction
  | ErrAbortLostToSend
  | ErrAlreadyHandled
  | BadHash string
  | BadOutpoint string
  | BadRawTx
  | ItemErr item_error
  | NoHeaders
  | UnknownOp string
  | NoOracle
  | BadRequest string
  | ErrDivergentReDrive
  | ErrFeeBelowFloor
  | ScriptsFailed
  | NoRawTx string
  | NoTransactionRow string
  | RowVanished string
  | NotBroadcastable string req_status
  | ArcadeFailed
  | FundErr fund_error
  | Panicked
  | ErrUTXOContention store_error
  | ErrInputUnavailable outpoint store_error
  | RandFailed
  | BeefFailed string

record sdk =
  NewHashFromHex :: "string \<Rightarrow> hash option"
  HashString :: "hash \<Rightarrow> string"
  TxInputs :: "bytes \<Rightarrow> outpoint option list option"
  Sum256 :: "string \<Rightarrow> bytes"
  ErrorText :: "perr \<Rightarrow> string"

text \<open>What the provider relies on: the display form of a hash reads back, and contains no colon.\<close>

definition sdk_ok :: "sdk \<Rightarrow> bool" where
  "sdk_ok lib \<longleftrightarrow> (\<forall>h. NewHashFromHex lib (HashString lib h) = Some h \<and> CHR '':'' \<notin> set (HashString lib h))"

section \<open>State\<close>

text \<open>
  The payload of an outbox row, as the JSON object of the source: a member the writer left out reads as the
  zero value.
\<close>

record payload =
  pl_spendingTxId :: string
  pl_reservation :: string
  pl_mintTxId :: string
  pl_userId :: int
  pl_ops :: "string list"

definition no_payload :: payload where
  "no_payload = \<lparr>pl_spendingTxId = '''', pl_reservation = '''', pl_mintTxId = '''', pl_userId = 0, pl_ops = []\<rparr>"

record metadb =
  db_known :: "known_row list"
  db_txs :: "tx_row list"
  db_labels :: named_table
  db_outputs :: "output_cols list"
  db_tags :: named_table
  db_outbox :: "payload outbox_entry list"

datatype fault = FailBefore store_error | FailAfter store_error

record prov =
  p_db :: metadb
  p_utxo :: store
  p_clock :: "nat \<Rightarrow> time"
  p_ticks :: nat
  p_faults :: "nat \<Rightarrow> fault option"
  p_calls :: nat
  p_modeA :: bool
  p_posts :: "string list"

type_synonym 'a step = "prov \<Rightarrow> prov \<times> (perr + 'a)"

section \<open>Steps\<close>

definition ret :: "'a \<Rightarrow> 'a step" where
  "ret a p = (p, Inr a)"

definition fail :: "perr \<Rightarrow> 'a step" where
  "fail e p = (p, Inl e)"

text \<open>Go's \<open>if err != nil { return err }\<close>.\<close>

definition andThen :: "'a step \<Rightarrow> ('a \<Rightarrow> 'b step) \<Rightarrow> 'b step" where
  "andThen m f p = (case m p of (p', Inl e) \<Rightarrow> (p', Inl e) | (p', Inr a) \<Rightarrow> f a p')"

definition now_p :: "prov \<Rightarrow> time" where
  "now_p p = p_clock p (p_ticks p)"

definition tick_p :: "prov \<Rightarrow> prov" where
  "tick_p p = p\<lparr>p_ticks := Suc (p_ticks p)\<rparr>"

definition of_opt :: "meta_error option \<Rightarrow> perr + unit" where
  "of_opt e = (case e of None \<Rightarrow> Inr () | Some e \<Rightarrow> Inl (MetaErr e))"

text \<open>A write through a repository reads the clock once.\<close>

definition on_known :: "(time \<Rightarrow> known_row list \<Rightarrow> known_row list \<times> meta_error option) \<Rightarrow> unit step" where
  "on_known f p =
     (let (rows, e) = f (now_p p) (db_known (p_db p)) in ((tick_p p)\<lparr>p_db := (p_db p)\<lparr>db_known := rows\<rparr>\<rparr>, of_opt e))"

definition on_txs :: "(time \<Rightarrow> tx_row list \<Rightarrow> tx_row list \<times> meta_error option) \<Rightarrow> unit step" where
  "on_txs f p =
     (let (rows, e) = f (now_p p) (db_txs (p_db p)) in ((tick_p p)\<lparr>p_db := (p_db p)\<lparr>db_txs := rows\<rparr>\<rparr>, of_opt e))"

definition on_outputs :: "(time \<Rightarrow> output_cols list \<Rightarrow> output_cols list) \<Rightarrow> unit step" where
  "on_outputs f p =
     ((tick_p p)\<lparr>p_db := (p_db p)\<lparr>db_outputs := f (now_p p) (db_outputs (p_db p))\<rparr>\<rparr>, Inr ())"

definition on_outbox :: "(time \<Rightarrow> payload outbox_entry list \<Rightarrow> payload outbox_entry list) \<Rightarrow> unit step" where
  "on_outbox f p =
     ((tick_p p)\<lparr>p_db := (p_db p)\<lparr>db_outbox := f (now_p p) (db_outbox (p_db p))\<rparr>\<rparr>, Inr ())"

text \<open>A unit of work: \<open>Do\<close> commits on success and rolls the database back on an error.\<close>

definition DoUnit :: "'a step \<Rightarrow> 'a step" where
  "DoUnit f p =
     (case f p of
        (p', Inr a) \<Rightarrow> (p', Inr a)
      | (p', Inl e) \<Rightarrow> (p'\<lparr>p_db := p_db p, p_utxo := (if p_modeA p then p_utxo p else p_utxo p')\<rparr>, Inl e))"

text \<open>A call of the UTXO store.\<close>

definition utxo_call :: "(store \<Rightarrow> store \<times> (store_error + 'a)) \<Rightarrow> 'a step" where
  "utxo_call f p =
     (let p' = p\<lparr>p_calls := Suc (p_calls p)\<rparr> in
      case p_faults p (p_calls p) of
        Some (FailBefore e) \<Rightarrow> (p', Inl (StoreErr e))
      | Some (FailAfter e) \<Rightarrow> (p'\<lparr>p_utxo := fst (f (p_utxo p))\<rparr>, Inl (StoreErr e))
      | None \<Rightarrow> (let (s, r) = f (p_utxo p) in (p'\<lparr>p_utxo := s\<rparr>, case r of Inl e \<Rightarrow> Inl (StoreErr e) | Inr a \<Rightarrow> Inr a)))"

definition plain_err :: "store \<times> store_error option \<Rightarrow> store \<times> (store_error + unit)" where
  "plain_err r = (fst r, case snd r of None \<Rightarrow> Inr () | Some e \<Rightarrow> Inl e)"

definition report_err :: "store \<times> 'a \<times> store_error option \<Rightarrow> store \<times> (store_error + 'a)" where
  "report_err r = (fst r, case snd (snd r) of None \<Rightarrow> Inr (fst (snd r)) | Some e \<Rightarrow> Inl e)"

section \<open>Codecs\<close>

definition decDigit :: "nat \<Rightarrow> char" where
  "decDigit n = char_of (n + 48)"

fun decimal :: "nat \<Rightarrow> string" where
  "decimal n = (if n < 10 then [decDigit n] else decimal (n div 10) @ [decDigit (n mod 10)])"

declare decimal.simps [simp del]

definition isDigit :: "char \<Rightarrow> bool" where
  "isDigit ch \<longleftrightarrow> (let c = of_char ch :: nat in 48 \<le> c \<and> c \<le> 57)"

definition digitValue :: "char \<Rightarrow> nat" where
  "digitValue ch = of_char ch - 48"

text \<open>\<open>strconv.ParseUint(s, 10, 32)\<close>.\<close>

definition ParseUint32 :: "string \<Rightarrow> u32 option" where
  "ParseUint32 s =
     (if s = [] \<or> \<not> list_all isDigit s then None
      else let v = foldl (\<lambda>acc c. 10 * acc + digitValue c) 0 s in if v < 2 ^ 32 then Some (of_nat v) else None)"

definition Outpoint_String :: "sdk \<Rightarrow> outpoint \<Rightarrow> string" where
  "Outpoint_String lib op = HashString lib (op_TxID op) @ '':'' @ decimal (unat (op_Vout op))"

definition encodeOutpoints :: "sdk \<Rightarrow> outpoint list \<Rightarrow> string list" where
  "encodeOutpoints lib ops = map (Outpoint_String lib) ops"

text \<open>\<open>strings.LastIndex(s, ":")\<close> and the two slices around it.\<close>

definition cutLastColon :: "string \<Rightarrow> (string \<times> string) option" where
  "cutLastColon s =
     (let suffix = rev (takeWhile (\<lambda>c. c \<noteq> CHR '':'') (rev s)) in
      if length suffix = length s then None else Some (take (length s - Suc (length suffix)) s, suffix))"

fun decodeOutpoints :: "sdk \<Rightarrow> string list \<Rightarrow> perr + outpoint list" where
  "decodeOutpoints lib [] = Inr []"
| "decodeOutpoints lib (s # ss) =
     (case cutLastColon s of
        None \<Rightarrow> Inl (BadOutpoint s)
      | Some (h, v) \<Rightarrow>
          (case NewHashFromHex lib h of
             None \<Rightarrow> Inl (BadOutpoint s)
           | Some txid \<Rightarrow>
               (case ParseUint32 v of
                  None \<Rightarrow> Inl (BadOutpoint s)
                | Some vout \<Rightarrow>
                    (case decodeOutpoints lib ss of Inl e \<Rightarrow> Inl e | Inr ops \<Rightarrow> Inr (Outpoint txid vout # ops)))))"

definition encodeTxidToRaw :: "string \<Rightarrow> perr + bytes" where
  "encodeTxidToRaw txid = (case hexDecode txid of None \<Rightarrow> Inl (BadHash txid) | Some b \<Rightarrow> Inr b)"

section \<open>Facts\<close>

lemma andThen_Inr: "andThen m f p = (q, Inr b) \<longleftrightarrow> (\<exists>p' a. m p = (p', Inr a) \<and> f a p' = (q, Inr b))"
  by (auto simp: andThen_def split: prod.splits sum.splits)

lemma andThen_apply: "m p = (p', Inr a) \<Longrightarrow> andThen m f p = f a p'"
  by (simp add: andThen_def)

lemma andThen_err: "m p = (p', Inl e) \<Longrightarrow> andThen m f p = (p', Inl e)"
  by (simp add: andThen_def)

lemma decDigit_facts: "n < 10 \<Longrightarrow> isDigit (decDigit n)" "n < 10 \<Longrightarrow> digitValue (decDigit n) = n" "n < 10 \<Longrightarrow> decDigit n \<noteq> CHR '':''"
proof -
  assume n: "n < 10"
  then have c: "(of_char (char_of (n + 48) :: char) :: nat) = n + 48" by simp
  show "isDigit (decDigit n)" "digitValue (decDigit n) = n" using n by (simp_all add: isDigit_def digitValue_def decDigit_def Let_def)
  show "decDigit n \<noteq> CHR '':''"
  proof
    assume "decDigit n = CHR '':''"
    then have "n + 48 = (of_char CHR '':'' :: nat)" unfolding decDigit_def using c by metis
    with n show False by simp
  qed
qed

lemma decimal_facts:
  "decimal n \<noteq> [] \<and> list_all isDigit (decimal n) \<and> CHR '':'' \<notin> set (decimal n) \<and>
   foldl (\<lambda>acc c. 10 * acc + digitValue c) 0 (decimal n) = n"
proof (induction n rule: decimal.induct)
  case (1 n)
  show ?case
  proof (cases "n < 10")
    case True
    then show ?thesis using decDigit_facts [of n] by (auto simp: decimal.simps)
  next
    case False
    with 1 have "decimal (n div 10) \<noteq> []" "list_all isDigit (decimal (n div 10))" "CHR '':'' \<notin> set (decimal (n div 10))"
      "foldl (\<lambda>acc c. 10 * acc + digitValue c) 0 (decimal (n div 10)) = n div 10" by auto
    moreover have "n mod 10 < 10" by simp
    ultimately show ?thesis
      using decDigit_facts [of "n mod 10"] unfolding decimal.simps [of n] if_not_P [OF False] by auto
  qed
qed

lemma ParseUint32_decimal: "ParseUint32 (decimal (unat (v :: u32))) = Some v"
proof -
  have "unat v < 2 ^ 32" using unsigned_less [of v, where ?'a = nat] by simp
  moreover have "(of_nat (unat v) :: u32) = v" by simp
  ultimately show ?thesis using decimal_facts [of "unat v"] by (simp add: ParseUint32_def)
qed

lemma cutLastColon_append: "CHR '':'' \<notin> set v \<Longrightarrow> cutLastColon (h @ '':'' @ v) = Some (h, v)"
proof -
  assume v: "CHR '':'' \<notin> set v"
  then have "takeWhile (\<lambda>c. c \<noteq> CHR '':'') (rev (h @ '':'' @ v)) = rev v"
    by (simp add: takeWhile_tail) blast
  then show ?thesis by (simp add: cutLastColon_def)
qed

lemma decode_encode:
  assumes "sdk_ok lib" shows "decodeOutpoints lib (encodeOutpoints lib ops) = Inr ops"
proof (induction ops)
  case (Cons op ops)
  have "cutLastColon (Outpoint_String lib op) = Some (HashString lib (op_TxID op), decimal (unat (op_Vout op)))"
    unfolding Outpoint_String_def using decimal_facts by (intro cutLastColon_append) blast
  then show ?case using Cons assms by (simp add: encodeOutpoints_def sdk_ok_def ParseUint32_decimal)
qed (simp add: encodeOutpoints_def)

end
