(* ===== verification/Provider_Ops.thy ===== *)
theory Provider_Ops
  imports Provider
begin

text \<open>
  The operations the provider replays on the UTXO store: the primitives of \<open>src/pkg/storage/reconciler.go\<close>
  and \<open>abort.go\<close>, the cascade to child transactions, the dispatch of an outbox entry and the drain of the
  outbox.  Logging is omitted.
\<close>

section \<open>Change outpoints\<close>

fun change_of :: "sdk \<Rightarrow> output_row list \<Rightarrow> perr + outpoint list" where
  "change_of lib [] = Inr []"
| "change_of lib (o' # os) =
     (case (o_Basket o', o_TxID o') of
        (Some b, Some t) \<Rightarrow>
          (case NewHashFromHex lib t of
             None \<Rightarrow> Inl (BadHash t)
           | Some h \<Rightarrow> (case change_of lib os of Inl e \<Rightarrow> Inl e | Inr ops \<Rightarrow> Inr (Outpoint h (o_Vout o') # ops)))
      | _ \<Rightarrow> change_of lib os)"

definition changeOutpointsByTxIDs :: "sdk \<Rightarrow> metadb \<Rightarrow> string list \<Rightarrow> perr + outpoint list" where
  "changeOutpointsByTxIDs lib db txids =
     (if txids = [] then Inr []
      else case FindChangeOutputsByTxIDs (db_txs db) (db_outputs db) txids of
        Inl e \<Rightarrow> Inl (MetaErr e)
      | Inr rows \<Rightarrow> change_of lib rows)"

definition changeOutpointsByTxID :: "sdk \<Rightarrow> metadb \<Rightarrow> string \<Rightarrow> perr + outpoint list" where
  "changeOutpointsByTxID lib db txid = changeOutpointsByTxIDs lib db [txid]"

text \<open>One user's change of one transaction row; the basket decides, the hash is the given one.\<close>

definition changeOutpoints :: "sdk \<Rightarrow> metadb \<Rightarrow> int \<Rightarrow> nat \<Rightarrow> string \<Rightarrow> perr + outpoint list" where
  "changeOutpoints lib db userID transactionID txid =
     (case FindOutputs (db_txs db) (db_outputs db)
             \<lparr>fo_UserID = Some userID, fo_OutputID = None, fo_TransactionID = Some transactionID, fo_Satoshis = None,
              fo_Vout = None, fo_Change = Some True, fo_TxID = None, fo_TxStatus = []\<rparr> of
        Inl e \<Rightarrow> Inl (MetaErr e)
      | Inr rows \<Rightarrow>
          if rows = [] then Inr []
          else case NewHashFromHex lib txid of
            None \<Rightarrow> Inl (BadHash txid)
          | Some h \<Rightarrow> Inr (map (\<lambda>o'. Outpoint h (o_Vout o')) (filter (\<lambda>o'. o_Basket o' \<noteq> None) rows)))"

section \<open>Primitives\<close>

text \<open>The error of the unfreeze is logged and dropped.\<close>

definition doUnspend :: "hash \<Rightarrow> outpoint list \<Rightarrow> unit step" where
  "doUnspend spendingTxID ops =
     (if ops = [] then ret ()
      else andThen (utxo_call (\<lambda>s. Unspend s spendingTxID ops))
             (\<lambda>_ p. (fst (utxo_call (\<lambda>s. plain_err (Unfreeze s ops)) p), Inr ())))"

definition doReleaseOutpoints :: "string \<Rightarrow> outpoint list \<Rightarrow> unit step" where
  "doReleaseOutpoints reservation ops =
     (if reservation = '''' \<or> ops = [] then ret ()
      else utxo_call (\<lambda>s. plain_err (ReleaseOutpoints s reservation ops)))"

definition doRemovePhantom :: "outpoint list \<Rightarrow> unit step" where
  "doRemovePhantom ops = (if ops = [] then ret () else utxo_call (\<lambda>s. plain_err (Remove s ops True)))"

text \<open>
  \<open>cascadeChildren\<close>: a child that is unknown, proven, already suspect, stuck or terminally failed is passed
  over; the reason names the dead parent.
\<close>

definition cascade_reason :: "sdk \<Rightarrow> hash \<Rightarrow> string" where
  "cascade_reason lib par = ''cascade: parent '' @ HashString lib par @ '' is terminally dead''"

definition cascade_skips :: "req_status \<Rightarrow> bool" where
  "cascade_skips st \<longleftrightarrow>
     st \<in> {ProvenTxStatusCompleted, KnownTxStatusSuspectFailed, KnownTxStatusStuck} \<or> IsTerminalFailure st"

fun cascadeLoop :: "sdk \<Rightarrow> string \<Rightarrow> hash list \<Rightarrow> nat \<Rightarrow> nat step" where
  "cascadeLoop lib reason [] n p = (p, Inr n)"
| "cascadeLoop lib reason (h # hs) n p =
     (case FindByTxID (db_known (p_db p)) (HashString lib h) of
        Inl e \<Rightarrow> (p, Inl (MetaErr e))
      | Inr None \<Rightarrow> cascadeLoop lib reason hs n p
      | Inr (Some kt) \<Rightarrow>
          if cascade_skips (kt_Status kt) then cascadeLoop lib reason hs n p
          else
            (case on_known (\<lambda>now rows. MarkSuspect now rows (HashString lib h) (now_p p) [] (OtherStatus ''cascade'') reason)
                    (tick_p p) of
               (p', Inr _) \<Rightarrow> cascadeLoop lib reason hs (Suc n) p'
             | (p', Inl e) \<Rightarrow> if e = MetaErr ErrNotFound then cascadeLoop lib reason hs (Suc n) p' else (p', Inl e)))"

definition cascadeChildren :: "sdk \<Rightarrow> hash \<Rightarrow> hash list \<Rightarrow> nat step" where
  "cascadeChildren lib par children = cascadeLoop lib (cascade_reason lib par) children 0"

definition doRemoveMinted :: "sdk \<Rightarrow> hash \<Rightarrow> outpoint list \<Rightarrow> nat step" where
  "doRemoveMinted lib mintTxID ops =
     (if ops = [] then ret 0
      else andThen (utxo_call (\<lambda>s. report_err (RemoveByMintTx s mintTxID ops)))
             (\<lambda>report. cascadeChildren lib mintTxID (rep_AlreadySpentBy report)))"

definition doAbortRelease :: "int \<Rightarrow> string \<Rightarrow> unit step" where
  "doAbortRelease userID reservation =
     andThen (utxo_call (\<lambda>s. Unpin s userID reservation))
       (\<lambda>_. andThen (utxo_call (\<lambda>s. ReleaseReservation s userID reservation)) (\<lambda>_. ret ()))"

definition doAbortRemoveChange :: "sdk \<Rightarrow> string \<Rightarrow> outpoint list \<Rightarrow> unit step" where
  "doAbortRemoveChange lib mintTxID ops =
     (if ops = [] then ret ()
      else case NewHashFromHex lib mintTxID of
        None \<Rightarrow> fail (BadHash mintTxID)
      | Some h \<Rightarrow> andThen (utxo_call (\<lambda>s. report_err (RemoveByMintTx s h ops))) (\<lambda>_. ret ()))"

section \<open>The executor\<close>

definition opUnspend :: string where "opUnspend = ''UNSPEND''"
definition opReleaseResv :: string where "opReleaseResv = ''RELEASE''"
definition opRemovePhantom :: string where "opRemovePhantom = ''REMOVE_PHANTOM''"
definition opRemoveMinted :: string where "opRemoveMinted = ''REMOVE_MINTED''"
definition opAbortRelease :: string where "opAbortRelease = ''ABORT_RELEASE''"
definition opAbortRemoveChange :: string where "opAbortRemoveChange = ''ABORT_REMOVE_CHANGE''"

lemmas op_types = opUnspend_def opReleaseResv_def opRemovePhantom_def opRemoveMinted_def opAbortRelease_def opAbortRemoveChange_def

definition with_ops :: "sdk \<Rightarrow> string list \<Rightarrow> (outpoint list \<Rightarrow> 'a step) \<Rightarrow> 'a step" where
  "with_ops lib ss f = (case decodeOutpoints lib ss of Inl e \<Rightarrow> fail e | Inr ops \<Rightarrow> f ops)"

definition with_hash :: "sdk \<Rightarrow> string \<Rightarrow> (hash \<Rightarrow> 'a step) \<Rightarrow> 'a step" where
  "with_hash lib t f = (case NewHashFromHex lib t of None \<Rightarrow> fail (BadHash t) | Some h \<Rightarrow> f h)"

definition no_cascade :: "unit step \<Rightarrow> nat step" where
  "no_cascade m = andThen m (\<lambda>_. ret 0)"

definition executeOutboxOp :: "sdk \<Rightarrow> string \<Rightarrow> payload \<Rightarrow> nat step" where
  "executeOutboxOp lib opType pl =
     (if opType = opUnspend then
        with_hash lib (pl_spendingTxId pl) (\<lambda>h. with_ops lib (pl_ops pl) (\<lambda>ops. no_cascade (doUnspend h ops)))
      else if opType = opReleaseResv then
        with_ops lib (pl_ops pl) (\<lambda>ops. no_cascade (doReleaseOutpoints (pl_reservation pl) ops))
      else if opType = opRemovePhantom then
        with_ops lib (pl_ops pl) (\<lambda>ops. no_cascade (doRemovePhantom ops))
      else if opType = opRemoveMinted then
        with_hash lib (pl_mintTxId pl) (\<lambda>h. with_ops lib (pl_ops pl) (\<lambda>ops. doRemoveMinted lib h ops))
      else if opType = opAbortRelease then
        no_cascade (doAbortRelease (pl_userId pl) (pl_reservation pl))
      else if opType = opAbortRemoveChange then
        with_ops lib (pl_ops pl) (\<lambda>ops. no_cascade (doAbortRemoveChange lib (pl_mintTxId pl) ops))
      else fail (UnknownOp opType))"

section \<open>The drain\<close>

record drain_report =
  dr_Drained :: nat
  dr_Failed :: nat
  dr_Parked :: nat
  dr_ParkedTotal :: nat

definition defaultMonitorBatchLimit :: int where
  "defaultMonitorBatchLimit = 256"

fun drainPending :: "sdk \<Rightarrow> payload outbox_entry list \<Rightarrow> drain_report \<Rightarrow> drain_report step" where
  "drainPending lib [] rep p = (p, Inr rep)"
| "drainPending lib (e # es) rep p =
     (case executeOutboxOp lib (ob_OpType e) (ob_Payload e) p of
        (p', Inl x) \<Rightarrow>
          (let p'' = fst (on_outbox (\<lambda>_ rows. RecordError rows (ob_TxID e) (ob_OpType e) (ob_Chunk e) (ErrorText lib x)) p') in
           drainPending lib es (rep\<lparr>dr_Failed := Suc (dr_Failed rep),
             dr_Parked := (if Suc (ob_Attempts e) \<ge> MaxOutboxAttempts then Suc (dr_Parked rep) else dr_Parked rep)\<rparr>) p'')
      | (p', Inr _) \<Rightarrow>
          (let p'' = fst (on_outbox (\<lambda>_ rows. MarkDone rows (ob_TxID e) (ob_OpType e) (ob_Chunk e)) p') in
           drainPending lib es (rep\<lparr>dr_Drained := Suc (dr_Drained rep)\<rparr>) p''))"

definition DrainOutbox :: "sdk \<Rightarrow> int \<Rightarrow> drain_report step" where
  "DrainOutbox lib limit =
     DoUnit (\<lambda>p.
       (let pending = FetchPending (db_outbox (p_db p)) (if limit \<le> 0 then defaultMonitorBatchLimit else limit) in
        case drainPending lib pending \<lparr>dr_Drained = 0, dr_Failed = 0, dr_Parked = 0, dr_ParkedTotal = 0\<rparr> p of
          (p', Inl e) \<Rightarrow> (p', Inl e)
        | (p', Inr rep) \<Rightarrow> (p', Inr (rep\<lparr>dr_ParkedTotal := CountParked (db_outbox (p_db p'))\<rparr>))))"

end
