(* ===== verification/Provider_Facts.thy ===== *)
theory Provider_Facts
  imports Provider_Ops
begin

text \<open>
  What the provider's operations can do to the two stores: the UTXO store only moves along calls that undo or
  remove (\<open>path repair_call\<close>), whatever the faults, and of the metadata only the known transactions change.
\<close>

section \<open>Paths of store calls\<close>

definition path :: "(call \<Rightarrow> bool) \<Rightarrow> store \<Rightarrow> store \<Rightarrow> bool" where
  "path P s s' \<longleftrightarrow> (\<exists>cs. list_all P cs \<and> s' = fold exec_call cs s)"

lemma path_refl [simp]: "path P s s"
  unfolding path_def by (rule exI [of _ "[]"]) simp

lemma path_one: "P c \<Longrightarrow> path P s (exec_call c s)"
  unfolding path_def by (rule exI [of _ "[c]"]) simp

lemma path_trans: "path P s s' \<Longrightarrow> path P s' s'' \<Longrightarrow> path P s s''"
  unfolding path_def by (metis fold_append comp_apply list_all_append)

lemma path_induct:
  assumes "path P s s'" "Q s" "\<And>s c. Q s \<Longrightarrow> P c \<Longrightarrow> Q (exec_call c s)"
  shows "Q s'"
proof -
  obtain cs where "list_all P cs" "s' = fold exec_call cs s" using assms(1) by (auto simp: path_def)
  with assms(2,3) show ?thesis by (induction cs arbitrary: s) auto
qed

lemma path_inv: "path P s s' \<Longrightarrow> store_inv s \<Longrightarrow> store_inv s'"
  by (erule path_induct) (auto intro: exec_call_inv)

fun repair_call :: "call \<Rightarrow> bool" where
  "repair_call (CallRemove ops force) = force"
| "repair_call (CallReleaseReservation uid t) = True"
| "repair_call (CallReleaseOutpoints t ops) = True"
| "repair_call (CallUnpin uid t) = True"
| "repair_call (CallUnspend h ops) = True"
| "repair_call (CallRemoveByMintTx h ops) = True"
| "repair_call (CallUnfreeze ops) = True"
| "repair_call _ = False"

lemma exec_call_closed: "repair_call c \<Longrightarrow> s_closed (exec_call c s) = s_closed s"
  by (cases c) (auto simp: Remove_def ReleaseReservation_def ReleaseOutpoints_def Unpin_def setPinned_def Unspend_def
    RemoveByMintTx_def Unfreeze_def setFrozen_def Let_def case_prod_unfold split: option.splits)

lemma path_open: "path repair_call s s' \<Longrightarrow> s_closed s' = s_closed s"
  by (rule path_induct [of repair_call s s' "\<lambda>x. s_closed x = s_closed s"]) (auto simp: exec_call_closed)

section \<open>Reservations along a path\<close>

definition held_under :: "store \<Rightarrow> int \<Rightarrow> string \<Rightarrow> bool" where
  "held_under s uid t \<longleftrightarrow> (\<exists>op u. coins s op = Some u \<and> held_coin uid t u)"

lemma coin_step_not_held:
  "coin_step c u u' \<Longrightarrow> repair_call c \<Longrightarrow> t \<noteq> '''' \<Longrightarrow> held_coin uid t u' \<Longrightarrow> held_coin uid t u"
  by (induction rule: coin_step.induct) (auto simp: held_coin_def freed_def unpinned_def elim: claims_for.elims)

lemma exec_call_not_held:
  assumes "store_inv s" "repair_call c" "t \<noteq> ''''" "\<not> held_under s uid t"
  shows "\<not> held_under (exec_call c s) uid t"
proof
  assume "held_under (exec_call c s) uid t"
  then obtain op u where u: "coins (exec_call c s) op = Some u" "held_coin uid t u" by (auto simp: held_under_def)
  have move: "coin_move c (coins s op) (Some u)" using exec_call_coin [OF assms(1), of c op] u(1) by simp
  show False
  proof (cases "coins s op")
    case None
    then show ?thesis using move assms(2) by (cases c) (auto simp: coin_move_def)
  next
    case (Some u0)
    then have "coin_step c u0 u" using move by (simp add: coin_move_def)
    from coin_step_not_held [OF this assms(2,3) u(2)] Some assms(4) show ?thesis by (auto simp: held_under_def)
  qed
qed

lemma path_not_held: "path repair_call s s' \<Longrightarrow> store_inv s \<Longrightarrow> t \<noteq> '''' \<Longrightarrow> \<not> held_under s uid t \<Longrightarrow> \<not> held_under s' uid t"
  using path_induct [of repair_call s s' "\<lambda>s. store_inv s \<and> \<not> held_under s uid t"] exec_call_not_held exec_call_inv by blast

section \<open>Relations kept by a step\<close>

definition steps_in :: "(prov \<Rightarrow> prov \<Rightarrow> bool) \<Rightarrow> 'a step \<Rightarrow> bool" where
  "steps_in R m \<longleftrightarrow> (\<forall>p. R p (fst (m p)))"

lemma steps_inD: "steps_in R m \<Longrightarrow> m p = (p', r) \<Longrightarrow> R p p'"
  unfolding steps_in_def by (metis fst_conv)

lemma plain_err_fst [simp]: "fst (plain_err r) = fst r" "fst (report_err r') = fst r'"
  by (simp_all add: plain_err_def report_err_def)

text \<open>A preorder on states is kept by composed steps when it is kept by their parts.\<close>

locale step_order =
  fixes R :: "prov \<Rightarrow> prov \<Rightarrow> bool"
  assumes refl: "R p p" and trans: "R p q \<Longrightarrow> R q q' \<Longrightarrow> R p q'"
begin

lemma in_ret: "steps_in R (ret a)"
  by (simp add: steps_in_def ret_def refl)

lemma in_fail: "steps_in R (fail e)"
  by (simp add: steps_in_def fail_def refl)

lemma in_andThen: "steps_in R m \<Longrightarrow> (\<And>a. steps_in R (f a)) \<Longrightarrow> steps_in R (andThen m f)"
proof (unfold steps_in_def, intro allI)
  fix p assume m: "\<forall>p. R p (fst (m p))" and f: "\<And>a. \<forall>p. R p (fst (f a p))"
  obtain p' r where r: "m p = (p', r)" by force
  with m have "R p p'" by (metis fst_conv)
  then show "R p (fst (andThen m f p))" using f trans by (cases r) (auto simp: andThen_def r)
qed

lemma in_ignore: "steps_in R m \<Longrightarrow> steps_in R (\<lambda>p. (fst (m p), Inr a))"
  by (simp add: steps_in_def)

lemma in_with_hash: "(\<And>h. steps_in R (f h)) \<Longrightarrow> steps_in R (with_hash lib x f)"
  by (auto simp: with_hash_def in_fail split: option.splits)

lemma in_with_ops: "(\<And>ops. steps_in R (f ops)) \<Longrightarrow> steps_in R (with_ops lib ss f)"
  by (auto simp: with_ops_def in_fail split: sum.splits)

lemma in_no_cascade: "steps_in R m \<Longrightarrow> steps_in R (no_cascade m)"
  unfolding no_cascade_def by (intro in_andThen in_ret)

lemmas in_combined = in_ret in_fail in_andThen in_ignore in_with_hash in_with_ops in_no_cascade

end

text \<open>A preorder that holds along the repair calls of the UTXO store, done or failed.\<close>

locale utxo_order = step_order +
  assumes call: "R p (p\<lparr>p_calls := Suc (p_calls p)\<rparr>)"
    and repair: "repair_call c \<Longrightarrow> R p (p\<lparr>p_utxo := exec_call c (p_utxo p)\<rparr>)"
begin

lemma in_call:
  assumes "\<And>s. \<exists>c. repair_call c \<and> fst (f s) = exec_call c s" shows "steps_in R (utxo_call f)"
proof (unfold steps_in_def, intro allI)
  fix p :: prov
  let ?q = "p\<lparr>p_calls := Suc (p_calls p)\<rparr>"
  obtain c where c: "repair_call c" "fst (f (p_utxo p)) = exec_call c (p_utxo p)" using assms by blast
  then have "R p (?q\<lparr>p_utxo := fst (f (p_utxo p))\<rparr>)" using trans [OF call] repair [OF c(1), of ?q] by simp
  then show "R p (fst (utxo_call f p))" using call [of p]
    by (simp add: utxo_call_def Let_def case_prod_unfold split: option.splits fault.splits)
qed

lemma in_calls:
  "steps_in R (utxo_call (\<lambda>s. Unspend s h ops))"
  "steps_in R (utxo_call (\<lambda>s. plain_err (Unfreeze s ops)))"
  "steps_in R (utxo_call (\<lambda>s. plain_err (ReleaseOutpoints s t ops)))"
  "steps_in R (utxo_call (\<lambda>s. plain_err (Remove s ops True)))"
  "steps_in R (utxo_call (\<lambda>s. report_err (RemoveByMintTx s h ops)))"
  "steps_in R (utxo_call (\<lambda>s. Unpin s uid t))"
  "steps_in R (utxo_call (\<lambda>s. ReleaseReservation s uid t))"
  by (rule in_call, metis exec_call.simps plain_err_fst repair_call.simps)+

lemma in_doUnspend: "steps_in R (doUnspend h ops)"
  unfolding doUnspend_def by (auto intro!: in_combined in_calls)

lemma in_doReleaseOutpoints: "steps_in R (doReleaseOutpoints t ops)"
  unfolding doReleaseOutpoints_def by (auto intro!: in_combined in_calls)

lemma in_doRemovePhantom: "steps_in R (doRemovePhantom ops)"
  unfolding doRemovePhantom_def by (auto intro!: in_combined in_calls)

lemma in_doAbortRelease: "steps_in R (doAbortRelease uid t)"
  unfolding doAbortRelease_def by (intro in_combined in_calls)

lemma in_doAbortRemoveChange: "steps_in R (doAbortRemoveChange lib m ops)"
  unfolding doAbortRemoveChange_def by (auto intro!: in_combined in_calls split: option.splits)

lemma in_abort_op: "ty = opAbortRelease \<or> ty = opAbortRemoveChange \<Longrightarrow> steps_in R (executeOutboxOp lib ty pl)"
  unfolding executeOutboxOp_def
  by (auto simp: op_types intro!: in_combined in_doAbortRelease in_doAbortRemoveChange)

end

text \<open>A preorder that holds along writes of the known transactions.\<close>

locale write_order = step_order +
  assumes tick: "R p (tick_p p)" and known: "R p (p\<lparr>p_db := (p_db p)\<lparr>db_known := rows\<rparr>\<rparr>)"
begin

lemma in_on_known: "steps_in R (on_known f)"
proof (unfold steps_in_def, intro allI)
  fix p :: prov
  have "R p ((tick_p p)\<lparr>p_db := (p_db (tick_p p))\<lparr>db_known := rows\<rparr>\<rparr>)" for rows by (rule trans [OF tick known])
  then show "R p (fst (on_known f p))" by (simp add: on_known_def Let_def case_prod_unfold tick_p_def)
qed

lemma in_cascadeLoop: "R p (fst (cascadeLoop lib reason hs n p))"
proof (induction hs arbitrary: n p)
  case (Cons h hs)
  obtain p' r where r: "on_known (\<lambda>now rows. MarkSuspect now rows (HashString lib h) (now_p p) [] (OtherStatus ''cascade'') reason) (tick_p p) = (p', r)"
    by force
  then have R: "R p p'" using trans [OF tick steps_inD [OF in_on_known]] by blast
  then have next': "R p (fst (cascadeLoop lib reason hs n' p'))" for n' using trans Cons.IH by blast
  show ?case
  proof (cases "FindByTxID (db_known (p_db p)) (HashString lib h)")
    case (Inr k)
    then show ?thesis
    proof (cases k)
      case (Some kt)
      with Inr r R next' Cons.IH show ?thesis by (cases r) simp_all
    qed (simp add: Cons.IH)
  qed (simp add: refl)
qed (simp add: refl)

lemma in_cascadeChildren: "steps_in R (cascadeChildren lib h hs)"
  by (simp add: steps_in_def cascadeChildren_def in_cascadeLoop)

end

text \<open>Both together.\<close>

locale repair_order = utxo_order R + write_order R for R
begin

lemma in_doRemoveMinted: "steps_in R (doRemoveMinted lib h ops)"
  unfolding doRemoveMinted_def by (auto intro!: in_combined in_calls in_cascadeChildren)

lemma in_executeOutboxOp: "steps_in R (executeOutboxOp lib ty pl)"
  unfolding executeOutboxOp_def
  by (auto intro!: in_combined in_doUnspend in_doReleaseOutpoints in_doRemovePhantom in_doRemoveMinted in_doAbortRelease in_doAbortRemoveChange)

end

section \<open>What the operations keep\<close>

text \<open>
  The coins move along repair calls; beside the known transactions the database, the clock, the mode and the
  fault schedule stay as they are; the count of calls only grows.
\<close>

definition utxo_path :: "prov \<Rightarrow> prov \<Rightarrow> bool" where
  "utxo_path p q \<longleftrightarrow> path repair_call (p_utxo p) (p_utxo q)"

definition frame :: "prov \<Rightarrow> _" where
  "frame p = (db_txs (p_db p), db_labels (p_db p), db_outputs (p_db p), db_tags (p_db p), db_outbox (p_db p), p_clock p, p_faults p, p_modeA p)"

definition same_frame :: "prov \<Rightarrow> prov \<Rightarrow> bool" where
  "same_frame p q \<longleftrightarrow> frame q = frame p"

definition same_db :: "prov \<Rightarrow> prov \<Rightarrow> bool" where
  "same_db p q \<longleftrightarrow> p_db q = p_db p"

definition calls_grow :: "prov \<Rightarrow> prov \<Rightarrow> bool" where
  "calls_grow p q \<longleftrightarrow> p_calls p \<le> p_calls q"

interpretation upath: repair_order utxo_path
  by unfold_locales (auto simp: utxo_path_def tick_p_def path_one intro: path_trans)

interpretation uframe: repair_order same_frame
  by unfold_locales (auto simp: same_frame_def frame_def tick_p_def)

interpretation udb: utxo_order same_db
  by unfold_locales (auto simp: same_db_def)

interpretation ucalls: repair_order calls_grow
  by unfold_locales (auto simp: calls_grow_def tick_p_def)

lemma executeOutboxOp_effect:
  assumes "executeOutboxOp lib ty pl p = (p', r)"
  shows "path repair_call (p_utxo p) (p_utxo p') \<and> frame p' = frame p \<and> p_calls p \<le> p_calls p'"
  using steps_inD [OF upath.in_executeOutboxOp assms] steps_inD [OF uframe.in_executeOutboxOp assms] steps_inD [OF ucalls.in_executeOutboxOp assms]
  by (simp add: utxo_path_def same_frame_def calls_grow_def)

text \<open>A release of a reservation that reports success leaves no coin in it.\<close>

lemma doAbortRelease_free:
  assumes "doAbortRelease uid t p = (p', Inr x)" shows "t \<noteq> '''' \<and> \<not> held_under (p_utxo p') uid t"
proof -
  obtain p1 n1 n2 where u: "utxo_call (\<lambda>s. Unpin s uid t) p = (p1, Inr n1)"
      and r: "utxo_call (\<lambda>s. ReleaseReservation s uid t) p1 = (p', Inr n2)"
    using assms by (auto simp: doAbortRelease_def andThen_Inr ret_def)
  from u have u': "Unpin (p_utxo p) uid t = (p_utxo p1, Inr n1)"
    by (auto simp: utxo_call_def Let_def case_prod_unfold prod_eq_iff split: option.splits fault.splits sum.splits)
  from r have r': "ReleaseReservation (p_utxo p1) uid t = (p_utxo p', Inr n2)"
    by (auto simp: utxo_call_def Let_def case_prod_unfold prod_eq_iff split: option.splits fault.splits sum.splits)
  have t: "t \<noteq> ''''" using u' by (auto simp: Unpin_def setPinned_def ValidateReservation_def split: if_splits)
  have "p_utxo p1 = (p_utxo p)\<lparr>s_rows := upd_all (\<lambda>r. if heldBy r uid t \<and> u_Pinned (r_utxo r) then set_pin False r else r) (s_rows (p_utxo p))\<rparr>"
    using u' t by (auto simp: Unpin_def setPinned_def ValidateReservation_def Let_def split: if_splits)
  then have s1: "s_rows (p_utxo p1) = upd_all (\<lambda>r. if heldBy r uid t \<and> u_Pinned (r_utxo r) then set_pin False r else r) (s_rows (p_utxo p))"
    by simp
  have id: "\<not> u_Pinned u \<Longrightarrow> u\<lparr>u_Pinned := False\<rparr> = u" for u :: utxo by (cases u) simp
  have c1: "coins (p_utxo p1) op = map_option (\<lambda>u. if held_coin uid t u then u\<lparr>u_Pinned := False\<rparr> else u) (coins (p_utxo p) op)" for op
    unfolding coins_def s1 by (auto simp: heldBy_coin set_pin_def option.map_comp id intro!: map_option_cong)
  have "\<not> held_coin uid t u" if "coins (p_utxo p') op = Some u" for op u
  proof -
    have "coins (p_utxo p') op = map_option (janitor_free uid t) (coins (p_utxo p1) op)" using ReleaseReservation_coins(2) [OF r'] by simp
    with that c1 obtain u0 where "u = janitor_free uid t (if held_coin uid t u0 then u0\<lparr>u_Pinned := False\<rparr> else u0)" by (auto simp: map_option_case split: option.splits)
    then show ?thesis using t by (auto simp: janitor_free_def held_coin_def freed_def split: if_splits)
  qed
  with t show ?thesis by (auto simp: held_under_def)
qed

end
