(* ===== verification/Status_Updates.thy ===== *)
theory Status_Updates
  imports Provider_Facts
begin

text \<open>
  Applying arcade's status records: \<open>src/pkg/storage/status_updates.go\<close>, the per-record entry point
  \<open>ApplyStatusUpdate\<close>, the repair of a written-off transaction that was mined after all, and the batch entry
  point \<open>ApplyStatusBatch\<close>.

  The merkle-path codec and the header source are parameters, collected in \<open>chain\<close>; a header source answers
  the same question the same way during one call.  Logging is not modelled, nor is the memo of the batch
  verification, which only saves questions to the header source.
\<close>

section \<open>Records and the chain\<close>

record tx_record =
  rec_TxID :: string
  rec_Status :: arc_status
  rec_StatusCode :: int
  rec_BlockHash :: string
  rec_BlockHeight :: u64
  rec_MerklePath :: bytes
  rec_ExtraInfo :: string
  rec_CompetingTxs :: "string list"
  rec_RawTx :: bytes

record merkle_path =
  mp_BlockHeight :: u32
  mp_Bytes :: bytes
  ComputeRoot :: "hash \<Rightarrow> hash option"

text \<open>\<open>VerifyMerkleRoot\<close> returns \<^const>\<open>None\<close> for an error, a header that is not available.\<close>

record headers =
  VerifyMerkleRoot :: "hash \<Rightarrow> u32 \<Rightarrow> bool option"
  HeaderByHeight :: "u32 \<Rightarrow> hash option"

record chain =
  NewMerklePathFromBinary :: "bytes \<Rightarrow> merkle_path option"
  HashBytes :: "hash \<Rightarrow> bytes"
  hdrs :: "headers option"

section \<open>Status sets\<close>

definition seenFencedStatuses :: "req_status list" where
  "seenFencedStatuses = [KnownTxStatusAborted, KnownTxStatusStuck]"

definition seenAdvanceSkipStatuses :: "req_status list" where
  "seenAdvanceSkipStatuses = ProvenTxReqBeyondBroadcastStageStatuses @ seenFencedStatuses"

definition isSeenFenced :: "req_status \<Rightarrow> bool" where
  "isSeenFenced st \<longleftrightarrow> st \<in> set seenFencedStatuses"

definition minedRepairStatuses :: "req_status list" where
  "minedRepairStatuses = [ProvenTxStatusInvalid, ProvenTxStatusDoubleSpend, KnownTxStatusStuck, KnownTxStatusAborted]"

definition isMinedRepairStatus :: "req_status \<Rightarrow> bool" where
  "isMinedRepairStatus st \<longleftrightarrow> st \<in> set minedRepairStatuses"

definition isMinedClass :: "arc_status \<Rightarrow> bool" where
  "isMinedClass s \<longleftrightarrow> s = StatusMined \<or> s = StatusImmutable"

definition minedArcadeStatuses :: "arc_status list" where
  "minedArcadeStatuses = [StatusMined, StatusImmutable]"

definition minedRepairTxStatuses :: "tx_status list" where
  "minedRepairTxStatuses = [TxStatusSending, TxStatusNoSend, TxStatusUnproven, TxStatusUnprocessed, TxStatusCompleted,
     TxStatusFailed, TxStatusAborted]"

section \<open>Small steps\<close>

text \<open>Go's \<open>err != nil && !errors.Is(err, ...)\<close>: the named errors pass as success.\<close>

definition tolerate :: "meta_error list \<Rightarrow> unit step \<Rightarrow> unit step" where
  "tolerate es m p =
     (case m p of
        (p', Inr u) \<Rightarrow> (p', Inr u)
      | (p', Inl e) \<Rightarrow> if e \<in> MetaErr ` set es then (p', Inr ()) else (p', Inl e))"

text \<open>A batch call of the UTXO store: the item errors, and the error of the call.\<close>

definition batch_call ::
    "(store \<Rightarrow> store \<times> item_error option list \<times> store_error option) \<Rightarrow> (item_error option list \<times> store_error option) step" where
  "batch_call f p =
     (let p' = p\<lparr>p_calls := Suc (p_calls p)\<rparr> in
      case p_faults p (p_calls p) of
        Some (FailBefore e) \<Rightarrow> (p', Inr ([], Some e))
      | Some (FailAfter e) \<Rightarrow> (p'\<lparr>p_utxo := fst (f (p_utxo p))\<rparr>, Inr ([], Some e))
      | None \<Rightarrow> (p'\<lparr>p_utxo := fst (f (p_utxo p))\<rparr>, Inr (snd (f (p_utxo p)))))"

definition setArcadeStatus :: "string \<Rightarrow> arc_status \<Rightarrow> unit step" where
  "setArcadeStatus txid st = tolerate [ErrNotFound] (on_known (\<lambda>now rows. SetArcadeStatus now rows txid st))"

definition recordArcadeStatus :: "string \<Rightarrow> arc_status \<Rightarrow> unit step" where
  "recordArcadeStatus txid st = setArcadeStatus txid st"

definition promote :: "outpoint list \<Rightarrow> tier \<Rightarrow> unit step" where
  "promote ops t = (if ops = [] then ret () else andThen (utxo_call (\<lambda>s. Promote s ops t)) (\<lambda>_. ret ()))"

definition promoteChangeByTxID :: "sdk \<Rightarrow> string \<Rightarrow> tier \<Rightarrow> unit step" where
  "promoteChangeByTxID lib txid t p =
     (case changeOutpointsByTxID lib (p_db p) txid of Inl e \<Rightarrow> (p, Inl e) | Inr ops \<Rightarrow> promote ops t p)"

definition removeSpentBy :: "hash \<Rightarrow> unit step" where
  "removeSpentBy h = andThen (utxo_call (\<lambda>s. RemoveSpentBy s h)) (\<lambda>_. ret ())"

definition resolveBlockHash :: "sdk \<Rightarrow> chain \<Rightarrow> string \<Rightarrow> u32 \<Rightarrow> bytes" where
  "resolveBlockHash lib ch blockHashHex height =
     (case (if blockHashHex \<noteq> '''' then NewHashFromHex lib blockHashHex else None) of
        Some h \<Rightarrow> HashBytes ch h
      | None \<Rightarrow>
          (case hdrs ch of
             None \<Rightarrow> []
           | Some hd' \<Rightarrow> (case HeaderByHeight hd' height of None \<Rightarrow> [] | Some h \<Rightarrow> HashBytes ch h)))"

section \<open>SEEN, rejected, retry\<close>

definition applySeen :: "sdk \<Rightarrow> tx_record \<Rightarrow> unit step" where
  "applySeen lib rec =
     (let txid = rec_TxID rec in
      DoUnit (andThen (tolerate [ErrStatusUpdateSkipped] (on_txs (\<lambda>now rows. UpdateStatusByTxID now rows txid TxStatusUnproven
                 [TxStatusSending, TxStatusNoSend, TxStatusUnproven, TxStatusUnprocessed])))
        (\<lambda>_. andThen (tolerate [ErrStatusUpdateSkipped, ErrNotFound] (on_known (\<lambda>now rows.
                 KnownTx_UpdateStatus now rows txid ProvenTxStatusUnconfirmed seenAdvanceSkipStatuses)))
        (\<lambda>_. andThen (promoteChangeByTxID lib txid TierUnproven)
        (\<lambda>_. setArcadeStatus txid (rec_Status rec))))))"

text \<open>The time of the rejection is read before the write's own.\<close>

definition markSuspect :: "tx_record \<Rightarrow> unit step" where
  "markSuspect rec p =
     tolerate [ErrNotFound] (on_known (\<lambda>now rows. MarkSuspect now rows (rec_TxID rec) (now_p p) (rec_CompetingTxs rec)
       (rec_Status rec) (rec_ExtraInfo rec))) (tick_p p)"

definition applyRejected :: "tx_record \<Rightarrow> unit step" where
  "applyRejected rec = markSuspect rec"

definition applyPendingRetry :: "tx_record \<Rightarrow> unit step" where
  "applyPendingRetry rec = recordArcadeStatus (rec_TxID rec) (rec_Status rec)"

section \<open>MINED\<close>

record mined_proof =
  pf_rec :: tx_record
  pf_txidHash :: hash
  pf_height :: u32
  pf_blockHash :: bytes
  pf_mpBytes :: bytes
  pf_root :: bytes
  pf_spentOps :: "outpoint list"

definition verifyMinedOne :: "sdk \<Rightarrow> chain \<Rightarrow> tx_record \<Rightarrow> mined_proof option" where
  "verifyMinedOne lib ch rec =
     (if rec_MerklePath rec = [] then None
      else case hdrs ch of
        None \<Rightarrow> None
      | Some hd' \<Rightarrow>
          (case NewHashFromHex lib (rec_TxID rec) of
             None \<Rightarrow> None
           | Some h \<Rightarrow>
               (case NewMerklePathFromBinary ch (rec_MerklePath rec) of
                  None \<Rightarrow> None
                | Some mp \<Rightarrow>
                    if rec_BlockHeight rec \<noteq> 0 \<and> ucast (mp_BlockHeight mp) \<noteq> rec_BlockHeight rec then None
                    else (case ComputeRoot mp h of
                       None \<Rightarrow> None
                     | Some rt \<Rightarrow>
                         (case VerifyMerkleRoot hd' rt (mp_BlockHeight mp) of
                            Some True \<Rightarrow>
                              Some \<lparr>pf_rec = rec, pf_txidHash = h, pf_height = mp_BlockHeight mp,
                                    pf_blockHash = resolveBlockHash lib ch (rec_BlockHash rec) (mp_BlockHeight mp),
                                    pf_mpBytes = mp_Bytes mp, pf_root = HashBytes ch rt, pf_spentOps = []\<rparr>
                          | _ \<Rightarrow> None)))))"

text \<open>The proof write, shared by the three appliers: a row that is gone is no error.\<close>

definition setProof :: "string \<Rightarrow> u32 \<Rightarrow> bytes \<Rightarrow> bytes \<Rightarrow> bytes \<Rightarrow> unit step" where
  "setProof txid height blockHash mpBytes rt =
     tolerate [ErrNotFound] (on_known (\<lambda>now rows. SetProof now rows txid (unat height) blockHash mpBytes rt))"

text \<open>The write transaction of \<open>applyMined\<close>.\<close>

definition commitMined :: "sdk \<Rightarrow> tx_record \<Rightarrow> hash \<Rightarrow> u32 \<Rightarrow> bytes \<Rightarrow> bytes \<Rightarrow> bytes \<Rightarrow> unit step" where
  "commitMined lib rec h height blockHash mpBytes rt =
     (let txid = rec_TxID rec in
      DoUnit (andThen (setProof txid height blockHash mpBytes rt)
        (\<lambda>_. andThen (setArcadeStatus txid (rec_Status rec))
        (\<lambda>_. andThen (tolerate [ErrStatusUpdateSkipped] (on_txs (\<lambda>now rows. UpdateStatusByTxID now rows txid TxStatusCompleted
                 [TxStatusSending, TxStatusNoSend, TxStatusUnproven, TxStatusUnprocessed, TxStatusCompleted])))
        (\<lambda>_. andThen (on_txs (\<lambda>now rows. ClearInputBEEFByTxID now rows txid))
        (\<lambda>_. andThen (promoteChangeByTxID lib txid TierMined)
        (\<lambda>_. removeSpentBy h)))))))"

definition applyMined :: "sdk \<Rightarrow> chain \<Rightarrow> tx_record \<Rightarrow> unit step" where
  "applyMined lib ch rec =
     (if rec_MerklePath rec = [] then ret ()
      else case hdrs ch of
        None \<Rightarrow> fail NoHeaders
      | Some hd' \<Rightarrow>
          (case NewHashFromHex lib (rec_TxID rec) of
             None \<Rightarrow> fail (BadHash (rec_TxID rec))
           | Some h \<Rightarrow>
               (case NewMerklePathFromBinary ch (rec_MerklePath rec) of
                  None \<Rightarrow> ret ()
                | Some mp \<Rightarrow>
                    if rec_BlockHeight rec \<noteq> 0 \<and> ucast (mp_BlockHeight mp) \<noteq> rec_BlockHeight rec then ret ()
                    else (case ComputeRoot mp h of
                       None \<Rightarrow> ret ()
                     | Some rt \<Rightarrow>
                         (case VerifyMerkleRoot hd' rt (mp_BlockHeight mp) of
                            Some True \<Rightarrow>
                              commitMined lib rec h (mp_BlockHeight mp)
                                (resolveBlockHash lib ch (rec_BlockHash rec) (mp_BlockHeight mp)) (mp_Bytes mp) (HashBytes ch rt)
                          | _ \<Rightarrow> ret ())))))"

section \<open>The repair of a written-off transaction\<close>

definition repairTxRow :: "metadb \<Rightarrow> string \<Rightarrow> table_transaction option" where
  "repairTxRow db txid =
     (case FindByTxIDAllUsers (db_txs db) txid of
        Inl _ \<Rightarrow> None
      | Inr [] \<Rightarrow> None
      | Inr (t # ts) \<Rightarrow> (case find t_IsOutgoing (t # ts) of Some r \<Rightarrow> Some r | None \<Rightarrow> Some t))"

definition repairReservation :: "table_transaction option \<Rightarrow> string \<Rightarrow> string" where
  "repairReservation row txid =
     (case row of
        Some t \<Rightarrow> if t_Reference t \<noteq> '''' then t_Reference t else ''mined-repair:'' @ txid
      | None \<Rightarrow> ''mined-repair:'' @ txid)"

text \<open>The inputs of a parsed transaction that name a source.\<close>

definition sourceOps :: "outpoint option list \<Rightarrow> outpoint list" where
  "sourceOps ins = List.map_filter (\<lambda>i. i) ins"

definition localOutputsByOutpoint ::
    "metadb \<Rightarrow> int \<Rightarrow> (string \<times> u32) list \<Rightarrow> perr + (string \<times> u32 \<Rightarrow> output_row option)" where
  "localOutputsByOutpoint db userID ops =
     (if ops = [] then Inr (\<lambda>_. None)
      else case FindOutputsByOutpoints (db_txs db) (db_outputs db) userID ops of
        Inl e \<Rightarrow> Inl (MetaErr e)
      | Inr rows \<Rightarrow> Inr (\<lambda>op. find (\<lambda>r. o_TxID r = Some (fst op) \<and> o_Vout r = snd op) rows))"

definition markInputsSpent :: "sdk \<Rightarrow> int \<Rightarrow> nat \<Rightarrow> outpoint option list \<Rightarrow> unit step" where
  "markInputsSpent lib userID spendingTxID ins p =
     (let ops = map (\<lambda>op. (HashString lib (op_TxID op), op_Vout op)) (sourceOps ins) in
      case localOutputsByOutpoint (p_db p) userID ops of
        Inl e \<Rightarrow> (p, Inl e)
      | Inr rows \<Rightarrow>
          (let ids = List.map_filter (\<lambda>op. map_option o_OutputID (rows op)) ops in
           if ids = [] then (p, Inr ())
           else on_outputs (\<lambda>now outs. MarkSpent now outs spendingTxID ids) p))"

definition markInputsSpentFromRaw :: "sdk \<Rightarrow> table_transaction \<Rightarrow> bytes \<Rightarrow> unit step" where
  "markInputsSpentFromRaw lib t rawTx =
     (if rawTx = [] then ret ()
      else case TxInputs lib rawTx of
        None \<Rightarrow> ret ()
      | Some ins \<Rightarrow> markInputsSpent lib (t_UserID t) (t_TransactionID t) ins)"

text \<open>
  The verdicts of the fact-mode spend.  A missing coin and a competing recorded spend are survivable; any other
  item error is fatal; an error of the call is only explained by item errors when it is the batch error.  (No
  item error of the reference store is a contention.)
\<close>

definition is_batch :: "store_error \<Rightarrow> bool" where
  "is_batch e \<longleftrightarrow> (case e of ErrBatchJoin _ \<Rightarrow> True | ErrBatchCount _ _ \<Rightarrow> True | _ \<Rightarrow> False)"

fun survivable :: "item_error \<Rightarrow> bool" where
  "survivable (NotFoundError op) = True"
| "survivable (SpentError op w) = True"
| "survivable e = False"

definition spendVerdict :: "item_error option list \<Rightarrow> store_error option \<Rightarrow> perr option" where
  "spendVerdict errs serr =
     (case serr of
        None \<Rightarrow> None
      | Some e \<Rightarrow>
          (let failed = List.map_filter (\<lambda>x. x) errs in
           case find (\<lambda>x. \<not> survivable x) failed of
             Some x \<Rightarrow> Some (ItemErr x)
           | None \<Rightarrow> if is_batch e \<and> failed \<noteq> [] then None else Some (StoreErr e)))"

definition factSpendMinedInputs :: "sdk \<Rightarrow> known_tx \<Rightarrow> hash \<Rightarrow> string \<Rightarrow> unit step" where
  "factSpendMinedInputs lib kt spendingTxID reservation =
     (if kt_RawTx kt = [] then ret ()
      else case TxInputs lib (kt_RawTx kt) of
        None \<Rightarrow> ret ()
      | Some ins \<Rightarrow>
          (let ops = map (\<lambda>op. \<lparr>sp_Outpoint = op, sp_Reservation = reservation, sp_SpendingTxID = spendingTxID\<rparr>) (sourceOps ins) in
           if ops = [] then ret ()
           else andThen (batch_call (\<lambda>s. Spend s ops True))
                  (\<lambda>(errs, serr). case spendVerdict errs serr of None \<Rightarrow> ret () | Some e \<Rightarrow> fail e)))"

text \<open>Change to mint again: in a basket, and not recorded as spent.\<close>

definition remints :: "hash \<Rightarrow> tier \<Rightarrow> output_row list \<Rightarrow> mint list" where
  "remints h t rows = List.map_filter (\<lambda>r. case o_Basket r of
       Some b \<Rightarrow>
         if o_SpentBy r \<noteq> None then None
         else Some \<lparr>m_Outpoint = Outpoint h (o_Vout r), m_UserID = o_UserID r, m_Basket = b,
                   m_Satoshis = word_of_int (o_Satoshis r), m_InputSize = DefaultP2PKHInputSize, m_Tier = t\<rparr>
     | None \<Rightarrow> None) rows"

definition mintVerdict :: "item_error option list \<Rightarrow> store_error option \<Rightarrow> perr option" where
  "mintVerdict errs merr =
     (case merr of
        None \<Rightarrow> None
      | Some e \<Rightarrow>
          (case find (\<lambda>x. case x of AlreadyExistsError _ \<Rightarrow> False | _ \<Rightarrow> True) (List.map_filter (\<lambda>x. x) errs) of
             Some x \<Rightarrow> Some (ItemErr x)
           | None \<Rightarrow> if is_batch e then None else Some (StoreErr e)))"

text \<open>\<open>errors.Is(err, &NotFoundError{})\<close> looks into the joined item errors.\<close>

definition not_found_in :: "store_error \<Rightarrow> bool" where
  "not_found_in e \<longleftrightarrow>
     (case e of
        ErrBatchJoin es \<Rightarrow> (\<exists>x \<in> set es. case x of NotFoundError _ \<Rightarrow> True | _ \<Rightarrow> False)
      | NotFound _ \<Rightarrow> True
      | _ \<Rightarrow> False)"

definition unfreezeReminted :: "outpoint list \<Rightarrow> unit step" where
  "unfreezeReminted ops p =
     (case utxo_call (\<lambda>s. plain_err (Unfreeze s ops)) p of
        (p', Inr _) \<Rightarrow> (p', Inr ())
      | (p', Inl (StoreErr e)) \<Rightarrow> if not_found_in e then (p', Inr ()) else (p', Inl (StoreErr e))
      | (p', Inl e) \<Rightarrow> (p', Inl e))"

definition remintChangeByTxID :: "sdk \<Rightarrow> string \<Rightarrow> tier \<Rightarrow> unit step" where
  "remintChangeByTxID lib txid t p =
     (case FindOutputs (db_txs (p_db p)) (db_outputs (p_db p))
             \<lparr>fo_UserID = None, fo_OutputID = None, fo_TransactionID = None, fo_Satoshis = None, fo_Vout = None,
              fo_Change = Some True, fo_TxID = Some txid, fo_TxStatus = []\<rparr> of
        Inl e \<Rightarrow> (p, Inl (MetaErr e))
      | Inr rows \<Rightarrow>
          if rows = [] then (p, Inr ())
          else case NewHashFromHex lib txid of
            None \<Rightarrow> (p, Inl (BadHash txid))
          | Some h \<Rightarrow>
              (let mints = remints h t rows; ops = map m_Outpoint mints in
               if mints = [] then (p, Inr ())
               else andThen (batch_call (\<lambda>s. Mint s mints))
                      (\<lambda>(errs, merr). case mintVerdict errs merr of
                          Some e \<Rightarrow> fail e
                        | None \<Rightarrow> andThen (utxo_call (\<lambda>s. Promote s ops t)) (\<lambda>_. unfreezeReminted ops)) p))"

definition commitMinedRepair :: "sdk \<Rightarrow> known_tx \<Rightarrow> mined_proof \<Rightarrow> unit step" where
  "commitMinedRepair lib kt proof p =
     (let txid = kt_TxID kt; row = repairTxRow (p_db p) txid in
      DoUnit (andThen (factSpendMinedInputs lib kt (pf_txidHash proof) (repairReservation row txid))
        (\<lambda>_. andThen (case row of None \<Rightarrow> ret () | Some t \<Rightarrow> markInputsSpentFromRaw lib t (kt_RawTx kt))
        (\<lambda>_. andThen (setProof txid (pf_height proof) (pf_blockHash proof) (pf_mpBytes proof) (pf_root proof))
        (\<lambda>_. andThen (tolerate [ErrStatusUpdateSkipped] (on_txs (\<lambda>now rows.
                 UpdateStatusByTxID now rows txid TxStatusCompleted minedRepairTxStatuses)))
        (\<lambda>_. andThen (on_txs (\<lambda>now rows. ClearInputBEEFByTxID now rows txid))
        (\<lambda>_. andThen (remintChangeByTxID lib txid TierMined)
        (\<lambda>_. removeSpentBy (pf_txidHash proof)))))))) p)"

definition applyMinedRepair :: "sdk \<Rightarrow> chain \<Rightarrow> tx_record \<Rightarrow> known_tx \<Rightarrow> bool step" where
  "applyMinedRepair lib ch rec kt =
     (case hdrs ch of
        None \<Rightarrow> fail NoHeaders
      | Some _ \<Rightarrow>
          andThen (recordArcadeStatus (rec_TxID rec) (rec_Status rec))
            (\<lambda>_. case verifyMinedOne lib ch rec of
                None \<Rightarrow> ret False
              | Some proof \<Rightarrow> andThen (commitMinedRepair lib kt proof) (\<lambda>_. ret True)))"

section \<open>ApplyStatusUpdate\<close>

definition ApplyStatusUpdate :: "sdk \<Rightarrow> chain \<Rightarrow> tx_record \<Rightarrow> unit step" where
  "ApplyStatusUpdate lib ch rec p =
     (let txid = rec_TxID rec; st = rec_Status rec in
      if txid = '''' then (p, Inr ())
      else case FindByTxID (db_known (p_db p)) txid of
        Inl e \<Rightarrow> (p, Inl (MetaErr e))
      | Inr None \<Rightarrow> (p, Inr ())
      | Inr (Some kt) \<Rightarrow>
          (let repair = (isMinedClass st \<and> isMinedRepairStatus (kt_Status kt));
               prev = (case kt_ArcadeStatus kt of Some a \<Rightarrow> a | None \<Rightarrow> no_status) in
           if \<not> repair \<and> (kt_Status kt = ProvenTxStatusCompleted \<or> IsTerminalFailure (kt_Status kt)) then (p, Inr ())
           else if \<not> CanSupersede st prev then (p, Inr ())
           else if st \<in> {StatusSeenOnNetwork, StatusSeenMultipleNodes, StatusAcceptedByNetwork} then
             (if isSeenFenced (kt_Status kt) then recordArcadeStatus txid st p else applySeen lib rec p)
           else if st \<in> {StatusMined, StatusImmutable} then
             (if repair then andThen (applyMinedRepair lib ch rec kt) (\<lambda>_. ret ()) p else applyMined lib ch rec p)
           else if st \<in> {StatusRejected, StatusDoubleSpendAttempted} then applyRejected rec p
           else if st = StatusPendingRetry then applyPendingRetry rec p
           else recordArcadeStatus txid st p))"

section \<open>ApplyStatusBatch\<close>

fun batchOrder :: "tx_record list \<Rightarrow> string list \<Rightarrow> string list" where
  "batchOrder [] order = order"
| "batchOrder (rec # recs) order =
     (if rec_TxID rec = '''' \<or> rec_TxID rec \<in> set order then batchOrder recs order
      else batchOrder recs (order @ [rec_TxID rec]))"

definition perTxid :: "tx_record list \<Rightarrow> string \<Rightarrow> tx_record list" where
  "perTxid recs txid = filter (\<lambda>rec. rec_TxID rec = txid) recs"

text \<open>The loaded rows by their transaction id; a later row replaces an earlier one.\<close>

definition knownMap :: "known_tx list \<Rightarrow> string \<Rightarrow> known_tx option" where
  "knownMap loaded txid = find (\<lambda>kt. kt_TxID kt = txid) (rev loaded)"

definition minedRepairBatchRoute :: "req_status \<Rightarrow> tx_record list \<Rightarrow> bool" where
  "minedRepairBatchRoute st evs \<longleftrightarrow> isMinedRepairStatus st \<and> (\<exists>rec \<in> set evs. isMinedClass (rec_Status rec))"

definition multipleDistinctStatuses :: "tx_record list \<Rightarrow> bool" where
  "multipleDistinctStatuses evs \<longleftrightarrow>
     (case evs of [] \<Rightarrow> False | rec # recs \<Rightarrow> (\<exists>r \<in> set recs. rec_Status r \<noteq> rec_Status rec))"

record batch_plan =
  bp_seen :: "tx_record list"
  bp_mined :: "tx_record list"
  bp_rejected :: "tx_record list"
  bp_arcadeOnly :: "tx_record list"
  bp_fallback :: "string list"

definition empty_plan :: batch_plan where
  "empty_plan = \<lparr>bp_seen = [], bp_mined = [], bp_rejected = [], bp_arcadeOnly = [], bp_fallback = []\<rparr>"

definition classifyOne :: "known_tx \<Rightarrow> tx_record list \<Rightarrow> batch_plan \<Rightarrow> batch_plan" where
  "classifyOne kt evs plan =
     (let rec = last evs; st = rec_Status rec;
          prev = (case kt_ArcadeStatus kt of Some a \<Rightarrow> a | None \<Rightarrow> no_status) in
      if minedRepairBatchRoute (kt_Status kt) evs then plan\<lparr>bp_fallback := bp_fallback plan @ [rec_TxID rec]\<rparr>
      else if kt_Status kt = ProvenTxStatusCompleted \<or> IsTerminalFailure (kt_Status kt) then plan
      else if multipleDistinctStatuses evs then plan\<lparr>bp_fallback := bp_fallback plan @ [rec_TxID rec]\<rparr>
      else if \<not> CanSupersede st prev then plan
      else if st \<in> {StatusSeenOnNetwork, StatusSeenMultipleNodes, StatusAcceptedByNetwork} then
        (if isSeenFenced (kt_Status kt) then plan\<lparr>bp_arcadeOnly := bp_arcadeOnly plan @ [rec]\<rparr>
         else plan\<lparr>bp_seen := bp_seen plan @ [rec]\<rparr>)
      else if st \<in> {StatusMined, StatusImmutable} then plan\<lparr>bp_mined := bp_mined plan @ [rec]\<rparr>
      else if st \<in> {StatusRejected, StatusDoubleSpendAttempted} then plan\<lparr>bp_rejected := bp_rejected plan @ [rec]\<rparr>
      else plan\<lparr>bp_arcadeOnly := bp_arcadeOnly plan @ [rec]\<rparr>)"

fun classifyLoopB :: "(string \<Rightarrow> known_tx option) \<Rightarrow> tx_record list \<Rightarrow> string list \<Rightarrow> batch_plan \<Rightarrow> batch_plan" where
  "classifyLoopB known' recs [] plan = plan"
| "classifyLoopB known' recs (t # ts) plan =
     (case known' t of
        None \<Rightarrow> classifyLoopB known' recs ts plan
      | Some kt \<Rightarrow> classifyLoopB known' recs ts (classifyOne kt (perTxid recs t) plan))"

definition verifyMinedBatch :: "sdk \<Rightarrow> chain \<Rightarrow> tx_record list \<Rightarrow> mined_proof list" where
  "verifyMinedBatch lib ch recs = List.map_filter (verifyMinedOne lib ch) recs"

text \<open>The inputs of a verified transaction, from its local raw bytes.\<close>

definition resolveSpent :: "sdk \<Rightarrow> (string \<Rightarrow> known_tx option) \<Rightarrow> mined_proof \<Rightarrow> mined_proof" where
  "resolveSpent lib known' pr =
     (case known' (rec_TxID (pf_rec pr)) of
        None \<Rightarrow> pr
      | Some kt \<Rightarrow>
          if kt_RawTx kt = [] then pr
          else case TxInputs lib (kt_RawTx kt) of None \<Rightarrow> pr | Some ins \<Rightarrow> pr\<lparr>pf_spentOps := sourceOps ins\<rparr>)"

text \<open>One bulk write per status; the statuses come in the order of their first record.\<close>

fun statusGroups :: "tx_record list \<Rightarrow> arc_status list \<Rightarrow> arc_status list" where
  "statusGroups [] seen = seen"
| "statusGroups (rec # recs) seen =
     (if rec_Status rec \<in> set seen then statusGroups recs seen else statusGroups recs (seen @ [rec_Status rec]))"

fun setStatusLoop :: "tx_record list \<Rightarrow> arc_status list \<Rightarrow> unit step" where
  "setStatusLoop recs [] p = (p, Inr ())"
| "setStatusLoop recs (st # sts) p =
     andThen (on_known (\<lambda>now rows. BulkSetArcadeStatus now rows (map rec_TxID (filter (\<lambda>rec. rec_Status rec = st) recs)) st))
       (\<lambda>_. setStatusLoop recs sts) p"

definition setArcadeStatusBatch :: "tx_record list \<Rightarrow> unit step" where
  "setArcadeStatusBatch recs = setStatusLoop recs (statusGroups recs [])"

definition promoteChangeByTxIDs :: "sdk \<Rightarrow> string list \<Rightarrow> tier \<Rightarrow> unit step" where
  "promoteChangeByTxIDs lib txids t p =
     (case changeOutpointsByTxIDs lib (p_db p) txids of Inl e \<Rightarrow> (p, Inl e) | Inr ops \<Rightarrow> promote ops t p)"

definition applySeenBatch :: "sdk \<Rightarrow> tx_record list \<Rightarrow> unit step" where
  "applySeenBatch lib recs =
     (if recs = [] then ret ()
      else let txids = map rec_TxID recs in
        andThen (on_txs (\<lambda>now rows. BulkUpdateStatusByTxIDs now rows txids TxStatusUnproven
                 [TxStatusSending, TxStatusNoSend, TxStatusUnproven, TxStatusUnprocessed]))
        (\<lambda>_. andThen (on_known (\<lambda>now rows. BulkUpdateStatus now rows txids ProvenTxStatusUnconfirmed seenAdvanceSkipStatuses))
        (\<lambda>_. andThen (promoteChangeByTxIDs lib txids TierUnproven)
        (\<lambda>_. setArcadeStatusBatch recs))))"

text \<open>\<open>sort.Slice\<close> by \<open>LessTxID\<close>.\<close>

fun insertProof :: "mined_proof \<Rightarrow> mined_proof list \<Rightarrow> mined_proof list" where
  "insertProof pr [] = [pr]"
| "insertProof pr (q # qs) =
     (if LessTxID (rec_TxID (pf_rec q)) (rec_TxID (pf_rec pr)) then q # insertProof pr qs else pr # q # qs)"

definition sortProofs :: "mined_proof list \<Rightarrow> mined_proof list" where
  "sortProofs prs = foldr insertProof prs []"

fun setProofLoop :: "mined_proof list \<Rightarrow> unit step" where
  "setProofLoop [] p = (p, Inr ())"
| "setProofLoop (pr # prs) p =
     andThen (setProof (rec_TxID (pf_rec pr)) (pf_height pr) (pf_blockHash pr) (pf_mpBytes pr) (pf_root pr))
       (\<lambda>_. setProofLoop prs) p"

fun scanLoop :: "mined_proof list \<Rightarrow> unit step" where
  "scanLoop [] p = (p, Inr ())"
| "scanLoop (pr # prs) p = andThen (removeSpentBy (pf_txidHash pr)) (\<lambda>_. scanLoop prs) p"

definition applyMinedBatch :: "sdk \<Rightarrow> mined_proof list \<Rightarrow> unit step" where
  "applyMinedBatch lib proofs =
     (if proofs = [] then ret ()
      else let prs = sortProofs proofs; recs = map pf_rec prs; txids = map rec_TxID recs;
               allSpent = concat (map pf_spentOps prs); scans = filter (\<lambda>pr. pf_spentOps pr = []) prs in
        andThen (setProofLoop prs)
        (\<lambda>_. andThen (setArcadeStatusBatch recs)
        (\<lambda>_. andThen (on_txs (\<lambda>now rows. BulkUpdateStatusByTxIDs now rows txids TxStatusCompleted
                 [TxStatusSending, TxStatusNoSend, TxStatusUnproven, TxStatusUnprocessed, TxStatusCompleted]))
        (\<lambda>_. andThen (on_txs (\<lambda>now rows. BulkClearInputBEEFByTxIDs now rows txids))
        (\<lambda>_. andThen (promoteChangeByTxIDs lib txids TierMined)
        (\<lambda>_. andThen (doRemovePhantom allSpent)
        (\<lambda>_. scanLoop scans)))))))"

fun applyRejectedBatch :: "tx_record list \<Rightarrow> unit step" where
  "applyRejectedBatch [] p = (p, Inr ())"
| "applyRejectedBatch (rec # recs) p = andThen (markSuspect rec) (\<lambda>_. applyRejectedBatch recs) p"

fun applyAll :: "sdk \<Rightarrow> chain \<Rightarrow> tx_record list \<Rightarrow> unit step" where
  "applyAll lib ch [] p = (p, Inr ())"
| "applyAll lib ch (rec # recs) p = andThen (ApplyStatusUpdate lib ch rec) (\<lambda>_. applyAll lib ch recs) p"

definition batchWrites :: "sdk \<Rightarrow> batch_plan \<Rightarrow> mined_proof list \<Rightarrow> unit step" where
  "batchWrites lib plan verified =
     (if bp_seen plan = [] \<and> verified = [] \<and> bp_rejected plan = [] \<and> bp_arcadeOnly plan = [] then ret ()
      else DoUnit (andThen (applySeenBatch lib (bp_seen plan))
        (\<lambda>_. andThen (applyMinedBatch lib verified)
        (\<lambda>_. andThen (applyRejectedBatch (bp_rejected plan))
        (\<lambda>_. setArcadeStatusBatch (bp_arcadeOnly plan))))))"

definition ApplyStatusBatch :: "sdk \<Rightarrow> chain \<Rightarrow> tx_record list \<Rightarrow> unit step" where
  "ApplyStatusBatch lib ch recs p =
     (let order = batchOrder recs [] in
      if order = [] then (p, Inr ())
      else case FindByTxIDs (db_known (p_db p)) order of
        Inl e \<Rightarrow> (p, Inl (MetaErr e))
      | Inr loaded \<Rightarrow>
          (let known' = knownMap loaded;
               plan = classifyLoopB known' recs order empty_plan;
               verified = map (resolveSpent lib known') (verifyMinedBatch lib ch (bp_mined plan)) in
           andThen (batchWrites lib plan verified)
             (\<lambda>_. applyAll lib ch (concat (map (perTxid recs) (bp_fallback plan)))) p))"

end
