(* ===== verification/Process.thy ===== *)
theory Process
  imports Status_Updates Fees
begin

text \<open>
  Processing a signed transaction: \<open>src/pkg/storage/process.go\<close>.  Storing the signed bytes under a pinned
  reservation, queueing or broadcasting them, and committing arcade's answer.

  The transaction codec, script verification and arcade are parameters, collected in \<open>net\<close>: what a raw
  transaction parses to; whether an input BEEF parses, and the value it gives for an outpoint; whether the scripts
  verify against it; the extended format; and arcade's answer to the n-th broadcast.  A broadcast is recorded in
  \<open>p_posts\<close> whatever the answer.  The wait of a backpressure answer, logging and the cancellation of a call are
  omitted.
\<close>

section \<open>Transactions, arcade and configuration\<close>

record signed_tx =
  tx_id :: string
  tx_inputs :: "outpoint option list"
  tx_outputs :: "(u64 \<times> bytes option) list"
  tx_bytes :: bytes

record broadcast_result =
  br_Status :: arc_status
  br_Rejected :: bool
  br_ExtraInfo :: string

datatype broadcast_answer = BroadcastDone broadcast_result | Backpressure | BroadcastError

record net =
  NewTransactionFromBytes :: "bytes \<Rightarrow> signed_tx option"
  BeefParses :: "bytes \<Rightarrow> bool"
  SourceSatoshis :: "bytes \<Rightarrow> outpoint \<Rightarrow> u64 option"
  VerifyScripts :: "bytes \<Rightarrow> signed_tx \<Rightarrow> bool"
  EF :: "bytes \<Rightarrow> signed_tx \<Rightarrow> bytes option"
  Broadcast :: "nat \<Rightarrow> string \<Rightarrow> bytes \<Rightarrow> broadcast_answer"

record send_policy =
  minBroadcastFeeRate :: int
  immediateBroadcast :: bool

record process_args =
  pa_IsNewTx :: bool
  pa_IsSendWith :: bool
  pa_IsNoSend :: bool
  pa_IsDelayed :: bool
  pa_Reference :: "string option"
  pa_TxID :: "string option"
  pa_RawTx :: bytes
  pa_SendWith :: "string list"

section \<open>Small helpers\<close>

fun addUnseen :: "string list \<Rightarrow> string list \<Rightarrow> string list" where
  "addUnseen out [] = out"
| "addUnseen out (s # ss) = addUnseen (if s = '''' \<or> s \<in> set out then out else out @ [s]) ss"

definition broadcastTxIDs :: "process_args \<Rightarrow> string list" where
  "broadcastTxIDs args = addUnseen [] ((case pa_TxID args of None \<Rightarrow> [] | Some t \<Rightarrow> [t]) @ pa_SendWith args)"

definition newTxStatuses :: "process_args \<Rightarrow> tx_status \<times> req_status" where
  "newTxStatuses args =
     (if pa_IsNoSend args then (TxStatusNoSend, ProvenTxStatusNoSend)
      else if pa_IsDelayed args then (TxStatusUnprocessed, ProvenTxStatusUnsent)
      else (TxStatusSending, ProvenTxStatusUnprocessed))"

text \<open>The BEEF that stands behind the inputs from here on; an empty one attaches nothing.\<close>

definition hydrateInputs :: "net \<Rightarrow> bytes \<Rightarrow> perr + unit" where
  "hydrateInputs nt beef = (if beef = [] then Inr () else if BeefParses nt beef then Inr () else Inl (BadRequest ''input beef''))"

definition sourceTxOutput :: "net \<Rightarrow> bytes \<Rightarrow> outpoint option \<Rightarrow> u64 option" where
  "sourceTxOutput nt beef i = (if beef = [] then None else case i of None \<Rightarrow> None | Some op \<Rightarrow> SourceSatoshis nt beef op)"

definition outputs_of_tx :: "nat \<Rightarrow> find_outputs_args" where
  "outputs_of_tx transactionID =
     \<lparr>fo_UserID = None, fo_OutputID = None, fo_TransactionID = Some transactionID, fo_Satoshis = None,
      fo_Vout = None, fo_Change = None, fo_TxID = None, fo_TxStatus = []\<rparr>"

fun signedOutputsMatch :: "output_row list \<Rightarrow> signed_tx \<Rightarrow> perr + unit" where
  "signedOutputsMatch [] tx = Inr ()"
| "signedOutputsMatch (r # rs) tx =
     (if o_ProvidedBy r \<noteq> ''you'' \<or> o_LockingScript r = [] then signedOutputsMatch rs tx
      else if unat (o_Vout r) \<ge> length (tx_outputs tx) then Inl (BadRequest ''missing output'')
      else if snd (tx_outputs tx ! unat (o_Vout r)) \<noteq> Some (o_LockingScript r) then Inl (BadRequest ''locking script mismatch'')
      else signedOutputsMatch rs tx)"

definition validateSignedOutputs :: "metadb \<Rightarrow> nat \<Rightarrow> signed_tx \<Rightarrow> perr + unit" where
  "validateSignedOutputs db transactionID tx =
     (case FindOutputs (db_txs db) (db_outputs db) (outputs_of_tx transactionID) of
        Inl e \<Rightarrow> Inl (MetaErr e)
      | Inr rows \<Rightarrow> signedOutputsMatch rows tx)"

text \<open>The sums are 64-bit and wrap; an input without a source output leaves the fee unknown, which is no error.\<close>

fun sumInputs :: "u64 option list \<Rightarrow> u64 \<Rightarrow> u64 option" where
  "sumInputs [] acc = Some acc"
| "sumInputs (None # ss) acc = None"
| "sumInputs (Some v # ss) acc = sumInputs ss (acc + v)"

definition checkBroadcastFeeRate :: "net \<Rightarrow> send_policy \<Rightarrow> bytes \<Rightarrow> signed_tx \<Rightarrow> perr + unit" where
  "checkBroadcastFeeRate nt pol beef tx =
     (if minBroadcastFeeRate pol \<le> 0 then Inr ()
      else case sumInputs (map (sourceTxOutput nt beef) (tx_inputs tx)) 0 of
        None \<Rightarrow> Inr ()
      | Some inSats \<Rightarrow>
          (let outSats = sum_list (map fst (tx_outputs tx)) in
           if outSats > inSats then Inl ErrFeeBelowFloor
           else if unat (inSats - outSats) \<ge> MinRequiredFee (length (tx_bytes tx)) (minBroadcastFeeRate pol) then Inr ()
           else Inl ErrFeeBelowFloor))"

section \<open>Storing the signed transaction\<close>

definition changeMints :: "hash \<Rightarrow> int \<Rightarrow> output_row list \<Rightarrow> mint list" where
  "changeMints h userID rows = List.map_filter (\<lambda>r. map_option (\<lambda>b.
       \<lparr>m_Outpoint = Outpoint h (o_Vout r), m_UserID = userID, m_Basket = b, m_Satoshis = word_of_int (o_Satoshis r),
        m_InputSize = DefaultP2PKHInputSize, m_Tier = TierSending\<rparr>) (o_Basket r)) rows"

definition mintChange :: "sdk \<Rightarrow> int \<Rightarrow> nat \<Rightarrow> string \<Rightarrow> unit step" where
  "mintChange lib userID transactionID txid p =
     (case FindOutputs (db_txs (p_db p)) (db_outputs (p_db p))
             ((outputs_of_tx transactionID)\<lparr>fo_UserID := Some userID, fo_Change := Some True\<rparr>) of
        Inl e \<Rightarrow> (p, Inl (MetaErr e))
      | Inr rows \<Rightarrow>
          if rows = [] then (p, Inr ())
          else case NewHashFromHex lib txid of
            None \<Rightarrow> (p, Inl (BadHash txid))
          | Some h \<Rightarrow>
              (let mints = changeMints h userID rows in
               if mints = [] then (p, Inr ())
               else andThen (batch_call (\<lambda>s. Mint s mints))
                      (\<lambda>(errs, merr). case merr of
                          Some e \<Rightarrow> fail (StoreErr e)
                        | None \<Rightarrow> (case List.map_filter (\<lambda>x. x) errs of [] \<Rightarrow> ret () | x # _ \<Rightarrow> fail (ItemErr x))) p))"

text \<open>The row of a freshly signed transaction; the input BEEF stays on the transaction row.\<close>

definition newKnownTx :: "string \<Rightarrow> req_status \<Rightarrow> bytes \<Rightarrow> known_tx" where
  "newKnownTx txid st rawTx =
     \<lparr>kt_Status = st, kt_ArcadeStatus = None, kt_Attempts = 0, kt_RebroadcastAttempts = 0, kt_WasBroadcast = False,
      kt_Notified = False, kt_Batch = None, kt_Notify = '''', kt_RawTx = rawTx, kt_InputBEEF = [], kt_BlockHeight = None,
      kt_BlockHash = [], kt_MerklePath = [], kt_MerkleRoot = [], kt_CompetingTxs = [], kt_SuspectSince = None,
      kt_VerifiedRejectedAt = None, kt_RejectReason = None, kt_CreatedAt = 0, kt_UpdatedAt = 0, kt_TxID = txid\<rparr>"

text \<open>The unit of work of \<open>processNewTx\<close>: the pin comes before anything that makes the bytes broadcastable.\<close>

definition bindTxID :: "nat \<Rightarrow> string \<Rightarrow> unit step" where
  "bindTxID transactionID txid p =
     (case on_txs (\<lambda>now rows. SetTxID now rows transactionID txid) p of
        (p', Inl e) \<Rightarrow> (p', Inl (if e = MetaErr ErrTxIDMismatch then ErrDivergentReDrive else e))
      | (p', Inr u) \<Rightarrow> (p', Inr u))"

definition storeSigned ::
    "sdk \<Rightarrow> int \<Rightarrow> string \<Rightarrow> table_transaction \<Rightarrow> string \<Rightarrow> tx_status \<times> req_status \<Rightarrow> bytes \<Rightarrow> unit step" where
  "storeSigned lib userID reference t txid sts rawTx =
     DoUnit (andThen (utxo_call (\<lambda>s. Pin s userID reference))
       (\<lambda>_. andThen (bindTxID (t_TransactionID t) txid)
       (\<lambda>_. andThen (on_txs (\<lambda>now rows. Tx_UpdateStatus now rows (t_TransactionID t) (fst sts) [TxStatusUnsigned, TxStatusUnprocessed]))
       (\<lambda>_. andThen (on_known (\<lambda>now rows. Upsert now rows (newKnownTx txid (snd sts) rawTx) KnownTxNeverRequeueStatuses))
       (\<lambda>_. mintChange lib userID (t_TransactionID t) txid)))))"

definition checkSigned :: "net \<Rightarrow> send_policy \<Rightarrow> metadb \<Rightarrow> table_transaction \<Rightarrow> signed_tx \<Rightarrow> perr + unit" where
  "checkSigned nt pol db t tx =
     (case hydrateInputs nt (t_InputBEEF t) of
        Inl e \<Rightarrow> Inl e
      | Inr _ \<Rightarrow>
          if \<not> VerifyScripts nt (t_InputBEEF t) tx then Inl ScriptsFailed
          else case validateSignedOutputs db (t_TransactionID t) tx of
            Inl e \<Rightarrow> Inl e
          | Inr _ \<Rightarrow> checkBroadcastFeeRate nt pol (t_InputBEEF t) tx)"

definition processNewTx :: "sdk \<Rightarrow> net \<Rightarrow> send_policy \<Rightarrow> int \<Rightarrow> process_args \<Rightarrow> unit step" where
  "processNewTx lib nt pol userID args p =
     (case (pa_Reference args, pa_TxID args, NewTransactionFromBytes nt (pa_RawTx args)) of
        (None, _, _) \<Rightarrow> (p, Inl (BadRequest ''reference''))
      | (Some _, None, _) \<Rightarrow> (p, Inl (BadRequest ''txid''))
      | (Some _, Some _, None) \<Rightarrow> (p, Inl BadRawTx)
      | (Some reference, Some given, Some tx) \<Rightarrow>
          if tx_id tx \<noteq> given then (p, Inl (BadRequest ''txid mismatch''))
          else case FindByReference (db_txs (p_db p)) userID reference of
            None \<Rightarrow> (p, Inl (NoTransactionRow reference))
          | Some t \<Rightarrow>
              if \<not> t_IsOutgoing t then (p, Inl (BadRequest ''not outgoing''))
              else if t_Status t \<notin> {TxStatusUnsigned, TxStatusUnprocessed} then (p, Inl (BadRequest ''not signable''))
              else if t_TxID t \<noteq> None \<and> t_TxID t \<noteq> Some (tx_id tx) then (p, Inl ErrDivergentReDrive)
              else (case checkSigned nt pol (p_db p) t tx of
                 Inl e \<Rightarrow> (p, Inl e)
               | Inr _ \<Rightarrow> storeSigned lib userID reference t (tx_id tx) (newTxStatuses args) (tx_bytes tx) p))"

section \<open>The broadcast gate\<close>

definition resendGrace :: time where
  "resendGrace = 20 * 1000000000"

definition statusBehindRefusal :: "string \<Rightarrow> req_status step" where
  "statusBehindRefusal txid p =
     (case FindByTxID (db_known (p_db p)) txid of
        Inl e \<Rightarrow> (p, Inl (MetaErr e))
      | Inr None \<Rightarrow> (p, Inl (RowVanished txid))
      | Inr (Some kt) \<Rightarrow> (p, Inr (kt_Status kt)))"

definition queueDelayed :: "string \<Rightarrow> unit step" where
  "queueDelayed txid p =
     (case on_known (\<lambda>now rows. KnownTx_UpdateStatus now rows txid ProvenTxStatusUnsent KnownTxNeverRequeueStatuses) p of
        (p', Inr _) \<Rightarrow> (p', Inr ())
      | (p', Inl e) \<Rightarrow>
          if e = MetaErr ErrNotFound then (p', Inr ())
          else if e \<noteq> MetaErr ErrStatusUpdateSkipped then (p', Inl e)
          else andThen (statusBehindRefusal txid)
                 (\<lambda>st. if WasBroadcastStatus st \<or> st = ProvenTxStatusSending then ret () else fail (NotBroadcastable txid st)) p')"

datatype sendClaim = sendClaimOwned | sendClaimInFlight | sendClaimAlreadySent

definition takeSend :: "string \<Rightarrow> bool \<Rightarrow> unit step" where
  "takeSend txid recovering =
     (if recovering then on_known (\<lambda>now rows. ReclaimStaleSend now rows txid resendGrace)
      else on_known (\<lambda>now rows. ClaimForSend now rows txid))"

definition claimForBroadcast :: "string \<Rightarrow> req_status \<Rightarrow> sendClaim step" where
  "claimForBroadcast txid knownSt p =
     (let recovering = knownSt = ProvenTxStatusSending in
      case takeSend txid recovering p of
        (p1, Inr _) \<Rightarrow> (p1, Inr sendClaimOwned)
      | (p1, Inl e) \<Rightarrow>
          if e = MetaErr ErrNotFound then (p1, Inl (RowVanished txid))
          else if e \<noteq> MetaErr ErrStatusUpdateSkipped then (p1, Inl e)
          else andThen (statusBehindRefusal txid)
            (\<lambda>st. if WasBroadcastStatus st then ret sendClaimAlreadySent
                  else if st \<noteq> ProvenTxStatusSending then fail (NotBroadcastable txid st)
                  else if recovering then ret sendClaimInFlight
                  else (\<lambda>p2. case takeSend txid True p2 of
                     (p3, Inr _) \<Rightarrow> (p3, Inr sendClaimOwned)
                   | (p3, Inl e) \<Rightarrow>
                       if e = MetaErr ErrStatusUpdateSkipped then (p3, Inr sendClaimInFlight)
                       else if e = MetaErr ErrNotFound then (p3, Inl (RowVanished txid))
                       else (p3, Inl e))) p1)"

text \<open>A call of arcade; one retry on backpressure.\<close>

definition postTx :: "net \<Rightarrow> string \<Rightarrow> bytes \<Rightarrow> broadcast_answer step" where
  "postTx nt txid ef p = (p\<lparr>p_posts := p_posts p @ [txid]\<rparr>, Inr (Broadcast nt (length (p_posts p)) txid ef))"

definition broadcastWithBackpressure :: "net \<Rightarrow> string \<Rightarrow> bytes \<Rightarrow> broadcast_answer step" where
  "broadcastWithBackpressure nt txid ef =
     andThen (postTx nt txid ef) (\<lambda>a. case a of Backpressure \<Rightarrow> postTx nt txid ef | _ \<Rightarrow> ret a)"

section \<open>Committing arcade's answer\<close>

definition inputBEEFFor :: "metadb \<Rightarrow> string \<Rightarrow> bytes \<Rightarrow> perr + bytes" where
  "inputBEEFFor db txid own =
     (if own \<noteq> [] then Inr own
      else case GetInputBEEFByTxID (db_txs db) txid of
        Inl e \<Rightarrow> Inl (MetaErr e)
      | Inr None \<Rightarrow> Inr []
      | Inr (Some blob) \<Rightarrow> Inr blob)"

text \<open>
  The verdicts of the spend of an accepted broadcast: only a missing coin, reported by the batch error, is passed
  over; a competing recorded spend is fatal.  (No item error of the reference store is a contention.)
\<close>

fun external :: "item_error \<Rightarrow> bool" where
  "external (NotFoundError op) = True"
| "external e = False"

definition acceptedVerdict :: "item_error option list \<Rightarrow> store_error option \<Rightarrow> perr option" where
  "acceptedVerdict errs serr =
     (case serr of
        None \<Rightarrow> None
      | Some e \<Rightarrow>
          (let failed = List.map_filter (\<lambda>x. x) errs in
           case find (\<lambda>x. \<not> external x) failed of
             Some x \<Rightarrow> Some (ItemErr x)
           | None \<Rightarrow> if is_batch e \<and> failed \<noteq> [] then None else Some (StoreErr e)))"

definition spendReservedInputs :: "sdk \<Rightarrow> signed_tx \<Rightarrow> string \<Rightarrow> string \<Rightarrow> unit step" where
  "spendReservedInputs lib tx txid reference =
     (if reference = '''' then fail (BadRequest ''no reference'')
      else case NewHashFromHex lib txid of
        None \<Rightarrow> fail (BadHash txid)
      | Some h \<Rightarrow>
          (let ops = map (\<lambda>op. \<lparr>sp_Outpoint = op, sp_Reservation = reference, sp_SpendingTxID = h\<rparr>) (sourceOps (tx_inputs tx)) in
           if ops = [] then ret ()
           else andThen (batch_call (\<lambda>s. Spend s ops True))
                  (\<lambda>(errs, serr). case acceptedVerdict errs serr of None \<Rightarrow> ret () | Some e \<Rightarrow> fail e)))"

definition commitSpends :: "sdk \<Rightarrow> string \<Rightarrow> signed_tx \<Rightarrow> table_transaction \<Rightarrow> unit step" where
  "commitSpends lib txid tx t =
     DoUnit (andThen (spendReservedInputs lib tx txid (t_Reference t))
       (\<lambda>_. andThen (tolerate [ErrStatusUpdateSkipped] (on_txs (\<lambda>now rows. UpdateStatusByTxID now rows txid TxStatusUnproven
              [TxStatusSending, TxStatusNoSend, TxStatusUnproven, TxStatusUnprocessed])))
       (\<lambda>_. andThen (tolerate [ErrStatusUpdateSkipped, ErrNotFound] (on_known (\<lambda>now rows.
              KnownTx_UpdateStatus now rows txid ProvenTxStatusUnconfirmed ProvenTxReqBeyondBroadcastStageStatuses)))
       (\<lambda>_. markInputsSpent lib (t_UserID t) (t_TransactionID t) (tx_inputs tx)))))"

text \<open>Of the rows of a transaction id, the spender's: the outgoing one, or else the newest.\<close>

definition acceptedRow :: "table_transaction \<Rightarrow> table_transaction list \<Rightarrow> table_transaction" where
  "acceptedRow t ts = (case find t_IsOutgoing (t # ts) of Some r \<Rightarrow> r | None \<Rightarrow> t)"

definition applyAcceptedBroadcast :: "sdk \<Rightarrow> string \<Rightarrow> signed_tx \<Rightarrow> unit step" where
  "applyAcceptedBroadcast lib txid tx p =
     (case FindByTxIDAllUsers (db_txs (p_db p)) txid of
        Inl e \<Rightarrow> (p, Inl (MetaErr e))
      | Inr [] \<Rightarrow> (p, Inl (NoTransactionRow txid))
      | Inr (t # ts) \<Rightarrow> commitSpends lib txid tx (acceptedRow t ts) p)"

definition firstTxByTxID :: "metadb \<Rightarrow> int \<Rightarrow> string \<Rightarrow> perr + table_transaction option" where
  "firstTxByTxID db userID txid =
     (case Tx_FindByTxID (db_txs db) userID txid of
        Inl e \<Rightarrow> Inl (MetaErr e)
      | Inr [] \<Rightarrow> Inr None
      | Inr (t # _) \<Rightarrow> Inr (Some t))"

datatype review_status =
    ReviewActionResultStatusSuccess | ReviewActionResultStatusDoubleSpend
  | ReviewActionResultStatusServiceError | ReviewActionResultStatusInvalidTx

type_synonym sent = "(string \<times> send_with_status) \<times> (string \<times> review_status) option"

text \<open>The time of the rejection is read before the write's own; the inputs stay reserved.\<close>

definition dropRejectedChange :: "sdk \<Rightarrow> int \<Rightarrow> table_transaction option \<Rightarrow> string \<Rightarrow> unit step" where
  "dropRejectedChange lib userID row txid p =
     (case row of
        None \<Rightarrow> (p, Inr ())
      | Some t \<Rightarrow>
          (case changeOutpoints lib (p_db p) userID (t_TransactionID t) txid of
             Inl e \<Rightarrow> (p, Inl e)
           | Inr [] \<Rightarrow> (p, Inr ())
           | Inr ops \<Rightarrow>
               (case NewHashFromHex lib txid of
                  None \<Rightarrow> (p, Inl (BadHash txid))
                | Some h \<Rightarrow> andThen (utxo_call (\<lambda>s. report_err (RemoveByMintTx s h ops))) (\<lambda>_. ret ()) p)))"

definition commitRejected :: "sdk \<Rightarrow> int \<Rightarrow> string \<Rightarrow> broadcast_result \<Rightarrow> sent step" where
  "commitRejected lib userID txid res p =
     (case firstTxByTxID (p_db p) userID txid of
        Inl e \<Rightarrow> (p, Inl e)
      | Inr row \<Rightarrow>
          andThen (DoUnit (andThen (tolerate [ErrStatusUpdateSkipped] (on_txs (\<lambda>now rows. UpdateStatusByTxID now rows txid TxStatusFailed
                     [TxStatusSending, TxStatusNoSend, TxStatusUnproven])))
              (\<lambda>_. andThen (\<lambda>q. tolerate [ErrNotFound] (on_known (\<lambda>now rows. MarkSuspectFailed now rows txid (now_p q) (br_ExtraInfo res))) (tick_p q))
              (\<lambda>_. dropRejectedChange lib userID row txid))))
            (\<lambda>_. ret ((txid, SendWithResultStatusFailed),
               Some (txid, if br_ExtraInfo res \<noteq> '''' \<and> br_Status res = StatusDoubleSpendAttempted
                           then ReviewActionResultStatusDoubleSpend else ReviewActionResultStatusInvalidTx))) p)"

definition commitAccepted :: "sdk \<Rightarrow> string \<Rightarrow> signed_tx \<Rightarrow> sent step" where
  "commitAccepted lib txid tx =
     andThen (applyAcceptedBroadcast lib txid tx)
       (\<lambda>_. ret ((txid, SendWithResultStatusUnproven), Some (txid, ReviewActionResultStatusSuccess)))"

section \<open>Broadcasting\<close>

text \<open>The local work before the gate: the parsed transaction and its extended format.\<close>

definition prepareSend :: "net \<Rightarrow> string \<Rightarrow> bytes \<Rightarrow> perr + bytes \<Rightarrow> perr + signed_tx \<times> bytes" where
  "prepareSend nt txid rawTx beef =
     (if rawTx = [] then Inl (NoRawTx txid)
      else case NewTransactionFromBytes nt rawTx of
        None \<Rightarrow> Inl BadRawTx
      | Some tx \<Rightarrow>
          (case beef of
             Inl e \<Rightarrow> Inl e
           | Inr stored \<Rightarrow>
               (case hydrateInputs nt stored of
                  Inl e \<Rightarrow> Inl e
                | Inr _ \<Rightarrow>
                    if \<not> VerifyScripts nt stored tx then Inl ScriptsFailed
                    else (case EF nt stored tx of None \<Rightarrow> Inl BadRawTx | Some ef \<Rightarrow> Inr (tx, ef)))))"

definition commitAnswer :: "sdk \<Rightarrow> int \<Rightarrow> string \<Rightarrow> signed_tx \<Rightarrow> broadcast_answer \<Rightarrow> sent step" where
  "commitAnswer lib userID txid tx a =
     (case a of
        BroadcastDone res \<Rightarrow> if br_Rejected res then commitRejected lib userID txid res else commitAccepted lib txid tx
      | _ \<Rightarrow> ret ((txid, SendWithResultStatusSending), Some (txid, ReviewActionResultStatusServiceError)))"

definition broadcastOne :: "sdk \<Rightarrow> net \<Rightarrow> int \<Rightarrow> string \<Rightarrow> sent step" where
  "broadcastOne lib nt userID txid p =
     (case FindByTxID (db_known (p_db p)) txid of
        Inl e \<Rightarrow> (p, Inl (MetaErr e))
      | Inr None \<Rightarrow> (p, Inl (NoRawTx txid))
      | Inr (Some kt) \<Rightarrow>
          (case prepareSend nt txid (kt_RawTx kt) (inputBEEFFor (p_db p) txid (kt_InputBEEF kt)) of
             Inl e \<Rightarrow> (p, Inl e)
           | Inr (tx, ef) \<Rightarrow>
               andThen (claimForBroadcast txid (kt_Status kt))
                 (\<lambda>claim. case claim of
                    sendClaimAlreadySent \<Rightarrow> ret ((txid, SendWithResultStatusUnproven), Some (txid, ReviewActionResultStatusSuccess))
                  | sendClaimInFlight \<Rightarrow> ret ((txid, SendWithResultStatusSending), Some (txid, ReviewActionResultStatusServiceError))
                  | sendClaimOwned \<Rightarrow> andThen (broadcastWithBackpressure nt txid ef) (commitAnswer lib userID txid tx)) p))"

record process_result =
  SendWithResults :: "(string \<times> send_with_status) list"
  NotDelayedResults :: "(string \<times> review_status) list"

definition no_results :: process_result where
  "no_results = \<lparr>SendWithResults = [], NotDelayedResults = []\<rparr>"

fun queueLoop :: "string list \<Rightarrow> process_result \<Rightarrow> process_result step" where
  "queueLoop [] res = ret res"
| "queueLoop (t # ts) res =
     andThen (queueDelayed t)
       (\<lambda>_. queueLoop ts (res\<lparr>SendWithResults := SendWithResults res @ [(t, SendWithResultStatusSending)]\<rparr>))"

fun broadcastLoop :: "sdk \<Rightarrow> net \<Rightarrow> int \<Rightarrow> string list \<Rightarrow> process_result \<Rightarrow> process_result step" where
  "broadcastLoop lib nt userID [] res = ret res"
| "broadcastLoop lib nt userID (t # ts) res =
     andThen (broadcastOne lib nt userID t)
       (\<lambda>(swr, rar). broadcastLoop lib nt userID ts
          \<lparr>SendWithResults = SendWithResults res @ [swr],
           NotDelayedResults = NotDelayedResults res @ (case rar of None \<Rightarrow> [] | Some r \<Rightarrow> [r])\<rparr>)"

definition ProcessAction :: "sdk \<Rightarrow> net \<Rightarrow> send_policy \<Rightarrow> int option \<Rightarrow> process_args \<Rightarrow> process_result step" where
  "ProcessAction lib nt pol auth args0 =
     (case auth of
        None \<Rightarrow> fail ErrAuthorization
      | Some userID \<Rightarrow>
          (let args = (if immediateBroadcast pol then args0\<lparr>pa_IsDelayed := False\<rparr> else args0) in
           andThen (if pa_IsNewTx args then processNewTx lib nt pol userID args else ret ())
             (\<lambda>_. if pa_IsNoSend args \<and> pa_SendWith args = [] then ret no_results
                  else if broadcastTxIDs args = [] then ret no_results
                  else if pa_IsDelayed args then queueLoop (broadcastTxIDs args) no_results
                  else broadcastLoop lib nt userID (broadcastTxIDs args) no_results)))"

end
