(* ===== verification/Collector.thy ===== *)
theory Collector
  imports Funder_Errors
begin

text \<open>
  The coin collector of \<open>src/pkg/storage/internal/funder/collector.go\<close>, the funding result of
  \<open>result.go\<close> and the change split of \<open>src/pkg/storage/create.go\<close> (\<open>distributeChange\<close>).  A method
  of the collector takes the record and returns it updated; a method that can fail or panic returns
  in \<open>go\<close>.  Sizes and counts are \<open>uint64\<close> (\<^typ>\<open>nat\<close> with \<^const>\<open>u64_wrap\<close>), values are
  \<open>satoshi.Value\<close> (\<^typ>\<open>int\<close>, arithmetic by the panicking helpers).
\<close>

section \<open>State\<close>

record collector =
  c_txSats :: int
  c_txSize :: nat
  c_fee :: int
  c_feeCalculator :: rat
  c_satsCovered :: int
  c_allocatedUTXOs :: "utxo list"
  c_outputCount :: nat
  c_numberOfDesiredUTXOs :: nat
  c_minimumDesiredUTXOValue :: nat
  c_maxChangeOutputsPerTx :: nat
  c_changeOutputsCount :: nat
  c_minimumChange :: nat
  c_requireChange :: bool
  c_dustFloor :: int

record result =
  res_AllocatedUTXOs :: "utxo list"
  res_ChangeOutputsCount :: nat
  res_ChangeAmount :: int
  res_Fee :: int
  res_DustFloor :: int

section \<open>Size, value and change\<close>

definition changeOutputSize :: "golib \<Rightarrow> nat" where
  "changeOutputSize L = P2PKHOutputSize L"

definition increaseSize :: "golib \<Rightarrow> collector \<Rightarrow> nat \<Rightarrow> (fund_error, collector) go" where
  "increaseSize L c sz =
     (let c' = c\<lparr>c_txSize := u64_wrap (c_txSize c + sz)\<rparr>
      in go_bind (of_sum FeeFailed (Calculate L (c_feeCalculator c') (c_txSize c'))) (\<lambda>fee. Ok (c'\<lparr>c_fee := fee\<rparr>)))"

definition increaseValue :: "collector \<Rightarrow> int \<Rightarrow> (fund_error, collector) go" where
  "increaseValue c sats =
     go_bind (of_sum ValueFailed (Add (Signed (c_satsCovered c)) (Signed sats))) (\<lambda>v. Ok (c\<lparr>c_satsCovered := v\<rparr>))"

definition satsToCover :: "collector \<Rightarrow> (fund_error, int) go" where
  "satsToCover c = MustAdd (c_txSats c) (c_fee c)"

definition change :: "collector \<Rightarrow> (fund_error, int) go" where
  "change c = go_bind (satsToCover c) (\<lambda>toCover. MustSubtract (c_satsCovered c) toCover)"

definition calculateMinimumChange :: "collector \<Rightarrow> collector" where
  "calculateMinimumChange c = c\<lparr>c_minimumChange := c_minimumDesiredUTXOValue c div 4\<rparr>"

text \<open>The loop that drops change outputs until each is worth the dust floor.\<close>

fun dropChange :: "nat \<Rightarrow> nat \<Rightarrow> nat \<Rightarrow> nat" where
  "dropChange changeVal dustFloor cnt =
     (if 1 < cnt \<and> changeVal div cnt < dustFloor then dropChange changeVal dustFloor (cnt - 1) else cnt)"

declare dropChange.simps [simp del]

definition calculateChangeCount :: "golib \<Rightarrow> collector \<Rightarrow> nat \<Rightarrow> (fund_error, collector) go" where
  "calculateChangeCount L c changeVal =
     (let count0 = u64_wrap (changeVal div c_minimumDesiredUTXOValue c + 1);
          count1 = (if changeVal mod c_minimumDesiredUTXOValue c < c_minimumChange c then count0 - 1 else count0);
          capCount = (if c_maxChangeOutputsPerTx c < c_numberOfDesiredUTXOs c
                      then c_maxChangeOutputsPerTx c else c_numberOfDesiredUTXOs c);
          count2 = lib_ValueBetween L count1 1 capCount
      in go_bind (MustUInt64 (c_dustFloor c)) (\<lambda>dustFloorU64.
           Ok (c\<lparr>c_changeOutputsCount := dropChange changeVal dustFloorU64 count2\<rparr>)))"

definition convert_u64 :: "golib \<Rightarrow> int \<Rightarrow> ('e, nat) go" where
  "convert_u64 L v = (case lib_ConvertToUInt64 L v of None \<Rightarrow> Panic | Some n \<Rightarrow> Ok n)"

definition calculateChangeOutputs :: "golib \<Rightarrow> collector \<Rightarrow> (fund_error, collector) go" where
  "calculateChangeOutputs L c =
     go_bind (change c) (\<lambda>ch.
       if ch \<le> 0 then Ok c
       else go_bind (convert_u64 L ch) (\<lambda>changeVal.
            go_bind (calculateChangeCount L c changeVal) (\<lambda>c'.
              increaseSize L c' (u64_wrap (c_changeOutputsCount c' * changeOutputSize L)))))"

section \<open>Construction\<close>

text \<open>
  \<open>satoshi.Value(math.Max(1, math.Ceil(float64(minSpendTxSize)/bytesPerKB*value)*2))\<close>.  Doubling a
  float is exact, so the result is the integer below for every rate whose dust floor fits an
  \<open>int64\<close>; Go leaves the conversion of a larger float to the implementation.
\<close>

definition dustFloor_of :: "golib \<Rightarrow> rat \<Rightarrow> int" where
  "dustFloor_of L value =
     max 1 (fee_formula (of_nat (TransactionSizeFromScriptLengths L [P2PKHUnlockingScriptLength] [P2PKHLockingScriptLength]))
              value * 2)"

definition newCollector ::
    "golib \<Rightarrow> int \<Rightarrow> nat \<Rightarrow> nat \<Rightarrow> int \<Rightarrow> nat \<Rightarrow> rat \<Rightarrow> nat \<Rightarrow> bool \<Rightarrow> (fund_error, collector) go" where
  "newCollector L txSats txSize outputCount numberOfDesiredUTXOs minimumDesiredUTXOValue feeCalculator
      maxChangeOutputsPerTx requireChange =
     (let c = \<lparr>c_txSats = txSats, c_txSize = 0, c_fee = 0, c_feeCalculator = feeCalculator, c_satsCovered = 0,
               c_allocatedUTXOs = [], c_outputCount = outputCount, c_numberOfDesiredUTXOs = 0,
               c_minimumDesiredUTXOValue = lib_NoLessThanU L minimumDesiredUTXOValue 1,
               c_maxChangeOutputsPerTx = maxChangeOutputsPerTx, c_changeOutputsCount = 0, c_minimumChange = 0,
               c_requireChange = requireChange, c_dustFloor = 0\<rparr>
      in go_bind (increaseSize L c txSize) (\<lambda>c.
         go_bind (convert_u64 L (lib_NoLessThanI L numberOfDesiredUTXOs 1)) (\<lambda>n.
           calculateChangeOutputs L (calculateMinimumChange
             (c\<lparr>c_numberOfDesiredUTXOs := n, c_dustFloor := dustFloor_of L feeCalculator\<rparr>)))))"

section \<open>Allocation\<close>

definition addToAllocated :: "collector \<Rightarrow> utxo \<Rightarrow> collector" where
  "addToAllocated c utxo = c\<lparr>c_allocatedUTXOs := c_allocatedUTXOs c @ [utxo]\<rparr>"

definition allocateUTXO :: "golib \<Rightarrow> collector \<Rightarrow> utxo \<Rightarrow> (fund_error, collector) go" where
  "allocateUTXO L c utxo =
     go_bind (increaseSize L (addToAllocated c utxo) (TransactionInputSize L (unat (u_InputSize utxo)))) (\<lambda>c1.
     go_bind (MustFrom (Unsigned (unat (u_Satoshis utxo)))) (\<lambda>sats.
     go_bind (increaseValue c1 sats) (\<lambda>c2. calculateChangeOutputs L c2)))"

section \<open>Is it enough?\<close>

definition changeMandatory :: "collector \<Rightarrow> bool" where
  "changeMandatory c \<longleftrightarrow> c_outputCount c = 0 \<or> c_requireChange c"

text \<open>The look-ahead of \<open>remaining\<close>: \<open>Some need\<close> when the branch returns, \<open>None\<close> when it falls through.\<close>

definition lookAhead :: "golib \<Rightarrow> collector \<Rightarrow> nat \<Rightarrow> (fund_error, int option) go" where
  "lookAhead L c sz =
     go_bind (must (Calculate L (c_feeCalculator c) sz)) (\<lambda>nextFee.
     go_bind (MustAdd (c_txSats c) nextFee) (\<lambda>a.
     go_bind (MustAdd a (c_dustFloor c)) (\<lambda>toCover.
       if c_satsCovered c < toCover
       then go_bind (MustSubtract toCover (c_satsCovered c)) (\<lambda>v. Ok (Some v))
       else Ok None)))"

definition remaining_sats :: "golib \<Rightarrow> collector \<Rightarrow> (fund_error, int) go" where
  "remaining_sats L c =
     go_bind
       (if changeMandatory c then
          go_bind (change c) (\<lambda>ch.
          go_bind (if 0 < c_changeOutputsCount c \<and> ch < c_dustFloor c
                   then lookAhead L c (u64_wrap (c_txSize c + P2PKHEstimatedInputSize L)) else Ok None) (\<lambda>r1.
            case r1 of Some v \<Rightarrow> Ok (Some v)
            | None \<Rightarrow>
                if c_changeOutputsCount c = 0
                then lookAhead L c (u64_wrap (c_txSize c + P2PKHEstimatedInputSize L + changeOutputSize L)) else Ok None))
        else Ok None)
       (\<lambda>r. case r of Some v \<Rightarrow> Ok v
            | None \<Rightarrow> go_bind (satsToCover c) (\<lambda>toCover. MustSubtract toCover (c_satsCovered c)))"

definition isFunded :: "collector \<Rightarrow> (fund_error, bool) go" where
  "isFunded c =
     (if changeMandatory c then
        (if 0 < c_changeOutputsCount c then go_bind (change c) (\<lambda>ch. Ok (c_dustFloor c \<le> ch)) else Ok False)
      else go_bind (satsToCover c) (\<lambda>toCover. Ok (toCover \<le> c_satsCovered c)))"

definition prepareResult :: "collector \<Rightarrow> (fund_error, result) go" where
  "prepareResult c =
     go_bind (change c) (\<lambda>changeAmount.
       Ok \<lparr>res_AllocatedUTXOs = c_allocatedUTXOs c,
           res_ChangeOutputsCount = (if changeAmount < c_dustFloor c then 0 else c_changeOutputsCount c),
           res_ChangeAmount = changeAmount, res_Fee = c_fee c, res_DustFloor = c_dustFloor c\<rparr>)"

definition collector_result :: "collector \<Rightarrow> (fund_error, result) go" where
  "collector_result c = go_bind (isFunded c) (\<lambda>ok. if ok then prepareResult c else Err NotEnoughFunds)"

definition TotalAllocated :: "result \<Rightarrow> sat_error + int" where
  "TotalAllocated fr = Sum (map (\<lambda>u. Unsigned (unat (u_Satoshis u))) (res_AllocatedUTXOs fr))"

section \<open>Splitting the change\<close>

definition distributeChange :: "int \<Rightarrow> nat \<Rightarrow> ('e, nat list) go" where
  "distributeChange tot cnt =
     (if cnt = 0 \<or> tot \<le> 0 then Ok []
      else go_bind (MustUInt64 tot) (\<lambda>t.
        let out = replicate cnt (t div cnt)
        in Ok (out[cnt - 1 := out ! (cnt - 1) + t mod cnt])))"


section \<open>What the operations do when they return\<close>

definition sats_of :: "utxo list \<Rightarrow> int" where
  "sats_of us = (\<Sum>u\<leftarrow>us. int (unat (u_Satoshis u)))"

definition input_bytes :: "golib \<Rightarrow> utxo list \<Rightarrow> nat" where
  "input_bytes L us = (\<Sum>u\<leftarrow>us. TransactionInputSize L (unat (u_InputSize u)))"

lemma sats_of_simps [simp]: "sats_of [] = 0" "sats_of (us @ vs) = sats_of us + sats_of vs"
    "sats_of [u] = int (unat (u_Satoshis u))"
  by (simp_all add: sats_of_def)

lemma input_bytes_simps [simp]: "input_bytes L [] = 0" "input_bytes L (us @ vs) = input_bytes L us + input_bytes L vs"
    "input_bytes L [u] = TransactionInputSize L (unat (u_InputSize u))"
  by (simp_all add: input_bytes_def)

lemma increaseSize_Ok:
  "increaseSize L c sz = Ok c' \<longleftrightarrow>
     (\<exists>fee. Calculate L (c_feeCalculator c) (u64_wrap (c_txSize c + sz)) = Inr fee \<and>
            c' = c\<lparr>c_txSize := u64_wrap (c_txSize c + sz), c_fee := fee\<rparr>)"
  by (auto simp: increaseSize_def go_Ok Let_def)

lemma increaseValue_Ok: "increaseValue c v = Ok c' \<Longrightarrow> c' = c\<lparr>c_satsCovered := c_satsCovered c + v\<rparr>"
  by (auto simp: increaseValue_def go_Ok Add_Inr)

lemma satsToCover_Ok: "satsToCover c = Ok v \<Longrightarrow> v = c_txSats c + c_fee c"
  by (simp add: satsToCover_def MustAdd_Ok)

lemma change_Ok: "change c = Ok v \<Longrightarrow> v = c_satsCovered c - c_txSats c - c_fee c"
  by (auto simp: change_def go_Ok MustSubtract_Ok dest!: satsToCover_Ok)

lemma dropChange_bounds:
  "1 \<le> n \<Longrightarrow> 1 \<le> dropChange v d n \<and> dropChange v d n \<le> n \<and> (dropChange v d n = 1 \<or> d \<le> v div dropChange v d n)"
  by (induction v d n rule: dropChange.induct) (subst (1 2 3 4) dropChange.simps, force)

definition cap :: "collector \<Rightarrow> nat" where
  "cap c = min (c_maxChangeOutputsPerTx c) (c_numberOfDesiredUTXOs c)"

lemma calculateChangeCount_Ok:
  assumes "golib_ok L" "1 \<le> cap c" "calculateChangeCount L c v = Ok c'"
  shows "\<exists>n. c' = c\<lparr>c_changeOutputsCount := n\<rparr> \<and> 1 \<le> n \<and> n \<le> cap c \<and> (n = 1 \<or> nat (c_dustFloor c) \<le> v div n)"
proof -
  let ?k = "lib_ValueBetween L"
  have b: "1 \<le> ?k m 1 (cap c) \<and> ?k m 1 (cap c) \<le> cap c" for m
    using assms(1,2) by (simp add: golib_ok_def)
  have "(if c_maxChangeOutputsPerTx c < c_numberOfDesiredUTXOs c
         then c_maxChangeOutputsPerTx c else c_numberOfDesiredUTXOs c) = cap c" by (simp add: cap_def)
  then obtain m d where m: "c' = c\<lparr>c_changeOutputsCount := dropChange v d (?k m 1 (cap c))\<rparr>"
      and d: "MustUInt64 (c_dustFloor c) = (Ok d :: (fund_error, nat) go)"
    using assms(3) by (auto simp: calculateChangeCount_def Let_def go_Ok)
  from d have d': "d = nat (c_dustFloor c)" by (auto simp: MustUInt64_def go_Ok UInt64_def split: if_splits)
  from dropChange_bounds [of "?k m 1 (cap c)" v d] b [of m] le_trans show ?thesis
    unfolding m d' [symmetric] by (intro exI [of _ "dropChange v d (?k m 1 (cap c))"]) (simp del: One_nat_def)
qed

section \<open>The collector's invariant\<close>

text \<open>
  \<open>same_config\<close>: the fields fixed at construction.  \<open>col_base\<close>: the value covered is the value of
  the allocated coins, and the fee is the calculator's fee of a size that counts the transaction,
  every allocated input and at least the planned change outputs.  \<open>col_inv\<close> adds that a positive
  change always has a change output planned for it.
\<close>

definition same_config :: "collector \<Rightarrow> collector \<Rightarrow> bool" where
  "same_config c c' \<longleftrightarrow> c_txSats c' = c_txSats c \<and> c_feeCalculator c' = c_feeCalculator c \<and>
     c_outputCount c' = c_outputCount c \<and> c_numberOfDesiredUTXOs c' = c_numberOfDesiredUTXOs c \<and>
     c_minimumDesiredUTXOValue c' = c_minimumDesiredUTXOValue c \<and>
     c_maxChangeOutputsPerTx c' = c_maxChangeOutputsPerTx c \<and> c_minimumChange c' = c_minimumChange c \<and>
     c_requireChange c' = c_requireChange c \<and> c_dustFloor c' = c_dustFloor c"

definition col_base :: "golib \<Rightarrow> nat \<Rightarrow> nat \<Rightarrow> collector \<Rightarrow> bool" where
  "col_base L base rounds c \<longleftrightarrow>
     c_satsCovered c = sats_of (c_allocatedUTXOs c) \<and>
     Calculate L (c_feeCalculator c) (c_txSize c) = Inr (c_fee c) \<and>
     (\<exists>k. c_txSize c = u64_wrap (base + input_bytes L (c_allocatedUTXOs c) + k * changeOutputSize L) \<and>
          c_changeOutputsCount c \<le> k \<and> k \<le> rounds * cap c) \<and>
     1 \<le> cap c \<and> c_changeOutputsCount c \<le> cap c \<and> 1 \<le> c_dustFloor c"

definition col_inv :: "golib \<Rightarrow> nat \<Rightarrow> collector \<Rightarrow> bool" where
  "col_inv L base c \<longleftrightarrow> col_base L base (length (c_allocatedUTXOs c) + 1) c \<and>
     (0 < c_satsCovered c - c_txSats c - c_fee c \<longrightarrow> 0 < c_changeOutputsCount c)"

lemma same_config_refl [simp]: "same_config c c"
  by (simp add: same_config_def)

lemma same_config_trans: "same_config a b \<Longrightarrow> same_config b c \<Longrightarrow> same_config a c"
  by (simp add: same_config_def)

lemma u64_wrap_add [simp]: "u64_wrap (u64_wrap a + b) = u64_wrap (a + b)" "u64_wrap (a + u64_wrap b) = u64_wrap (a + b)"
  by (simp_all add: u64_wrap_def mod_simps)

lemma calculateChangeOutputs_inv:
  assumes L: "golib_ok L" and base: "col_base L base r c" and run: "calculateChangeOutputs L c = Ok c'"
    and r: "r = length (c_allocatedUTXOs c)"
  shows "col_inv L base c' \<and> same_config c c' \<and> c_allocatedUTXOs c' = c_allocatedUTXOs c \<and>
         c_satsCovered c' = c_satsCovered c"
proof -
  from run obtain ch where ch: "change c = Ok ch" by (auto simp: calculateChangeOutputs_def go_Ok)
  note chv = change_Ok [OF ch]
  show ?thesis
  proof (cases "ch \<le> 0")
    case True
    with run ch have c': "c' = c" by (simp add: calculateChangeOutputs_def)
    have "r * cap c \<le> (length (c_allocatedUTXOs c) + 1) * cap c" using r by simp
    with base have "col_base L base (length (c_allocatedUTXOs c) + 1) c"
      unfolding col_base_def by (meson le_trans)
    with c' chv True show ?thesis by (simp add: col_inv_def)
  next
    case False
    with run ch obtain v d where d: "calculateChangeCount L c v = Ok d"
        and inc: "increaseSize L d (u64_wrap (c_changeOutputsCount d * changeOutputSize L)) = Ok c'"
      by (auto simp: calculateChangeOutputs_def go_Ok)
    from base have cap1: "1 \<le> cap c" by (simp add: col_base_def)
    from calculateChangeCount_Ok [OF L cap1 d] obtain n
      where n: "d = c\<lparr>c_changeOutputsCount := n\<rparr>" "1 \<le> n" "n \<le> cap c" by auto
    from base obtain k where k: "c_txSize c = u64_wrap (base + input_bytes L (c_allocatedUTXOs c) + k * changeOutputSize L)"
        "k \<le> r * cap c" by (auto simp: col_base_def)
    from inc n(1) obtain fee where fee: "Calculate L (c_feeCalculator c) (c_txSize c') = Inr fee"
        "c' = c\<lparr>c_changeOutputsCount := n, c_txSize := u64_wrap (c_txSize c + n * changeOutputSize L), c_fee := fee\<rparr>"
      by (auto simp: increaseSize_Ok)
    have "c_txSize c' = u64_wrap (base + input_bytes L (c_allocatedUTXOs c) + (k + n) * changeOutputSize L)"
      using fee(2) k(1) by (simp add: algebra_simps)
    moreover have "k + n \<le> (length (c_allocatedUTXOs c) + 1) * cap c" using k(2) n(3) r by simp
    ultimately have "\<exists>m. c_txSize c' = u64_wrap (base + input_bytes L (c_allocatedUTXOs c) + m * changeOutputSize L) \<and>
        n \<le> m \<and> m \<le> (length (c_allocatedUTXOs c) + 1) * cap c" by (intro exI [of _ "k + n"]) simp
    with fee n base show ?thesis by (simp add: col_inv_def col_base_def same_config_def cap_def)
  qed
qed


lemma allocateUTXO_inv:
  assumes L: "golib_ok L" and inv: "col_inv L base c" and run: "allocateUTXO L c u = Ok c'"
  shows "col_inv L base c' \<and> same_config c c' \<and> c_allocatedUTXOs c' = c_allocatedUTXOs c @ [u] \<and>
         c_satsCovered c' = c_satsCovered c + int (unat (u_Satoshis u))"
proof -
  from run obtain c1 v c2 where c1: "increaseSize L (addToAllocated c u) (TransactionInputSize L (unat (u_InputSize u))) = Ok c1"
      and v: "MustFrom (Unsigned (unat (u_Satoshis u))) = (Ok v :: (fund_error, int) go)"
      and c2: "increaseValue c1 v = Ok c2" and c': "calculateChangeOutputs L c2 = Ok c'"
    by (auto simp: allocateUTXO_def go_Ok)
  have v': "v = int (unat (u_Satoshis u))" using v by (simp add: MustFrom_def go_Ok From_Inr)
  from c1 obtain fee where fee: "Calculate L (c_feeCalculator c) (c_txSize c1) = Inr fee"
      "c1 = (addToAllocated c u)\<lparr>c_txSize := u64_wrap (c_txSize c + TransactionInputSize L (unat (u_InputSize u))), c_fee := fee\<rparr>"
    by (auto simp: increaseSize_Ok addToAllocated_def)
  note c2' = increaseValue_Ok [OF c2]
  from inv obtain k where k: "c_txSize c = u64_wrap (base + input_bytes L (c_allocatedUTXOs c) + k * changeOutputSize L)"
      "c_changeOutputsCount c \<le> k" "k \<le> (length (c_allocatedUTXOs c) + 1) * cap c"
    by (auto simp: col_inv_def col_base_def)
  have "c_txSize c2 = u64_wrap (base + input_bytes L (c_allocatedUTXOs c2) + k * changeOutputSize L)"
    using c2' fee(2) k(1) by (simp add: addToAllocated_def algebra_simps)
  hence "col_base L base (length (c_allocatedUTXOs c2)) c2"
    using inv fee k c2' v' unfolding col_inv_def col_base_def
    by (intro conjI exI [of _ k]) (simp_all add: addToAllocated_def cap_def)
  from calculateChangeOutputs_inv [OF L this c' refl] show ?thesis
    using c2' fee(2) v' by (simp add: addToAllocated_def same_config_def)
qed

lemma newCollector_inv:
  assumes L: "golib_ok L" and run: "newCollector L txSats txSize outs want minVal rate maxOuts req = Ok c"
    and pos: "1 \<le> maxOuts"
  shows "col_inv L txSize c \<and> c_txSats c = txSats \<and> c_feeCalculator c = rate \<and> c_outputCount c = outs \<and>
         c_requireChange c = req \<and> c_allocatedUTXOs c = [] \<and> c_dustFloor c = dustFloor_of L rate \<and>
         c_maxChangeOutputsPerTx c = maxOuts \<and> c_numberOfDesiredUTXOs c = nat (max want 1)"
proof -
  have cv: "lib_NoLessThanI L want 1 = max want 1" "\<And>v. lib_ConvertToUInt64 L v = (if v < 0 then None else Some (nat v))"
    using L by (simp_all add: golib_ok_def)
  let ?c1 = "\<lambda>fee. calculateMinimumChange \<lparr>c_txSats = txSats, c_txSize = u64_wrap txSize, c_fee = fee, c_feeCalculator = rate,
      c_satsCovered = 0, c_allocatedUTXOs = [], c_outputCount = outs, c_numberOfDesiredUTXOs = nat (max want 1),
      c_minimumDesiredUTXOValue = lib_NoLessThanU L minVal 1, c_maxChangeOutputsPerTx = maxOuts,
      c_changeOutputsCount = 0, c_minimumChange = 0, c_requireChange = req, c_dustFloor = dustFloor_of L rate\<rparr>"
  obtain fee where fee: "Calculate L rate (u64_wrap txSize) = Inr fee" and out: "calculateChangeOutputs L (?c1 fee) = Ok c"
    using run by (auto simp: newCollector_def Let_def go_Ok increaseSize_Ok convert_u64_def cv)
  have "col_base L txSize 0 (?c1 fee)"
    using fee pos by (simp add: col_base_def calculateMinimumChange_def cap_def dustFloor_of_def)
  from calculateChangeOutputs_inv [OF L this out] show ?thesis
    by (simp add: calculateMinimumChange_def same_config_def)
qed

text \<open>What a returned result says, under the invariant.\<close>

lemma collector_result_Ok:
  assumes inv: "col_inv L base c" and run: "collector_result c = Ok r"
  shows "res_AllocatedUTXOs r = c_allocatedUTXOs c" "res_Fee r = c_fee c" "res_DustFloor r = c_dustFloor c"
    and "res_ChangeAmount r = sats_of (c_allocatedUTXOs c) - c_txSats c - c_fee c" and "0 \<le> res_ChangeAmount r"
    and "res_ChangeOutputsCount r = 0 \<longleftrightarrow> res_ChangeAmount r < res_DustFloor r"
    and "changeMandatory c \<Longrightarrow> 0 < res_ChangeOutputsCount r \<and> res_DustFloor r \<le> res_ChangeAmount r"
    and "res_ChangeOutputsCount r \<le> c_changeOutputsCount c"
proof -
  from run have f: "isFunded c = Ok True" and p: "prepareResult c = Ok r"
    by (auto simp: collector_result_def go_Ok split: if_splits)
  from p obtain ch where ch: "change c = Ok ch"
      and r: "r = \<lparr>res_AllocatedUTXOs = c_allocatedUTXOs c,
           res_ChangeOutputsCount = (if ch < c_dustFloor c then 0 else c_changeOutputsCount c),
           res_ChangeAmount = ch, res_Fee = c_fee c, res_DustFloor = c_dustFloor c\<rparr>"
    by (auto simp: prepareResult_def go_Ok)
  have chv: "ch = sats_of (c_allocatedUTXOs c) - c_txSats c - c_fee c"
    using change_Ok [OF ch] inv by (simp add: col_inv_def col_base_def)
  have dust: "1 \<le> c_dustFloor c" using inv by (simp add: col_inv_def col_base_def)
  have ge: "0 \<le> ch \<and> (changeMandatory c \<longrightarrow> c_dustFloor c \<le> ch \<and> 0 < c_changeOutputsCount c)"
  proof (cases "changeMandatory c")
    case True
    with f ch dust show ?thesis by (auto simp: isFunded_def split: if_splits)
  next
    case False
    with f obtain t where "satsToCover c = Ok t" "t \<le> c_satsCovered c" by (auto simp: isFunded_def go_Ok)
    with False show ?thesis using satsToCover_Ok change_Ok [OF ch] by force
  qed
  have cnt: "0 < ch \<Longrightarrow> 0 < c_changeOutputsCount c" using inv change_Ok [OF ch] by (simp add: col_inv_def)
  show "res_AllocatedUTXOs r = c_allocatedUTXOs c" "res_Fee r = c_fee c" "res_DustFloor r = c_dustFloor c"
    "res_ChangeAmount r = sats_of (c_allocatedUTXOs c) - c_txSats c - c_fee c" "0 \<le> res_ChangeAmount r"
    "res_ChangeOutputsCount r \<le> c_changeOutputsCount c"
    "changeMandatory c \<Longrightarrow> 0 < res_ChangeOutputsCount r \<and> res_DustFloor r \<le> res_ChangeAmount r"
    using r chv ge by simp_all
  show "res_ChangeOutputsCount r = 0 \<longleftrightarrow> res_ChangeAmount r < res_DustFloor r"
    using r dust cnt by (cases "ch < c_dustFloor c") auto
qed

text \<open>The size the fee was computed for covers the transaction the result describes.\<close>

lemma col_inv_fee:
  assumes L: "golib_ok L" and inv: "col_inv L base c" and n: "n \<le> c_changeOutputsCount c"
    and small: "base + input_bytes L (c_allocatedUTXOs c) + 34 * ((length (c_allocatedUTXOs c) + 1) * cap c) \<le> 2 ^ 53"
    and rate: "0 \<le> c_feeCalculator c"
  shows "\<exists>sz. base + input_bytes L (c_allocatedUTXOs c) + 34 * n \<le> sz \<and> sz \<le> 2 ^ 53 \<and>
              Calculate L (c_feeCalculator c) sz = Inr (c_fee c)"
proof -
  from inv obtain k where k: "c_txSize c = u64_wrap (base + input_bytes L (c_allocatedUTXOs c) + k * changeOutputSize L)"
      "c_changeOutputsCount c \<le> k" "k \<le> (length (c_allocatedUTXOs c) + 1) * cap c"
    and fee: "Calculate L (c_feeCalculator c) (c_txSize c) = Inr (c_fee c)"
    by (auto simp: col_inv_def col_base_def)
  let ?sz = "base + input_bytes L (c_allocatedUTXOs c) + 34 * k"
  have "changeOutputSize L = 34" using p2pkh_sizes [OF L] by (simp add: changeOutputSize_def)
  moreover have le: "?sz \<le> 2 ^ 53" using small k(3) by linarith
  moreover from le have "u64_wrap ?sz = ?sz" by (intro u64_wrap_id) simp
  ultimately have "c_txSize c = ?sz" using k(1) by (simp add: mult.commute)
  with fee le k(2) n show ?thesis by (intro exI [of _ ?sz]) auto
qed


section \<open>Concrete runs at the default rate\<close>

lemma Calculate_100:
  assumes "golib_ok L" "0 < sz" "sz < 2 ^ 40" "\<not> 10 dvd sz"
  shows "Calculate L 100 sz = Inr (int (sz div 10) + 1)"
proof -
  have nd: "\<not> 1000 dvd sz * 100" using assms(4) dvd_times_right_cancel_iff [of "100 :: nat" 10 sz] by simp
  have "sz * 100 < 2 ^ 51" using assms(3) by simp
  from Calculate_value [OF assms(1,2) _ this] nd have "Calculate L 100 sz = Inr (int (sz * 100 div 1000) + 1)" by simp
  moreover have "sz * 100 div (10 * 100) = sz div 10" by (rule div_mult_mult2) simp
  ultimately show ?thesis by simp
qed

definition demo_coin :: "u64 \<Rightarrow> utxo" where
  "demo_coin v = \<lparr>u_Outpoint = Outpoint 1 0, u_UserID = 1, u_Basket = ''default'', u_Satoshis = v,
     u_InputSize = 107, u_Tier = TierMined, u_ReservedBy = '''', u_ReservedAt = zero_time, u_SpentBy = None,
     u_Frozen = False, u_Pinned = False, u_CreatedAt = zero_time\<rparr>"

lemmas collector_run = newCollector_def allocateUTXO_def collector_result_def calculateChangeOutputs_def
  calculateChangeCount_def calculateMinimumChange_def increaseSize_def increaseValue_def addToAllocated_def
  change_def satsToCover_def isFunded_def prepareResult_def changeMandatory_def changeOutputSize_def convert_u64_def
  MustAdd_def MustSubtract_def MustFrom_def MustUInt64_def UInt64_def Add_def Subtract_def checked2_def From_def
  validateInt_def validateUint_def MaxSatoshis_def i64_wrap_def Let_def

lemma std_lib_run:
  assumes "golib_ok L"
  shows "lib_NoLessThanU L a b = max a b" "lib_NoLessThanI L i j = max i j"
    "lib_ValueBetween L a 1 8 = (if a < 1 then 1 else if 8 < a then 8 else a)"
    "lib_ValueBetween L a 1 1 = 1"
    "lib_ConvertToUInt64 L i = (if i < 0 then None else Some (nat i))"
    "TransactionInputSize L 107 = 148" "P2PKHOutputSize L = 34"
  using assms p2pkh_sizes [OF assms]
  by (auto simp: golib_ok_def P2PKHEstimatedInputSize_def P2PKHUnlockingScriptLength_def)

lemma dustFloor_100:
  assumes "golib_ok L"
  shows "dustFloor_of L 100 = 40"
proof -
  have "fee_formula 192 100 = 20"
    using Calculate_100 [OF assms, of 192] Calculate_Inr [OF assms, of 192 100 20] by simp
  thus ?thesis by (simp add: dustFloor_of_def minSpend_size [OF assms])
qed

lemma dropChange_80: "dropChange 80 40 8 = 2"
  by (simp add: dropChange.simps)

lemma change_run:
  assumes L: "golib_ok L"
  shows "\<exists>c c' r. newCollector L 1000 45 1 8 1 100 8 False = Ok c \<and> allocateUTXO L c (demo_coin 1100) = Ok c' \<and>
     collector_result c' = Ok r \<and> res_DustFloor r = 40 \<and> res_ChangeAmount r = 73 \<and> res_ChangeOutputsCount r = 2"
proof -
  note lib = std_lib_run [OF L] dustFloor_100 [OF L] Calculate_100 [OF L]
  obtain c where c: "newCollector L 1000 45 1 8 1 100 8 False = Ok c" "c = \<lparr>c_txSats = 1000, c_txSize = 45, c_fee = 5,
      c_feeCalculator = 100, c_satsCovered = 0, c_allocatedUTXOs = [], c_outputCount = 1, c_numberOfDesiredUTXOs = 8,
      c_minimumDesiredUTXOValue = 1, c_maxChangeOutputsPerTx = 8, c_changeOutputsCount = 0, c_minimumChange = 0,
      c_requireChange = False, c_dustFloor = 40\<rparr>"
    by (simp add: collector_run lib del: One_nat_def)
  obtain c' where c': "allocateUTXO L c (demo_coin 1100) = Ok c'" "c' = \<lparr>c_txSats = 1000, c_txSize = 261, c_fee = 27,
      c_feeCalculator = 100, c_satsCovered = 1100, c_allocatedUTXOs = [demo_coin 1100], c_outputCount = 1,
      c_numberOfDesiredUTXOs = 8, c_minimumDesiredUTXOValue = 1, c_maxChangeOutputsPerTx = 8, c_changeOutputsCount = 2,
      c_minimumChange = 0, c_requireChange = False, c_dustFloor = 40\<rparr>"
    unfolding c(2) by (simp add: collector_run lib demo_coin_def dropChange_80 del: One_nat_def)
  have "\<exists>r. collector_result c' = Ok r \<and> res_DustFloor r = 40 \<and> res_ChangeAmount r = 73 \<and> res_ChangeOutputsCount r = 2"
    unfolding c'(2) by (simp add: collector_run)
  with c(1) c'(1) show ?thesis by blast
qed


lemma twice_run:
  assumes L: "golib_ok L"
  shows "\<exists>c c1 c2 r. newCollector L 1000 45 1 1 1 100 1 True = Ok c \<and> allocateUTXO L c (demo_coin 1030) = Ok c1 \<and>
     isFunded c1 = Ok False \<and> allocateUTXO L c1 (demo_coin 500) = Ok c2 \<and> collector_result c2 = Ok r \<and>
     res_Fee r = 41 \<and> res_ChangeOutputsCount r = 1"
proof -
  note lib = std_lib_run [OF L] dustFloor_100 [OF L] Calculate_100 [OF L]
  have d1: "dropChange v d 1 = 1" for v d by (simp add: dropChange.simps)
  obtain c where c: "newCollector L 1000 45 1 1 1 100 1 True = Ok c" "c = \<lparr>c_txSats = 1000, c_txSize = 45, c_fee = 5,
      c_feeCalculator = 100, c_satsCovered = 0, c_allocatedUTXOs = [], c_outputCount = 1, c_numberOfDesiredUTXOs = 1,
      c_minimumDesiredUTXOValue = 1, c_maxChangeOutputsPerTx = 1, c_changeOutputsCount = 0, c_minimumChange = 0,
      c_requireChange = True, c_dustFloor = 40\<rparr>"
    by (simp add: collector_run lib del: One_nat_def)
  obtain c1 where c1: "allocateUTXO L c (demo_coin 1030) = Ok c1" "c1 = \<lparr>c_txSats = 1000, c_txSize = 227, c_fee = 23,
      c_feeCalculator = 100, c_satsCovered = 1030, c_allocatedUTXOs = [demo_coin 1030], c_outputCount = 1,
      c_numberOfDesiredUTXOs = 1, c_minimumDesiredUTXOValue = 1, c_maxChangeOutputsPerTx = 1, c_changeOutputsCount = 1,
      c_minimumChange = 0, c_requireChange = True, c_dustFloor = 40\<rparr>"
    unfolding c(2) by (simp add: collector_run lib demo_coin_def d1 del: One_nat_def)
  obtain c2 where c2: "allocateUTXO L c1 (demo_coin 500) = Ok c2" "c2 = \<lparr>c_txSats = 1000, c_txSize = 409, c_fee = 41,
      c_feeCalculator = 100, c_satsCovered = 1530, c_allocatedUTXOs = [demo_coin 1030, demo_coin 500], c_outputCount = 1,
      c_numberOfDesiredUTXOs = 1, c_minimumDesiredUTXOValue = 1, c_maxChangeOutputsPerTx = 1, c_changeOutputsCount = 1,
      c_minimumChange = 0, c_requireChange = True, c_dustFloor = 40\<rparr>"
    unfolding c1(2) by (simp add: collector_run lib demo_coin_def d1 del: One_nat_def)
  have "\<exists>r. collector_result c2 = Ok r \<and> res_Fee r = 41 \<and> res_ChangeOutputsCount r = 1"
    unfolding c2(2) by (simp add: collector_run)
  moreover have "isFunded c1 = Ok False" unfolding c1(2) by (simp add: collector_run)
  ultimately show ?thesis using c(1) c1(1) c2(1) by blast
qed

section \<open>Properties\<close>

text \<open>
  \<open>distributeChange\<close> loses nothing: it returns as many outputs as it was asked for, they add up
  to the change, every one is worth the even share rounded down, and all but the last are equal.
\<close>

theorem distributeChange_conserves:
  assumes "0 < cnt" "0 < tot"
  shows "\<exists>out. distributeChange tot cnt = (Ok out :: (unit, nat list) go) \<and> length out = cnt \<and> int (sum_list out) = tot \<and>
           (\<forall>i < cnt. nat tot div cnt \<le> out ! i) \<and> (\<forall>i. i + 1 < cnt \<longrightarrow> out ! i = nat tot div cnt)"
proof -
  let ?t = "nat tot" let ?o = "(replicate cnt (?t div cnt))[cnt - 1 := ?t div cnt + ?t mod cnt]"
  have "MustUInt64 tot = (Ok ?t :: (unit, nat) go)" using assms(2) by (simp add: MustUInt64_def UInt64_def)
  hence run: "distributeChange tot cnt = (Ok ?o :: (unit, nat list) go)"
    using assms by (simp add: distributeChange_def)
  have "sum_list ?o = sum_list (replicate cnt (?t div cnt)) + (?t div cnt + ?t mod cnt) - ?t div cnt"
    using assms(1) by (subst sum_list_update) simp_all
  also have "\<dots> = cnt * (?t div cnt) + ?t mod cnt" by (simp add: sum_list_replicate)
  finally have "int (sum_list ?o) = tot" using assms(2) by simp
  with run show ?thesis by (intro exI [of _ ?o]) (auto simp: nth_list_update)
qed

text \<open>
  The dust floor does not bound a single change output.  \<open>calculateChangeCount\<close> divides the
  change before the change outputs are paid for: at the default 100 sat/kB, funding 1000 satoshis
  with a coin of 1100 plans two change outputs of 36 and 37 satoshis although the dust floor of the
  same result is 40.
\<close>

theorem change_below_dust_floor:
  assumes "golib_ok L"
  shows "\<exists>c c' r. newCollector L 1000 45 1 8 1 100 8 False = Ok c \<and> allocateUTXO L c (demo_coin 1100) = Ok c' \<and>
     collector_result c' = Ok r \<and> res_DustFloor r = 40 \<and>
     distributeChange (res_ChangeAmount r) (res_ChangeOutputsCount r) = (Ok [36, 37] :: (unit, nat list) go)"
proof -
  have "replicate 2 (36 :: nat) = [36, 36]" by (simp add: numeral_2_eq_2)
  hence "distributeChange 73 2 = (Ok [36, 37] :: (unit, nat list) go)"
    by (simp add: distributeChange_def MustUInt64_def UInt64_def)
  moreover from change_run [OF assms] obtain c c' r where "newCollector L 1000 45 1 8 1 100 8 False = Ok c"
      "allocateUTXO L c (demo_coin 1100) = Ok c'" "collector_result c' = Ok r" "res_DustFloor r = 40"
      "res_ChangeAmount r = 73" "res_ChangeOutputsCount r = 2" by blast
  ultimately show ?thesis by (intro exI [of _ c] exI [of _ c'] exI [of _ r]) simp
qed

text \<open>
  The change output is paid for once per allocation, not once per transaction.  With a required
  change output at 100 sat/kB, a transaction of 45 bytes that needs two inputs and one change output
  has 375 bytes and its fee is 38 satoshis; the collector charges 41, the fee of 409 bytes.
\<close>

theorem change_size_counted_twice:
  assumes "golib_ok L"
  shows "\<exists>c c1 c2 r. newCollector L 1000 45 1 1 1 100 1 True = Ok c \<and> allocateUTXO L c (demo_coin 1030) = Ok c1 \<and>
     isFunded c1 = Ok False \<and> allocateUTXO L c1 (demo_coin 500) = Ok c2 \<and> collector_result c2 = Ok r \<and>
     res_ChangeOutputsCount r = 1 \<and> res_Fee r = 41 \<and>
     Calculate L 100 (45 + input_bytes L (res_AllocatedUTXOs r) + 34 * res_ChangeOutputsCount r) = Inr 38"
proof -
  from twice_run [OF assms] obtain c c1 c2 r where run: "newCollector L 1000 45 1 1 1 100 1 True = Ok c"
      "allocateUTXO L c (demo_coin 1030) = Ok c1" "isFunded c1 = Ok False" "allocateUTXO L c1 (demo_coin 500) = Ok c2"
      "collector_result c2 = Ok r" "res_Fee r = 41" "res_ChangeOutputsCount r = 1" by blast
  have c: "col_inv L 45 c \<and> c_allocatedUTXOs c = []" using newCollector_inv [OF assms run(1)] by simp
  have c1: "col_inv L 45 c1 \<and> c_allocatedUTXOs c1 = [demo_coin 1030]" using allocateUTXO_inv [OF assms _ run(2)] c by auto
  have c2: "col_inv L 45 c2 \<and> c_allocatedUTXOs c2 = [demo_coin 1030, demo_coin 500]"
    using allocateUTXO_inv [OF assms _ run(4)] c1 by auto
  have "input_bytes L (res_AllocatedUTXOs r) = 296"
    unfolding collector_result_Ok(1) [OF conjunct1 [OF c2] run(5)]
    using c2 std_lib_run(6) [OF assms] by (simp add: input_bytes_def demo_coin_def)
  hence "Calculate L 100 (45 + input_bytes L (res_AllocatedUTXOs r) + 34 * res_ChangeOutputsCount r) = Inr 38"
    using Calculate_100 [OF assms, of 375] run(7) by simp
  with run show ?thesis by blast
qed

end
