(* ===== verification/Funder.thy ===== *)
theory Funder
  imports Collector Store_Interface
begin

text \<open>
  The funder of \<open>src/pkg/storage/internal/funder\<close> (\<open>funder.go\<close>, \<open>throughput.go\<close>): argument
  validation, the tier walk, the smallest-sufficient claim with its largest-insufficient drain, the
  exact-denomination fast path, the terminal contention diagnosis and the retry loop.  The store is
  a parameter of type \<^typ>\<open>'s store_ops\<close>; a step takes the store's state and returns it with a
  \<open>go\<close> result.  The walk \<open>boundedTieredClaim\<close> loops until it is funded or a pass allocates nothing:
  it is a partial function whose value \<^term>\<open>None\<close> is not returning, and the theory proves that it
  returns.  Logging, tracing and the wait between two attempts leave no trace in the model.
\<close>

section \<open>Arguments\<close>

definition SpendPolicyMinedOnly :: string where "SpendPolicyMinedOnly = ''mined_only''"
definition SpendPolicyPreferMined :: string where "SpendPolicyPreferMined = ''prefer_mined''"
definition SpendPolicyAny :: string where "SpendPolicyAny = ''any''"

definition SpendTiers :: "string \<Rightarrow> tier list" where
  "SpendTiers policy =
     (if policy = SpendPolicyMinedOnly then [TierMined]
      else if policy = SpendPolicyAny then [TierMined, TierUnproven, TierSending]
      else [TierMined, TierUnproven])"

record fund_args =
  a_UserID :: int
  a_Basket :: string
  a_Reservation :: string
  a_TargetSat :: int
  a_CurrentTxSize :: nat
  a_OutputCount :: nat
  a_Tiers :: "tier list"
  a_NumberOfDesiredUTXOs :: int
  a_MinimumDesiredUTXOValue :: nat
  a_MaxChangeOutputsPerTx :: nat
  a_RequireChange :: bool
  a_ExistingBasketCount :: int
  a_Denomination :: nat

fun badTier :: "tier list \<Rightarrow> fund_error option" where
  "badTier [] = None"
| "badTier (t # ts) = (if \<not> Valid t then Some (ArgBadTier t) else badTier ts)"

definition validate_args :: "fund_args \<Rightarrow> fund_error option" where
  "validate_args a =
     (if a_Reservation a = '''' then Some ArgReservation
      else if a_UserID a \<le> 0 then Some ArgUser
      else if a_Basket a = '''' then Some ArgBasket
      else if a_Tiers a = [] then Some ArgTiers
      else if a_MaxChangeOutputsPerTx a = 0 then Some ArgMaxChange
      else badTier (a_Tiers a))"

definition arg_scope :: "fund_args \<Rightarrow> tier \<Rightarrow> scope" where
  "arg_scope a t = \<lparr>sc_UserID = a_UserID a, sc_Basket = a_Basket a, sc_Tier = t\<rparr>"

record funder =
  f_feeCalculator :: rat
  f_feeModel :: fee_model

definition New_funder :: "golib \<Rightarrow> fee_model \<Rightarrow> ('e, funder) go" where
  "New_funder L model = go_bind (newFeeCalculator L model) (\<lambda>v. Ok \<lparr>f_feeCalculator = v, f_feeModel = model\<rparr>)"

section \<open>Steps over the store\<close>

type_synonym ('s, 'a) fund_step = "'s \<times> (fund_error, 'a) go"

fun step_bind :: "('s, 'a) fund_step \<Rightarrow> ('s \<Rightarrow> 'a \<Rightarrow> ('s, 'b) fund_step) \<Rightarrow> ('s, 'b) fund_step" where
  "step_bind (s, Ok a) f = f s a"
| "step_bind (s, Err e) f = (s, Err e)"
| "step_bind (s, Panic) f = (s, Panic)"

fun store_call :: "'s \<times> (store_error + 'a) \<Rightarrow> ('s, 'a) fund_step" where
  "store_call (s, Inl e) = (s, Err (StoreFailed e))"
| "store_call (s, Inr a) = (s, Ok a)"

definition releaseOutpoints :: "'s store_ops \<Rightarrow> 's \<Rightarrow> string \<Rightarrow> utxo list \<Rightarrow> ('s, unit) fund_step" where
  "releaseOutpoints ops s t us =
     (case ReleaseOps ops s t (map u_Outpoint us) of
        (s', Some e) \<Rightarrow> (s', Err (StoreFailed e)) | (s', None) \<Rightarrow> (s', Ok ()))"

definition release :: "'s store_ops \<Rightarrow> 's \<Rightarrow> int \<Rightarrow> string \<Rightarrow> 's" where
  "release ops s userID t = fst (ReleaseToken ops s userID t)"

section \<open>The bounded tiered walk\<close>

definition insufficientBatchSize :: int where "insufficientBatchSize = 16"

fun drainLoop :: "golib \<Rightarrow> collector \<Rightarrow> nat \<Rightarrow> utxo list \<Rightarrow> (fund_error, nat \<times> collector) go" where
  "drainLoop L c consumed [] = Ok (consumed, c)"
| "drainLoop L c consumed (u # us) =
     go_bind (isFunded c) (\<lambda>funded. if funded then Ok (consumed, c) else
     go_bind (remaining_sats L c) (\<lambda>rem. if rem \<le> 0 then Ok (consumed, c) else
     go_bind (MustUInt64 rem) (\<lambda>r. if r \<le> unat (u_Satoshis u) then Ok (consumed, c) else
     go_bind (allocateUTXO L c u) (\<lambda>c'. drainLoop L c' (consumed + 1) us))))"

text \<open>Both batch consumers release the coins they did not take.\<close>

definition keep_consumed :: "'s store_ops \<Rightarrow> 's \<Rightarrow> string \<Rightarrow> utxo list \<Rightarrow> (fund_error, nat \<times> collector) go \<Rightarrow>
    ('s, nat \<times> collector) fund_step" where
  "keep_consumed ops s t batch r =
     step_bind (s, r) (\<lambda>s (consumed, c).
       if consumed < length batch
       then step_bind (releaseOutpoints ops s t (drop consumed batch)) (\<lambda>s _. (s, Ok (consumed, c)))
       else (s, Ok (consumed, c)))"

definition drainBatch :: "golib \<Rightarrow> 's store_ops \<Rightarrow> fund_args \<Rightarrow> 's \<Rightarrow> collector \<Rightarrow> utxo list \<Rightarrow>
    ('s, bool \<times> collector) fund_step" where
  "drainBatch L ops a s c batch =
     step_bind (keep_consumed ops s (a_Reservation a) batch (drainLoop L c 0 batch))
       (\<lambda>s (consumed, c). (s, Ok (0 < consumed, c)))"

definition fromTier :: "golib \<Rightarrow> 's store_ops \<Rightarrow> fund_args \<Rightarrow> 's \<Rightarrow> collector \<Rightarrow> tier \<Rightarrow> int \<Rightarrow>
    ('s, bool \<times> collector) fund_step" where
  "fromTier L ops a s c tier remaining =
     step_bind (s, MustUInt64 remaining) (\<lambda>s need.
     step_bind (store_call (ClaimSmallest ops s (arg_scope a tier) (a_Reservation a) (of_nat need))) (\<lambda>s found.
       case found of
         Some utxo \<Rightarrow> (s, go_bind (allocateUTXO L c utxo) (\<lambda>c'. Ok (True, c')))
       | None \<Rightarrow>
           step_bind (store_call (ClaimLargest ops s (arg_scope a tier) (a_Reservation a) (of_nat need) insufficientBatchSize))
             (\<lambda>s batch. drainBatch L ops a s c batch)))"

fun roundLoop :: "golib \<Rightarrow> 's store_ops \<Rightarrow> fund_args \<Rightarrow> tier list \<Rightarrow> 's \<Rightarrow> collector \<Rightarrow> int \<Rightarrow>
    ('s, bool \<times> collector) fund_step" where
  "roundLoop L ops a [] s c remaining = (s, Ok (False, c))"
| "roundLoop L ops a (tier # tiers) s c remaining =
     step_bind (fromTier L ops a s c tier remaining) (\<lambda>s (allocated, c).
       if allocated then (s, Ok (True, c)) else roundLoop L ops a tiers s c remaining)"

definition round_tiers :: "golib \<Rightarrow> 's store_ops \<Rightarrow> fund_args \<Rightarrow> 's \<Rightarrow> collector \<Rightarrow> int \<Rightarrow>
    ('s, bool \<times> collector) fund_step" where
  "round_tiers L ops a s c remaining = roundLoop L ops a (a_Tiers a) s c remaining"

text \<open>One iteration of the loop: \<^term>\<open>Inl\<close> leaves the function, \<^term>\<open>Inr\<close> goes round again.\<close>

definition walkStep :: "golib \<Rightarrow> 's store_ops \<Rightarrow> fund_args \<Rightarrow> 's \<Rightarrow> collector \<Rightarrow>
    ('s, collector) fund_step + 's \<times> collector" where
  "walkStep L ops a s c =
     (case isFunded c of
        Panic \<Rightarrow> Inl (s, Panic)
      | Err e \<Rightarrow> Inl (s, Err e)
      | Ok funded \<Rightarrow>
          if funded then Inl (s, Ok c)
          else (case remaining_sats L c of
             Panic \<Rightarrow> Inl (s, Panic)
           | Err e \<Rightarrow> Inl (s, Err e)
           | Ok remaining \<Rightarrow>
               if remaining \<le> 0 then Inl (s, Ok c)
               else (case round_tiers L ops a s c remaining of
                       (s', Panic) \<Rightarrow> Inl (s', Panic)
                     | (s', Err e) \<Rightarrow> Inl (s', Err e)
                     | (s', Ok (allocated, c')) \<Rightarrow>
                         if \<not> allocated then Inl (s', Err NotEnoughFunds) else Inr (s', c'))))"

partial_function (option) boundedTieredClaim ::
    "golib \<Rightarrow> 's store_ops \<Rightarrow> fund_args \<Rightarrow> 's \<Rightarrow> collector \<Rightarrow> ('s, collector) fund_step option" where
  "boundedTieredClaim L ops a s c =
     (case walkStep L ops a s c of
        Inl r \<Rightarrow> Some r
      | Inr p \<Rightarrow> boundedTieredClaim L ops a (fst p) (snd p))"

section \<open>The exact-denomination fast path\<close>

definition maxExactClaim :: nat where "maxExactClaim = 2 ^ 20"

definition ceilDiv :: "nat \<Rightarrow> nat \<Rightarrow> nat" where
  "ceilDiv a b = (if b = 0 then 0 else u64_wrap (a + b - 1) div b)"

fun exactLoop :: "'s store_ops \<Rightarrow> fund_args \<Rightarrow> tier list \<Rightarrow> 's \<Rightarrow> utxo list \<Rightarrow> int \<Rightarrow> ('s, utxo list) fund_step" where
  "exactLoop ops a [] s acc remaining = (s, Ok acc)"
| "exactLoop ops a (tier # tiers) s acc remaining =
     (if remaining \<le> 0 then (s, Ok acc)
      else step_bind (store_call (ClaimExactly ops s (arg_scope a tier) (a_Reservation a) (of_nat (a_Denomination a)) remaining))
             (\<lambda>s got. exactLoop ops a tiers s (acc @ got) (remaining - int (length got))))"

fun fuelLoop :: "golib \<Rightarrow> collector \<Rightarrow> nat \<Rightarrow> utxo list \<Rightarrow> (fund_error, nat \<times> collector) go" where
  "fuelLoop L c consumed [] = Ok (consumed, c)"
| "fuelLoop L c consumed (u # us) =
     go_bind (isFunded c) (\<lambda>funded. if funded then Ok (consumed, c) else
     go_bind (allocateUTXO L c u) (\<lambda>c'. fuelLoop L c' (consumed + 1) us))"

definition claimExactFastPath :: "golib \<Rightarrow> funder \<Rightarrow> 's store_ops \<Rightarrow> fund_args \<Rightarrow> 's \<Rightarrow> collector \<Rightarrow>
    ('s, collector) fund_step" where
  "claimExactFastPath L f ops a s c =
     (let marginal = MarginalFuelInputFee (f_feeModel f) in
      if a_Denomination a \<le> marginal then (s, Err (LowDenomination (a_Denomination a) marginal))
      else
        step_bind (s, of_sum FeeFailed (Calculate L (f_feeCalculator f) (a_CurrentTxSize a))) (\<lambda>s baseFee.
        step_bind (s, of_sum ValueFailed (Add (Signed (a_TargetSat a)) (Signed baseFee))) (\<lambda>s need.
          if need \<le> 0 then (s, Ok c)
          else
            step_bind (s, MustUInt64 need) (\<lambda>s needU.
              let net = a_Denomination a - marginal; n = ceilDiv needU net in
              if n = 0 then (s, Ok c)
              else
                step_bind (exactLoop ops a (a_Tiers a) s [] (int (min n maxExactClaim))) (\<lambda>s got.
                step_bind (keep_consumed ops s (a_Reservation a) got (fuelLoop L c 0 got)) (\<lambda>s (_, c). (s, Ok c)))))))"

definition ShapeChange :: "int \<Rightarrow> nat \<Rightarrow> nat \<Rightarrow> ('e, nat) go" where
  "ShapeChange amount denomination maxOutputs =
     (if denomination = 0 \<or> maxOutputs = 0 \<or> amount \<le> 0 then Ok 0
      else go_bind (MustUInt64 amount) (\<lambda>v.
        let n = v div denomination in Ok (if maxOutputs < n then maxOutputs else n)))"

section \<open>One pass and the retry loop\<close>

fun probeLoop :: "('s \<Rightarrow> scope \<Rightarrow> u64 \<Rightarrow> store_error + bool) \<Rightarrow> fund_args \<Rightarrow> tier list \<Rightarrow> 's \<Rightarrow> fund_error \<Rightarrow> fund_error" where
  "probeLoop probe a [] s err = err"
| "probeLoop probe a (tier # tiers) s err =
     (case probe s (arg_scope a tier) 0 of
        Inl _ \<Rightarrow> err
      | Inr True \<Rightarrow> HiddenInventory tier
      | Inr False \<Rightarrow> probeLoop probe a tiers s err)"

definition contentionIfInventoryHidden :: "'s store_ops \<Rightarrow> fund_args \<Rightarrow> 's \<Rightarrow> fund_error \<Rightarrow> fund_error" where
  "contentionIfInventoryHidden ops a s err =
     (if err \<noteq> NotEnoughFunds then err
      else case Prober ops of None \<Rightarrow> err | Some probe \<Rightarrow> probeLoop probe a (a_Tiers a) s err)"

fun diagnose :: "'s store_ops \<Rightarrow> fund_args \<Rightarrow> ('s, 'a) fund_step \<Rightarrow> ('s, 'a) fund_step" where
  "diagnose ops a (s, Err e) = (s, Err (contentionIfInventoryHidden ops a s e))"
| "diagnose ops a (s, Ok r) = (s, Ok r)"
| "diagnose ops a (s, Panic) = (s, Panic)"

definition walk :: "golib \<Rightarrow> 's store_ops \<Rightarrow> fund_args \<Rightarrow> 's \<Rightarrow> collector \<Rightarrow> ('s, result) fund_step option" where
  "walk L ops a s c =
     map_option (\<lambda>r. diagnose ops a (step_bind r (\<lambda>s c. (s, collector_result c)))) (boundedTieredClaim L ops a s c)"

definition fundOnce :: "golib \<Rightarrow> funder \<Rightarrow> 's store_ops \<Rightarrow> fund_args \<Rightarrow> 's \<Rightarrow> ('s, result) fund_step option" where
  "fundOnce L f ops a s =
     (case newCollector L (a_TargetSat a) (a_CurrentTxSize a) (a_OutputCount a)
             (i64_wrap (a_NumberOfDesiredUTXOs a - a_ExistingBasketCount a)) (a_MinimumDesiredUTXOValue a)
             (f_feeCalculator f) (a_MaxChangeOutputsPerTx a) (a_RequireChange a) of
        Panic \<Rightarrow> Some (s, Panic)
      | Err e \<Rightarrow> Some (s, Err e)
      | Ok c \<Rightarrow>
          if 0 < a_Denomination a then
            (case step_bind (claimExactFastPath L f ops a s c) (\<lambda>s c. step_bind (s, isFunded c) (\<lambda>s ok. (s, Ok (ok, c)))) of
               (s, Panic) \<Rightarrow> Some (s, Panic)
             | (s, Err e) \<Rightarrow> Some (s, Err e)
             | (s, Ok (True, c)) \<Rightarrow> Some (s, collector_result c)
             | (s, Ok (False, c)) \<Rightarrow> walk L ops a s c)
          else walk L ops a s c)"

definition is_contention :: "fund_error \<Rightarrow> bool" where
  "is_contention e = (case e of StoreFailed ErrContention \<Rightarrow> True | HiddenInventory _ \<Rightarrow> True | _ \<Rightarrow> False)"

definition maxFundingAttempts :: nat where "maxFundingAttempts = 3"

function fundLoop :: "golib \<Rightarrow> funder \<Rightarrow> 's store_ops \<Rightarrow> fund_args \<Rightarrow> nat \<Rightarrow> 's \<Rightarrow> ('s, result) fund_step option" where
  "fundLoop L f ops a attempt s =
     (case fundOnce L f ops a s of
        None \<Rightarrow> None
      | Some (s', Panic) \<Rightarrow> Some (s', Panic)
      | Some (s', Ok r) \<Rightarrow> Some (s', Ok r)
      | Some (s', Err e) \<Rightarrow>
          (let s'' = release ops s' (a_UserID a) (a_Reservation a) in
           if is_contention e then
             (if maxFundingAttempts \<le> attempt + 1 then Some (s'', Err UTXOContention)
              else fundLoop L f ops a (attempt + 1) s'')
           else Some (s'', Err e)))"
  by pat_completeness auto
termination by (relation "measure (\<lambda>(L, f, ops, a, attempt, s). maxFundingAttempts - attempt)") auto

declare fundLoop.simps [simp del]

definition Fund :: "golib \<Rightarrow> funder \<Rightarrow> 's store_ops \<Rightarrow> fund_args \<Rightarrow> 's \<Rightarrow> ('s, result) fund_step option" where
  "Fund L f ops a s = (case validate_args a of Some e \<Rightarrow> Some (s, Err e) | None \<Rightarrow> fundLoop L f ops a 0 s)"

end
