(* ===== verification/Create.thy ===== *)
theory Create
  imports Process Funder
begin

text \<open>
  Creating an action: \<open>src/pkg/storage/create.go\<close>, \<open>create_inputs.go\<close> and the ancestry walk of \<open>beef.go\<close>.  The
  inputs a caller names are resolved and reserved, the funder adds coins, and the unsigned transaction is stored
  with its outputs.

  The funder runs over the provider's own UTXO store, where every call may fail; \<open>prov_ops\<close> are the store's methods
  with that behaviour.  BEEF values and scripts of the Go SDK are parameters, collected in \<open>beef_lib\<close> over a type of
  BEEFs; random strings and the shuffle of the outputs are parameters too, the n-th draw of a call being
  \<open>Base64 n\<close>.  A call that does not return is \<open>None\<close>; a panic is the error \<open>Panicked\<close> and commits nothing.
\<close>

section \<open>Arguments and configuration\<close>

record create_input =
  ci_TxID :: string
  ci_Vout :: u32
  ci_UnlockingScript :: "string option"
  ci_UnlockingScriptLength :: "u64 option"

record create_output =
  co_LockingScript :: string
  co_Satoshis :: u64
  co_OutputDescription :: string
  co_Basket :: "string option"
  co_CustomInstructions :: "string option"
  co_Tags :: "string list"

record shaped_change =
  sh_Count :: u64
  sh_Satoshis :: u64
  sh_Basket :: string
  sh_SourceBasket :: string

record create_args =
  ca_Description :: string
  ca_InputBEEF :: bytes
  ca_Inputs :: "create_input list"
  ca_Outputs :: "create_output list"
  ca_LockTime :: u32
  ca_Version :: u32
  ca_Labels :: "string list"
  ca_IncludeAllSourceTransactions :: bool
  ca_KnownTxids :: "string list"
  ca_RandomizeOutputs :: bool
  ca_FuelShape :: "shaped_change option"
  ca_IsNoSend :: bool

record throughput =
  th_ExpectedTxSizeBytes :: nat
  th_ExpectedOutputSatoshis :: nat
  th_DenominationSatoshis :: nat
  th_SpendPolicy :: string
  th_PoolBasket :: string
  th_ReserveBasket :: string
  th_RecycleChangeToPool :: bool

text \<open>The fields of the provider that \<open>CreateAction\<close> reads; the locking script of a commission is the SDK's.\<close>

record create_policy =
  cp_Throughput :: "throughput option"
  cp_feeModel :: fee_model
  cp_commissionSatoshis :: nat
  cp_commissionScript :: "bytes option"
  cp_NumberOfDesiredUTXOs :: int
  cp_MinimumDesiredUTXOValue :: nat
  cp_MaxChangeOutputsPerTx :: nat
  cp_requireChangeOutput :: bool
  cp_directInputBEEF :: bool

record outputPlan =
  pn_satoshis :: int
  pn_lockingScript :: bytes
  pn_basket :: "string option"
  pn_change :: bool
  pn_outputType :: string
  pn_providedBy :: string
  pn_purpose :: string
  pn_description :: string
  pn_customInstructions :: "string option"
  pn_derivationPrefix :: "string option"
  pn_derivationSuffix :: "string option"
  pn_tags :: "string list"

record rand =
  Base64 :: "nat \<Rightarrow> string option"
  Shuffle :: "outputPlan list \<Rightarrow> outputPlan list"

record 'b beef_lib =
  NewBeefV2 :: 'b
  NewBeefFromBytes :: "bytes \<Rightarrow> 'b option"
  BeefBytes :: "'b \<Rightarrow> bytes option"
  FindTransaction :: "'b \<Rightarrow> string \<Rightarrow> signed_tx option"
  FindTransactionByHash :: "'b \<Rightarrow> hash \<Rightarrow> signed_tx option"
  MergeTxidOnly :: "'b \<Rightarrow> hash \<Rightarrow> 'b"
  MergeProvenTx :: "'b \<Rightarrow> signed_tx \<Rightarrow> bytes \<Rightarrow> 'b option"
  MergeRawTx :: "'b \<Rightarrow> bytes \<Rightarrow> 'b option"
  MergeBeefBytes :: "'b \<Rightarrow> bytes \<Rightarrow> 'b option"
  ScriptFromHex :: "string \<Rightarrow> bytes option"

definition BasketNameForChange :: string where
  "BasketNameForChange = ''default''"

section \<open>The funder over the provider's store\<close>

definition as_store :: "prov \<times> (perr + 'a) \<Rightarrow> prov \<times> (store_error + 'a)" where
  "as_store x = (fst x, case snd x of Inr a \<Rightarrow> Inr a | Inl (StoreErr e) \<Rightarrow> Inl e | Inl _ \<Rightarrow> Inl ErrContention)"

definition prov_ops :: "prov store_ops" where
  "prov_ops =
     \<lparr>ClaimSmallest = \<lambda>p sc t m. as_store (utxo_call (\<lambda>s. ClaimSmallestSufficient s sc t m) p),
      ClaimLargest = \<lambda>p sc t c l. as_store (utxo_call (\<lambda>s. ClaimLargestInsufficient s sc t c l) p),
      ClaimExactly = \<lambda>p sc t d n. as_store (utxo_call (\<lambda>s. ClaimExact s sc t d n) p),
      ReleaseToken = \<lambda>p uid t. as_store (utxo_call (\<lambda>s. ReleaseReservation s uid t) p),
      ReleaseOps = \<lambda>p t os. (case as_store (utxo_call (\<lambda>s. plain_err (ReleaseOutpoints s t os)) p) of
         (p', Inl e) \<Rightarrow> (p', Some e) | (p', Inr _) \<Rightarrow> (p', None)),
      Prober = None\<rparr>"

text \<open>What a funding attempt is to the provider.\<close>

definition of_go :: "(fund_error, 'a) go \<Rightarrow> perr + 'a" where
  "of_go r = (case r of Ok a \<Rightarrow> Inr a | Err e \<Rightarrow> Inl (FundErr e) | Panic \<Rightarrow> Inl Panicked)"

definition fundStep :: "golib \<Rightarrow> funder \<Rightarrow> fund_args \<Rightarrow> prov \<Rightarrow> (prov \<times> (perr + result)) option" where
  "fundStep L f a p = map_option (\<lambda>(q, r). (q, of_go r)) (Fund L f prov_ops a p)"

section \<open>Baskets, tiers and the denomination\<close>

definition Denomination :: "throughput \<Rightarrow> create_policy \<Rightarrow> perr + nat" where
  "Denomination th pol =
     (if th_DenominationSatoshis th > 0 then Inr (th_DenominationSatoshis th)
      else
        (let commission = cp_commissionSatoshis pol > 0;
             size' = u64_wrap (th_ExpectedTxSizeBytes th + (if commission then 34 else 0));
             extra = u64_wrap (th_ExpectedOutputSatoshis th + (if commission then cp_commissionSatoshis pol else 0));
             denomination = u64_wrap (feeForSize size' (cp_feeModel pol) + extra) in
         if denomination = 0 then Inl (BadRequest ''denomination'') else Inr denomination))"

definition fanOutSourceBasket :: "create_policy \<Rightarrow> shaped_change \<Rightarrow> string" where
  "fanOutSourceBasket pol sh =
     (if sh_SourceBasket sh \<noteq> '''' then sh_SourceBasket sh
      else case cp_Throughput pol of
        Some th \<Rightarrow> if sh_Basket sh = th_PoolBasket th then th_ReserveBasket th else BasketNameForChange
      | None \<Rightarrow> BasketNameForChange)"

definition fundingSource :: "create_policy \<Rightarrow> shaped_change option \<Rightarrow> perr + string \<times> nat" where
  "fundingSource pol shape =
     (case shape of
        Some sh \<Rightarrow> Inr (fanOutSourceBasket pol sh, 0)
      | None \<Rightarrow>
          (case cp_Throughput pol of
             None \<Rightarrow> Inr (BasketNameForChange, 0)
           | Some th \<Rightarrow> (case Denomination th pol of Inl e \<Rightarrow> Inl e | Inr d \<Rightarrow> Inr (th_PoolBasket th, d))))"

definition changeDestinationBasket :: "create_policy \<Rightarrow> shaped_change option \<Rightarrow> string" where
  "changeDestinationBasket pol shape =
     (case shape of
        Some sh \<Rightarrow> fanOutSourceBasket pol sh
      | None \<Rightarrow>
          (case cp_Throughput pol of
             Some th \<Rightarrow> if th_RecycleChangeToPool th then th_PoolBasket th else BasketNameForChange
           | None \<Rightarrow> BasketNameForChange))"

definition spendTiers :: "create_policy \<Rightarrow> tier list" where
  "spendTiers pol = SpendTiers (case cp_Throughput pol of Some th \<Rightarrow> th_SpendPolicy th | None \<Rightarrow> ''prefer_mined'')"

definition maxChangeOutputsPerTx :: "create_policy \<Rightarrow> nat" where
  "maxChangeOutputsPerTx pol = (if cp_MaxChangeOutputsPerTx pol = 0 then 1 else cp_MaxChangeOutputsPerTx pol)"

definition changeBasketCount :: "create_policy \<Rightarrow> metadb \<Rightarrow> int \<Rightarrow> int" where
  "changeBasketCount pol db userID =
     (case cp_Throughput pol of Some _ \<Rightarrow> 0 | None \<Rightarrow> int (CountInBasket (db_outputs db) userID BasketNameForChange))"

section \<open>Sizes and the target\<close>

definition i64 :: "u64 \<Rightarrow> int" where
  "i64 v = sint v"

definition inputScriptLength :: "create_input \<Rightarrow> nat option" where
  "inputScriptLength i =
     (case ci_UnlockingScript i of
        Some s \<Rightarrow> Some (length s div 2)
      | None \<Rightarrow> map_option unat (ci_UnlockingScriptLength i))"

definition providedInputSizes :: "create_input list \<Rightarrow> nat list" where
  "providedInputSizes ins =
     map (\<lambda>i. case inputScriptLength i of Some l \<Rightarrow> l | None \<Rightarrow> P2PKHUnlockingScriptLength) ins"

fun providedOutputSizes :: "create_output list \<Rightarrow> int \<Rightarrow> int \<times> nat list" where
  "providedOutputSizes [] tot = (tot, [])"
| "providedOutputSizes (o' # os) tot =
     (let (t, lens) = providedOutputSizes os (i64_wrap (tot + i64 (co_Satoshis o'))) in (t, length (co_LockingScript o') div 2 # lens))"

definition outputScriptLens :: "create_policy \<Rightarrow> create_args \<Rightarrow> nat list" where
  "outputScriptLens pol args =
     snd (providedOutputSizes (ca_Outputs args) 0) @
     (if cp_commissionSatoshis pol > 0 then [P2PKHLockingScriptLength] else []) @
     (case ca_FuelShape args of None \<Rightarrow> [] | Some sh \<Rightarrow> replicate (unat (sh_Count sh)) P2PKHLockingScriptLength)"

definition nonChangeOutputCount :: "create_policy \<Rightarrow> create_args \<Rightarrow> nat" where
  "nonChangeOutputCount pol args =
     u64_wrap (length (ca_Outputs args) + (if cp_commissionSatoshis pol > 0 then 1 else 0) +
       (case ca_FuelShape args of None \<Rightarrow> 0 | Some sh \<Rightarrow> unat (sh_Count sh)))"

text \<open>The target is summed in \<open>int64\<close>.\<close>

definition fundingTarget :: "create_policy \<Rightarrow> create_args \<Rightarrow> int \<Rightarrow> int" where
  "fundingTarget pol args providedInputSats =
     (let t0 = fst (providedOutputSizes (ca_Outputs args) 0);
          t1 = (if cp_commissionSatoshis pol > 0 then i64_wrap (t0 + i64_wrap (int (cp_commissionSatoshis pol))) else t0);
          t2 = (case ca_FuelShape args of None \<Rightarrow> t1 | Some sh \<Rightarrow> i64_wrap (t1 + i64_wrap (i64 (sh_Count sh) * i64 (sh_Satoshis sh)))) in
      i64_wrap (t2 - providedInputSats))"

section \<open>Provided inputs\<close>

text \<open>\<open>ri_op\<close> is the outpoint of an input the wallet knows; the source's flag \<open>known\<close> is that it is set.\<close>

record resolvedInput =
  ri_input :: create_input
  ri_satoshis :: int
  ri_lockingScript :: bytes
  ri_op :: "outpoint option"

definition sourceOutput :: "'b beef_lib \<Rightarrow> 'b option \<Rightarrow> string \<Rightarrow> u32 \<Rightarrow> (u64 \<times> bytes option) option" where
  "sourceOutput bl beef txid vout =
     (case beef of
        None \<Rightarrow> None
      | Some b \<Rightarrow>
          (case FindTransaction bl b txid of
             None \<Rightarrow> None
           | Some tx \<Rightarrow> if unat vout < length (tx_outputs tx) then Some (tx_outputs tx ! unat vout) else None))"

definition resolveInput :: "sdk \<Rightarrow> 'b beef_lib \<Rightarrow> metadb \<Rightarrow> int \<Rightarrow> 'b option \<Rightarrow> create_input \<Rightarrow> perr + resolvedInput" where
  "resolveInput lib bl db userID beef i =
     (case FindOutputs (db_txs db) (db_outputs db)
             \<lparr>fo_UserID = Some userID, fo_OutputID = None, fo_TransactionID = None, fo_Satoshis = None,
              fo_Vout = Some (ci_Vout i), fo_Change = None, fo_TxID = Some (ci_TxID i), fo_TxStatus = []\<rparr> of
        Inl e \<Rightarrow> Inl (MetaErr e)
      | Inr (r # _) \<Rightarrow>
          (case NewHashFromHex lib (ci_TxID i) of
             None \<Rightarrow> Inl (BadHash (ci_TxID i))
           | Some h \<Rightarrow> Inr \<lparr>ri_input = i, ri_satoshis = o_Satoshis r, ri_lockingScript = o_LockingScript r,
                            ri_op = Some (Outpoint h (ci_Vout i))\<rparr>)
      | Inr [] \<Rightarrow>
          (case sourceOutput bl beef (ci_TxID i) (ci_Vout i) of
             None \<Rightarrow> Inl (BadRequest ''input not found'')
           | Some (sats, scr) \<Rightarrow>
               Inr \<lparr>ri_input = i, ri_satoshis = i64 sats, ri_lockingScript = (case scr of None \<Rightarrow> [] | Some b \<Rightarrow> b), ri_op = None\<rparr>))"

fun resolveProvidedInputs ::
    "sdk \<Rightarrow> 'b beef_lib \<Rightarrow> metadb \<Rightarrow> int \<Rightarrow> 'b option \<Rightarrow> create_input list \<Rightarrow> int \<Rightarrow> perr + resolvedInput list \<times> int" where
  "resolveProvidedInputs lib bl db userID beef [] tot = Inr ([], tot)"
| "resolveProvidedInputs lib bl db userID beef (i # ins) tot =
     (case resolveInput lib bl db userID beef i of
        Inl e \<Rightarrow> Inl e
      | Inr ri \<Rightarrow>
          (case resolveProvidedInputs lib bl db userID beef ins (i64_wrap (tot + ri_satoshis ri)) of
             Inl e \<Rightarrow> Inl e
           | Inr (ris, t) \<Rightarrow> Inr (ri # ris, t)))"

definition walletOwnedOutpoints :: "resolvedInput list \<Rightarrow> outpoint list" where
  "walletOwnedOutpoints provided = List.map_filter ri_op provided"

text \<open>
  One refused coin of a batch error, in the order spent, reserved, frozen, not found; the outer error decides
  between the retryable contention, an unavailable input and a failure of the store.
\<close>

definition item_outpoint :: "item_error \<Rightarrow> (nat \<times> outpoint) option" where
  "item_outpoint e =
     (case e of SpentError op _ \<Rightarrow> Some (0, op) | ReservedError op _ \<Rightarrow> Some (1, op) | FrozenError op \<Rightarrow> Some (2, op)
      | NotFoundError op \<Rightarrow> Some (3, op) | _ \<Rightarrow> None)"

definition refusedOutpoint :: "store_error \<Rightarrow> outpoint option" where
  "refusedOutpoint e =
     (case e of
        ErrBatchJoin es \<Rightarrow>
          (let found = List.map_filter item_outpoint es;
               by_kind = concat (map (\<lambda>k. filter (\<lambda>x. fst x = k) found) [0, 1, 2, 3]) in
           case by_kind of [] \<Rightarrow> None | x # _ \<Rightarrow> Some (snd x))
      | NotFound op \<Rightarrow> Some op
      | _ \<Rightarrow> None)"

definition mapProvidedInputError :: "store_error \<Rightarrow> perr" where
  "mapProvidedInputError e =
     (if e = ErrContention then ErrUTXOContention e
      else case refusedOutpoint e of None \<Rightarrow> StoreErr e | Some op \<Rightarrow> ErrInputUnavailable op e)"

definition reserveProvidedInputs :: "int \<Rightarrow> string \<Rightarrow> outpoint list \<Rightarrow> unit step" where
  "reserveProvidedInputs userID reference ops p =
     (if ops = [] then (p, Inr ())
      else case utxo_call (\<lambda>s. plain_err (ReserveOutpoints s userID reference ops)) p of
        (p', Inl (StoreErr e)) \<Rightarrow> (p', Inl (mapProvidedInputError e))
      | x \<Rightarrow> x)"

section \<open>Ancestry\<close>

definition maxBEEFDepth :: nat where
  "maxBEEFDepth = 16"

text \<open>
  The walk over the local ancestry; the first argument is the depth that is left, and the inputs of a stored
  transaction without a proof are walked one level deeper.
\<close>

function (sequential) buildBEEF ::
    "sdk \<Rightarrow> net \<Rightarrow> 'b beef_lib \<Rightarrow> bool \<Rightarrow> metadb \<Rightarrow> string list \<Rightarrow> nat \<Rightarrow> string \<Rightarrow> 'b \<Rightarrow> perr + 'b"
  and ancestors ::
    "sdk \<Rightarrow> net \<Rightarrow> 'b beef_lib \<Rightarrow> bool \<Rightarrow> metadb \<Rightarrow> string list \<Rightarrow> nat \<Rightarrow> outpoint option list \<Rightarrow> 'b \<Rightarrow> perr + 'b" where
  "buildBEEF lib nt bl direct db knownTxids 0 txid beef = Inl (BeefFailed txid)"
| "buildBEEF lib nt bl direct db knownTxids (Suc left) txid beef =
     (case NewHashFromHex lib txid of
        None \<Rightarrow> Inl (BadHash txid)
      | Some h \<Rightarrow>
          if FindTransactionByHash bl beef h \<noteq> None then Inr beef
          else if txid \<in> set knownTxids then Inr (MergeTxidOnly bl beef h)
          else case FindByTxID (db_known db) txid of
            Inl e \<Rightarrow> Inl (MetaErr e)
          | Inr None \<Rightarrow> Inr (MergeTxidOnly bl beef h)
          | Inr (Some kt) \<Rightarrow>
              if kt_RawTx kt = [] then Inr (MergeTxidOnly bl beef h)
              else case NewTransactionFromBytes nt (kt_RawTx kt) of
                None \<Rightarrow> Inl BadRawTx
              | Some tx \<Rightarrow>
                  if kt_MerklePath kt \<noteq> [] then
                    (case MergeProvenTx bl beef tx (kt_MerklePath kt) of None \<Rightarrow> Inl (BeefFailed txid) | Some b \<Rightarrow> Inr b)
                  else case MergeRawTx bl beef (kt_RawTx kt) of
                    None \<Rightarrow> Inl (BeefFailed txid)
                  | Some b \<Rightarrow>
                      if direct then Inr b
                      else case inputBEEFFor db txid (kt_InputBEEF kt) of
                        Inl e \<Rightarrow> Inl e
                      | Inr stored \<Rightarrow>
                          (case (if stored = [] then Some b else MergeBeefBytes bl b stored) of
                             None \<Rightarrow> Inl (BeefFailed txid)
                           | Some b' \<Rightarrow> ancestors lib nt bl direct db knownTxids left (tx_inputs tx) b'))"
| "ancestors lib nt bl direct db knownTxids left [] beef = Inr beef"
| "ancestors lib nt bl direct db knownTxids left (None # ins) beef = ancestors lib nt bl direct db knownTxids left ins beef"
| "ancestors lib nt bl direct db knownTxids left (Some op # ins) beef =
     (if FindTransactionByHash bl beef (op_TxID op) \<noteq> None then ancestors lib nt bl direct db knownTxids left ins beef
      else case buildBEEF lib nt bl direct db knownTxids left (HashString lib (op_TxID op)) beef of
        Inl e \<Rightarrow> Inl e
      | Inr b \<Rightarrow> ancestors lib nt bl direct db knownTxids left ins b)"
  by pat_completeness auto
termination
  by (relation "measures [\<lambda>x. case x of Inl (_, _, _, _, _, _, n, _) \<Rightarrow> 2 * n | Inr (_, _, _, _, _, _, n, _) \<Rightarrow> 2 * n + 1,
                          \<lambda>x. case x of Inl _ \<Rightarrow> 0 | Inr (_, _, _, _, _, _, _, ins, _) \<Rightarrow> length ins]") auto

fun beefLoopTxids ::
    "sdk \<Rightarrow> net \<Rightarrow> 'b beef_lib \<Rightarrow> bool \<Rightarrow> metadb \<Rightarrow> string list \<Rightarrow> string list \<Rightarrow> 'b \<Rightarrow> perr + 'b" where
  "beefLoopTxids lib nt bl direct db knownTxids [] beef = Inr beef"
| "beefLoopTxids lib nt bl direct db knownTxids (t # ts) beef =
     (case buildBEEF lib nt bl direct db knownTxids (Suc maxBEEFDepth) t beef of
        Inl e \<Rightarrow> Inl e
      | Inr b \<Rightarrow> beefLoopTxids lib nt bl direct db knownTxids ts b)"

definition getBEEFForTxIDs ::
    "sdk \<Rightarrow> net \<Rightarrow> 'b beef_lib \<Rightarrow> bool \<Rightarrow> metadb \<Rightarrow> string list \<Rightarrow> 'b option \<Rightarrow> string list \<Rightarrow> perr + 'b" where
  "getBEEFForTxIDs lib nt bl direct db txids base knownTxids =
     beefLoopTxids lib nt bl direct db knownTxids txids (case base of Some b \<Rightarrow> b | None \<Rightarrow> NewBeefV2 bl)"

definition parseProvidedBEEF :: "'b beef_lib \<Rightarrow> bytes \<Rightarrow> perr + 'b option" where
  "parseProvidedBEEF bl b =
     (if b = [] then Inr None
      else case NewBeefFromBytes bl b of None \<Rightarrow> Inl (BeefFailed ''provided'') | Some beef \<Rightarrow> Inr (Some beef))"

section \<open>Output plans\<close>

definition commissionLockingScript :: "create_policy \<Rightarrow> perr + bytes" where
  "commissionLockingScript pol =
     (if cp_commissionSatoshis pol = 0 then Inr []
      else case cp_commissionScript pol of None \<Rightarrow> Inl (BadRequest ''commission'') | Some b \<Rightarrow> Inr b)"

definition hexBytes :: "'b beef_lib \<Rightarrow> string \<Rightarrow> bytes option" where
  "hexBytes bl s = (if s = '''' then Some [] else ScriptFromHex bl s)"

fun providedPlans :: "'b beef_lib \<Rightarrow> create_output list \<Rightarrow> perr + outputPlan list" where
  "providedPlans bl [] = Inr []"
| "providedPlans bl (o' # os) =
     (case hexBytes bl (co_LockingScript o') of
        None \<Rightarrow> Inl (BadRequest ''locking script'')
      | Some ls \<Rightarrow>
          (case providedPlans bl os of
             Inl e \<Rightarrow> Inl e
           | Inr ps \<Rightarrow>
               Inr (\<lparr>pn_satoshis = i64 (co_Satoshis o'), pn_lockingScript = ls, pn_basket = co_Basket o', pn_change = False,
                     pn_outputType = ''custom'', pn_providedBy = ''you'', pn_purpose = '''', pn_description = co_OutputDescription o',
                     pn_customInstructions = co_CustomInstructions o', pn_derivationPrefix = None, pn_derivationSuffix = None,
                     pn_tags = co_Tags o'\<rparr> # ps)))"

definition commissionPlans :: "create_policy \<Rightarrow> bytes \<Rightarrow> outputPlan list" where
  "commissionPlans pol scr =
     (if cp_commissionSatoshis pol = 0 then []
      else [\<lparr>pn_satoshis = i64_wrap (int (cp_commissionSatoshis pol)), pn_lockingScript = scr, pn_basket = None, pn_change = False,
             pn_outputType = ''P2PKH'', pn_providedBy = ''storage'', pn_purpose = ''storage-commission'',
             pn_description = ''Storage Service Charge'', pn_customInstructions = None, pn_derivationPrefix = None,
             pn_derivationSuffix = None, pn_tags = []\<rparr>])"

text \<open>Wallet-derived outputs: the fuel coins of a fan-out and the change, each with a derivation suffix of its own.\<close>

fun derivedPlans :: "rand \<Rightarrow> nat \<Rightarrow> string \<Rightarrow> string \<Rightarrow> int list \<Rightarrow> perr + outputPlan list" where
  "derivedPlans rnd k prefix basket [] = Inr []"
| "derivedPlans rnd k prefix basket (v # vs) =
     (case Base64 rnd k of
        None \<Rightarrow> Inl RandFailed
      | Some suffix \<Rightarrow>
          (case derivedPlans rnd (Suc k) prefix basket vs of
             Inl e \<Rightarrow> Inl e
           | Inr ps \<Rightarrow>
               Inr (\<lparr>pn_satoshis = v, pn_lockingScript = [], pn_basket = Some basket, pn_change = True, pn_outputType = ''P2PKH'',
                     pn_providedBy = ''storage'', pn_purpose = ''change'', pn_description = '''', pn_customInstructions = None,
                     pn_derivationPrefix = Some prefix, pn_derivationSuffix = Some suffix, pn_tags = []\<rparr> # ps)))"

definition fuelValues :: "create_args \<Rightarrow> int list" where
  "fuelValues args = (case ca_FuelShape args of None \<Rightarrow> [] | Some sh \<Rightarrow> replicate (unat (sh_Count sh)) (i64 (sh_Satoshis sh)))"

definition buildOutputPlans ::
    "'b beef_lib \<Rightarrow> rand \<Rightarrow> create_policy \<Rightarrow> create_args \<Rightarrow> result \<Rightarrow> string \<Rightarrow> bytes \<Rightarrow> perr + outputPlan list" where
  "buildOutputPlans bl rnd pol args fr prefix commissionScript =
     (case providedPlans bl (ca_Outputs args) of
        Inl e \<Rightarrow> Inl e
      | Inr given \<Rightarrow>
          (case derivedPlans rnd 2 prefix (case ca_FuelShape args of None \<Rightarrow> '''' | Some sh \<Rightarrow> sh_Basket sh) (fuelValues args) of
             Inl e \<Rightarrow> Inl e
           | Inr fuel \<Rightarrow>
               (case of_go (distributeChange (res_ChangeAmount fr) (res_ChangeOutputsCount fr)) of
                  Inl e \<Rightarrow> Inl e
                | Inr values \<Rightarrow>
                    (case derivedPlans rnd (2 + length fuel) prefix (changeDestinationBasket pol (ca_FuelShape args))
                            (map (\<lambda>v. i64_wrap (int v)) values) of
                       Inl e \<Rightarrow> Inl e
                     | Inr chg \<Rightarrow> Inr (given @ commissionPlans pol commissionScript @ fuel @ chg)))))"

section \<open>The signing template\<close>

record sdk_input =
  si_Vin :: nat
  si_SourceTxID :: string
  si_SourceVout :: u32
  si_SourceSatoshis :: int
  si_SourceLockingScript :: string
  si_SourceTransaction :: bytes
  si_UnlockingScriptLength :: "nat option"
  si_ProvidedBy :: string
  si_Type :: string
  si_DerivationPrefix :: "string option"
  si_DerivationSuffix :: "string option"
  si_SenderIdentityKey :: "string option"

record sdk_output =
  so_LockingScript :: string
  so_Satoshis :: u64
  so_OutputDescription :: string
  so_Basket :: "string option"
  so_CustomInstructions :: "string option"
  so_Tags :: "string list"
  so_Vout :: u32
  so_ProvidedBy :: string
  so_Purpose :: string
  so_DerivationSuffix :: "string option"

record create_result =
  cr_InputBeef :: bytes
  cr_Inputs :: "sdk_input list"
  cr_Outputs :: "sdk_output list"
  cr_NoSendChangeOutputVouts :: "nat list"
  cr_DerivationPrefix :: string
  cr_Version :: u32
  cr_LockTime :: u32
  cr_Reference :: string

definition lockingScriptFor :: "'b beef_lib \<Rightarrow> output_row option \<Rightarrow> 'b \<Rightarrow> string \<Rightarrow> u32 \<Rightarrow> bytes" where
  "lockingScriptFor bl row beef txid vout =
     (case row of
        Some r \<Rightarrow> if o_LockingScript r \<noteq> [] then o_LockingScript r
                  else (case sourceOutput bl (Some beef) txid vout of Some (_, Some b) \<Rightarrow> b | _ \<Rightarrow> [])
      | None \<Rightarrow> (case sourceOutput bl (Some beef) txid vout of Some (_, Some b) \<Rightarrow> b | _ \<Rightarrow> []))"

definition sourceTxBytesFor :: "'b beef_lib \<Rightarrow> 'b \<Rightarrow> string \<Rightarrow> bytes" where
  "sourceTxBytesFor bl beef txid = (case FindTransaction bl beef txid of Some tx \<Rightarrow> tx_bytes tx | None \<Rightarrow> [])"

definition providedTemplate :: "'b beef_lib \<Rightarrow> 'b \<Rightarrow> bool \<Rightarrow> nat \<times> resolvedInput \<Rightarrow> sdk_input" where
  "providedTemplate bl beef includeSourceTx vr =
     (let (vin, ri) = vr in
     \<lparr>si_Vin = vin, si_SourceTxID = ci_TxID (ri_input ri), si_SourceVout = ci_Vout (ri_input ri), si_SourceSatoshis = ri_satoshis ri,
      si_SourceLockingScript = hexEncode (ri_lockingScript ri),
      si_SourceTransaction = (if includeSourceTx then sourceTxBytesFor bl beef (ci_TxID (ri_input ri)) else []),
      si_UnlockingScriptLength = inputScriptLength (ri_input ri),
      si_ProvidedBy = (if ri_op ri = None then ''you'' else ''you-and-storage''), si_Type = ''custom'',
      si_DerivationPrefix = None, si_DerivationSuffix = None, si_SenderIdentityKey = None\<rparr>)"

definition allocatedTemplate ::
    "sdk \<Rightarrow> 'b beef_lib \<Rightarrow> 'b \<Rightarrow> bool \<Rightarrow> (string \<times> u32 \<Rightarrow> output_row option) \<Rightarrow> nat \<times> utxo \<Rightarrow> sdk_input" where
  "allocatedTemplate lib bl beef includeSourceTx rows vu =
     (let (vin, u) = vu; txid = HashString lib (op_TxID (u_Outpoint u)); vout = op_Vout (u_Outpoint u); row = rows (txid, vout) in
      \<lparr>si_Vin = vin, si_SourceTxID = txid, si_SourceVout = vout, si_SourceSatoshis = i64 (u_Satoshis u),
       si_SourceLockingScript = hexEncode (lockingScriptFor bl row beef txid vout),
       si_SourceTransaction = (if includeSourceTx then sourceTxBytesFor bl beef txid else []),
       si_UnlockingScriptLength = Some 107, si_ProvidedBy = ''storage'', si_Type = ''P2PKH'',
       si_DerivationPrefix = (case row of Some r \<Rightarrow> o_DerivationPrefix r | None \<Rightarrow> None),
       si_DerivationSuffix = (case row of Some r \<Rightarrow> o_DerivationSuffix r | None \<Rightarrow> None),
       si_SenderIdentityKey = (case row of Some r \<Rightarrow> o_SenderIdentityKey r | None \<Rightarrow> None)\<rparr>)"

definition buildResultInputs ::
    "sdk \<Rightarrow> 'b beef_lib \<Rightarrow> metadb \<Rightarrow> int \<Rightarrow> resolvedInput list \<Rightarrow> utxo list \<Rightarrow> 'b \<Rightarrow> bool \<Rightarrow> perr + sdk_input list" where
  "buildResultInputs lib bl db userID provided allocated beef includeSourceTx =
     (case localOutputsByOutpoint db userID (map (\<lambda>u. (HashString lib (op_TxID (u_Outpoint u)), op_Vout (u_Outpoint u))) allocated) of
        Inl e \<Rightarrow> Inl e
      | Inr rows \<Rightarrow> Inr (map (providedTemplate bl beef includeSourceTx) (enumerate 0 provided) @
                          map (allocatedTemplate lib bl beef includeSourceTx rows) (enumerate (length provided) allocated)))"

text \<open>The outputs of the template; the index of a plan is its \<open>vout\<close>.\<close>

definition buildResultOutputs :: "outputPlan list \<Rightarrow> sdk_output list" where
  "buildResultOutputs plans =
     map (\<lambda>(vout, pl).
       \<lparr>so_LockingScript = hexEncode (pn_lockingScript pl), so_Satoshis = of_int (pn_satoshis pl),
        so_OutputDescription = pn_description pl, so_Basket = pn_basket pl, so_CustomInstructions = pn_customInstructions pl,
        so_Tags = pn_tags pl, so_Vout = of_nat vout, so_ProvidedBy = pn_providedBy pl, so_Purpose = pn_purpose pl,
        so_DerivationSuffix = pn_derivationSuffix pl\<rparr>) (enumerate 0 plans)"

definition noSendChangeVouts :: "bool \<Rightarrow> outputPlan list \<Rightarrow> string \<Rightarrow> nat list" where
  "noSendChangeVouts isNoSend plans basket =
     (if \<not> isNoSend then [] else filter (\<lambda>i. pn_change (plans ! i) \<and> pn_basket (plans ! i) = Some basket) [0..<length plans])"

section \<open>Storing the unsigned transaction\<close>

fun distinctTxids :: "string list \<Rightarrow> string list \<Rightarrow> string list" where
  "distinctTxids out [] = out"
| "distinctTxids out (t # ts) = distinctTxids (if t \<in> set out then out else out @ [t]) ts"

definition allocatedTxids :: "sdk \<Rightarrow> utxo list \<Rightarrow> string list" where
  "allocatedTxids lib us = distinctTxids [] (map (\<lambda>u. HashString lib (op_TxID (u_Outpoint u))) us)"

definition insertTx :: "new_tx \<Rightarrow> nat step" where
  "insertTx nx p =
     (let ((rows, labels), r) = tx_insert (\<lambda>k. p_clock p (p_ticks p + k)) (db_txs (p_db p), db_labels (p_db p)) nx in
      (p\<lparr>p_ticks := p_ticks p + Suc (2 * length (nx_Labels nx)), p_db := (p_db p)\<lparr>db_txs := rows, db_labels := labels\<rparr>\<rparr>,
       case r of Inl e \<Rightarrow> Inl (MetaErr e) | Inr i \<Rightarrow> Inr i))"

definition insertOutput :: "new_output \<Rightarrow> nat step" where
  "insertOutput no p =
     (let ((outs, tags), r) = output_insert (\<lambda>k. p_clock p (p_ticks p + k)) (db_outputs (p_db p), db_tags (p_db p)) no in
      (p\<lparr>p_ticks := p_ticks p + Suc (2 * length (no_Tags no)), p_db := (p_db p)\<lparr>db_outputs := outs, db_tags := tags\<rparr>\<rparr>,
       case r of Inl e \<Rightarrow> Inl (MetaErr e) | Inr i \<Rightarrow> Inr i))"

definition planOutput :: "int \<Rightarrow> nat \<Rightarrow> u32 \<Rightarrow> outputPlan \<Rightarrow> new_output" where
  "planOutput userID txID vout pl =
     \<lparr>no_UserID = userID, no_TransactionID = txID, no_Vout = vout, no_Satoshis = pn_satoshis pl,
      no_LockingScript = pn_lockingScript pl, no_Basket = pn_basket pl, no_SpentBy = None, no_Change = pn_change pl,
      no_Type = pn_outputType pl, no_ProvidedBy = pn_providedBy pl, no_Purpose = pn_purpose pl,
      no_Description = pn_description pl, no_DerivationPrefix = pn_derivationPrefix pl,
      no_DerivationSuffix = pn_derivationSuffix pl, no_SenderIdentityKey = None,
      no_CustomInstructions = pn_customInstructions pl, no_Tags = pn_tags pl\<rparr>"

fun insertPlans :: "int \<Rightarrow> nat \<Rightarrow> nat \<Rightarrow> outputPlan list \<Rightarrow> unit step" where
  "insertPlans userID txID k [] = ret ()"
| "insertPlans userID txID k (pl # pls) =
     andThen (insertOutput (planOutput userID txID (of_nat k) pl)) (\<lambda>_. insertPlans userID txID (Suc k) pls)"

definition unsignedTx :: "int \<Rightarrow> string \<Rightarrow> create_args \<Rightarrow> int \<Rightarrow> bytes \<Rightarrow> new_tx" where
  "unsignedTx userID reference args txNet beef =
     \<lparr>nx_UserID = userID, nx_Status = TxStatusUnsigned, nx_Reference = reference, nx_IsOutgoing = True, nx_Satoshis = txNet,
      nx_Description = ca_Description args, nx_Version = (if ca_Version args = 0 then None else Some (ca_Version args)),
      nx_LockTime = (if ca_LockTime args = 0 then None else Some (ca_LockTime args)), nx_InputBEEF = beef,
      nx_Labels = ca_Labels args\<rparr>"

definition inputBeefOf ::
    "sdk \<Rightarrow> net \<Rightarrow> 'b beef_lib \<Rightarrow> create_policy \<Rightarrow> metadb \<Rightarrow> create_args \<Rightarrow> utxo list \<Rightarrow> perr + 'b \<times> bytes" where
  "inputBeefOf lib nt bl pol db args allocated =
     (case parseProvidedBEEF bl (ca_InputBEEF args) of
        Inl e \<Rightarrow> Inl e
      | Inr base \<Rightarrow>
          (case getBEEFForTxIDs lib nt bl (cp_directInputBEEF pol) db
                  (allocatedTxids lib allocated) base (ca_KnownTxids args) of
             Inl e \<Rightarrow> Inl e
           | Inr beef \<Rightarrow> (case BeefBytes bl beef of None \<Rightarrow> Inl (BeefFailed ''serialize'') | Some b \<Rightarrow> Inr (beef, b))))"

definition persistCreateAction ::
    "sdk \<Rightarrow> net \<Rightarrow> 'b beef_lib \<Rightarrow> rand \<Rightarrow> create_policy \<Rightarrow> int \<Rightarrow> string \<Rightarrow> string \<Rightarrow> create_args \<Rightarrow> resolvedInput list \<Rightarrow>
     bytes \<Rightarrow> result \<Rightarrow> create_result step" where
  "persistCreateAction lib nt bl rnd pol userID reference prefix args provided commissionScript fr p =
     (case buildOutputPlans bl rnd pol args fr prefix commissionScript of
        Inl e \<Rightarrow> (p, Inl e)
      | Inr plans0 \<Rightarrow>
          (case TotalAllocated fr of
             Inl e \<Rightarrow> (p, Inl (FundErr (ValueFailed e)))
           | Inr allocated \<Rightarrow>
               (case inputBeefOf lib nt bl pol (p_db p) args (res_AllocatedUTXOs fr) of
                  Inl e \<Rightarrow> (p, Inl e)
                | Inr (beef, beefBytes) \<Rightarrow>
                    (let plans = (if ca_RandomizeOutputs args then Shuffle rnd plans0 else plans0);
                         txNet = i64_wrap (res_ChangeAmount fr - allocated) in
                     andThen (insertTx (unsignedTx userID reference args txNet beefBytes))
                       (\<lambda>txID. andThen (insertPlans userID txID 0 plans)
                       (\<lambda>_ q. (q, case buildResultInputs lib bl (p_db q) userID provided (res_AllocatedUTXOs fr) beef
                                       (ca_IncludeAllSourceTransactions args) of
                           Inl e \<Rightarrow> Inl e
                         | Inr inputs \<Rightarrow>
                             Inr \<lparr>cr_InputBeef = beefBytes, cr_Inputs = inputs, cr_Outputs = buildResultOutputs plans,
                                  cr_NoSendChangeOutputVouts = noSendChangeVouts (ca_IsNoSend args) plans
                                    (changeDestinationBasket pol (ca_FuelShape args)),
                                  cr_DerivationPrefix = prefix, cr_Version = ca_Version args, cr_LockTime = ca_LockTime args,
                                  cr_Reference = reference\<rparr>))) p))))"

section \<open>Creating an action\<close>

definition fundArgs ::
    "golib \<Rightarrow> create_policy \<Rightarrow> metadb \<Rightarrow> int \<Rightarrow> string \<Rightarrow> create_args \<Rightarrow> int \<Rightarrow> string \<times> nat \<Rightarrow> fund_args" where
  "fundArgs L pol db userID reference args targetSat src =
     \<lparr>a_UserID = userID, a_Basket = fst src, a_Reservation = reference, a_TargetSat = targetSat,
      a_CurrentTxSize = TransactionSizeFromScriptLengths L (providedInputSizes (ca_Inputs args)) (outputScriptLens pol args),
      a_OutputCount = nonChangeOutputCount pol args, a_Tiers = spendTiers pol,
      a_NumberOfDesiredUTXOs = cp_NumberOfDesiredUTXOs pol, a_MinimumDesiredUTXOValue = cp_MinimumDesiredUTXOValue pol,
      a_MaxChangeOutputsPerTx = maxChangeOutputsPerTx pol, a_RequireChange = cp_requireChangeOutput pol,
      a_ExistingBasketCount = changeBasketCount pol db userID, a_Denomination = snd src\<rparr>"

record create_plan =
  pc_reference :: string
  pc_prefix :: string
  pc_inputs :: "resolvedInput list"
  pc_script :: bytes
  pc_fund :: fund_args

text \<open>Everything before the first write.\<close>

definition prepareCreate ::
    "sdk \<Rightarrow> 'b beef_lib \<Rightarrow> golib \<Rightarrow> rand \<Rightarrow> create_policy \<Rightarrow> metadb \<Rightarrow> int \<Rightarrow> create_args \<Rightarrow> perr + create_plan" where
  "prepareCreate lib bl L rnd pol db userID args =
     (case (Base64 rnd 0, Base64 rnd 1) of
        (None, _) \<Rightarrow> Inl RandFailed
      | (Some _, None) \<Rightarrow> Inl RandFailed
      | (Some reference, Some prefix) \<Rightarrow>
          (case parseProvidedBEEF bl (ca_InputBEEF args) of
             Inl e \<Rightarrow> Inl e
           | Inr beef \<Rightarrow>
               (case resolveProvidedInputs lib bl db userID beef (ca_Inputs args) 0 of
                  Inl e \<Rightarrow> Inl e
                | Inr (provided, providedInputSats) \<Rightarrow>
                    (case commissionLockingScript pol of
                       Inl e \<Rightarrow> Inl e
                     | Inr scr \<Rightarrow>
                         (case From (Signed (fundingTarget pol args providedInputSats)) of
                            Inl e \<Rightarrow> Inl (FundErr (ValueFailed e))
                          | Inr targetSat \<Rightarrow>
                              (case fundingSource pol (ca_FuelShape args) of
                                 Inl e \<Rightarrow> Inl e
                               | Inr src \<Rightarrow> Inr \<lparr>pc_reference = reference, pc_prefix = prefix, pc_inputs = provided, pc_script = scr,
                                    pc_fund = fundArgs L pol db userID reference args targetSat src\<rparr>))))))"

definition releaseReservationDetached :: "int \<Rightarrow> string \<Rightarrow> prov \<Rightarrow> prov" where
  "releaseReservationDetached userID reference p = fst (utxo_call (\<lambda>s. ReleaseReservation s userID reference) p)"

text \<open>Reserve, fund and persist: in one unit of work (Mode A), or one after the other with a release on failure.\<close>

definition createShared ::
    "golib \<Rightarrow> funder \<Rightarrow> int \<Rightarrow> create_plan \<Rightarrow> (result \<Rightarrow> 'a step) \<Rightarrow> prov \<Rightarrow> (prov \<times> (perr + 'a)) option" where
  "createShared L f userID pc persist p =
     map_option (\<lambda>x. DoUnit (\<lambda>_. x) p)
       (case reserveProvidedInputs userID (pc_reference pc) (walletOwnedOutpoints (pc_inputs pc)) p of
          (p1, Inl e) \<Rightarrow> Some (p1, Inl e)
        | (p1, Inr _) \<Rightarrow>
            (case fundStep L f (pc_fund pc) p1 of
               None \<Rightarrow> None
             | Some (p2, Inl e) \<Rightarrow> Some (p2, Inl e)
             | Some (p2, Inr fr) \<Rightarrow> Some (persist fr p2)))"

definition createSplit ::
    "golib \<Rightarrow> funder \<Rightarrow> int \<Rightarrow> create_plan \<Rightarrow> (result \<Rightarrow> 'a step) \<Rightarrow> prov \<Rightarrow> (prov \<times> (perr + 'a)) option" where
  "createSplit L f userID pc persist p =
     (case reserveProvidedInputs userID (pc_reference pc) (walletOwnedOutpoints (pc_inputs pc)) p of
        (p1, Inl e) \<Rightarrow> Some (releaseReservationDetached userID (pc_reference pc) p1, Inl e)
      | (p1, Inr _) \<Rightarrow>
          (case fundStep L f (pc_fund pc) p1 of
             None \<Rightarrow> None
           | Some (p2, Inl e) \<Rightarrow> Some (p2, Inl e)
           | Some (p2, Inr fr) \<Rightarrow>
               (case DoUnit (persist fr) p2 of
                  (p3, Inl e) \<Rightarrow> Some (if e = Panicked then p3 else releaseReservationDetached userID (pc_reference pc) p3, Inl e)
                | (p3, Inr r) \<Rightarrow> Some (p3, Inr r))))"

definition CreateAction ::
    "sdk \<Rightarrow> net \<Rightarrow> 'b beef_lib \<Rightarrow> golib \<Rightarrow> funder \<Rightarrow> rand \<Rightarrow> create_policy \<Rightarrow> int option \<Rightarrow> create_args \<Rightarrow> prov \<Rightarrow>
     (prov \<times> (perr + create_result)) option" where
  "CreateAction lib nt bl L f rnd pol auth args p =
     (case auth of
        None \<Rightarrow> Some (p, Inl ErrAuthorization)
      | Some userID \<Rightarrow>
          (case prepareCreate lib bl L rnd pol (p_db p) userID args of
             Inl e \<Rightarrow> Some (p, Inl e)
           | Inr pc \<Rightarrow>
               (if p_modeA p then createShared else createSplit) L f userID pc
                 (persistCreateAction lib nt bl rnd pol userID (pc_reference pc) (pc_prefix pc) args (pc_inputs pc) (pc_script pc)) p))"

end
