(* ===== verification/Funder_Correct.thy ===== *)
theory Funder_Correct
  imports Funder Memstore_Claims
begin

text \<open>
  Correctness of the funder against the store contract.  Everything here is proved once, inside the
  locale \<open>utxo_backend\<close>: what a pass holds when it returns, what it gives back when it fails, and that
  the walk returns.
\<close>

section \<open>Claims compose and undo\<close>

definition coins_wf :: "(outpoint \<Rightarrow> utxo option) \<Rightarrow> bool" where
  "coins_wf V \<longleftrightarrow> (\<forall>op u. V op = Some u \<longrightarrow> coin_wf op u)"

definition free_coin :: "utxo \<Rightarrow> bool" where
  "free_coin u \<longleftrightarrow> u_ReservedBy u = '''' \<and> u_SpentBy u = None"

definition walk_coin :: "fund_args \<Rightarrow> utxo \<Rightarrow> bool" where
  "walk_coin a u \<longleftrightarrow> (\<exists>tier \<in> set (a_Tiers a). claimable_coin (arg_scope a tier) u)"

lemma walk_coin_free: "walk_coin a u \<Longrightarrow> free_coin u \<and> u_UserID u = a_UserID a"
  by (auto simp: walk_coin_def claimable_coin_def free_coin_def arg_scope_def)

lemma claimed_dom: "claimed t p V us V' \<Longrightarrow> u_Outpoint ` set us \<subseteq> dom V"
  by (auto simp: claimed_def)

lemma claimed_length: "claimed t p V us V' \<Longrightarrow> finite (dom V) \<Longrightarrow> length us \<le> card (dom V)"
  using claimed_dom [of t p V us V'] card_mono [of "dom V" "u_Outpoint ` set us"]
  by (metis (no_types, lifting) claimed_def distinct_card length_map list.set_map)

lemma claimed_append:
  assumes us: "claimed t p V us V'" and vs: "claimed t q V' vs V''" and t: "t \<noteq> ''''"
    and q: "\<And>u. q u \<Longrightarrow> p u \<and> u_ReservedBy u = ''''"
  shows "claimed t p V (us @ vs) V''"
proof -
  have disj: "u_Outpoint v \<notin> u_Outpoint ` set us" if "v \<in> set vs" for v
  proof
    assume "u_Outpoint v \<in> u_Outpoint ` set us"
    then obtain u where u: "u \<in> set us" "u_Outpoint u = u_Outpoint v" by auto
    with us have "V' (u_Outpoint v) = Some u \<and> u_ReservedBy u = t"
      unfolding claimed_def by (metis held_copy_simps(1))
    moreover from vs that q obtain v0 where "V' (u_Outpoint v) = Some v0" "u_ReservedBy v0 = ''''"
      unfolding claimed_def by blast
    ultimately show False using t by simp
  qed
  hence "u_Outpoint ` set us \<inter> u_Outpoint ` set vs = {}" by (intro equals0I) (metis IntD1 IntD2 imageE)
  hence "distinct (map u_Outpoint (us @ vs))" using us vs by (simp add: claimed_def)
  moreover have "\<exists>u0. V (u_Outpoint u) = Some u0 \<and> p u0 \<and> held_copy t u0 u \<and> V'' (u_Outpoint u) = Some u"
    if "u \<in> set (us @ vs)" for u
  proof (cases "u \<in> set vs")
    case True
    with vs q obtain v0 where "V' (u_Outpoint u) = Some v0" "p v0" "held_copy t v0 u" "V'' (u_Outpoint u) = Some u"
      unfolding claimed_def by blast
    moreover have "V' (u_Outpoint u) = V (u_Outpoint u)" using us disj [OF True] by (simp add: claimed_def)
    ultimately show ?thesis by auto
  next
    case False
    with that have u: "u \<in> set us" by simp
    with disj have "u_Outpoint u \<notin> u_Outpoint ` set vs" by (metis imageE imageI)
    with vs have "V'' (u_Outpoint u) = V' (u_Outpoint u)" by (simp add: claimed_def)
    with us u show ?thesis unfolding claimed_def by auto
  qed
  moreover have "V'' op = V op" if "op \<notin> u_Outpoint ` set (us @ vs)" for op
    using us vs that unfolding claimed_def by (simp add: image_Un)
  ultimately show ?thesis unfolding claimed_def by blast
qed

lemma claimed_coin_back:
  assumes "claimed t p V us V'" "u \<in> set us" "coins_wf V" "\<And>u. p u \<Longrightarrow> free_coin u"
  shows "V (u_Outpoint u) = Some (unpinned (freed u))" "V (u_Outpoint u) = Some (freed u)"
    "u_ReservedBy u = t" "u_SpentBy u = None" "\<not> u_Pinned u" "V' (u_Outpoint u) = Some u"
proof -
  from assms obtain u0 where u0: "V (u_Outpoint u) = Some u0" "held_copy t u0 u" "free_coin u0" "V' (u_Outpoint u) = Some u"
    unfolding claimed_def by blast
  with assms(3) have wf: "coin_wf (u_Outpoint u) u0" by (simp add: coins_wf_def)
  with u0 have f: "freed u = u0" by (intro freed_held_copy) (auto simp: free_coin_def coin_wf_def)
  have np: "\<not> u_Pinned u0" using wf u0(3) by (auto simp: coin_wf_def free_coin_def)
  hence "unpinned u0 = u0" by (simp add: unpinned_def)
  with f u0 show "V (u_Outpoint u) = Some (unpinned (freed u))" "V (u_Outpoint u) = Some (freed u)" by simp_all
  show "u_ReservedBy u = t" "u_SpentBy u = None" "\<not> u_Pinned u" "V' (u_Outpoint u) = Some u"
    using held_copy_simps [OF u0(2)] u0 np by (simp_all add: free_coin_def)
qed

lemma claimed_release:
  assumes c: "claimed t p V (us @ vs) V'" and wf: "coins_wf V" and p: "\<And>u. p u \<Longrightarrow> free_coin u"
    and rel: "V'' = (\<lambda>op. if op \<in> set (map u_Outpoint vs) then map_option (token_free t) (V' op) else V' op)"
  shows "claimed t p V us V''"
proof -
  have disj: "u_Outpoint u \<notin> set (map u_Outpoint vs)" if "u \<in> set us" for u
    using c that by (auto simp: claimed_def)
  have restored: "V'' (u_Outpoint v) = V (u_Outpoint v)" if "v \<in> set vs" for v
  proof -
    have "v \<in> set (us @ vs)" using that by simp
    note b = claimed_coin_back [OF c this wf p]
    with that rel show ?thesis by (simp add: token_free_def)
  qed
  have "V'' op = V op" if "op \<notin> u_Outpoint ` set us" for op
  proof (cases "op \<in> u_Outpoint ` set vs")
    case True
    with restored show ?thesis by auto
  next
    case False
    with that c rel show ?thesis by (auto simp: claimed_def image_Un)
  qed
  with c disj rel show ?thesis unfolding claimed_def by auto
qed

lemma claimed_undo:
  assumes c: "claimed t p V us V'" and wf: "coins_wf V" and p: "\<And>u. p u \<Longrightarrow> free_coin u \<and> u_UserID u = uid" and t: "t \<noteq> ''''"
  shows "(\<lambda>op. map_option (janitor_free uid t) (V' op)) = (\<lambda>op. map_option (janitor_free uid t) (V op))"
proof
  fix op
  show "map_option (janitor_free uid t) (V' op) = map_option (janitor_free uid t) (V op)"
  proof (cases "op \<in> u_Outpoint ` set us")
    case True
    then obtain u where u: "u \<in> set us" "op = u_Outpoint u" by auto
    then obtain u0 where u0: "V op = Some u0" "p u0" using c by (auto simp: claimed_def)
    have "u_UserID u = uid" using c u(1) p unfolding claimed_def by (metis held_copy_simps(3))
    with claimed_coin_back [OF c u(1) wf] p u(2) have "map_option (janitor_free uid t) (V' op) = V op"
      by (simp add: janitor_free_def held_coin_def)
    moreover have "janitor_free uid t u0 = u0" using p [OF u0(2)] t by (auto simp: janitor_free_def held_coin_def free_coin_def)
    ultimately show ?thesis using u0(1) by simp
  qed (use c in \<open>simp add: claimed_def\<close>)
qed

lemma janitor_free_fresh:
  "\<forall>op u. V op = Some u \<longrightarrow> u_ReservedBy u \<noteq> t \<Longrightarrow> (\<lambda>op. map_option (janitor_free uid t) (V op)) = V"
proof
  fix op assume "\<forall>op u. V op = Some u \<longrightarrow> u_ReservedBy u \<noteq> t"
  then show "map_option (janitor_free uid t) (V op) = V op" by (cases "V op") (auto simp: janitor_free_def held_coin_def)
qed

section \<open>Consuming a batch\<close>

lemma drainLoop_Ok:
  assumes "golib_ok L" "drainLoop L c k us = Ok (k', c')" "col_inv L base c"
  shows "\<exists>n \<le> length us. k' = k + n \<and> c_allocatedUTXOs c' = c_allocatedUTXOs c @ take n us \<and>
           col_inv L base c' \<and> same_config c c'"
  using assms(2,3)
proof (induction us arbitrary: c k)
  case (Cons u us)
  show ?case
  proof (cases "k' = k \<and> c' = c")
    case True
    with Cons.prems show ?thesis by (intro exI [of _ 0]) simp
  next
    case False
    with Cons.prems(1) obtain c1 where c1: "allocateUTXO L c u = Ok c1" and rest: "drainLoop L c1 (k + 1) us = Ok (k', c')"
      by (auto simp: go_Ok split: if_splits)
    note a = allocateUTXO_inv [OF assms(1) Cons.prems(2) c1]
    with Cons.IH [OF rest] obtain n where n: "n \<le> length us" "k' = k + 1 + n"
        "c_allocatedUTXOs c' = c_allocatedUTXOs c1 @ take n us" "col_inv L base c'" "same_config c1 c'" by blast
    with a same_config_trans show ?thesis by (intro exI [of _ "Suc n"]) auto
  qed
qed auto

lemma fuelLoop_Ok:
  assumes "golib_ok L" "fuelLoop L c k us = Ok (k', c')" "col_inv L base c"
  shows "\<exists>n \<le> length us. k' = k + n \<and> c_allocatedUTXOs c' = c_allocatedUTXOs c @ take n us \<and>
           col_inv L base c' \<and> same_config c c'"
  using assms(2,3)
proof (induction us arbitrary: c k)
  case (Cons u us)
  show ?case
  proof (cases "k' = k \<and> c' = c")
    case True
    with Cons.prems show ?thesis by (intro exI [of _ 0]) simp
  next
    case False
    with Cons.prems(1) obtain c1 where c1: "allocateUTXO L c u = Ok c1" and rest: "fuelLoop L c1 (k + 1) us = Ok (k', c')"
      by (auto simp: go_Ok split: if_splits)
    note a = allocateUTXO_inv [OF assms(1) Cons.prems(2) c1]
    with Cons.IH [OF rest] obtain n where n: "n \<le> length us" "k' = k + 1 + n"
        "c_allocatedUTXOs c' = c_allocatedUTXOs c1 @ take n us" "col_inv L base c'" "same_config c1 c'" by blast
    with a same_config_trans show ?thesis by (intro exI [of _ "Suc n"]) auto
  qed
qed auto


section \<open>A pass over any backend\<close>

text \<open>
  \<open>holds view good usable a V us s\<close>: since the coins were \<open>V\<close>, exactly the coins \<open>us\<close> have been
  claimed under the caller's token, from the walk's tiers.  \<open>pass_inv\<close> adds that these are the coins
  the collector has allocated.
\<close>

definition holds ::
    "('s \<Rightarrow> outpoint \<Rightarrow> utxo option) \<Rightarrow> ('s \<Rightarrow> bool) \<Rightarrow> ('s \<Rightarrow> bool) \<Rightarrow> fund_args \<Rightarrow> (outpoint \<Rightarrow> utxo option) \<Rightarrow>
     utxo list \<Rightarrow> 's \<Rightarrow> bool" where
  "holds view good usable a V us s \<longleftrightarrow> good s \<and> usable s \<and> claimed (a_Reservation a) (walk_coin a) V us (view s)"

definition pass_inv ::
    "('s \<Rightarrow> outpoint \<Rightarrow> utxo option) \<Rightarrow> ('s \<Rightarrow> bool) \<Rightarrow> ('s \<Rightarrow> bool) \<Rightarrow> golib \<Rightarrow> fund_args \<Rightarrow> (outpoint \<Rightarrow> utxo option) \<Rightarrow>
     collector \<Rightarrow> collector \<Rightarrow> 's \<Rightarrow> bool" where
  "pass_inv view good usable L a V c0 c s \<longleftrightarrow>
     holds view good usable a V (c_allocatedUTXOs c) s \<and> col_inv L (a_CurrentTxSize a) c \<and> same_config c0 c"

definition step_post ::
    "('s \<Rightarrow> outpoint \<Rightarrow> utxo option) \<Rightarrow> ('s \<Rightarrow> bool) \<Rightarrow> ('s \<Rightarrow> bool) \<Rightarrow> golib \<Rightarrow> fund_args \<Rightarrow> (outpoint \<Rightarrow> utxo option) \<Rightarrow>
     collector \<Rightarrow> collector \<Rightarrow> (fund_error, bool \<times> collector) go \<Rightarrow> 's \<Rightarrow> bool" where
  "step_post view good usable L a V c0 c r s \<longleftrightarrow>
     (case r of
        Ok (al, c') \<Rightarrow> pass_inv view good usable L a V c0 c' s \<and>
          length (c_allocatedUTXOs c) + (if al then 1 else 0) \<le> length (c_allocatedUTXOs c')
      | _ \<Rightarrow> \<exists>us. holds view good usable a V us s)"

definition setting :: "golib \<Rightarrow> fund_args \<Rightarrow> (outpoint \<Rightarrow> utxo option) \<Rightarrow> bool" where
  "setting L a V \<longleftrightarrow> golib_ok L \<and> a_Reservation a \<noteq> '''' \<and> coins_wf V \<and> finite (dom V)"

lemma step_bind_cases:
  assumes "step_bind x f = (s', r)"
  obtains s a where "x = (s, Ok a)" "f s a = (s', r)" | e where "x = (s', Err e)" "r = Err e" | "x = (s', Panic)" "r = Panic"
  using assms by (cases x; cases "snd x") auto

lemma store_call_cases:
  assumes "store_call x = (s', r)"
  obtains a where "x = (s', Inr a)" "r = Ok a" | e where "x = (s', Inl e)" "r = Err (StoreFailed e)"
  using assms by (cases x; cases "snd x") auto

definition start :: "golib \<Rightarrow> funder \<Rightarrow> fund_args \<Rightarrow> (fund_error, collector) go" where
  "start L f a = newCollector L (a_TargetSat a) (a_CurrentTxSize a) (a_OutputCount a)
     (i64_wrap (a_NumberOfDesiredUTXOs a - a_ExistingBasketCount a)) (a_MinimumDesiredUTXOValue a)
     (f_feeCalculator f) (a_MaxChangeOutputsPerTx a) (a_RequireChange a)"

lemma claimed_tier:
  assumes "claimed t (walk_coin a) V us V'" "claimed t q V' vs V''" "t \<noteq> ''''" "tier \<in> set (a_Tiers a)"
    and "\<And>u. q u \<Longrightarrow> claimable_coin (arg_scope a tier) u"
  shows "claimed t (walk_coin a) V (us @ vs) V''"
  using assms(1-3) by (rule claimed_append) (use assms(4,5) in \<open>auto simp: walk_coin_def claimable_coin_def\<close>)

context utxo_backend
begin

lemma smallest_holds:
  assumes st: "setting L a V" and h: "holds view inv usable a V us s" and tier: "tier \<in> set (a_Tiers a)"
    and run: "ClaimSmallest ops s (arg_scope a tier) (a_Reservation a) m = (s', r)"
  shows "holds view inv usable a V (us @ (case r of Inr (Some u) \<Rightarrow> [u] | _ \<Rightarrow> [])) s'"
proof -
  from h have s: "inv s" "usable s" "claimed (a_Reservation a) (walk_coin a) V us (view s)" by (auto simp: holds_def)
  note law = smallest_law [OF s(1) run]
  show ?thesis
  proof (cases "\<exists>u. r = Inr (Some u)")
    case True
    then obtain u where r: "r = Inr (Some u)" by blast
    with law have "claimed (a_Reservation a) (\<lambda>u0. claimable_coin (arg_scope a tier) u0 \<and> m \<le> u_Satoshis u0) (view s) [u] (view s')"
      by simp
    from claimed_tier [OF s(3) this _ tier] st
    have "claimed (a_Reservation a) (walk_coin a) V (us @ [u]) (view s')" by (simp add: setting_def)
    with law s r show ?thesis by (simp add: holds_def)
  next
    case False
    hence "view s' = view s" using law by (auto split: sum.splits option.splits)
    with law s False show ?thesis by (auto simp: holds_def split: sum.splits option.splits)
  qed
qed

lemma largest_holds:
  assumes st: "setting L a V" and h: "holds view inv usable a V us s" and tier: "tier \<in> set (a_Tiers a)"
    and run: "ClaimLargest ops s (arg_scope a tier) (a_Reservation a) m l = (s', r)"
  shows "holds view inv usable a V (us @ (case r of Inr vs \<Rightarrow> vs | _ \<Rightarrow> [])) s'"
proof -
  from h have s: "inv s" "usable s" "claimed (a_Reservation a) (walk_coin a) V us (view s)" by (auto simp: holds_def)
  note law = largest_law [OF s(1) run]
  show ?thesis
  proof (cases r)
    case (Inr vs)
    with law have "claimed (a_Reservation a) (\<lambda>u0. claimable_coin (arg_scope a tier) u0 \<and> u_Satoshis u0 < m) (view s) vs (view s')"
      by simp
    from claimed_tier [OF s(3) this _ tier] st
    have "claimed (a_Reservation a) (walk_coin a) V (us @ vs) (view s')" by (simp add: setting_def)
    with law s Inr show ?thesis by (simp add: holds_def)
  qed (use law s in \<open>simp add: holds_def\<close>)
qed

lemma exact_holds:
  assumes st: "setting L a V" and h: "holds view inv usable a V us s" and tier: "tier \<in> set (a_Tiers a)"
    and run: "ClaimExactly ops s (arg_scope a tier) (a_Reservation a) m l = (s', r)"
  shows "holds view inv usable a V (us @ (case r of Inr vs \<Rightarrow> vs | _ \<Rightarrow> [])) s'"
proof -
  from h have s: "inv s" "usable s" "claimed (a_Reservation a) (walk_coin a) V us (view s)" by (auto simp: holds_def)
  note law = exact_law [OF s(1) run]
  show ?thesis
  proof (cases r)
    case (Inr vs)
    with law have "claimed (a_Reservation a) (\<lambda>u0. claimable_coin (arg_scope a tier) u0 \<and> u_Satoshis u0 = m) (view s) vs (view s')"
      by simp
    from claimed_tier [OF s(3) this _ tier] st
    have "claimed (a_Reservation a) (walk_coin a) V (us @ vs) (view s')" by (simp add: setting_def)
    with law s Inr show ?thesis by (simp add: holds_def)
  qed (use law s in \<open>simp add: holds_def\<close>)
qed

lemma releaseOutpoints_holds:
  assumes st: "setting L a V" and h: "holds view inv usable a V (us @ vs) s"
    and run: "releaseOutpoints ops s (a_Reservation a) vs = (s', r)"
  shows "r = Ok () \<and> holds view inv usable a V us s'"
proof -
  from h have s: "inv s" "usable s" "claimed (a_Reservation a) (walk_coin a) V (us @ vs) (view s)" by (auto simp: holds_def)
  obtain ro where ro: "ReleaseOps ops s (a_Reservation a) (map u_Outpoint vs) = (s', ro)"
      "r = (case ro of Some e \<Rightarrow> Err (StoreFailed e) | None \<Rightarrow> Ok ())"
    using run by (auto simp: releaseOutpoints_def split: prod.splits option.splits)
  note law = release_ops_law [OF s(1) ro(1)]
  from law s(2) st have none: "ro = None" by (auto simp: setting_def split: option.splits)
  have "claimed (a_Reservation a) (walk_coin a) V us (view s')"
    using law none st walk_coin_free by (intro claimed_release [OF s(3)]) (auto simp: setting_def)
  with law none ro(2) s(2) show ?thesis by (simp add: holds_def)
qed

lemma keep_consumed_holds:
  assumes st: "setting L a V" and h: "holds view inv usable a V (us @ batch) s"
    and r: "\<And>n c'. r = Ok (n, c') \<Longrightarrow> n \<le> length batch \<and> c_allocatedUTXOs c' = us @ take n batch"
    and run: "keep_consumed ops s (a_Reservation a) batch r = (s', r')"
  shows "r' = r \<and> holds view inv usable a V (case r of Ok (n, c') \<Rightarrow> c_allocatedUTXOs c' | _ \<Rightarrow> us @ batch) s'"
proof (cases r)
  case (Ok p)
  obtain n c' where p: "r = Ok (n, c')" using Ok by (cases p) auto
  show ?thesis
  proof (cases "n < length batch")
    case True
    obtain s1 r1 where rel: "releaseOutpoints ops s (a_Reservation a) (drop n batch) = (s1, r1)" by fastforce
    have "holds view inv usable a V ((us @ take n batch) @ drop n batch) s" using h by simp
    from releaseOutpoints_holds [OF st this rel] have "r1 = Ok ()" "holds view inv usable a V (us @ take n batch) s1" by auto
    with run rel p True r [OF p] show ?thesis by (auto simp: keep_consumed_def)
  next
    case False
    with run p r [OF p] h show ?thesis by (auto simp: keep_consumed_def)
  qed
qed (use run h in \<open>auto simp: keep_consumed_def\<close>)

text \<open>What a step of the pass leaves: an updated collector whose coins are held, or just held coins.\<close>

lemma drainBatch_pass:
  assumes st: "setting L a V" and col: "col_inv L (a_CurrentTxSize a) c" "same_config c0 c"
    and h: "holds view inv usable a V (c_allocatedUTXOs c @ batch) s"
    and run: "drainBatch L ops a s c batch = (s', r)"
  shows "step_post view inv usable L a V c0 c r s'"
proof -
  let ?d = "drainLoop L c 0 batch"
  obtain s1 r1 where k: "keep_consumed ops s (a_Reservation a) batch ?d = (s1, r1)" by fastforce
  have L: "golib_ok L" using st by (simp add: setting_def)
  have dOk: "n \<le> length batch \<and> c_allocatedUTXOs c' = c_allocatedUTXOs c @ take n batch \<and>
      col_inv L (a_CurrentTxSize a) c' \<and> same_config c c'" if "?d = Ok (n, c')" for n c'
    using drainLoop_Ok [OF L that col(1)] by auto
  note kh = keep_consumed_holds [OF st h _ k]
  have kk: "r1 = ?d \<and> holds view inv usable a V (case ?d of Ok (n, c') \<Rightarrow> c_allocatedUTXOs c' | _ \<Rightarrow> c_allocatedUTXOs c @ batch) s1"
    using kh dOk by blast
  show ?thesis
  proof (cases ?d)
    case (Ok p)
    obtain n c' where p: "?d = Ok (n, c')" using Ok by (cases p) auto
    have "s' = s1" "r = Ok (0 < n, c')" using run k kk p by (auto simp: drainBatch_def)
    with kk p dOk [OF p] col(2) same_config_trans show ?thesis by (auto simp: pass_inv_def step_post_def)
  qed (use run k kk in \<open>auto simp: drainBatch_def step_post_def\<close>)
qed

lemma fromTier_pass:
  assumes st: "setting L a V" and inv: "pass_inv view inv usable L a V c0 c s" and tier: "tier \<in> set (a_Tiers a)"
    and run: "fromTier L ops a s c tier rem = (s', r)"
  shows "step_post view inv usable L a V c0 c r s'"
proof -
  let ?us = "c_allocatedUTXOs c"
  have L: "golib_ok L" using st by (simp add: setting_def)
  from inv have h: "holds view inv usable a V ?us s" and col: "col_inv L (a_CurrentTxSize a) c" "same_config c0 c"
    by (auto simp: pass_inv_def)
  show ?thesis
  proof (cases "MustUInt64 rem :: (fund_error, nat) go")
    case (Ok need)
    obtain s1 r1 where sm: "ClaimSmallest ops s (arg_scope a tier) (a_Reservation a) (of_nat need) = (s1, r1)" by fastforce
    note h1 = smallest_holds [OF st h tier sm]
    consider (err) e where "r1 = Inl e" | (found) u where "r1 = Inr (Some u)" | (none) "r1 = Inr None"
      by (metis option.exhaust sum.exhaust)
    thus ?thesis
    proof cases
      case err
      with run Ok sm h1 show ?thesis by (auto simp: fromTier_def step_post_def)
    next
      case found
      with run Ok sm have r: "s' = s1" "r = go_bind (allocateUTXO L c u) (\<lambda>c'. Ok (True, c'))" by (auto simp: fromTier_def)
      have h1': "holds view inv usable a V (?us @ [u]) s1" using h1 found by simp
      show ?thesis
      proof (cases "allocateUTXO L c u")
        case (Ok c')
        from allocateUTXO_inv [OF L col(1) Ok] r Ok h1' col(2) same_config_trans show ?thesis by (auto simp: pass_inv_def step_post_def)
      qed (use r h1' in \<open>auto simp: step_post_def\<close>)
    next
      case none
      obtain s2 r2 where la: "ClaimLargest ops s1 (arg_scope a tier) (a_Reservation a) (of_nat need) insufficientBatchSize = (s2, r2)"
        by fastforce
      have "holds view inv usable a V ?us s1" using h1 none by simp
      note h2 = largest_holds [OF st this tier la]
      show ?thesis
      proof (cases r2)
        case (Inl e)
        with run Ok sm none la h2 show ?thesis by (auto simp: fromTier_def step_post_def)
      next
        case (Inr batch)
        with run Ok sm none la have "drainBatch L ops a s2 c batch = (s', r)" by (simp add: fromTier_def)
        from drainBatch_pass [OF st col _ this] h2 Inr show ?thesis by simp
      qed
    qed
  qed (use run h must_arith_not_Err in \<open>auto simp: fromTier_def step_post_def\<close>)
qed

lemma roundLoop_pass:
  assumes st: "setting L a V"
  shows "pass_inv view inv usable L a V c0 c s \<Longrightarrow> set tiers \<subseteq> set (a_Tiers a) \<Longrightarrow>
    roundLoop L ops a tiers s c rem = (s', r) \<Longrightarrow>
    step_post view inv usable L a V c0 c r s'"
proof (induction tiers arbitrary: s c)
  case (Cons tier tiers)
  obtain s1 r1 where f: "fromTier L ops a s c tier rem = (s1, r1)" by fastforce
  have t: "tier \<in> set (a_Tiers a)" "set tiers \<subseteq> set (a_Tiers a)" using Cons.prems(2) by auto
  note p = fromTier_pass [OF st Cons.prems(1) t(1) f]
  show ?case
  proof (cases "\<exists>c1. r1 = Ok (False, c1)")
    case True
    then obtain c1 where r1: "r1 = Ok (False, c1)" by blast
    with Cons.prems(3) f have "roundLoop L ops a tiers s1 c1 rem = (s', r)" by simp
    from Cons.IH [OF _ t(2) this] p r1 show ?thesis by (cases r) (auto simp: step_post_def)
  next
    case False
    with Cons.prems(3) f have "s' = s1 \<and> r = r1" by (cases r1) auto
    with p show ?thesis by simp
  qed
qed (auto simp: step_post_def)

lemma walkStep_pass:
  assumes st: "setting L a V" and inv: "pass_inv view inv usable L a V c0 c s"
  shows "case walkStep L ops a s c of
      Inl (s', r) \<Rightarrow> (case r of Ok c' \<Rightarrow> pass_inv view inv usable L a V c0 c' s' | _ \<Rightarrow> \<exists>us. holds view inv usable a V us s')
    | Inr (s', c') \<Rightarrow> pass_inv view inv usable L a V c0 c' s' \<and> length (c_allocatedUTXOs c) < length (c_allocatedUTXOs c')"
proof -
  have h: "\<exists>us. holds view inv usable a V us s" using inv by (auto simp: pass_inv_def)
  show ?thesis
  proof (cases "isFunded c")
    case (Ok funded)
    show ?thesis
    proof (cases "funded \<or> (\<exists>rem. remaining_sats L c = Ok rem \<and> rem \<le> 0)")
      case True
      with Ok inv h show ?thesis by (auto simp: walkStep_def split: go.splits)
    next
      case False
      show ?thesis
      proof (cases "remaining_sats L c")
        case (Ok rem)
        obtain s' r where run: "round_tiers L ops a s c rem = (s', r)" by fastforce
        hence "roundLoop L ops a (a_Tiers a) s c rem = (s', r)" by (simp add: round_tiers_def)
        from roundLoop_pass [OF st inv order_refl this] \<open>isFunded c = Ok funded\<close> Ok False run show ?thesis
          by (cases r) (auto simp: walkStep_def step_post_def pass_inv_def split: if_splits)
      qed (use \<open>isFunded c = Ok funded\<close> False h in \<open>auto simp: walkStep_def\<close>)
    qed
  qed (use h in \<open>auto simp: walkStep_def\<close>)
qed

text \<open>
  The walk returns: every round that goes on has allocated a coin, and there are finitely many.  As an
  induction principle over the rounds, for the facts that follow the walk.
\<close>

lemma walk_induct [consumes 2, case_names round]:
  assumes st: "setting L a V" and inv: "pass_inv view inv usable L a V c0 c s"
    and step: "\<And>c s. pass_inv view inv usable L a V c0 c s \<Longrightarrow>
      (\<And>s' c'. walkStep L ops a s c = Inr (s', c') \<Longrightarrow> pass_inv view inv usable L a V c0 c' s' \<Longrightarrow> P c' s') \<Longrightarrow> P c s"
  shows "P c s"
  using inv
proof (induction "card (dom V) - length (c_allocatedUTXOs c)" arbitrary: c s rule: less_induct)
  case less
  show ?case
  proof (rule step [OF less.prems])
    fix s' c' assume go: "walkStep L ops a s c = Inr (s', c')" and p: "pass_inv view inv usable L a V c0 c' s'"
    have "length (c_allocatedUTXOs c) < length (c_allocatedUTXOs c')" using walkStep_pass [OF st less.prems] go by simp
    moreover have "length (c_allocatedUTXOs c') \<le> card (dom V)"
      using p st by (auto simp: pass_inv_def holds_def setting_def intro: claimed_length)
    ultimately have "card (dom V) - length (c_allocatedUTXOs c') < card (dom V) - length (c_allocatedUTXOs c)" by simp
    from less.hyps [OF this p] show "P c' s'" .
  qed
qed

lemma boundedTieredClaim_pass:
  assumes st: "setting L a V" and inv: "pass_inv view inv usable L a V c0 c s"
  shows "\<exists>s' r. boundedTieredClaim L ops a s c = Some (s', r) \<and>
    (case r of Ok c' \<Rightarrow> pass_inv view inv usable L a V c0 c' s' | _ \<Rightarrow> \<exists>us. holds view inv usable a V us s')"
  using st inv
proof (induction rule: walk_induct)
  case (round c s)
  note step = walkStep_pass [OF st round(1)]
  show ?case
  proof (cases "walkStep L ops a s c")
    case (Inl x)
    with step show ?thesis by (cases x) (auto simp: boundedTieredClaim.simps)
  next
    case (Inr x)
    with step round(2) [of "fst x" "snd x"] show ?thesis by (subst boundedTieredClaim.simps) (auto split: prod.splits)
  qed
qed

lemma exactLoop_holds:
  assumes st: "setting L a V"
  shows "holds view inv usable a V (us @ acc) s \<Longrightarrow> set tiers \<subseteq> set (a_Tiers a) \<Longrightarrow>
    exactLoop ops a tiers s acc rem = (s', r) \<Longrightarrow>
    (case r of Ok got \<Rightarrow> holds view inv usable a V (us @ got) s' | _ \<Rightarrow> \<exists>vs. holds view inv usable a V vs s')"
proof (induction tiers arbitrary: s acc rem)
  case (Cons tier tiers)
  show ?case
  proof (cases "rem \<le> 0")
    case False
    obtain s1 r1 where ex: "ClaimExactly ops s (arg_scope a tier) (a_Reservation a) (of_nat (a_Denomination a)) rem = (s1, r1)"
      by fastforce
    have t: "tier \<in> set (a_Tiers a)" "set tiers \<subseteq> set (a_Tiers a)" using Cons.prems(2) by auto
    note h = exact_holds [OF st Cons.prems(1) t(1) ex]
    show ?thesis
    proof (cases r1)
      case (Inl e)
      with Cons.prems(3) False ex h show ?thesis by auto
    next
      case (Inr got)
      with Cons.prems(3) False ex have "exactLoop ops a tiers s1 (acc @ got) (rem - int (length got)) = (s', r)" by simp
      from Cons.IH [OF _ t(2) this] h Inr show ?thesis by simp
    qed
  qed (use Cons.prems in auto)
qed auto

lemma claimExactFastPath_pass:
  assumes st: "setting L a V" and inv: "pass_inv view inv usable L a V c0 c s" and al: "c_allocatedUTXOs c = []"
    and run: "claimExactFastPath L f ops a s c = (s', r)"
  shows "(case r of Ok c' \<Rightarrow> pass_inv view inv usable L a V c0 c' s' | _ \<Rightarrow> \<exists>us. holds view inv usable a V us s')"
proof -
  have h0: "\<exists>us. holds view inv usable a V us s" and h: "holds view inv usable a V ([] @ []) s"
    and col: "col_inv L (a_CurrentTxSize a) c" "same_config c0 c"
    using inv al by (auto simp: pass_inv_def)
  have L: "golib_ok L" using st by (simp add: setting_def)
  consider (early) "s' = s" "r = Ok c" | (fail) "s' = s" "\<And>x. r \<noteq> Ok x"
    | (claim) s1 r1 n where "exactLoop ops a (a_Tiers a) s [] n = (s1, r1)"
        "step_bind (s1, r1) (\<lambda>s got. step_bind (keep_consumed ops s (a_Reservation a) got (fuelLoop L c 0 got)) (\<lambda>s (_, c). (s, Ok c))) = (s', r)"
    using run
    by (auto simp: claimExactFastPath_def Let_def split: if_splits elim!: step_bind_cases)
  thus ?thesis
  proof cases
    case claim
    note e = exactLoop_holds [OF st h order_refl claim(1)]
    show ?thesis
    proof (cases r1)
      case (Ok got)
      let ?d = "fuelLoop L c 0 got"
      obtain s2 r2 where k: "keep_consumed ops s1 (a_Reservation a) got ?d = (s2, r2)" by fastforce
      have dOk: "n \<le> length got \<and> c_allocatedUTXOs c' = [] @ take n got \<and>
          col_inv L (a_CurrentTxSize a) c' \<and> same_config c c'" if "?d = Ok (n, c')" for n c'
        using fuelLoop_Ok [OF L that col(1)] al by auto
      have "holds view inv usable a V ([] @ got) s1" using e Ok by simp
      from keep_consumed_holds [OF st this _ k] dOk
      have kk: "r2 = ?d \<and> holds view inv usable a V (case ?d of Ok (n, c') \<Rightarrow> c_allocatedUTXOs c' | _ \<Rightarrow> [] @ got) s2" by blast
      with claim(2) Ok k dOk col(2) same_config_trans show ?thesis
        by (cases ?d) (auto simp: pass_inv_def)
    qed (use claim(2) e in auto)
  qed (use inv h0 in \<open>auto split: go.splits\<close>)
qed

text \<open>The outcome of a pass, and of the whole call.\<close>

lemma walk_pass:
  assumes st: "setting L a V" and inv: "pass_inv view inv usable L a V c0 c s"
  shows "\<exists>s' r. walk L ops a s c = Some (s', r) \<and>
    (case r of Ok res \<Rightarrow> \<exists>c'. pass_inv view inv usable L a V c0 c' s' \<and> collector_result c' = Ok res
             | _ \<Rightarrow> \<exists>us. holds view inv usable a V us s')"
proof -
  from boundedTieredClaim_pass [OF st inv] obtain s' r where b: "boundedTieredClaim L ops a s c = Some (s', r)"
      "case r of Ok c' \<Rightarrow> pass_inv view inv usable L a V c0 c' s' | _ \<Rightarrow> \<exists>us. holds view inv usable a V us s'" by blast
  show ?thesis
  proof (cases r)
    case (Ok c')
    hence "\<exists>us. holds view inv usable a V us s'" using b(2) by (auto simp: pass_inv_def)
    with b Ok show ?thesis by (cases "collector_result c'") (auto simp: walk_def)
  qed (use b in \<open>auto simp: walk_def\<close>)
qed

definition pass_result :: "golib \<Rightarrow> funder \<Rightarrow> fund_args \<Rightarrow> (outpoint \<Rightarrow> utxo option) \<Rightarrow> result \<Rightarrow> 's \<Rightarrow> bool" where
  "pass_result L f a V res s \<longleftrightarrow>
     (\<exists>c0 c. start L f a = Ok c0 \<and> pass_inv view inv usable L a V c0 c s \<and> collector_result c = Ok res)"

lemma fundOnce_pass:
  assumes st: "setting L a V" and s: "inv s" "usable s" "view s = V" and pos: "1 \<le> a_MaxChangeOutputsPerTx a"
  shows "\<exists>s' r. fundOnce L f ops a s = Some (s', r) \<and>
    (case r of Ok res \<Rightarrow> pass_result L f a V res s' | _ \<Rightarrow> \<exists>us. holds view inv usable a V us s')"
proof -
  have h: "\<exists>us. holds view inv usable a V us s" using s by (intro exI [of _ "[]"]) (simp add: holds_def)
  show ?thesis
  proof (cases "start L f a")
    case (Ok c)
    have L: "golib_ok L" using st by (simp add: setting_def)
    have c: "col_inv L (a_CurrentTxSize a) c" "c_allocatedUTXOs c = []"
      using newCollector_inv [OF L Ok [unfolded start_def] pos] by auto
    hence inv: "pass_inv view inv usable L a V c c s" using s by (simp add: pass_inv_def holds_def)
    show ?thesis
    proof (cases "0 < a_Denomination a")
      case True
      obtain s1 r1 where run: "claimExactFastPath L f ops a s c = (s1, r1)" by fastforce
      note p = claimExactFastPath_pass [OF st inv c(2) run]
      show ?thesis
      proof (cases r1)
        case (Ok c1)
        with p have inv1: "pass_inv view inv usable L a V c c1 s1" by simp
        hence h1: "\<exists>us. holds view inv usable a V us s1" by (auto simp: pass_inv_def)
        show ?thesis
        proof (cases "isFunded c1")
          case (Ok fd)
          from \<open>start L f a = Ok c\<close> True run \<open>r1 = Ok c1\<close> Ok
          have eq: "fundOnce L f ops a s = (if fd then Some (s1, collector_result c1) else walk L ops a s1 c1)"
            by (simp add: fundOnce_def start_def)
          show ?thesis
          proof (cases fd)
            case True
            with eq inv1 h1 \<open>start L f a = Ok c\<close> show ?thesis by (cases "collector_result c1") (auto simp: pass_result_def)
          next
            case False
            from walk_pass [OF st inv1] obtain s2 r2 where "walk L ops a s1 c1 = Some (s2, r2)"
                "case r2 of Ok res \<Rightarrow> \<exists>c'. pass_inv view inv usable L a V c c' s2 \<and> collector_result c' = Ok res
                 | _ \<Rightarrow> \<exists>us. holds view inv usable a V us s2" by blast
            with eq False \<open>start L f a = Ok c\<close> show ?thesis by (cases r2) (auto simp: pass_result_def)
          qed
        qed (use \<open>start L f a = Ok c\<close> True run \<open>r1 = Ok c1\<close> h1 in \<open>auto simp: fundOnce_def start_def\<close>)
      qed (use \<open>start L f a = Ok c\<close> True run p in \<open>auto simp: fundOnce_def start_def\<close>)
    next
      case False
      with Ok have eq: "fundOnce L f ops a s = walk L ops a s c" by (simp add: fundOnce_def start_def)
      from walk_pass [OF st inv] obtain s2 r2 where "walk L ops a s c = Some (s2, r2)"
          "case r2 of Ok res \<Rightarrow> \<exists>c'. pass_inv view inv usable L a V c c' s2 \<and> collector_result c' = Ok res
           | _ \<Rightarrow> \<exists>us. holds view inv usable a V us s2" by blast
      with eq Ok show ?thesis by (cases r2) (auto simp: pass_result_def)
    qed
  qed (use h in \<open>auto simp: fundOnce_def start_def\<close>)
qed

lemma release_frees:
  assumes st: "setting L a V" and h: "holds view inv usable a V us s"
  shows "inv (release ops s (a_UserID a) (a_Reservation a)) \<and> usable (release ops s (a_UserID a) (a_Reservation a)) \<and>
         view (release ops s (a_UserID a) (a_Reservation a)) = (\<lambda>op. map_option (janitor_free (a_UserID a) (a_Reservation a)) (V op))"
proof -
  obtain s' rn where run: "ReleaseToken ops s (a_UserID a) (a_Reservation a) = (s', rn)" by fastforce
  from h have s: "inv s" "usable s" "claimed (a_Reservation a) (walk_coin a) V us (view s)" by (auto simp: holds_def)
  note law = release_token_law [OF s(1) run]
  from law s(2) st have "view s' = (\<lambda>op. map_option (janitor_free (a_UserID a) (a_Reservation a)) (view s op))"
    by (auto simp: setting_def split: sum.splits)
  moreover have "(\<lambda>op. map_option (janitor_free (a_UserID a) (a_Reservation a)) (view s op)) =
      (\<lambda>op. map_option (janitor_free (a_UserID a) (a_Reservation a)) (V op))"
    using claimed_undo [OF s(3) _ walk_coin_free] st by (auto simp: setting_def)
  ultimately show ?thesis using law s(2) run by (simp add: release_def)
qed

lemma release_restores:
  assumes "setting L a V" "holds view inv usable a V us s" "\<forall>op u. V op = Some u \<longrightarrow> u_ReservedBy u \<noteq> a_Reservation a"
  shows "inv (release ops s (a_UserID a) (a_Reservation a)) \<and> usable (release ops s (a_UserID a) (a_Reservation a)) \<and>
         view (release ops s (a_UserID a) (a_Reservation a)) = V"
  using release_frees [OF assms(1,2)] by (simp add: janitor_free_fresh [OF assms(3)])

lemma fundLoop_pass:
  assumes st: "setting L a V" and pos: "1 \<le> a_MaxChangeOutputsPerTx a"
    and fresh: "\<forall>op u. V op = Some u \<longrightarrow> u_ReservedBy u \<noteq> a_Reservation a"
  shows "inv s \<Longrightarrow> usable s \<Longrightarrow> view s = V \<Longrightarrow>
    \<exists>s' r. fundLoop L f ops a attempt s = Some (s', r) \<and>
      (case r of Ok res \<Rightarrow> pass_result L f a V res s'
               | Err e \<Rightarrow> inv s' \<and> usable s' \<and> view s' = V
               | Panic \<Rightarrow> \<exists>us. holds view inv usable a V us s')"
proof (induction "maxFundingAttempts - attempt" arbitrary: attempt s rule: less_induct)
  case less
  from fundOnce_pass [OF st less.prems pos] obtain s1 r1 where once: "fundOnce L f ops a s = Some (s1, r1)"
      "case r1 of Ok res \<Rightarrow> pass_result L f a V res s1 | _ \<Rightarrow> \<exists>us. holds view inv usable a V us s1" by blast
  show ?case
  proof (cases r1)
    case (Err e)
    let ?s = "release ops s1 (a_UserID a) (a_Reservation a)"
    from once(2) Err obtain us where "holds view inv usable a V us s1" by auto
    note rel = release_restores [OF st this fresh]
    show ?thesis
    proof (cases "is_contention e \<and> attempt + 1 < maxFundingAttempts")
      case True
      hence "maxFundingAttempts - (attempt + 1) < maxFundingAttempts - attempt" by linarith
      from less.hyps [OF this] rel True once(1) Err show ?thesis by (subst fundLoop.simps) (simp add: Let_def)
    next
      case False
      with rel once(1) Err show ?thesis by (subst fundLoop.simps) (auto simp: Let_def)
    qed
  qed (use once in \<open>auto simp: fundLoop.simps\<close>)
qed

lemma validate_args_None:
  "validate_args a = None \<Longrightarrow> a_Reservation a \<noteq> '''' \<and> 1 \<le> a_MaxChangeOutputsPerTx a"
  by (auto simp: validate_args_def split: if_splits)

lemma Fund_pass:
  assumes "golib_ok L" "inv s" "usable s" "\<forall>op u. view s op = Some u \<longrightarrow> u_ReservedBy u \<noteq> a_Reservation a"
  shows "\<exists>s' r. Fund L f ops a s = Some (s', r) \<and>
      (case r of Ok res \<Rightarrow> pass_result L f a (view s) res s' \<and> 1 \<le> a_MaxChangeOutputsPerTx a
               | Err e \<Rightarrow> inv s' \<and> usable s' \<and> view s' = view s
               | Panic \<Rightarrow> \<exists>us. holds view inv usable a (view s) us s')"
proof (cases "validate_args a")
  case None
  have st: "setting L a (view s)"
    using assms(1,2) view_wf view_finite validate_args_None [OF None] by (auto simp: setting_def coins_wf_def)
  have pos: "1 \<le> a_MaxChangeOutputsPerTx a" using validate_args_None [OF None] by simp
  from fundLoop_pass [OF st pos assms(4,2,3) refl] None pos show ?thesis by (fastforce simp: Fund_def split: go.splits)
qed (use assms in \<open>auto simp: Fund_def\<close>)

lemma pass_result_facts:
  assumes L: "golib_ok L" and pos: "1 \<le> a_MaxChangeOutputsPerTx a" and res: "pass_result L f a V r s"
  shows "inv s" "usable s" "claimed (a_Reservation a) (walk_coin a) V (res_AllocatedUTXOs r) (view s)"
    and "sats_of (res_AllocatedUTXOs r) = a_TargetSat a + res_Fee r + res_ChangeAmount r" "0 \<le> res_ChangeAmount r"
    and "res_DustFloor r = dustFloor_of L (f_feeCalculator f)"
    and "res_ChangeOutputsCount r = 0 \<longleftrightarrow> res_ChangeAmount r < res_DustFloor r"
    and "a_OutputCount a = 0 \<or> a_RequireChange a \<Longrightarrow> 0 < res_ChangeOutputsCount r"
    and "res_ChangeOutputsCount r \<le> a_MaxChangeOutputsPerTx a"
    and "0 \<le> f_feeCalculator f \<Longrightarrow>
         a_CurrentTxSize a + input_bytes L (res_AllocatedUTXOs r) +
           34 * ((length (res_AllocatedUTXOs r) + 1) * a_MaxChangeOutputsPerTx a) \<le> 2 ^ 53 \<Longrightarrow>
         \<exists>sz. a_CurrentTxSize a + input_bytes L (res_AllocatedUTXOs r) + 34 * res_ChangeOutputsCount r \<le> sz \<and>
           sz \<le> 2 ^ 53 \<and> Calculate L (f_feeCalculator f) sz = Inr (res_Fee r)"
proof -
  from res obtain c0 c where c0: "start L f a = Ok c0" and inv: "pass_inv view inv usable L a V c0 c s"
      and run: "collector_result c = Ok r" by (auto simp: pass_result_def)
  note n = newCollector_inv [OF L c0 [unfolded start_def] pos]
  from inv have h: "holds view inv usable a V (c_allocatedUTXOs c) s" and col: "col_inv L (a_CurrentTxSize a) c"
    and same: "same_config c0 c" by (auto simp: pass_inv_def)
  note r = collector_result_Ok [OF col run]
  have capc: "cap c \<le> a_MaxChangeOutputsPerTx a" using n same by (simp add: cap_def same_config_def)
  have cnt: "c_changeOutputsCount c \<le> cap c" using col by (simp add: col_inv_def col_base_def)
  show "inv s" "usable s" "claimed (a_Reservation a) (walk_coin a) V (res_AllocatedUTXOs r) (view s)"
    using h r(1) by (auto simp: holds_def)
  show "sats_of (res_AllocatedUTXOs r) = a_TargetSat a + res_Fee r + res_ChangeAmount r" "0 \<le> res_ChangeAmount r"
    "res_DustFloor r = dustFloor_of L (f_feeCalculator f)" "res_ChangeOutputsCount r = 0 \<longleftrightarrow> res_ChangeAmount r < res_DustFloor r"
    using r n same by (simp_all add: same_config_def)
  show "a_OutputCount a = 0 \<or> a_RequireChange a \<Longrightarrow> 0 < res_ChangeOutputsCount r"
    using r(7) n same by (simp add: changeMandatory_def same_config_def)
  show "res_ChangeOutputsCount r \<le> a_MaxChangeOutputsPerTx a" using r(8) cnt capc by linarith
  show "\<exists>sz. a_CurrentTxSize a + input_bytes L (res_AllocatedUTXOs r) + 34 * res_ChangeOutputsCount r \<le> sz \<and>
           sz \<le> 2 ^ 53 \<and> Calculate L (f_feeCalculator f) sz = Inr (res_Fee r)"
    if rate: "0 \<le> f_feeCalculator f"
      and small: "a_CurrentTxSize a + input_bytes L (res_AllocatedUTXOs r) +
           34 * ((length (res_AllocatedUTXOs r) + 1) * a_MaxChangeOutputsPerTx a) \<le> 2 ^ 53"
  proof -
    have "(length (c_allocatedUTXOs c) + 1) * cap c \<le> (length (c_allocatedUTXOs c) + 1) * a_MaxChangeOutputsPerTx a"
      using capc by (rule mult_le_mono2)
    hence "a_CurrentTxSize a + input_bytes L (c_allocatedUTXOs c) + 34 * ((length (c_allocatedUTXOs c) + 1) * cap c) \<le> 2 ^ 53"
      using small unfolding r(1) by linarith
    from col_inv_fee [OF L col r(8) this] rate n same r show ?thesis by (simp add: same_config_def)
  qed
qed

lemma pass_result_fee: "pass_result L f a V r s \<Longrightarrow> golib_ok L \<Longrightarrow> 1 \<le> a_MaxChangeOutputsPerTx a \<Longrightarrow> in_range (res_Fee r)"
  using collector_result_Ok(2)
  by (fastforce simp: pass_result_def pass_inv_def col_inv_def col_base_def Calculate_def From_Inr split: option.splits sum.splits)

end

end
