(* ===== verification/Funder_Complete.thy ===== *)
theory Funder_Complete
  imports Funder_Correct
begin

text \<open>
  When the funder says there are not enough funds: over a backend with exact selection, the walk
  gives up only after it has allocated every claimable coin of its tiers.
\<close>

section \<open>Where \<open>NotEnoughFunds\<close> comes from\<close>

lemma go_bind_Err: "go_bind m f = Err e \<longleftrightarrow> m = Err e \<or> (\<exists>x. m = Ok x \<and> f x = Err e)"
  by (cases m) auto

lemma of_sum_Err: "of_sum w x = Err e \<longleftrightarrow> (\<exists>y. x = Inl y \<and> e = w y)"
  by (cases x) auto

lemma step_bind_Err: "step_bind x f = (s', Err e) \<longleftrightarrow> x = (s', Err e) \<or> (\<exists>s y. x = (s, Ok y) \<and> f s y = (s', Err e))"
  by (cases x; cases "snd x") auto

lemma store_call_Err: "store_call x \<noteq> (s', Err NotEnoughFunds)"
  by (cases x; cases "snd x") auto

lemma change_not_Err: "satsToCover c \<noteq> Err e" "change c \<noteq> Err e" "isFunded c \<noteq> Err e"
  by (auto simp: satsToCover_def change_def isFunded_def go_bind_Err must_arith_not_Err)

lemma remaining_not_Err: "remaining_sats L c \<noteq> Err e"
  by (auto simp: remaining_sats_def lookAhead_def go_bind_Err must_arith_not_Err must_not_Err change_not_Err
      split: option.splits if_splits)

lemma calculateChangeOutputs_not_nef:
  "increaseSize L c n \<noteq> Err NotEnoughFunds" "calculateChangeOutputs L c \<noteq> Err NotEnoughFunds"
  by (auto simp: calculateChangeOutputs_def increaseSize_def calculateChangeCount_def convert_u64_def Let_def
      go_bind_Err of_sum_Err must_arith_not_Err change_not_Err split: if_splits option.splits)

lemma allocateUTXO_not_nef: "allocateUTXO L c u \<noteq> Err NotEnoughFunds"
  by (auto simp: allocateUTXO_def increaseValue_def go_bind_Err of_sum_Err must_arith_not_Err calculateChangeOutputs_not_nef)

lemma newCollector_not_nef: "newCollector L v n o' w m r x req \<noteq> Err NotEnoughFunds"
  by (auto simp: newCollector_def Let_def go_bind_Err convert_u64_def calculateChangeOutputs_not_nef split: option.splits)

lemma loops_not_nef: "drainLoop L c k us \<noteq> Err NotEnoughFunds" "fuelLoop L c k us \<noteq> Err NotEnoughFunds"
  by (induction us arbitrary: c k)
     (auto simp: go_bind_Err must_arith_not_Err change_not_Err remaining_not_Err allocateUTXO_not_nef split: if_splits)

lemma keep_consumed_not_nef:
  "r \<noteq> Err NotEnoughFunds \<Longrightarrow> keep_consumed ops s t batch r \<noteq> (s', Err NotEnoughFunds)"
  by (auto simp: keep_consumed_def releaseOutpoints_def step_bind_Err split: prod.splits if_splits option.splits)

lemma fromTier_not_nef: "fromTier L ops a s c tier rem \<noteq> (s', Err NotEnoughFunds)"
  by (auto simp: fromTier_def drainBatch_def step_bind_Err must_arith_not_Err store_call_Err go_bind_Err allocateUTXO_not_nef
      keep_consumed_not_nef loops_not_nef split: option.splits)

lemma roundLoop_not_nef: "roundLoop L ops a tiers s c rem \<noteq> (s', Err NotEnoughFunds)"
  by (induction tiers arbitrary: s c) (auto simp: step_bind_Err fromTier_not_nef split: if_splits)

lemma exactLoop_not_nef: "exactLoop ops a tiers s acc n \<noteq> (s', Err NotEnoughFunds)"
  by (induction tiers arbitrary: s acc n) (auto simp: step_bind_Err store_call_Err)

lemma fastPath_not_nef: "claimExactFastPath L f ops a s c \<noteq> (s', Err NotEnoughFunds)"
  by (auto simp: claimExactFastPath_def Let_def step_bind_Err of_sum_Err must_arith_not_Err exactLoop_not_nef
      keep_consumed_not_nef loops_not_nef split: if_splits)

lemma hidden_nef: "contentionIfInventoryHidden ops a s e = NotEnoughFunds \<Longrightarrow> e = NotEnoughFunds"
  by (auto simp: contentionIfInventoryHidden_def split: if_splits)

text \<open>Without a mandatory change output, nothing remaining means funded.\<close>

lemma remaining_funded:
  assumes "\<not> changeMandatory c" "remaining_sats L c = Ok v" "isFunded c = Ok b"
  shows "b \<longleftrightarrow> v \<le> 0"
  using assms satsToCover_Ok by (fastforce simp: remaining_sats_def isFunded_def go_Ok MustSubtract_Ok)

lemma drainLoop_progress:
  assumes "golib_ok L" "col_inv L base c" "isFunded c = Ok False" "remaining_sats L c = Ok rem" "0 < rem"
    and "unat (u_Satoshis u) < nat rem" "drainLoop L c k (u # us) = Ok (k', c')"
  shows "k < k'"
proof -
  have "MustUInt64 rem = (Ok (nat rem) :: (fund_error, nat) go)" using assms(5) by (simp add: MustUInt64_def UInt64_def)
  with assms obtain c1 where c1: "allocateUTXO L c u = Ok c1" "drainLoop L c1 (k + 1) us = Ok (k', c')"
    by (auto simp: go_Ok split: if_splits)
  from drainLoop_Ok [OF assms(1) c1(2)] allocateUTXO_inv [OF assms(1,2) c1(1)] show ?thesis by fastforce
qed

section \<open>Exhaustion\<close>

context exact_backend
begin

lemma fromTier_exhausted:
  assumes st: "setting L a V" and inv: "pass_inv view inv usable L a V c0 c s"
    and nf: "isFunded c = Ok False" "remaining_sats L c = Ok rem" "0 < rem"
    and run: "fromTier L ops a s c tier rem = (s', Ok (False, c'))"
  shows "c' = c \<and> view s' = view s \<and> inv s' \<and> usable s' \<and> (\<forall>op v. view s op = Some v \<longrightarrow> \<not> claimable_coin (arg_scope a tier) v)"
proof -
  let ?sc = "arg_scope a tier" and ?t = "a_Reservation a" and ?m = "of_nat (nat rem) :: u64"
  have L: "golib_ok L" using st by (simp add: setting_def)
  from inv have s: "inv s" "usable s" and col: "col_inv L (a_CurrentTxSize a) c" by (auto simp: pass_inv_def holds_def)
  have need: "MustUInt64 rem = (Ok (nat rem) :: (fund_error, nat) go)" using nf(3) by (simp add: MustUInt64_def UInt64_def)
  obtain s1 r1 where sm: "ClaimSmallest ops s ?sc ?t ?m = (s1, r1)" by fastforce
  have r1: "r1 = Inr None"
    using run need sm by (cases r1) (auto simp: fromTier_def go_Ok split: option.splits)
  note l1 = smallest_law [OF s(1) sm]
  obtain s2 r2 where la: "ClaimLargest ops s1 ?sc ?t ?m insufficientBatchSize = (s2, r2)" by fastforce
  from run need sm r1 la obtain batch where r2: "r2 = Inr batch" and dr: "drainBatch L ops a s2 c batch = (s', Ok (False, c'))"
    by (cases r2) (auto simp: fromTier_def)
  have v1: "view s1 = view s" "inv s1" "usable s1" using l1 r1 s by auto
  note l2 = largest_law [OF v1(2) la]
  have empty: "batch = []"
  proof (rule ccontr)
    assume "batch \<noteq> []"
    then obtain u us where b: "batch = u # us" by (cases batch) auto
    with l2 r2 obtain u0 where "held_copy ?t u0 u" "u_Satoshis u0 < ?m" by (auto simp: claimed_def)
    hence "u_Satoshis u < ?m" by (simp add: held_copy_simps)
    hence "unat (u_Satoshis u) < unat ?m" by (rule word_less_nat_alt [THEN iffD1])
    moreover have "unat ?m \<le> nat rem" by (simp add: unat_of_nat)
    ultimately have lt: "unat (u_Satoshis u) < nat rem" by (rule less_le_trans)
    have "\<exists>c1. drainLoop L c 0 batch = Ok (0, c1)"
      using dr by (auto simp: drainBatch_def keep_consumed_def split: go.splits if_splits elim!: step_bind_cases)
    with drainLoop_progress [OF L col nf lt] b show False by fastforce
  qed
  hence v2: "view s2 = view s1" using l2 r2 by simp
  have "c' = c \<and> s' = s2" using dr empty by (auto simp: drainBatch_def keep_consumed_def)
  moreover have "\<not> claimable_coin ?sc v" if v: "view s op = Some v" for op v
  proof
    assume cl: "claimable_coin ?sc v"
    from smallest_none [OF s(1) sm [unfolded r1] v cl] have "u_Satoshis v < ?m" .
    from largest_full [OF v1(2) la [unfolded r2] _ cl this] v v1(1) empty show False
      by (simp add: insufficientBatchSize_def)
  qed
  ultimately show ?thesis using v1 v2 l2 by auto
qed

lemma roundLoop_exhausted:
  assumes st: "setting L a V" and nf: "isFunded c = Ok False" "remaining_sats L c = Ok rem" "0 < rem"
  shows "pass_inv view inv usable L a V c0 c s \<Longrightarrow> set tiers \<subseteq> set (a_Tiers a) \<Longrightarrow>
    roundLoop L ops a tiers s c rem = (s', Ok (False, c')) \<Longrightarrow>
    c' = c \<and> view s' = view s \<and> (\<forall>tier \<in> set tiers. \<forall>op v. view s op = Some v \<longrightarrow> \<not> claimable_coin (arg_scope a tier) v)"
proof (induction tiers arbitrary: s)
  case (Cons tier tiers)
  obtain s1 c1 where f: "fromTier L ops a s c tier rem = (s1, Ok (False, c1))"
      and rest: "roundLoop L ops a tiers s1 c1 rem = (s', Ok (False, c'))"
    using Cons.prems(3) by (auto elim!: step_bind_cases split: if_splits)
  note e = fromTier_exhausted [OF st Cons.prems(1) nf f]
  hence p: "pass_inv view inv usable L a V c0 c s1" using Cons.prems(1) by (auto simp: pass_inv_def holds_def)
  from Cons.IH [OF p] rest e Cons.prems(2) show ?case by auto
qed auto

definition spent_out :: "golib \<Rightarrow> fund_args \<Rightarrow> (outpoint \<Rightarrow> utxo option) \<Rightarrow> collector \<Rightarrow> bool" where
  "spent_out L a V c0 \<longleftrightarrow>
     (\<exists>c s. pass_inv view inv usable L a V c0 c s \<and> isFunded c = Ok False \<and>
        (\<forall>op v. view s op = Some v \<longrightarrow> \<not> walk_coin a v))"

lemma walkStep_nef:
  assumes st: "setting L a V" and inv: "pass_inv view inv usable L a V c0 c s" and nm: "\<not> changeMandatory c0"
  shows "walkStep L ops a s c = Inl (s', Err NotEnoughFunds) \<Longrightarrow> spent_out L a V c0"
    and "walkStep L ops a s c = Inl (s', Ok c') \<Longrightarrow> collector_result c' \<noteq> Err NotEnoughFunds"
proof -
  have nmc: "\<not> changeMandatory c" using nm inv by (simp add: pass_inv_def changeMandatory_def same_config_def)
  {
    assume step: "walkStep L ops a s c = Inl (s', Err NotEnoughFunds)"
    then obtain rem where nf: "isFunded c = Ok False" "remaining_sats L c = Ok rem" "0 < rem"
        and rd: "round_tiers L ops a s c rem = (s', Err NotEnoughFunds) \<or> (\<exists>c'. round_tiers L ops a s c rem = (s', Ok (False, c')))"
      by (auto simp: walkStep_def change_not_Err remaining_not_Err split: go.splits if_splits prod.splits)
    then obtain c' where "roundLoop L ops a (a_Tiers a) s c rem = (s', Ok (False, c'))"
      by (auto simp: round_tiers_def roundLoop_not_nef)
    from roundLoop_exhausted [OF st nf inv order_refl this] inv nf(1) show "spent_out L a V c0"
      unfolding spent_out_def walk_coin_def by blast
  next
    assume step: "walkStep L ops a s c = Inl (s', Ok c')"
    hence "c' = c" and "isFunded c = Ok True \<or> isFunded c = Ok False \<and> (\<exists>rem. remaining_sats L c = Ok rem \<and> rem \<le> 0)"
      by (auto simp: walkStep_def split: go.splits if_splits prod.splits)
    with remaining_funded [OF nmc] have "c' = c" "isFunded c = Ok True" by fastforce+
    thus "collector_result c' \<noteq> Err NotEnoughFunds"
      by (auto simp: collector_result_def prepareResult_def go_bind_Err change_not_Err)
  }
qed

lemma walk_nef:
  assumes st: "setting L a V" and inv: "pass_inv view inv usable L a V c0 c s" and nm: "\<not> changeMandatory c0"
  shows "walk L ops a s c = Some (s', Err NotEnoughFunds) \<Longrightarrow> spent_out L a V c0"
  using st inv
proof (induction rule: walk_induct)
  case (round c s)
  show ?case
  proof (cases "walkStep L ops a s c")
    case (Inl x)
    obtain s1 r1 where x: "x = (s1, r1)" by (cases x)
    have b: "boundedTieredClaim L ops a s c = Some (s1, r1)" using Inl x by (simp add: boundedTieredClaim.simps)
    show ?thesis
    proof (cases r1)
      case (Ok c1)
      with round(3) b have "collector_result c1 = Err NotEnoughFunds"
        by (cases "collector_result c1") (auto simp: walk_def dest: hidden_nef)
      with walkStep_nef(2) [OF st round(1) nm] Inl x Ok show ?thesis by simp
    next
      case (Err e)
      with round(3) b have "e = NotEnoughFunds" by (auto simp: walk_def dest: hidden_nef)
      with walkStep_nef(1) [OF st round(1) nm] Inl x Err show ?thesis by simp
    qed (use round(3) b in \<open>simp add: walk_def\<close>)
  next
    case (Inr x)
    with walkStep_pass [OF st round(1)] have "pass_inv view inv usable L a V c0 (snd x) (fst x)" by auto
    moreover have "walk L ops a (fst x) (snd x) = Some (s', Err NotEnoughFunds)"
      using round(3) Inr by (simp add: walk_def boundedTieredClaim.simps [of L ops a s c])
    ultimately show ?thesis using round(2) [of "fst x" "snd x"] Inr by simp
  qed
qed

lemma fundOnce_nef:
  assumes st: "setting L a V" and s: "inv s" "usable s" "view s = V" and pos: "1 \<le> a_MaxChangeOutputsPerTx a"
    and nm: "a_OutputCount a \<noteq> 0" "\<not> a_RequireChange a" and run: "fundOnce L f ops a s = Some (s', Err NotEnoughFunds)"
  shows "\<exists>c0. start L f a = Ok c0 \<and> spent_out L a V c0"
proof -
  have L: "golib_ok L" using st by (simp add: setting_def)
  obtain c where c: "start L f a = Ok c"
    using run newCollector_not_nef by (auto simp: fundOnce_def start_def split: go.splits)
  note n = newCollector_inv [OF L c [unfolded start_def] pos]
  hence inv: "pass_inv view inv usable L a V c c s" using s by (simp add: pass_inv_def holds_def)
  have nmc: "\<not> changeMandatory c" using n nm by (simp add: changeMandatory_def)
  show ?thesis
  proof (cases "0 < a_Denomination a")
    case True
    obtain s1 r1 where fp: "claimExactFastPath L f ops a s c = (s1, r1)" by fastforce
    note p = claimExactFastPath_pass [OF st inv _ fp]
    have r1: "r1 \<noteq> Err NotEnoughFunds" using fastPath_not_nef fp by metis
    from run c True fp r1 obtain c1 ok where c1: "r1 = Ok c1" and ok: "isFunded c1 = Ok ok"
        and eq: "(if ok then Some (s1, collector_result c1) else walk L ops a s1 c1) = Some (s', Err NotEnoughFunds)"
      by (cases r1; cases "isFunded (case r1 of Ok c1 \<Rightarrow> c1)")
         (auto simp: fundOnce_def start_def change_not_Err bool.case_eq_if split: if_splits)
    have "\<not> ok"
    proof
      assume ok
      with eq ok show False by (auto simp: collector_result_def prepareResult_def go_bind_Err change_not_Err)
    qed
    with eq have "walk L ops a s1 c1 = Some (s', Err NotEnoughFunds)" by simp
    moreover have "pass_inv view inv usable L a V c c1 s1" using p n c1 by simp
    ultimately show ?thesis using walk_nef [OF st _ nmc] c by blast
  next
    case False
    with run c have "walk L ops a s c = Some (s', Err NotEnoughFunds)" by (simp add: fundOnce_def start_def)
    from walk_nef [OF st inv nmc this] c show ?thesis by blast
  qed
qed

lemma fundLoop_nef:
  assumes st: "setting L a V" and pos: "1 \<le> a_MaxChangeOutputsPerTx a"
    and fresh: "\<forall>op u. V op = Some u \<longrightarrow> u_ReservedBy u \<noteq> a_Reservation a"
    and nm: "a_OutputCount a \<noteq> 0" "\<not> a_RequireChange a"
  shows "inv s \<Longrightarrow> usable s \<Longrightarrow> view s = V \<Longrightarrow> fundLoop L f ops a attempt s = Some (s', Err NotEnoughFunds) \<Longrightarrow>
    \<exists>c0. start L f a = Ok c0 \<and> spent_out L a V c0"
proof (induction "maxFundingAttempts - attempt" arbitrary: attempt s rule: less_induct)
  case less
  from fundOnce_pass [OF st less.prems(1-3) pos] obtain s1 r1 where once: "fundOnce L f ops a s = Some (s1, r1)"
      "case r1 of Ok res \<Rightarrow> pass_result L f a V res s1 | _ \<Rightarrow> \<exists>us. holds view inv usable a V us s1" by blast
  from less.prems(4) once(1) obtain e where e: "r1 = Err e"
    by (cases r1) (auto simp: fundLoop.simps)
  with once(2) obtain us where us: "holds view inv usable a V us s1" by auto
  note rel = release_restores [OF st us fresh]
  show ?case
  proof (cases "is_contention e \<and> attempt + 1 < maxFundingAttempts")
    case True
    hence m: "maxFundingAttempts - (attempt + 1) < maxFundingAttempts - attempt" by linarith
    have "fundLoop L f ops a (attempt + 1) (release ops s1 (a_UserID a) (a_Reservation a)) = Some (s', Err NotEnoughFunds)"
      using less.prems(4) once(1) e True by (subst (asm) fundLoop.simps) (simp add: Let_def)
    from less.hyps [OF m _ _ _ this] rel show ?thesis by blast
  next
    case False
    with less.prems(4) once(1) e have "e = NotEnoughFunds"
      by (subst (asm) fundLoop.simps) (auto simp: Let_def split: if_splits)
    with fundOnce_nef [OF st less.prems(1-3) pos nm] once(1) e show ?thesis by simp
  qed
qed

lemma spent_out_facts:
  assumes L: "golib_ok L" and pos: "1 \<le> a_MaxChangeOutputsPerTx a" and nm: "a_OutputCount a \<noteq> 0" "\<not> a_RequireChange a"
    and c0: "start L f a = Ok c0" and out: "spent_out L a V c0" and t: "a_Reservation a \<noteq> ''''"
  shows "\<exists>us V' k fee. claimed (a_Reservation a) (walk_coin a) V us V' \<and>
     (\<forall>op u. V op = Some u \<longrightarrow> walk_coin a u \<longrightarrow> op \<in> u_Outpoint ` set us) \<and>
     Calculate L (f_feeCalculator f) (u64_wrap (a_CurrentTxSize a + input_bytes L us + k * 34)) = Inr fee \<and>
     k \<le> (length us + 1) * a_MaxChangeOutputsPerTx a \<and> sats_of us < a_TargetSat a + fee"
proof -
  from out obtain c s where c: "pass_inv view inv usable L a V c0 c s" "isFunded c = Ok False"
      and none: "\<forall>op v. view s op = Some v \<longrightarrow> \<not> walk_coin a v" by (auto simp: spent_out_def)
  note n = newCollector_inv [OF L c0 [unfolded start_def] pos]
  let ?us = "c_allocatedUTXOs c"
  from c(1) have cl: "claimed (a_Reservation a) (walk_coin a) V ?us (view s)"
    and col: "col_inv L (a_CurrentTxSize a) c" and same: "same_config c0 c" by (auto simp: pass_inv_def holds_def)
  from col obtain k where k: "c_txSize c = u64_wrap (a_CurrentTxSize a + input_bytes L ?us + k * 34)"
      "k \<le> (length ?us + 1) * cap c" and fee: "Calculate L (c_feeCalculator c) (c_txSize c) = Inr (c_fee c)"
      and cov: "c_satsCovered c = sats_of ?us"
    using p2pkh_sizes(1) [OF L] by (auto simp: col_inv_def col_base_def changeOutputSize_def)
  have "cap c \<le> a_MaxChangeOutputsPerTx a" using n same by (simp add: cap_def same_config_def)
  hence kk: "k \<le> (length ?us + 1) * a_MaxChangeOutputsPerTx a" using k(2) mult_le_mono2 order_trans by blast
  have "\<not> changeMandatory c" using n same nm by (simp add: changeMandatory_def same_config_def)
  with c(2) obtain v where "satsToCover c = Ok v" "\<not> v \<le> c_satsCovered c" by (auto simp: isFunded_def go_Ok)
  with satsToCover_Ok cov n same have lt: "sats_of ?us < a_TargetSat a + c_fee c" by (fastforce simp: same_config_def)
  have "op \<in> u_Outpoint ` set ?us" if "V op = Some u" "walk_coin a u" for op u
    using cl none that unfolding claimed_def by metis
  with cl k kk fee lt n same show ?thesis
    by (intro exI [of _ ?us] exI [of _ "view s"] exI [of _ k] exI [of _ "c_fee c"]) (auto simp: same_config_def)
qed

lemma Fund_nef:
  assumes "golib_ok L" "inv s" "usable s" "\<forall>op u. view s op = Some u \<longrightarrow> u_ReservedBy u \<noteq> a_Reservation a"
    and nm: "a_OutputCount a \<noteq> 0" "\<not> a_RequireChange a" and run: "Fund L f ops a s = Some (s', Err NotEnoughFunds)"
  shows "\<exists>us V' k fee. claimed (a_Reservation a) (walk_coin a) (view s) us V' \<and>
     (\<forall>op u. view s op = Some u \<longrightarrow> walk_coin a u \<longrightarrow> op \<in> u_Outpoint ` set us) \<and>
     Calculate L (f_feeCalculator f) (u64_wrap (a_CurrentTxSize a + input_bytes L us + k * 34)) = Inr fee \<and>
     k \<le> (length us + 1) * a_MaxChangeOutputsPerTx a \<and> sats_of us < a_TargetSat a + fee"
proof -
  have "validate_args a \<noteq> Some NotEnoughFunds"
  proof -
    have "badTier ts \<noteq> Some NotEnoughFunds" for ts by (induction ts) auto
    thus ?thesis by (simp add: validate_args_def)
  qed
  with run have none: "validate_args a = None" and loop: "fundLoop L f ops a 0 s = Some (s', Err NotEnoughFunds)"
    by (auto simp: Fund_def split: option.splits)
  note va = validate_args_None [OF none]
  have st: "setting L a (view s)"
    using assms(1,2) view_wf view_finite va by (auto simp: setting_def coins_wf_def)
  from fundLoop_nef [OF st _ assms(4) nm assms(2,3) refl loop] va
  obtain c0 where "start L f a = Ok c0" "spent_out L a (view s) c0" by auto
  from spent_out_facts [OF assms(1) _ nm this] va show ?thesis by blast
qed

end

end
