(* ===== verification/Funder_Props.thy ===== *)
theory Funder_Props
  imports Funder_Complete
begin

text \<open>
  The funder running on the in-memory store: two concrete runs, then the funding properties, which
  instantiate the locale results of \<open>Funder_Correct\<close> and \<open>Funder_Complete\<close> through the
  interpretation \<open>mem\<close> of the store contract.
\<close>

section \<open>Concrete runs\<close>

definition demo_store :: "u64 \<Rightarrow> store" where
  "demo_store v = \<lparr>s_rows = [(Outpoint 1 0, \<lparr>r_utxo = demo_coin v, r_seq = 1\<rparr>)], s_nextSeq = 1, s_closed = False,
     s_now = \<lambda>_. 5, s_ticks = 1\<rparr>"

definition demo_args :: fund_args where
  "demo_args = \<lparr>a_UserID = 1, a_Basket = ''default'', a_Reservation = ''tx'', a_TargetSat = 1000, a_CurrentTxSize = 45,
     a_OutputCount = 1, a_Tiers = [TierMined], a_NumberOfDesiredUTXOs = 8, a_MinimumDesiredUTXOValue = 1,
     a_MaxChangeOutputsPerTx = 8, a_RequireChange = False, a_ExistingBasketCount = 0, a_Denomination = 0\<rparr>"

definition demo_model :: fee_model where
  "demo_model = \<lparr>fm_Type = SatPerKB, fm_Value = 100\<rparr>"

definition demo_funder :: funder where
  "demo_funder = \<lparr>f_feeCalculator = 100, f_feeModel = demo_model\<rparr>"

definition held_demo :: "u64 \<Rightarrow> utxo" where
  "held_demo v = (demo_coin v)\<lparr>u_ReservedBy := ''tx'', u_ReservedAt := 5\<rparr>"

definition held_store :: "u64 \<Rightarrow> store" where
  "held_store v = \<lparr>s_rows = [(Outpoint 1 0, \<lparr>r_utxo = held_demo v, r_seq = 1\<rparr>)], s_nextSeq = 1, s_closed = False,
     s_now = \<lambda>_. 5, s_ticks = 2\<rparr>"

lemma demo_inv: "store_inv (demo_store v)" "\<not> s_closed (demo_store v)"
    "\<forall>op u. coins (demo_store v) op = Some u \<longrightarrow> u_ReservedBy u \<noteq> a_Reservation demo_args"
  by (simp_all add: store_inv_def rows_inv_def alist_wf_def row_wf_def demo_store_def demo_coin_def coins_def demo_args_def
      Valid_def TierMined_def TierSending_def Let_def)

lemma demo_args_simps [simp]: "a_Reservation demo_args = ''tx''" "a_Tiers demo_args = [TierMined]" "a_UserID demo_args = 1"
  by (simp_all add: demo_args_def)

lemma New_demo: "New_funder std_golib demo_model = (Ok demo_funder :: (unit, funder) go)"
  by (simp add: New_funder_def newFeeCalculator_def demo_model_def demo_funder_def std_golib_def)

lemma claim_demo:
  assumes "m \<le> v"
  shows "ClaimSmallest mem_ops (demo_store v) (arg_scope demo_args TierMined) ''tx'' m = (held_store v, Inr (Some (held_demo v)))"
  using assms
  by (simp add: mem_ops_def ClaimSmallestSufficient_def ValidateClaim_def ValidateReservation_def ValidateScope_def demo_store_def held_store_def
      arg_scope_def demo_args_def demo_coin_def held_demo_def Valid_def TierMined_def TierSending_def claimable_def Let_def reserve_def
      now_time_def ticked_def set_reserved_def upd_key_def not_less)


definition demo_col :: collector where
  "demo_col = \<lparr>c_txSats = 1000, c_txSize = 45, c_fee = 5,
      c_feeCalculator = 100, c_satsCovered = 0, c_allocatedUTXOs = [], c_outputCount = 1, c_numberOfDesiredUTXOs = 8,
      c_minimumDesiredUTXOValue = 1, c_maxChangeOutputsPerTx = 8, c_changeOutputsCount = 0, c_minimumChange = 0,
      c_requireChange = False, c_dustFloor = 40\<rparr>"

lemma start_demo:
  "newCollector std_golib 1000 45 1 (i64_wrap 8) 1 100 8 False = Ok demo_col" "isFunded demo_col = Ok False"
  "remaining_sats std_golib demo_col = Ok 1005"
proof -
  note lib = std_lib_run [OF std_golib_ok] dustFloor_100 [OF std_golib_ok] Calculate_100 [OF std_golib_ok]
  show "newCollector std_golib 1000 45 1 (i64_wrap 8) 1 100 8 False = Ok demo_col"
    by (simp add: collector_run lib demo_col_def del: One_nat_def)
  show "isFunded demo_col = Ok False" by (simp add: collector_run demo_col_def)
  show "remaining_sats std_golib demo_col = Ok 1005" by (simp add: collector_run remaining_sats_def demo_col_def)
qed

lemma alloc_1020:
  "allocateUTXO std_golib demo_col (held_demo 1020) =
     Ok (demo_col\<lparr>c_txSize := 193, c_fee := 20, c_satsCovered := 1020, c_allocatedUTXOs := [held_demo 1020]\<rparr>)"
proof -
  note lib = std_lib_run [OF std_golib_ok] Calculate_100 [OF std_golib_ok]
  show ?thesis by (simp add: collector_run lib demo_col_def held_demo_def demo_coin_def del: One_nat_def)
qed

lemma alloc_1021:
  "allocateUTXO std_golib demo_col (held_demo 1021) =
     Ok (demo_col\<lparr>c_txSize := 227, c_fee := 23, c_satsCovered := 1021, c_allocatedUTXOs := [held_demo 1021],
                  c_changeOutputsCount := 1\<rparr>)"
proof -
  note lib = std_lib_run [OF std_golib_ok] Calculate_100 [OF std_golib_ok]
  have "dropChange (Suc 0) 40 2 = 1" by (simp add: dropChange.simps)
  thus ?thesis by (simp add: collector_run lib demo_col_def held_demo_def demo_coin_def del: One_nat_def)
qed

lemma round_demo:
  assumes "1005 \<le> v" "allocateUTXO std_golib demo_col (held_demo v) = Ok c"
  shows "walkStep std_golib mem_ops demo_args (demo_store v) demo_col = Inr (held_store v, c)"
proof -
  have "fromTier std_golib mem_ops demo_args (demo_store v) demo_col TierMined 1005 = (held_store v, Ok (True, c))"
    using claim_demo [OF assms(1)] assms(2)
    by (simp add: fromTier_def MustUInt64_def UInt64_def)
  thus ?thesis using start_demo by (simp add: walkStep_def round_tiers_def)
qed

lemma fundOnce_demo:
  "fundOnce std_golib demo_funder mem_ops demo_args s = walk std_golib mem_ops demo_args s demo_col"
  using start_demo(1) by (simp add: fundOnce_def demo_args_def demo_funder_def)

lemma Fund_demo_eq: "Fund std_golib demo_funder mem_ops demo_args s = fundLoop std_golib demo_funder mem_ops demo_args 0 s"
  by (simp add: Fund_def validate_args_def demo_args_def Valid_def TierMined_def TierSending_def)

lemma run_1020:
  "Fund std_golib demo_funder mem_ops demo_args (demo_store 1020) =
     Some (held_store 1020, Ok \<lparr>res_AllocatedUTXOs = [held_demo 1020], res_ChangeOutputsCount = 0, res_ChangeAmount = 0,
       res_Fee = 20, res_DustFloor = 40\<rparr>)"
proof -
  let ?c = "demo_col\<lparr>c_txSize := 193, c_fee := 20, c_satsCovered := 1020, c_allocatedUTXOs := [held_demo 1020]\<rparr>"
  have "isFunded ?c = Ok True" by (simp add: collector_run demo_col_def)
  hence "boundedTieredClaim std_golib mem_ops demo_args (held_store 1020) ?c = Some (held_store 1020, Ok ?c)"
    by (simp add: boundedTieredClaim.simps walkStep_def)
  hence "boundedTieredClaim std_golib mem_ops demo_args (demo_store 1020) demo_col = Some (held_store 1020, Ok ?c)"
    using round_demo [OF _ alloc_1020] by (subst boundedTieredClaim.simps) simp
  moreover have "collector_result ?c = Ok \<lparr>res_AllocatedUTXOs = [held_demo 1020], res_ChangeOutputsCount = 0,
      res_ChangeAmount = 0, res_Fee = 20, res_DustFloor = 40\<rparr>" by (simp add: collector_run demo_col_def)
  ultimately show ?thesis by (simp add: Fund_demo_eq fundLoop.simps fundOnce_demo walk_def)
qed

lemma run_1021:
  "Fund std_golib demo_funder mem_ops demo_args (demo_store 1021) = Some ((demo_store 1021)\<lparr>s_ticks := 2\<rparr>, Err NotEnoughFunds)"
proof -
  let ?c = "demo_col\<lparr>c_txSize := 227, c_fee := 23, c_satsCovered := 1021, c_allocatedUTXOs := [held_demo 1021],
                  c_changeOutputsCount := 1\<rparr>"
  have nf: "isFunded ?c = Ok False" "remaining_sats std_golib ?c = Ok 2"
    by (simp_all add: collector_run remaining_sats_def demo_col_def)
  have none: "ClaimSmallest mem_ops (held_store 1021) (arg_scope demo_args TierMined) ''tx'' 2 = (held_store 1021, Inr None)"
    "ClaimLargest mem_ops (held_store 1021) (arg_scope demo_args TierMined) ''tx'' 2 insufficientBatchSize = (held_store 1021, Inr [])"
    by (simp_all add: mem_ops_def ClaimSmallestSufficient_def ClaimLargestInsufficient_def ValidateClaim_def ValidateReservation_def
        ValidateScope_def held_store_def arg_scope_def demo_args_def demo_coin_def held_demo_def Valid_def TierMined_def
        TierSending_def claimable_def Let_def insufficientBatchSize_def)
  have "fromTier std_golib mem_ops demo_args (held_store 1021) ?c TierMined 2 = (held_store 1021, Ok (False, ?c))"
    using none by (simp add: fromTier_def MustUInt64_def UInt64_def drainBatch_def keep_consumed_def)
  hence "walkStep std_golib mem_ops demo_args (held_store 1021) ?c = Inl (held_store 1021, Err NotEnoughFunds)"
    using nf by (simp add: walkStep_def round_tiers_def)
  hence "boundedTieredClaim std_golib mem_ops demo_args (demo_store 1021) demo_col = Some (held_store 1021, Err NotEnoughFunds)"
    using round_demo [OF _ alloc_1021] by (subst (1) boundedTieredClaim.simps) (simp add: boundedTieredClaim.simps)
  moreover have "release mem_ops (held_store 1021) 1 ''tx'' = (demo_store 1021)\<lparr>s_ticks := 2\<rparr>"
    by (simp add: release_def mem_ops_def ReleaseReservation_def ValidateReservation_def held_store_def demo_store_def
        held_demo_def demo_coin_def heldBy_def clear_reservation_def upd_all_def zero_time_def)
  ultimately show ?thesis
    by (simp add: Fund_demo_eq fundLoop.simps fundOnce_demo walk_def contentionIfInventoryHidden_def is_contention_def)
       (simp add: mem_ops_def)
qed

section \<open>Properties\<close>

text \<open>
  C1: A successful \<open>Fund\<close> holds exactly what it reports.  The coins of the result are distinct,
  were claimable in one of the requested tiers of the caller's basket, and are now reserved under the
  caller's token; no other coin of the store changed, however many coins were claimed and given back
  on the way.  Their value is the target plus the fee plus the change, the change is never negative,
  there is a change output exactly when the change reaches the dust floor, and a transaction that
  needs a change output gets one.
\<close>

theorem Fund_success:
  assumes "golib_ok L" "store_inv s" "\<not> s_closed s"
    and "\<forall>op u. coins s op = Some u \<longrightarrow> u_ReservedBy u \<noteq> a_Reservation a"
    and "Fund L f mem_ops a s = Some (s', Ok r)"
  shows "store_inv s' \<and> claimed (a_Reservation a) (walk_coin a) (coins s) (res_AllocatedUTXOs r) (coins s') \<and>
     sats_of (res_AllocatedUTXOs r) = a_TargetSat a + res_Fee r + res_ChangeAmount r \<and> 0 \<le> res_ChangeAmount r \<and>
     (res_ChangeOutputsCount r = 0 \<longleftrightarrow> res_ChangeAmount r < res_DustFloor r) \<and>
     (a_OutputCount a = 0 \<or> a_RequireChange a \<longrightarrow> 0 < res_ChangeOutputsCount r) \<and>
     res_ChangeOutputsCount r \<le> a_MaxChangeOutputsPerTx a"
proof -
  from mem.Fund_pass [OF assms(1-4), of f] assms(5)
  have "mem.pass_result L f a (coins s) r s'" "1 \<le> a_MaxChangeOutputsPerTx a" by auto
  from mem.pass_result_facts [OF assms(1) this(2,1)] show ?thesis by blast
qed

theorem Fund_success_witness:
  "store_inv (demo_store 1020) \<and>
   claimed ''tx'' (walk_coin demo_args) (coins (demo_store 1020)) [held_demo 1020] (coins (held_store 1020)) \<and>
   sats_of [held_demo 1020] = 1000 + 20 + 0"
proof -
  from Fund_success [OF std_golib_ok demo_inv run_1020] demo_inv show ?thesis by (simp add: demo_args_def)
qed

text \<open>
  C2: A failed \<open>Fund\<close> leaves nothing behind.  Whatever the error (not enough funds, contention after
  the retries, a fee or value error half way through, invalid arguments), every coin is back in the
  state it had before the call.
\<close>

theorem Fund_failure_restores:
  assumes "golib_ok L" "store_inv s" "\<not> s_closed s"
    and "\<forall>op u. coins s op = Some u \<longrightarrow> u_ReservedBy u \<noteq> a_Reservation a"
    and "Fund L f mem_ops a s = Some (s', Err e)"
  shows "coins s' = coins s \<and> store_inv s' \<and> \<not> s_closed s'"
  using mem.Fund_pass [OF assms(1-4), of f] assms(5) by auto

theorem Fund_failure_restores_witness:
  "Fund std_golib demo_funder mem_ops demo_args (demo_store 1021) = Some ((demo_store 1021)\<lparr>s_ticks := 2\<rparr>, Err NotEnoughFunds) \<and>
   coins ((demo_store 1021)\<lparr>s_ticks := 2\<rparr>) = coins (demo_store 1021)"
  using Fund_failure_restores [OF std_golib_ok demo_inv run_1021] run_1021 by blast

text \<open>
  C22: \<open>Fund\<close> always returns: neither the tier walk nor the retry loop can run for ever, whatever the
  coins and the arguments, because a round that goes on has allocated one more coin.
\<close>

theorem Fund_returns:
  assumes "golib_ok L" "store_inv s" "\<not> s_closed s"
    and "\<forall>op u. coins s op = Some u \<longrightarrow> u_ReservedBy u \<noteq> a_Reservation a"
  shows "\<exists>s' r. Fund L f mem_ops a s = Some (s', r) \<and> store_inv s'"
  using mem.Fund_pass [OF assms, of f] mem.pass_result_facts(1) [OF assms(1)]
  by (fastforce simp: holds_def split: go.splits)

theorem Fund_returns_witness:
  "\<exists>s' r. Fund std_golib demo_funder mem_ops demo_args (demo_store 1020) = Some (s', r) \<and> store_inv s'"
  by (rule Fund_returns [OF std_golib_ok demo_inv])

text \<open>
  C23: The fee a successful \<open>Fund\<close> reports is at least the relay minimum \<open>MinRequiredFee\<close> of the
  transaction it describes: the caller's bytes, every allocated input at its full serialized size, and
  every change output.
\<close>

theorem Fund_pays_relay_fee:
  assumes "golib_ok L" "store_inv s" "\<not> s_closed s"
    and "\<forall>op u. coins s op = Some u \<longrightarrow> u_ReservedBy u \<noteq> a_Reservation a"
    and "New_funder L model = (Ok f :: (unit, funder) go)" "fm_Value model \<le> 2 ^ 53"
    and "Fund L f mem_ops a s = Some (s', Ok r)"
    and "a_CurrentTxSize a + input_bytes L (res_AllocatedUTXOs r) +
           34 * ((length (res_AllocatedUTXOs r) + 1) * a_MaxChangeOutputsPerTx a) \<le> 2 ^ 53"
  shows "int (MinRequiredFee (a_CurrentTxSize a + input_bytes L (res_AllocatedUTXOs r) + 34 * res_ChangeOutputsCount r)
           (fm_Value model)) \<le> res_Fee r"
proof -
  from mem.Fund_pass [OF assms(1-4), of f] assms(7)
  have p: "mem.pass_result L f a (coins s) r s'" "1 \<le> a_MaxChangeOutputsPerTx a" by auto
  have nf: "newFeeCalculator L model = (Ok (f_feeCalculator f) :: (unit, rat) go)" using assms(5) by (auto simp: New_funder_def go_Ok)
  have "0 \<le> f_feeCalculator f" using newFeeCalculator_Ok [OF assms(1,6), of "f_feeCalculator f"] nf by auto
  from mem.pass_result_facts(10) [OF assms(1) p(2,1) this assms(8)] obtain sz
    where sz: "a_CurrentTxSize a + input_bytes L (res_AllocatedUTXOs r) + 34 * res_ChangeOutputsCount r \<le> sz" "sz \<le> 2 ^ 53"
      "Calculate L (f_feeCalculator f) sz = Inr (res_Fee r)" by blast
  show ?thesis using Calculate_covers [OF assms(1) sz(2) assms(6) nf sz(3) sz(1)] .
qed

theorem Fund_pays_relay_fee_witness:
  "Fund std_golib demo_funder mem_ops demo_args (demo_store 1020) = Some (held_store 1020, Ok \<lparr>res_AllocatedUTXOs = [held_demo 1020],
     res_ChangeOutputsCount = 0, res_ChangeAmount = 0, res_Fee = 20, res_DustFloor = 40\<rparr>) \<and> int (MinRequiredFee 193 100) \<le> 20"
proof -
  have "TransactionInputSize std_golib 107 = 148" using std_lib_run(6) [OF std_golib_ok] .
  with Fund_pays_relay_fee [OF std_golib_ok demo_inv New_demo _ run_1020] run_1020 show ?thesis
    by (simp add: demo_model_def demo_args_def held_demo_def demo_coin_def)
qed

text \<open>The coins a payment may draw on: every claimable coin of the tiers it names.\<close>

definition claimable_pool :: "fund_args \<Rightarrow> store \<Rightarrow> utxo list" where
  "claimable_pool a s = filter (walk_coin a) (map (\<lambda>kr. r_utxo (snd kr)) (s_rows s))"

lemma pool_coins:
  assumes "store_inv s"
  shows "u \<in> set (claimable_pool a s) \<longleftrightarrow> coins s (u_Outpoint u) = Some u \<and> walk_coin a u"
    and "distinct (map u_Outpoint (claimable_pool a s))"
proof -
  have rows: "distinct (map fst (s_rows s))" "\<And>k r. (k, r) \<in> set (s_rows s) \<Longrightarrow> u_Outpoint (r_utxo r) = k"
    using assms by (auto simp: store_inv_def rows_inv_def alist_wf_def row_wf_def Let_def)
  have "coins s (u_Outpoint u) = Some u \<longleftrightarrow> (\<exists>k r. (k, r) \<in> set (s_rows s) \<and> u = r_utxo r)" for u
  proof
    assume "coins s (u_Outpoint u) = Some u"
    then obtain r where "map_of (s_rows s) (u_Outpoint u) = Some r" "u = r_utxo r" by (auto simp: coins_def)
    then show "\<exists>k r. (k, r) \<in> set (s_rows s) \<and> u = r_utxo r" by (intro exI conjI map_of_SomeD)
  next
    assume "\<exists>k r. (k, r) \<in> set (s_rows s) \<and> u = r_utxo r"
    then obtain k r where kr: "(k, r) \<in> set (s_rows s)" "u = r_utxo r" by blast
    from map_of_is_SomeI [OF rows(1) kr(1)] rows(2) [OF kr(1)] kr(2) show "coins s (u_Outpoint u) = Some u" by (simp add: coins_def)
  qed
  then show "u \<in> set (claimable_pool a s) \<longleftrightarrow> coins s (u_Outpoint u) = Some u \<and> walk_coin a u"
    by (force simp: claimable_pool_def)
  have "map u_Outpoint (map (\<lambda>kr. r_utxo (snd kr)) (s_rows s)) = map fst (s_rows s)" using rows(2) by auto
  then show "distinct (map u_Outpoint (claimable_pool a s))"
    using rows(1) unfolding claimable_pool_def by (metis distinct_map_filter)
qed

text \<open>A claim of the whole pool has the value, the size and the length of the pool.\<close>

lemma claimed_pool_sum:
  fixes h :: "utxo \<Rightarrow> 'n::comm_monoid_add"
  assumes "store_inv s" "claimed t (walk_coin a) (coins s) us V'" "\<And>u u'. held_copy t u u' \<Longrightarrow> h u' = h u"
    and "\<forall>op u. coins s op = Some u \<longrightarrow> walk_coin a u \<longrightarrow> op \<in> u_Outpoint ` set us"
  shows "(\<Sum>u\<leftarrow>us. h u) = (\<Sum>u\<leftarrow>claimable_pool a s. h u)"
proof -
  let ?g = "\<lambda>op. h (the (coins s op))" and ?pool = "claimable_pool a s"
  note pool = pool_coins [OF assms(1)]
  have us: "distinct (map u_Outpoint us)" "\<And>u. u \<in> set us \<Longrightarrow> \<exists>u0. coins s (u_Outpoint u) = Some u0 \<and> walk_coin a u0 \<and> held_copy t u0 u"
    using assms(2) by (auto simp: claimed_def)
  have "(\<Sum>u\<leftarrow>us. h u) = (\<Sum>u\<leftarrow>us. ?g (u_Outpoint u))"
    using us(2) assms(3) by (intro arg_cong [of _ _ sum_list] map_cong refl) fastforce
  also have "\<dots> = sum ?g (set (map u_Outpoint us))"
    using sum_list_distinct_conv_sum_set [OF us(1), of ?g] by (simp add: comp_def)
  also have "set (map u_Outpoint us) = set (map u_Outpoint ?pool)"
  proof -
    have "op \<in> u_Outpoint ` set ?pool" if "coins s op = Some u" "walk_coin a u" for op u
      using that pool(1) [of u] coins_wf [OF assms(1) that(1)] by (auto simp: coin_wf_def)
    moreover have "op \<in> u_Outpoint ` set us" if "op \<in> u_Outpoint ` set ?pool" for op
      using that pool(1) assms(4) by auto
    ultimately show ?thesis using us(2) by fastforce
  qed
  also have "sum ?g (set (map u_Outpoint ?pool)) = (\<Sum>u\<leftarrow>?pool. ?g (u_Outpoint u))"
    using sum_list_distinct_conv_sum_set [OF pool(2), of ?g] by (simp add: comp_def)
  also have "\<dots> = (\<Sum>u\<leftarrow>?pool. h u)" using pool(1) by (intro arg_cong [of _ _ sum_list] map_cong refl) auto
  finally show ?thesis .
qed

text \<open>
  C24: \<open>Fund\<close> does not refuse a payment its pool can pay for.  For a payment with an output of its own and
  without a mandatory change output, when all claimable coins of the caller's tiers together cover the
  target plus the fee of a transaction that spends them all with the most change outputs the collector can
  ever account for (the cap once per input and once more), the answer is not \<open>ErrNotEnoughFunds\<close>.
  The margin for the change outputs is needed: see \<open>one_satoshi_more_fails\<close> below.
\<close>

theorem Fund_enough_funds:
  assumes "golib_ok L" "store_inv s" "\<not> s_closed s"
    and "\<forall>op u. coins s op = Some u \<longrightarrow> u_ReservedBy u \<noteq> a_Reservation a"
    and "a_OutputCount a \<noteq> 0" "\<not> a_RequireChange a" "0 \<le> f_feeCalculator f"
    and "sz = a_CurrentTxSize a + input_bytes L (claimable_pool a s) +
           34 * ((length (claimable_pool a s) + 1) * a_MaxChangeOutputsPerTx a)" "sz \<le> 2 ^ 53"
    and "Calculate L (f_feeCalculator f) sz = Inr fee" "a_TargetSat a + fee \<le> sats_of (claimable_pool a s)"
  shows "\<exists>s' r. Fund L f mem_ops a s = Some (s', r) \<and> r \<noteq> Err NotEnoughFunds"
proof -
  have "Fund L f mem_ops a s \<noteq> Some (s', Err NotEnoughFunds)" for s'
  proof
    assume run: "Fund L f mem_ops a s = Some (s', Err NotEnoughFunds)"
    from mem.Fund_nef [OF assms(1-6) run] obtain us V' k fee' where
      us: "claimed (a_Reservation a) (walk_coin a) (coins s) us V'"
        "\<forall>op u. coins s op = Some u \<longrightarrow> walk_coin a u \<longrightarrow> op \<in> u_Outpoint ` set us"
      and fee': "Calculate L (f_feeCalculator f) (u64_wrap (a_CurrentTxSize a + input_bytes L us + k * 34)) = Inr fee'"
        "k \<le> (length us + 1) * a_MaxChangeOutputsPerTx a" "sats_of us < a_TargetSat a + fee'" by blast
    note sum = claimed_pool_sum [OF assms(2) us(1) _ us(2)]
    have eq: "sats_of us = sats_of (claimable_pool a s)" "input_bytes L us = input_bytes L (claimable_pool a s)"
      unfolding sats_of_def input_bytes_def by (rule sum, auto simp: held_copy_def)+
    have len: "length us = length (claimable_pool a s)" using sum [of "\<lambda>_. 1 :: nat"] by (simp add: sum_list_triv)
    let ?sz0 = "a_CurrentTxSize a + input_bytes L us + k * 34"
    have le: "?sz0 \<le> sz" using fee'(2) assms(8) eq(2) len by simp
    then have "u64_wrap ?sz0 = ?sz0" using assms(9) by (simp add: u64_wrap_def)
    with fee'(1) le assms(9) have "fee' = fee_formula (of_nat ?sz0) (f_feeCalculator f)"
      using Calculate_Inr [OF assms(1), of ?sz0] by auto
    moreover have "fee = fee_formula (of_nat sz) (f_feeCalculator f)" using Calculate_Inr [OF assms(1,9)] assms(10) by blast
    ultimately have "fee' \<le> fee" using fee_formula_mono [of "of_nat ?sz0" "of_nat sz" "f_feeCalculator f"] le assms(7)
      unfolding of_nat_le_iff [symmetric, where ?'a = rat] by simp
    with fee'(3) assms(11) eq(1) show False by simp
  qed
  moreover obtain s' r where "Fund L f mem_ops a s = Some (s', r)"
    using mem.Fund_pass [OF assms(1-4), of f] by (auto split: prod.splits)
  ultimately show ?thesis by blast
qed

theorem Fund_enough_funds_witness:
  "sats_of (claimable_pool demo_args (demo_store 1074)) = 1074 \<and>
   (\<exists>s' r. Fund std_golib demo_funder mem_ops demo_args (demo_store 1074) = Some (s', r) \<and> r \<noteq> Err NotEnoughFunds)"
proof -
  have pool: "claimable_pool demo_args (demo_store 1074) = [demo_coin 1074]"
    by (simp add: claimable_pool_def demo_store_def walk_coin_def claimable_coin_def arg_scope_def demo_coin_def demo_args_def)
  have in1: "input_bytes std_golib [demo_coin 1074] = 148" "sats_of [demo_coin 1074] = 1074"
    using std_lib_run(6) [OF std_golib_ok] by (simp_all add: input_bytes_def sats_of_def demo_coin_def)
  have "Calculate std_golib (f_feeCalculator demo_funder) 737 = Inr 74"
    using Calculate_100 [OF std_golib_ok, of 737] by (simp add: demo_funder_def)
  then show ?thesis
    using Fund_enough_funds [of std_golib "demo_store 1074" demo_args demo_funder 737 74, OF std_golib_ok demo_inv] pool in1 by (simp add: demo_args_def demo_funder_def)
qed

text \<open>
  More money can fund less.  The change output is paid for as soon as the change is positive, so
  a change smaller than the price of its own output turns a funded transaction into an unfunded one:
  at the default 100 sat/kB, a pool of one coin of 1020 satoshis funds a 1000 satoshi payment, and the
  same pool with one satoshi more fails with \<open>ErrNotEnoughFunds\<close>.
\<close>

theorem one_satoshi_more_fails:
  "Fund std_golib demo_funder mem_ops demo_args (demo_store 1020) =
     Some (held_store 1020, Ok \<lparr>res_AllocatedUTXOs = [held_demo 1020], res_ChangeOutputsCount = 0, res_ChangeAmount = 0,
       res_Fee = 20, res_DustFloor = 40\<rparr>) \<and>
   Fund std_golib demo_funder mem_ops demo_args (demo_store 1021) =
     Some ((demo_store 1021)\<lparr>s_ticks := 2\<rparr>, Err NotEnoughFunds)"
  using run_1020 run_1021 by simp

section \<open>Contention\<close>

text \<open>The in-memory store never reports contention, and offers no probe.\<close>

lemma mem_no_contention:
  "ClaimSmallest mem_ops s sc t m \<noteq> (s', Inl ErrContention)" "ClaimLargest mem_ops s sc t m l \<noteq> (s', Inl ErrContention)"
  "ClaimExactly mem_ops s sc t m l \<noteq> (s', Inl ErrContention)" "ReleaseOps mem_ops s t os \<noteq> (s', Some ErrContention)"
  by (auto simp: mem_ops_def ClaimSmallestSufficient_def ClaimLargestInsufficient_def ClaimExact_def ReleaseOutpoints_def Let_def
      split: option.splits prod.splits if_splits)

definition calm :: "('s, 'a) fund_step \<Rightarrow> bool" where
  "calm x \<longleftrightarrow> (\<forall>e. snd x = Err e \<longrightarrow> \<not> is_contention e \<and> e \<noteq> UTXOContention)"

definition calm_go :: "(fund_error, 'a) go \<Rightarrow> bool" where
  "calm_go r \<longleftrightarrow> (\<forall>e. r = Err e \<longrightarrow> \<not> is_contention e \<and> e \<noteq> UTXOContention)"

lemma calm_step_bind: "calm x \<Longrightarrow> (\<And>s y. calm (f s y)) \<Longrightarrow> calm (step_bind x f)"
  by (cases x; cases "snd x") (auto simp: calm_def)

lemma calm_simps [simp]: "calm (s, r) \<longleftrightarrow> calm_go r" "calm_go (Ok x)" "calm_go Panic" "calm_go (MustUInt64 v)"
    "calm_go (MustAdd i j)" "calm_go (MustSubtract i j)" "calm_go (MustFrom g)" "calm_go (of_sum FeeFailed y)"
    "calm_go (of_sum ValueFailed z)" "calm_go (Err NotEnoughFunds)" "calm_go (Err (LowDenomination m n))"
  by (auto simp: calm_def calm_go_def of_sum_Err is_contention_def)

lemma calm_go_bind: "calm_go m \<Longrightarrow> (\<And>x. calm_go (f x)) \<Longrightarrow> calm_go (go_bind m f)"
  by (cases m) (auto simp: calm_go_def)

lemma calm_col: "calm_go (satsToCover c)" "calm_go (change c)" "calm_go (isFunded c)" "calm_go (remaining_sats L c)"
  by (simp_all add: calm_go_def change_not_Err remaining_not_Err)

lemma calm_alloc: "calm_go (increaseSize L c n)" "calm_go (calculateChangeOutputs L c)" "calm_go (allocateUTXO L c u)"
    "calm_go (collector_result c)"
  by (auto simp: increaseSize_def calculateChangeOutputs_def calculateChangeCount_def convert_u64_def allocateUTXO_def
      increaseValue_def collector_result_def prepareResult_def Let_def calm_col
      split: option.splits intro!: calm_go_bind)

lemma calm_new: "calm_go (newCollector L v n o' w m r x req)"
  by (auto simp: newCollector_def Let_def convert_u64_def calm_alloc split: option.splits intro!: calm_go_bind)

lemma calm_loops: "calm_go (drainLoop L c k us)" "calm_go (fuelLoop L c k us)"
  by (induction us arbitrary: c k) (auto simp: calm_col calm_alloc intro!: calm_go_bind)

lemma calm_store_call: "(\<And>s'. x \<noteq> (s', Inl ErrContention)) \<Longrightarrow> calm (store_call x)"
proof (cases x)
  case (Pair s' y)
  then show "(\<And>s'. x \<noteq> (s', Inl ErrContention)) \<Longrightarrow> calm (store_call x)"
    by (cases y) (auto simp: calm_go_def is_contention_def split: store_error.splits)
qed

lemma calm_keep: "calm_go r \<Longrightarrow> calm (keep_consumed mem_ops s t us r)"
proof -
  have "calm (releaseOutpoints mem_ops s t vs)" for s vs
    using mem_no_contention(4) [of s t "map u_Outpoint vs"]
    by (auto simp: releaseOutpoints_def calm_go_def is_contention_def split: prod.splits option.splits store_error.splits)
  then show "calm_go r \<Longrightarrow> calm (keep_consumed mem_ops s t us r)"
    by (auto simp: keep_consumed_def intro!: calm_step_bind split: prod.splits)
qed

lemma calm_fromTier: "calm (fromTier L mem_ops a s c tier rem)"
  by (auto simp: fromTier_def drainBatch_def calm_alloc calm_loops mem_no_contention
      intro!: calm_step_bind calm_go_bind calm_store_call calm_keep split: option.splits prod.splits)

lemma calm_roundLoop: "calm (roundLoop L mem_ops a tiers s c rem)"
  by (induction tiers arbitrary: s c) (auto intro!: calm_step_bind calm_fromTier split: prod.splits)

lemma calm_exactLoop: "calm (exactLoop mem_ops a tiers s acc n)"
  by (induction tiers arbitrary: s acc n) (auto simp: mem_no_contention intro!: calm_step_bind calm_store_call)

lemma calm_fastPath: "calm (claimExactFastPath L f mem_ops a s c)"
  by (auto simp: claimExactFastPath_def Let_def calm_loops intro!: calm_step_bind calm_exactLoop calm_keep split: prod.splits)

lemma calm_walkStep:
  assumes "walkStep L mem_ops a s c = Inl x"
  shows "calm x"
proof (cases "\<exists>rem. isFunded c = Ok False \<and> remaining_sats L c = Ok rem \<and> \<not> rem \<le> 0")
  case True
  then obtain rem where r: "isFunded c = Ok False" "remaining_sats L c = Ok rem" "\<not> rem \<le> 0" by blast
  obtain s' y where y: "round_tiers L mem_ops a s c rem = (s', y)" by fastforce
  with calm_roundLoop [of L a "a_Tiers a" s c rem] have "calm_go y" by (simp add: round_tiers_def)
  with assms r y show ?thesis by (cases y) (auto split: prod.splits if_splits simp: walkStep_def calm_go_def is_contention_def)
next
  case False
  with assms show ?thesis
    using change_not_Err(3) [of c] remaining_not_Err [of L c] by (auto simp: walkStep_def split: go.splits if_splits)
qed

lemma calm_walk:
  assumes st: "setting L a V" and inv: "pass_inv coins store_inv (\<lambda>s. \<not> s_closed s) L a V c0 c s"
  shows "walk L mem_ops a s c = Some x \<Longrightarrow> calm x"
  using st inv
proof (induction rule: mem.walk_induct)
  case (round c s)
  show ?case
  proof (cases "walkStep L mem_ops a s c")
    case (Inl y)
    have pr: "Prober mem_ops = None" by (simp add: mem_ops_def)
    have "calm (step_bind y (\<lambda>s c. (s, collector_result c)))"
      using calm_walkStep [OF Inl] by (intro calm_step_bind) (simp_all add: calm_alloc)
    moreover have "diagnose mem_ops a z = z" for z :: "(store, result) fund_step"
      by (cases z; cases "snd z") (auto simp: contentionIfInventoryHidden_def pr)
    ultimately show ?thesis using round(3) Inl by (auto simp: walk_def boundedTieredClaim.simps)
  next
    case (Inr y)
    with mem.walkStep_pass [OF st round(1)] have "pass_inv coins store_inv (\<lambda>s. \<not> s_closed s) L a V c0 (snd y) (fst y)" by auto
    moreover have "walk L mem_ops a (fst y) (snd y) = Some x"
      using round(3) Inr by (simp add: walk_def boundedTieredClaim.simps [of L mem_ops a s c])
    ultimately show ?thesis using round(2) [of "fst y" "snd y"] Inr by simp
  qed
qed

lemma calm_fundOnce:
  assumes st: "setting L a (coins s)" and s: "store_inv s" "\<not> s_closed s" and pos: "1 \<le> a_MaxChangeOutputsPerTx a"
    and run: "fundOnce L f mem_ops a s = Some x"
  shows "calm x"
proof (cases "start L f a")
  case (Ok c)
  have L: "golib_ok L" using st by (simp add: setting_def)
  note n = newCollector_inv [OF L Ok [unfolded start_def] pos]
  hence inv: "pass_inv coins store_inv (\<lambda>s. \<not> s_closed s) L a (coins s) c c s" using s by (simp add: pass_inv_def holds_def)
  show ?thesis
  proof (cases "0 < a_Denomination a")
    case True
    obtain s1 r1 where fp: "claimExactFastPath L f mem_ops a s c = (s1, r1)" by fastforce
    note p = mem.claimExactFastPath_pass [OF st inv _ fp]
    have r1: "calm_go r1" using calm_fastPath [of L f a s c] fp by simp
    show ?thesis
    proof (cases "\<exists>c1. r1 = Ok c1 \<and> isFunded c1 = Ok False")
      case True
      then obtain c1 where c1: "r1 = Ok c1" "isFunded c1 = Ok False" by blast
      with run Ok \<open>0 < a_Denomination a\<close> fp have "walk L mem_ops a s1 c1 = Some x" by (simp add: fundOnce_def start_def)
      with calm_walk [OF st, of c c1 s1] p n c1 show ?thesis by simp
    next
      case False
      with run Ok \<open>0 < a_Denomination a\<close> fp r1 show ?thesis
        by (cases r1; cases "isFunded (case r1 of Ok c1 \<Rightarrow> c1)")
           (auto simp: fundOnce_def start_def change_not_Err calm_go_def bool.case_eq_if
             dest: calm_alloc(4) [unfolded calm_go_def, rule_format])
    qed
  next
    case False
    with run Ok have "walk L mem_ops a s c = Some x" by (simp add: fundOnce_def start_def)
    from calm_walk [OF st inv this] show ?thesis .
  qed
qed (use run calm_new in \<open>auto simp: fundOnce_def start_def calm_go_def\<close>)

text \<open>
  On the in-memory store, funding never ends in contention: \<open>Fund\<close> never returns
  \<open>ErrUTXOContention\<close> and never retries, that is, its result is the result of one pass, with the
  reservation released if the pass failed.
\<close>

theorem Fund_memstore_single_pass:
  assumes "golib_ok L" "store_inv s" "\<not> s_closed s" "validate_args a = None"
  shows "Fund L f mem_ops a s =
      map_option (\<lambda>(s', r). case r of Err e \<Rightarrow> (release mem_ops s' (a_UserID a) (a_Reservation a), Err e) | _ \<Rightarrow> (s', r))
        (fundOnce L f mem_ops a s) \<and>
    (\<forall>s' e. fundOnce L f mem_ops a s = Some (s', Err e) \<longrightarrow> e \<noteq> UTXOContention)"
proof -
  note va = mem.validate_args_None [OF assms(4)]
  have st: "setting L a (coins s)"
    using assms(1,2) mem.view_wf mem.view_finite va by (auto simp: setting_def coins_wf_def)
  have once: "calm x" if "fundOnce L f mem_ops a s = Some x" for x
    using calm_fundOnce [OF st assms(2,3) _ that] va by simp
  have "\<not> is_contention e \<and> e \<noteq> UTXOContention" if "fundOnce L f mem_ops a s = Some (s', Err e)" for s' e
    using once [OF that] by (simp add: calm_go_def)
  thus ?thesis
    using assms(4) by (auto simp: Fund_def fundLoop.simps [of L f mem_ops a 0 s] Let_def split: option.splits go.splits)
qed

end
