(* ===== verification/Create_Fund.thy ===== *)
theory Create_Fund
  imports Create Funder_Props
begin

text \<open>
  The funder on the provider's store.  The funder is written against the methods of a store, so a map between two
  stores that commutes with the methods commutes with the funder; that is the locale \<open>store_hom\<close>.  It is used
  twice: with the map that forgets everything but the UTXO store, where no call fails, it gives the provider the
  facts of the reference store; with the identity it says that what every method keeps, funding keeps.
\<close>

section \<open>Maps between stores\<close>

locale store_hom =
  fixes ops :: "'s store_ops" and ops' :: "'t store_ops" and h :: "'s \<Rightarrow> 't" and ok :: "'s \<Rightarrow> bool"
  assumes smallest_hom: "ok s \<Longrightarrow> ok (fst (ClaimSmallest ops s sc t m)) \<and>
      ClaimSmallest ops' (h s) sc t m = (h (fst (ClaimSmallest ops s sc t m)), snd (ClaimSmallest ops s sc t m))"
    and largest_hom: "ok s \<Longrightarrow> ok (fst (ClaimLargest ops s sc t m l)) \<and>
      ClaimLargest ops' (h s) sc t m l = (h (fst (ClaimLargest ops s sc t m l)), snd (ClaimLargest ops s sc t m l))"
    and exact_hom: "ok s \<Longrightarrow> ok (fst (ClaimExactly ops s sc t m l)) \<and>
      ClaimExactly ops' (h s) sc t m l = (h (fst (ClaimExactly ops s sc t m l)), snd (ClaimExactly ops s sc t m l))"
    and token_hom: "ok s \<Longrightarrow> ok (fst (ReleaseToken ops s uid t)) \<and>
      ReleaseToken ops' (h s) uid t = (h (fst (ReleaseToken ops s uid t)), snd (ReleaseToken ops s uid t))"
    and release_hom: "ok s \<Longrightarrow> ok (fst (ReleaseOps ops s t os)) \<and>
      ReleaseOps ops' (h s) t os = (h (fst (ReleaseOps ops s t os)), snd (ReleaseOps ops s t os))"
    and no_prober: "Prober ops = None" "Prober ops' = None"
begin

definition hom :: "'s \<times> 'a \<Rightarrow> 't \<times> 'a \<Rightarrow> bool" where
  "hom x y \<longleftrightarrow> ok (fst x) \<and> y = (h (fst x), snd x)"

lemma hom_pair [simp]: "hom (s, r) y \<longleftrightarrow> ok s \<and> y = (h s, r)"
  by (simp add: hom_def)

lemma hom_bind:
  assumes "hom x y" "\<And>s a. ok s \<Longrightarrow> hom (f s a) (g (h s) a)"
  shows "hom (step_bind x f) (step_bind y g)"
proof -
  obtain s r where x: "x = (s, r)" by force
  show ?thesis using assms by (cases r) (auto simp: x)
qed

lemma hom_call: "hom x y \<Longrightarrow> hom (store_call x) (store_call y)"
  by (cases x; cases "snd x") auto

lemma hom_ops:
  "ok s \<Longrightarrow> hom (ClaimSmallest ops s sc t m) (ClaimSmallest ops' (h s) sc t m)"
  "ok s \<Longrightarrow> hom (ClaimLargest ops s sc t m l) (ClaimLargest ops' (h s) sc t m l)"
  "ok s \<Longrightarrow> hom (ClaimExactly ops s sc t m l) (ClaimExactly ops' (h s) sc t m l)"
  by (simp_all only: hom_def smallest_hom largest_hom exact_hom simp_thms)

lemma hom_releaseOutpoints: "ok s \<Longrightarrow> hom (releaseOutpoints ops s t us) (releaseOutpoints ops' (h s) t us)"
  using release_hom [of s t "map u_Outpoint us"]
  by (auto simp: releaseOutpoints_def split: prod.splits option.splits)

lemma hom_keep_consumed: "ok s \<Longrightarrow> hom (keep_consumed ops s t us r) (keep_consumed ops' (h s) t us r)"
  unfolding keep_consumed_def
  by (rule hom_bind) (auto split: prod.split intro!: hom_bind hom_releaseOutpoints)

lemma hom_drainBatch: "ok s \<Longrightarrow> hom (drainBatch L ops a s c us) (drainBatch L ops' a (h s) c us)"
  unfolding drainBatch_def by (rule hom_bind) (auto simp: hom_keep_consumed split: prod.split)

lemma hom_fromTier: "ok s \<Longrightarrow> hom (fromTier L ops a s c tier rem) (fromTier L ops' a (h s) c tier rem)"
  unfolding fromTier_def
  by (auto intro!: hom_bind hom_call hom_drainBatch hom_ops split: option.split)

lemma hom_roundLoop: "ok s \<Longrightarrow> hom (roundLoop L ops a tiers s c rem) (roundLoop L ops' a tiers (h s) c rem)"
  by (induction tiers arbitrary: s c) (auto intro!: hom_bind hom_fromTier split: prod.split)

lemma hom_exactLoop: "ok s \<Longrightarrow> hom (exactLoop ops a tiers s acc n) (exactLoop ops' a tiers (h s) acc n)"
  by (induction tiers arbitrary: s acc n) (auto intro!: hom_bind hom_call hom_ops)

lemma hom_fastPath: "ok s \<Longrightarrow> hom (claimExactFastPath L f ops a s c) (claimExactFastPath L f ops' a (h s) c)"
  unfolding claimExactFastPath_def Let_def
  by (auto intro!: hom_bind hom_exactLoop hom_keep_consumed split: prod.split)

lemma walkStep_hom:
  assumes "ok s"
  shows "case walkStep L ops a s c of
      Inl x \<Rightarrow> (\<exists>y. walkStep L ops' a (h s) c = Inl y \<and> hom x y)
    | Inr x \<Rightarrow> ok (fst x) \<and> walkStep L ops' a (h s) c = Inr (h (fst x), snd x)"
proof -
  have "ok s' \<and> round_tiers L ops' a (h s) c rem = (h s', r)" if "round_tiers L ops a s c rem = (s', r)" for rem s' r
    using hom_roundLoop [OF assms, of L a "a_Tiers a" c rem] that by (simp add: round_tiers_def)
  then show ?thesis
    using assms by (auto simp: walkStep_def split: go.splits prod.splits if_splits)
qed

lemma boundedTieredClaim_hom:
  assumes "boundedTieredClaim L ops' a (h s) c = Some y" "ok s"
  shows "\<exists>x. boundedTieredClaim L ops a s c = Some x \<and> hom x y"
proof -
  have "ops' = ops' \<longrightarrow> (\<forall>s0. h s = h s0 \<and> ok s0 \<longrightarrow> (\<exists>x. boundedTieredClaim L ops a s0 c = Some x \<and> hom x y))"
  proof (rule boundedTieredClaim.raw_induct [OF _ assms(1), where P = "\<lambda>L O' a t c y. O' = ops' \<longrightarrow>
        (\<forall>s0. t = h s0 \<and> ok s0 \<longrightarrow> (\<exists>x. boundedTieredClaim L ops a s0 c = Some x \<and> hom x y))"], intro impI allI)
    fix rec L O' a t c y s0
    assume IH: "\<And>L O' a t c y. rec L O' a t c = Some y \<Longrightarrow> O' = ops' \<longrightarrow>
        (\<forall>s0. t = h s0 \<and> ok s0 \<longrightarrow> (\<exists>x. boundedTieredClaim L ops a s0 c = Some x \<and> hom x y))"
      and run: "(case walkStep L O' a t c of Inl r \<Rightarrow> Some r | Inr p \<Rightarrow> rec L O' a (fst p) (snd p)) = Some y"
      and O': "O' = ops'" and s0: "t = h s0 \<and> ok s0"
    note w = walkStep_hom [of s0 L a c]
    show "\<exists>x. boundedTieredClaim L ops a s0 c = Some x \<and> hom x y"
    proof (cases "walkStep L ops a s0 c")
      case (Inl x)
      then show ?thesis using w s0 O' run by (subst boundedTieredClaim.simps) auto
    next
      case (Inr x)
      with w s0 have "ok (fst x)" "walkStep L ops' a (h s0) c = Inr (h (fst x), snd x)" by auto
      then show ?thesis using IH [of L ops' a "h (fst x)" "snd x" y] Inr s0 O' run by (subst boundedTieredClaim.simps) auto
    qed
  qed
  with assms(2) show ?thesis by blast
qed

lemma walk_hom:
  assumes "walk L ops' a (h s) c = Some y" "ok s"
  shows "\<exists>x. walk L ops a s c = Some x \<and> hom x y"
proof -
  from assms(1) obtain y0 where y0: "boundedTieredClaim L ops' a (h s) c = Some y0"
    "y = diagnose ops' a (step_bind y0 (\<lambda>s c. (s, collector_result c)))" by (auto simp: walk_def)
  from boundedTieredClaim_hom [OF y0(1) assms(2)] obtain x0 where x0: "boundedTieredClaim L ops a s c = Some x0" "hom x0 y0" by blast
  have d: "hom x y \<Longrightarrow> hom (diagnose ops a x) (diagnose ops' a y)" for x and y :: "('t, 'a) fund_step"
    by (cases x; cases "snd x") (auto simp: contentionIfInventoryHidden_def no_prober)
  have "hom (step_bind x0 (\<lambda>s c. (s, collector_result c))) (step_bind y0 (\<lambda>s c. (s, collector_result c)))"
    by (rule hom_bind [OF x0(2)]) simp
  from d [OF this] show ?thesis using x0(1) y0(2) by (simp add: walk_def)
qed

lemma fundOnce_hom:
  assumes run: "fundOnce L f ops' a (h s) = Some y" and ok: "ok s"
  shows "\<exists>x. fundOnce L f ops a s = Some x \<and> hom x y"
proof (cases "start L f a")
  case (Ok c)
  show ?thesis
  proof (cases "0 < a_Denomination a")
    case True
    let ?fast = "\<lambda>O' s. step_bind (claimExactFastPath L f O' a s c) (\<lambda>s c. step_bind (s, isFunded c) (\<lambda>s b. (s, Ok (b, c))))"
    have "hom (?fast ops s) (?fast ops' (h s))"
      by (rule hom_bind [OF hom_fastPath [OF ok]]) (rule hom_bind; simp)
    moreover obtain s1 r1 where 1: "?fast ops s = (s1, r1)" by force
    ultimately have 2: "?fast ops' (h s) = (h s1, r1)" and s1: "ok s1" by simp_all
    note eq = 1 2 Ok [unfolded start_def] True
    show ?thesis
    proof (cases r1)
      case (Ok bc)
      obtain b c1 where bc: "bc = (b, c1)" by force
      show ?thesis
      proof (cases b)
        case False
        then have "walk L ops' a (h s1) c1 = Some y" using run eq Ok bc by (simp add: fundOnce_def)
        from walk_hom [OF this s1] show ?thesis using eq Ok bc False by (simp add: fundOnce_def)
      qed (use run eq Ok bc s1 in \<open>simp add: fundOnce_def\<close>)
    qed (use run eq s1 in \<open>simp_all add: fundOnce_def\<close>)
  next
    case False
    then show ?thesis using walk_hom [OF _ ok] run Ok by (simp add: fundOnce_def start_def)
  qed
qed (use run ok in \<open>simp_all add: fundOnce_def start_def\<close>)

lemma fundLoop_hom:
  assumes "fundLoop L f ops' a n (h s) = Some y" "ok s"
  shows "\<exists>x. fundLoop L f ops a n s = Some x \<and> hom x y"
  using assms
proof (induction "maxFundingAttempts - n" arbitrary: n s rule: less_induct)
  case less
  from less.prems(1) obtain z where z: "fundOnce L f ops' a (h s) = Some z"
    by (subst (asm) fundLoop.simps) (auto split: option.splits)
  from fundOnce_hom [OF z less.prems(2)] obtain s1 r1 where 1: "fundOnce L f ops a s = Some (s1, r1)" "ok s1" "z = (h s1, r1)" by auto
  have rel: "release ops' (h s1) u t = h (release ops s1 u t)" "ok (release ops s1 u t)" for u t
    using token_hom [OF 1(2)] by (simp_all add: release_def)
  note eq = fundLoop.simps [of L f ops a n s] fundLoop.simps [of L f ops' a n "h s"]
  show ?case
  proof (cases r1)
    case (Err e)
    show ?thesis
    proof (cases "is_contention e \<and> n + 1 < maxFundingAttempts")
      case True
      then have "fundLoop L f ops' a (n + 1) (h (release ops s1 (a_UserID a) (a_Reservation a))) = Some y"
        using less.prems(1) z 1 Err rel by (simp add: eq Let_def)
      moreover have "maxFundingAttempts - (n + 1) < maxFundingAttempts - n" using True by linarith
      ultimately show ?thesis using less.hyps [of "n + 1", OF _ _ rel(2)] True 1 Err by (simp add: eq Let_def)
    qed (use less.prems(1) z 1 Err rel in \<open>auto simp: eq Let_def split: if_splits\<close>)
  qed (use less.prems(1) z 1 in \<open>simp_all add: eq\<close>)
qed

lemma Fund_hom:
  assumes "Fund L f ops' a (h s) = Some y" "ok s"
  shows "\<exists>s' r. Fund L f ops a s = Some (s', r) \<and> ok s' \<and> y = (h s', r)"
proof (cases "validate_args a")
  case None
  then show ?thesis using fundLoop_hom [OF _ assms(2)] assms(1) by (fastforce simp: Fund_def)
qed (use assms in \<open>auto simp: Fund_def\<close>)

end

section \<open>The provider without failing calls\<close>

text \<open>From \<open>p0\<close> to a state where no call fails and only the UTXO store and the count of its calls have moved.\<close>

definition quiet :: "prov \<Rightarrow> prov \<Rightarrow> bool" where
  "quiet p0 p \<longleftrightarrow> (\<forall>n. p_faults p0 n = None) \<and> (\<exists>s n. p = p0\<lparr>p_utxo := s, p_calls := n\<rparr>)"

lemma quiet_refl: "(\<forall>n. p_faults p n = None) \<Longrightarrow> quiet p p"
  unfolding quiet_def by (metis prov.surjective prov.update_convs(2,6))

lemma quiet_trans: "quiet p q \<Longrightarrow> quiet q r \<Longrightarrow> quiet p r"
  unfolding quiet_def by (elim conjE exE) (simp, blast)

lemma quietD: "quiet p q \<Longrightarrow> p_db q = p_db p \<and> p_modeA q = p_modeA p \<and> p_faults q = p_faults p \<and> (\<forall>n. p_faults q n = None)"
  by (auto simp: quiet_def)

lemma quiet_call:
  assumes "quiet p0 p" "f (p_utxo p) = (s, r)"
  obtains q where "utxo_call f p = (q, case r of Inl e \<Rightarrow> Inl (StoreErr e) | Inr a \<Rightarrow> Inr a)" "quiet p0 q" "p_utxo q = s"
proof -
  have "p_faults p n = None" for n using quietD [OF assms(1)] by blast
  then have "utxo_call f p = (p\<lparr>p_calls := Suc (p_calls p), p_utxo := s\<rparr>, case r of Inl e \<Rightarrow> Inl (StoreErr e) | Inr a \<Rightarrow> Inr a)"
    using assms(2) by (simp add: utxo_call_def Let_def)
  moreover have "quiet p0 (p\<lparr>p_calls := Suc (p_calls p), p_utxo := s\<rparr>)"
    using assms(1) unfolding quiet_def by (elim conjE exE, intro conjI exI [of _ s] exI [of _ "Suc (p_calls p)"]) simp_all
  ultimately show ?thesis using that by fastforce
qed

lemma quiet_as_store:
  assumes "quiet p0 p"
  shows "quiet p0 (fst (as_store (utxo_call f p))) \<and>
    f (p_utxo p) = (p_utxo (fst (as_store (utxo_call f p))), snd (as_store (utxo_call f p)))"
proof -
  obtain s r where r: "f (p_utxo p) = (s, r)" by force
  obtain q where "utxo_call f p = (q, case r of Inl e \<Rightarrow> Inl (StoreErr e) | Inr a \<Rightarrow> Inr a)" "quiet p0 q" "p_utxo q = s"
    using quiet_call [where f = f, OF assms r] .
  then show ?thesis by (cases r) (simp_all add: as_store_def r)
qed

interpretation pf: store_hom prov_ops mem_ops p_utxo "quiet p0" for p0
proof unfold_locales
  fix p t os assume q: "quiet p0 p"
  from quiet_as_store [OF q, of "\<lambda>s. plain_err (ReleaseOutpoints s t os)"]
  show "quiet p0 (fst (ReleaseOps prov_ops p t os)) \<and>
    ReleaseOps mem_ops (p_utxo p) t os = (p_utxo (fst (ReleaseOps prov_ops p t os)), snd (ReleaseOps prov_ops p t os))"
    by (cases "ReleaseOutpoints (p_utxo p) t os"; cases "snd (ReleaseOutpoints (p_utxo p) t os)")
       (auto simp: prov_ops_def mem_ops_def plain_err_def split: prod.splits sum.splits)
qed (use quiet_as_store in \<open>simp_all add: prov_ops_def mem_ops_def\<close>)

section \<open>Funding with coins already held\<close>

text \<open>
  The caller's own inputs are reserved under the token before the funder runs, so the token need not be fresh: on
  an error the whole token is released.
\<close>

lemma Fund_held:
  assumes "golib_ok L" "store_inv s" "\<not> s_closed s"
  shows "\<exists>s' r. Fund L f mem_ops a s = Some (s', r) \<and>
    (case r of
       Ok res \<Rightarrow> mem.pass_result L f a (coins s) res s' \<and> 1 \<le> a_MaxChangeOutputsPerTx a
     | Err e \<Rightarrow> if validate_args a = None then store_inv s' \<and> \<not> s_closed s' \<and>
                  coins s' = (\<lambda>op. map_option (janitor_free (a_UserID a) (a_Reservation a)) (coins s op)) else s' = s
     | Panic \<Rightarrow> True)"
proof (cases "validate_args a")
  case None
  note va = mem.validate_args_None [OF None]
  have st: "setting L a (coins s)" using assms(1,2) mem.view_wf mem.view_finite va by (auto simp: setting_def coins_wf_def)
  from mem.fundOnce_pass [OF st assms(2,3) refl] va obtain s1 r1 where once: "fundOnce L f mem_ops a s = Some (s1, r1)"
      "case r1 of Ok res \<Rightarrow> mem.pass_result L f a (coins s) res s1
       | _ \<Rightarrow> \<exists>us. holds coins store_inv (\<lambda>s. \<not> s_closed s) a (coins s) us s1" by blast
  have calm: "calm (s1, r1)" using calm_fundOnce [OF st assms(2,3) _ once(1)] va by simp
  have run: "Fund L f mem_ops a s = Some (case r1 of Err e \<Rightarrow> (release mem_ops s1 (a_UserID a) (a_Reservation a), Err e) | _ \<Rightarrow> (s1, r1))"
    using once(1) calm None by (auto simp: Fund_def fundLoop.simps [of L f mem_ops a 0 s] Let_def calm_def split: go.splits)
  show ?thesis
  proof (cases r1)
    case (Err e)
    with once(2) obtain us where "holds coins store_inv (\<lambda>s. \<not> s_closed s) a (coins s) us s1" by auto
    from mem.release_frees [OF st this] show ?thesis using run Err None by simp
  qed (use run once(2) va in auto)
qed (use assms in \<open>auto simp: Fund_def\<close>)

lemma fund_quiet:
  assumes "golib_ok L" "store_inv (p_utxo p)" "\<not> s_closed (p_utxo p)" "quiet p0 p"
  obtains q r where "Fund L f prov_ops a p = Some (q, r)" "quiet p0 q"
    "case r of
       Ok res \<Rightarrow> mem.pass_result L f a (coins (p_utxo p)) res (p_utxo q) \<and> 1 \<le> a_MaxChangeOutputsPerTx a
     | Err e \<Rightarrow> if validate_args a = None then store_inv (p_utxo q) \<and> \<not> s_closed (p_utxo q) \<and>
                  coins (p_utxo q) = (\<lambda>op. map_option (janitor_free (a_UserID a) (a_Reservation a)) (coins (p_utxo p) op))
                else p_utxo q = p_utxo p
     | Panic \<Rightarrow> True"
proof -
  from Fund_held [OF assms(1-3), of f a] obtain s' r where run: "Fund L f mem_ops a (p_utxo p) = Some (s', r)"
    and post: "case r of Ok res \<Rightarrow> mem.pass_result L f a (coins (p_utxo p)) res s' \<and> 1 \<le> a_MaxChangeOutputsPerTx a
     | Err e \<Rightarrow> if validate_args a = None then store_inv s' \<and> \<not> s_closed s' \<and>
                  coins s' = (\<lambda>op. map_option (janitor_free (a_UserID a) (a_Reservation a)) (coins (p_utxo p) op)) else s' = p_utxo p
     | Panic \<Rightarrow> True" by blast
  from pf.Fund_hom [OF run assms(4)] obtain q where "Fund L f prov_ops a p = Some (q, r)" "quiet p0 q" "s' = p_utxo q" by auto
  with post show ?thesis using that by blast
qed

section \<open>Reserving the caller's inputs\<close>

definition own_free :: "int \<Rightarrow> utxo \<Rightarrow> bool" where
  "own_free uid u \<longleftrightarrow> free_coin u \<and> u_UserID u = uid"

lemma reserve_claims:
  assumes inv: "store_inv s" and fresh: "\<forall>op u. coins s op = Some u \<longrightarrow> u_ReservedBy u \<noteq> t"
    and run: "ReserveOutpoints s uid t ops = (s', None)"
  shows "\<exists>us. claimed t (own_free uid) (coins s) us (coins s') \<and> u_Outpoint ` set us = set ops"
proof -
  note r = ReserveOutpoints_run [OF run]
  have stamp: "\<exists>u0. coins s op = Some u0 \<and> own_free uid u0 \<and> u_Outpoint u0 = op \<and>
      coins s' op = Some (u0\<lparr>u_ReservedBy := t, u_ReservedAt := now_time s\<rparr>)" if "op \<in> set ops" for op
  proof -
    from r(4) that obtain x where x: "map_of (s_rows s) op = Some x" by (auto simp: classifyReserve_def split: option.splits)
    then have c: "coins s op = Some (r_utxo x)" by (simp add: coins_def)
    have "classifyReserve (s_rows s) uid t op = ToStamp"
      using r(4) [rule_format, OF that] x fresh [rule_format, OF c] by (auto simp: classifyReserve_def split: option.splits if_splits)
    with x c r(6) [of op] that coins_wf [OF inv c] show ?thesis
      by (auto simp: classifyReserve_def own_free_def free_coin_def coin_wf_def split: option.splits if_splits)
  qed
  let ?us = "map (\<lambda>op. the (coins s' op)) (remdups ops)"
  have out: "u_Outpoint (the (coins s' op)) = op" if "op \<in> set ops" for op using stamp [OF that] by auto
  have m: "map u_Outpoint ?us = remdups ops" by (simp add: comp_def) (rule map_idI, simp add: out)
  have "claimed t (own_free uid) (coins s) ?us (coins s')"
    unfolding claimed_def m
  proof (intro conjI ballI allI impI)
    fix u assume "u \<in> set ?us"
    then obtain op where op: "op \<in> set ops" "u = the (coins s' op)" by auto
    from stamp [OF op(1)] op(2) show "\<exists>u0. coins s (u_Outpoint u) = Some u0 \<and> own_free uid u0 \<and> held_copy t u0 u \<and> coins s' (u_Outpoint u) = Some u"
      by (auto simp: held_copy_def)
  next
    fix op assume "op \<notin> u_Outpoint ` set ?us"
    then have "op \<notin> set ops" using out by force
    then show "coins s' op = coins s op" using r(6) [of op] by simp
  qed simp
  moreover have "u_Outpoint ` set ?us = set ops" using m by (metis list.set_map set_remdups)
  ultimately show ?thesis by blast
qed

end
