(* ===== verification/Create_Atomic.thy ===== *)
theory Create_Atomic
  imports Create_Fund
begin

text \<open>
  What creating an action holds on the way: reserving the inputs the caller named, funding over the provider's store
  and storing the unsigned transaction, and what each of them leaves behind when it fails.
\<close>

section \<open>Frames\<close>

lemma insertTx_frame: "insertTx nx p = (q, r) \<Longrightarrow> p_utxo q = p_utxo p \<and> p_faults q = p_faults p \<and> p_modeA q = p_modeA p"
  by (auto simp: insertTx_def Let_def split: prod.splits)

lemma insertOutput_frame:
  "insertOutput no p = (q, r) \<Longrightarrow> p_utxo q = p_utxo p \<and> p_faults q = p_faults p \<and> p_modeA q = p_modeA p \<and> db_txs (p_db q) = db_txs (p_db p)"
  by (auto simp: insertOutput_def Let_def split: prod.splits)

lemma insertPlans_frame:
  "insertPlans uid txID k pls p = (q, r) \<Longrightarrow>
     p_utxo q = p_utxo p \<and> p_faults q = p_faults p \<and> p_modeA q = p_modeA p \<and> db_txs (p_db q) = db_txs (p_db p)"
proof (induction pls arbitrary: k p)
  case (Cons pl pls)
  obtain p1 r1 where 1: "insertOutput (planOutput uid txID (of_nat k) pl) p = (p1, r1)" by force
  show ?case
  proof (cases r1)
    case (Inr i)
    with Cons.prems 1 have "insertPlans uid txID (Suc k) pls p1 = (q, r)" by (simp add: andThen_def)
    from Cons.IH [OF this] insertOutput_frame [OF 1] show ?thesis by simp
  qed (use Cons.prems 1 insertOutput_frame [OF 1] in \<open>simp add: andThen_def\<close>)
qed (simp add: ret_def)

lemma persist_cases:
  assumes "persistCreateAction lib nt bl rnd pol uid t prefix args provided scr fr p = (q, r)"
  obtains (fail) e where "r = Inl e" "p_utxo q = p_utxo p" "p_faults q = p_faults p" "p_modeA q = p_modeA p"
  | (stored) res plans0 allocated beef b p1 txID inputs where "r = Inr res" "p_utxo q = p_utxo p" "p_faults q = p_faults p" "p_modeA q = p_modeA p"
      "buildOutputPlans bl rnd pol args fr prefix scr = Inr plans0" "TotalAllocated fr = Inr allocated"
      "insertTx (unsignedTx uid t args (i64_wrap (res_ChangeAmount fr - allocated)) b) p = (p1, Inr txID)"
      "db_txs (p_db q) = db_txs (p_db p1)"
      "buildResultInputs lib bl (p_db q) uid provided (res_AllocatedUTXOs fr) beef (ca_IncludeAllSourceTransactions args) = Inr inputs"
      "cr_Inputs res = inputs" "cr_Outputs res = buildResultOutputs (if ca_RandomizeOutputs args then Shuffle rnd plans0 else plans0)" "cr_Reference res = t"
proof -
  note def = assms [unfolded persistCreateAction_def]
  show thesis
  proof (cases "\<exists>plans0 allocated beef b. buildOutputPlans bl rnd pol args fr prefix scr = Inr plans0 \<and>
      TotalAllocated fr = Inr allocated \<and> inputBeefOf lib nt bl pol (p_db p) args (res_AllocatedUTXOs fr) = Inr (beef, b)")
    case False
    have "\<exists>e. r = Inl e \<and> q = p" using def False by (auto split: sum.splits prod.splits)
    then show thesis using fail by auto
  next
    case True
    then obtain plans0 allocated beef b where p0: "buildOutputPlans bl rnd pol args fr prefix scr = Inr plans0"
        "TotalAllocated fr = Inr allocated" "inputBeefOf lib nt bl pol (p_db p) args (res_AllocatedUTXOs fr) = Inr (beef, b)" by blast
    let ?plans = "if ca_RandomizeOutputs args then Shuffle rnd plans0 else plans0"
    obtain p1 r1 where 1: "insertTx (unsignedTx uid t args (i64_wrap (res_ChangeAmount fr - allocated)) b) p = (p1, r1)" by force
    note f1 = insertTx_frame [OF 1]
    show thesis
    proof (cases r1)
      case (Inl e)
      then show thesis using def p0 1 f1 fail by (auto simp: Let_def andThen_def)
    next
      case (Inr txID)
      obtain p2 r2 where 2: "insertPlans uid txID 0 ?plans p1 = (p2, r2)" by force
      note f2 = insertPlans_frame [OF 2]
      show thesis
      proof (cases r2)
        case (Inl e)
        then show thesis using def p0 1 \<open>r1 = Inr txID\<close> 2 f1 f2 fail by (auto simp: Let_def andThen_def)
      next
        case (Inr u)
        then show thesis
          using def p0 1 \<open>r1 = Inr txID\<close> 2 f1 f2 fail stored [of _ plans0 allocated b p1 txID beef]
          by (cases "buildResultInputs lib bl (p_db p2) uid provided (res_AllocatedUTXOs fr) beef (ca_IncludeAllSourceTransactions args)")
             (auto simp: Let_def andThen_def)
      qed
    qed
  qed
qed

section \<open>Preparing\<close>

lemma prepare_facts:
  assumes "prepareCreate lib bl L rnd pol db uid args = Inr pc"
  shows "Base64 rnd 0 = Some (pc_reference pc)" "a_UserID (pc_fund pc) = uid" "a_Reservation (pc_fund pc) = pc_reference pc"
    and "a_Tiers (pc_fund pc) = spendTiers pol" "a_MaxChangeOutputsPerTx (pc_fund pc) = maxChangeOutputsPerTx pol"
    and "\<exists>d. fundingSource pol (ca_FuelShape args) = Inr (a_Basket (pc_fund pc), d)"
    and "\<exists>beef sats. resolveProvidedInputs lib bl db uid beef (ca_Inputs args) 0 = Inr (pc_inputs pc, sats) \<and>
           From (Signed (fundingTarget pol args sats)) = Inr (a_TargetSat (pc_fund pc))"
  using assms
  by (auto simp: prepareCreate_def fundArgs_def split: option.splits sum.splits prod.splits) blast

lemma prepare_valid:
  assumes "prepareCreate lib bl L rnd pol db uid args = Inr pc" "pc_reference pc \<noteq> ''''" "0 < uid"
    and "\<forall>b d. fundingSource pol (ca_FuelShape args) = Inr (b, d) \<longrightarrow> b \<noteq> ''''"
  shows "validate_args (pc_fund pc) = None"
proof -
  note f = prepare_facts [OF assms(1)]
  have "a_Tiers (pc_fund pc) \<noteq> [] \<and> badTier (a_Tiers (pc_fund pc)) = None"
    by (auto simp: f spendTiers_def SpendTiers_def Valid_def TierMined_def TierUnproven_def TierSending_def split: option.splits)
  moreover have "1 \<le> a_MaxChangeOutputsPerTx (pc_fund pc)" by (simp add: f maxChangeOutputsPerTx_def)
  ultimately show ?thesis using f assms(2-4) by (auto simp: validate_args_def)
qed

section \<open>Reserving and funding\<close>

definition fresh_token :: "string \<Rightarrow> store \<Rightarrow> bool" where
  "fresh_token t s \<longleftrightarrow> (\<forall>op u. coins s op = Some u \<longrightarrow> u_ReservedBy u \<noteq> t)"

definition working :: "prov \<Rightarrow> bool" where
  "working p \<longleftrightarrow> store_inv (p_utxo p) \<and> \<not> s_closed (p_utxo p) \<and> (\<forall>n. p_faults p n = None)"

lemma claimed_restores:
  assumes "claimed t (own_free uid) (coins s) us V" "store_inv s" "fresh_token t s" "t \<noteq> ''''"
  shows "(\<lambda>op. map_option (janitor_free uid t) (V op)) = coins s"
proof -
  have "coins_wf (coins s)" using mem.view_wf [OF assms(2)] by (auto simp: coins_wf_def)
  from claimed_undo [OF assms(1) this _ assms(4), of uid] janitor_free_fresh [of "coins s" t uid] assms(3)
  show ?thesis by (simp add: own_free_def fresh_token_def)
qed

lemma reserve_quiet:
  assumes "working p" "fresh_token t (p_utxo p)"
  obtains p1 r where "reserveProvidedInputs uid t ops p = (p1, r)" "quiet p p1" "store_inv (p_utxo p1)" "\<not> s_closed (p_utxo p1)"
    "case r of Inl e \<Rightarrow> p_utxo p1 = p_utxo p \<and> e \<noteq> Panicked
     | Inr _ \<Rightarrow> (\<exists>us. claimed t (own_free uid) (coins (p_utxo p)) us (coins (p_utxo p1)) \<and> u_Outpoint ` set us = set ops \<and> (ops \<noteq> [] \<longrightarrow> t \<noteq> ''''))"
proof (cases "ops = []")
  case True
  have "claimed t (own_free uid) (coins (p_utxo p)) [] (coins (p_utxo p))" by simp
  with True assms show thesis
    by (intro that [of p "Inr ()"]) (auto simp: reserveProvidedInputs_def working_def quiet_refl)
next
  case False
  let ?f = "\<lambda>s. plain_err (ReserveOutpoints s uid t ops)"
  have w: "quiet p p" "store_inv (p_utxo p)" "\<not> s_closed (p_utxo p)" using assms(1) by (simp_all add: working_def quiet_refl)
  obtain s' e where run: "ReserveOutpoints (p_utxo p) uid t ops = (s', e)" by force
  then have f: "?f (p_utxo p) = (s', case e of None \<Rightarrow> Inr () | Some e \<Rightarrow> Inl e)" by (simp add: plain_err_def)
  obtain q where q: "utxo_call ?f p = (q, case (case e of None \<Rightarrow> Inr () | Some e \<Rightarrow> Inl e) of Inl e \<Rightarrow> Inl (StoreErr e) | Inr a \<Rightarrow> Inr a)"
      "quiet p q" "p_utxo q = s'" using quiet_call [where f = ?f, OF w(1) f] .
  show thesis
  proof (cases e)
    case (Some x)
    then have "s' = p_utxo p" using ReserveOutpoints_refused run by simp
    then show thesis using q w False Some
      by (intro that [of q "Inl (mapProvidedInputError x)"]) (auto simp: reserveProvidedInputs_def mapProvidedInputError_def split: option.splits)
  next
    case None
    from reserve_claims [OF w(2) _ run [unfolded None]] assms(2) obtain us where
      "claimed t (own_free uid) (coins (p_utxo p)) us (coins s')" "u_Outpoint ` set us = set ops" by (auto simp: fresh_token_def)
    moreover have "store_inv s'" using ReserveOutpoints_inv [OF w(2), of uid t ops] run by simp
    moreover have "\<not> s_closed s'" using ReserveOutpoints_run(5) [OF run [unfolded None]] w(3) by (simp add: ticked_def)
    ultimately show thesis using q False None ReserveOutpoints_run(2) [OF run [unfolded None]]
      by (intro that [of q "Inr ()"]) (auto simp: reserveProvidedInputs_def)
  qed
qed

lemma funded_quiet:
  assumes L: "golib_ok L" and w: "working p" "fresh_token t (p_utxo p)"
    and p1: "quiet p p1" "store_inv (p_utxo p1)" "\<not> s_closed (p_utxo p1)"
    and us: "claimed t (own_free uid) (coins (p_utxo p)) us (coins (p_utxo p1))" "u_Outpoint ` set us = set ops"
    and a: "a_Reservation a = t" "a_UserID a = uid" and va: "us = [] \<or> validate_args a = None"
  obtains p2 r where "fundStep L f a p1 = Some (p2, r)" "quiet p p2"
    "case r of Inl e \<Rightarrow> e = Panicked \<or> coins (p_utxo p2) = coins (p_utxo p)
     | Inr fr \<Rightarrow> mem.pass_result L f a (coins (p_utxo p1)) fr (p_utxo p2) \<and> 1 \<le> a_MaxChangeOutputsPerTx a \<and> t \<noteq> '''' \<and>
         claimed t (own_free uid) (coins (p_utxo p)) (us @ res_AllocatedUTXOs fr) (coins (p_utxo p2)) \<and>
         store_inv (p_utxo p2) \<and> \<not> s_closed (p_utxo p2)"
proof -
  from fund_quiet [OF L p1(2,3,1), of f a] obtain p2 r where run: "Fund L f prov_ops a p1 = Some (p2, r)" "quiet p p2"
    and post: "case r of
       Ok res \<Rightarrow> mem.pass_result L f a (coins (p_utxo p1)) res (p_utxo p2) \<and> 1 \<le> a_MaxChangeOutputsPerTx a
     | Err e \<Rightarrow> if validate_args a = None then store_inv (p_utxo p2) \<and> \<not> s_closed (p_utxo p2) \<and>
                  coins (p_utxo p2) = (\<lambda>op. map_option (janitor_free (a_UserID a) (a_Reservation a)) (coins (p_utxo p1) op))
                else p_utxo p2 = p_utxo p1
     | Panic \<Rightarrow> True" by blast
  have s: "store_inv (p_utxo p)" using w(1) by (simp add: working_def)
  show thesis
  proof (cases r)
    case (Err e)
    have "coins (p_utxo p2) = coins (p_utxo p)"
    proof (cases "validate_args a = None")
      case True
      then have "t \<noteq> ''''" using mem.validate_args_None a(1) by blast
      from claimed_restores [OF us(1) s w(2) this] show ?thesis using post Err True a by simp
    next
      case False
      then have "us = []" using va by auto
      then show ?thesis using post Err False us(1) by simp
    qed
    then show thesis using run Err by (intro that [of p2 "Inl (FundErr e)"]) (auto simp: fundStep_def of_go_def)
  next
    case (Ok fr)
    with post have pr: "mem.pass_result L f a (coins (p_utxo p1)) fr (p_utxo p2)" "1 \<le> a_MaxChangeOutputsPerTx a" by auto
    note facts = mem.pass_result_facts(1-3) [OF L pr(2,1)]
    have t: "t \<noteq> ''''"
    proof
      assume "t = ''''"
      then have "validate_args a = Some ArgReservation" using a by (simp add: validate_args_def)
      then show False using run(1) Ok by (simp add: Fund_def)
    qed
    have "claimed t (own_free uid) (coins (p_utxo p)) (us @ res_AllocatedUTXOs fr) (coins (p_utxo p2))"
    proof (rule claimed_append [OF us(1) facts(3) [unfolded a(1)] t])
      fix u assume "walk_coin a u"
      with walk_coin_free [OF this] a show "own_free uid u \<and> u_ReservedBy u = ''''" by (simp add: own_free_def free_coin_def)
    qed
    with pr t facts run Ok show thesis by (intro that [of p2 "Inr fr"]) (auto simp: fundStep_def of_go_def)
  qed (use run in \<open>auto intro!: that [of p2 "Inl Panicked"] simp: fundStep_def of_go_def\<close>)
qed

lemma detached_coins:
  assumes "working p" "claimed t (own_free uid) (coins s) us (coins (p_utxo p))" "store_inv s" "fresh_token t s"
  shows "coins (p_utxo (releaseReservationDetached uid t p)) = (if t = '''' then coins (p_utxo p) else coins s)"
proof -
  have w: "quiet p p" "\<not> s_closed (p_utxo p)" using assms(1) by (simp_all add: working_def quiet_refl)
  obtain s' r where run: "ReleaseReservation (p_utxo p) uid t = (s', r)" by force
  obtain q where q: "utxo_call (\<lambda>s. ReleaseReservation s uid t) p = (q, case r of Inl e \<Rightarrow> Inl (StoreErr e) | Inr a \<Rightarrow> Inr a)" "p_utxo q = s'"
    using quiet_call [where f = "\<lambda>s. ReleaseReservation s uid t", OF w(1) run] .
  have "coins s' = (if t = '''' then coins (p_utxo p) else (\<lambda>op. map_option (janitor_free uid t) (coins (p_utxo p) op)))"
    using ReleaseReservation_coins(2) [OF run] w(2) run
    by (cases r) (auto simp: ReleaseReservation_def ValidateReservation_def split: if_splits)
  then show ?thesis using claimed_restores [OF assms(2-4)] q by (simp add: releaseReservationDetached_def)
qed

section \<open>The template and the coins it spends\<close>

definition spends :: "sdk \<Rightarrow> sdk_input \<Rightarrow> outpoint \<Rightarrow> bool" where
  "spends lib i op \<longleftrightarrow> si_SourceVout i = op_Vout op \<and>
     (si_SourceTxID i = HashString lib (op_TxID op) \<or> NewHashFromHex lib (si_SourceTxID i) = Some (op_TxID op))"

definition template_of :: "sdk \<Rightarrow> sdk_input list \<Rightarrow> outpoint set \<Rightarrow> bool" where
  "template_of lib ins hs \<longleftrightarrow>
     (\<forall>op \<in> hs. \<exists>i \<in> set ins. spends lib i op) \<and>
     (\<forall>i \<in> set ins. si_ProvidedBy i \<noteq> ''you'' \<longrightarrow> (\<exists>op \<in> hs. spends lib i op))"

lemma resolved_op:
  assumes "resolveProvidedInputs lib bl db uid beef ins tot = Inr (ris, s)" "ri \<in> set ris" "ri_op ri = Some op"
  shows "NewHashFromHex lib (ci_TxID (ri_input ri)) = Some (op_TxID op) \<and> ci_Vout (ri_input ri) = op_Vout op"
  using assms
proof (induction ins arbitrary: tot ris)
  case (Cons i ins)
  from Cons.prems(1) obtain x xs where x: "resolveInput lib bl db uid beef i = Inr x" "ris = x # xs"
    "resolveProvidedInputs lib bl db uid beef ins (i64_wrap (tot + ri_satoshis x)) = Inr (xs, s)" by (auto split: sum.splits)
  show ?case
  proof (cases "ri = x")
    case True
    with x(1) Cons.prems(3) show ?thesis by (auto simp: resolveInput_def split: sum.splits list.splits option.splits)
  next
    case False
    with x Cons.IH [OF x(3)] Cons.prems show ?thesis by simp
  qed
qed simp

lemma in_enumerate: "(v, x) \<in> set (enumerate n xs) \<Longrightarrow> x \<in> set xs" "x \<in> set xs \<Longrightarrow> \<exists>v. (v, x) \<in> set (enumerate n xs)"
  by (induction xs arbitrary: n) auto

lemma template_spends:
  assumes "buildResultInputs lib bl db' uid ris us beef b = Inr ins"
    and "resolveProvidedInputs lib bl db uid beef' ins0 tot = Inr (ris, s)"
  shows "template_of lib ins (set (walletOwnedOutpoints ris) \<union> u_Outpoint ` set us)"
proof -
  from assms(1) obtain rows where ins: "ins = map (providedTemplate bl beef b) (enumerate 0 ris) @ map (allocatedTemplate lib bl beef b rows) (enumerate (length ris) us)"
    by (auto simp: buildResultInputs_def split: sum.splits)
  have a: "spends lib (allocatedTemplate lib bl beef b rows (v, u)) (u_Outpoint u)" for v u
    by (simp add: spends_def allocatedTemplate_def Let_def)
  have p: "spends lib (providedTemplate bl beef b (v, ri)) op" if "ri \<in> set ris" "ri_op ri = Some op" for v ri op
    using resolved_op [OF assms(2) that] by (simp add: spends_def providedTemplate_def)
  have own: "op \<in> set (walletOwnedOutpoints ris) \<longleftrightarrow> (\<exists>ri \<in> set ris. ri_op ri = Some op)" for op
    by (force simp: walletOwnedOutpoints_def List.map_filter_def)
  have y: "ri_op ri \<noteq> None" if "si_ProvidedBy (providedTemplate bl beef b (v, ri)) \<noteq> ''you''" for v ri
    using that by (auto simp: providedTemplate_def split: if_splits)
  have mem: "i \<in> set ins \<longleftrightarrow> (\<exists>v ri. (v, ri) \<in> set (enumerate 0 ris) \<and> i = providedTemplate bl beef b (v, ri)) \<or>
      (\<exists>v u. (v, u) \<in> set (enumerate (length ris) us) \<and> i = allocatedTemplate lib bl beef b rows (v, u))" for i
    by (auto simp: ins)
  show ?thesis unfolding template_of_def
  proof (intro conjI ballI impI)
    fix op assume "op \<in> set (walletOwnedOutpoints ris) \<union> u_Outpoint ` set us"
    then consider ri where "ri \<in> set ris" "ri_op ri = Some op" | u where "u \<in> set us" "op = u_Outpoint u" using own by auto
    then show "\<exists>i \<in> set ins. spends lib i op"
    proof cases
      case 1
      then show ?thesis using in_enumerate(2) [OF 1(1), of 0] p [OF 1] mem by metis
    next
      case 2
      then show ?thesis using in_enumerate(2) [OF 2(1), of "length ris"] a mem by metis
    qed
  next
    fix i assume i: "i \<in> set ins" "si_ProvidedBy i \<noteq> ''you''"
    then consider v ri where "ri \<in> set ris" "i = providedTemplate bl beef b (v, ri)"
      | v u where "u \<in> set us" "i = allocatedTemplate lib bl beef b rows (v, u)" using mem in_enumerate(1) by metis
    then show "\<exists>op \<in> set (walletOwnedOutpoints ris) \<union> u_Outpoint ` set us. spends lib i op"
    proof cases
      case 1
      then obtain op where "ri_op ri = Some op" using y i(2) by blast
      then show ?thesis using 1 p own by blast
    qed (use a in blast)
  qed
qed

lemma insertTx_row:
  assumes "insertTx nx p = (q, Inr i)"
  obtains r where "db_txs (p_db q) = db_txs (p_db p) @ [r]" "t_Reference r = nx_Reference nx" "t_Status r = nx_Status nx"
    "t_UserID r = nx_UserID nx" "t_Satoshis r = nx_Satoshis nx"
  using assms by (auto simp: insertTx_def tx_insert_def Let_def split: if_splits prod.splits)

section \<open>All or nothing\<close>

definition created :: "sdk \<Rightarrow> int \<Rightarrow> string \<Rightarrow> prov \<Rightarrow> prov \<Rightarrow> create_result \<Rightarrow> bool" where
  "created lib uid t p q res \<longleftrightarrow> cr_Reference res = t \<and>
     (\<exists>us. claimed t (own_free uid) (coins (p_utxo p)) us (coins (p_utxo q)) \<and>
           template_of lib (cr_Inputs res) (u_Outpoint ` set us)) \<and>
     (\<exists>r. db_txs (p_db q) = db_txs (p_db p) @ [r] \<and> t_Reference r = t \<and> t_UserID r = uid \<and> t_Status r = TxStatusUnsigned)"

definition untouched :: "prov \<Rightarrow> perr \<Rightarrow> prov \<Rightarrow> bool" where
  "untouched p e q \<longleftrightarrow> p_db q = p_db p \<and> (coins (p_utxo q) = coins (p_utxo p) \<or> e = Panicked \<and> \<not> p_modeA p)"

lemma persist_created:
  assumes run: "persistCreateAction lib nt bl rnd pol uid t prefix args ris scr fr p2 = (q, Inr res)"
    and db: "p_db p2 = p_db p" and c: "claimed t (own_free uid) (coins (p_utxo p)) (us @ res_AllocatedUTXOs fr) (coins (p_utxo p2))"
    and us: "u_Outpoint ` set us = set (walletOwnedOutpoints ris)"
    and r: "resolveProvidedInputs lib bl db uid beef' ins0 tot = Inr (ris, s)"
  shows "created lib uid t p q res"
  using run
proof (cases rule: persist_cases)
  case (stored res' plans0 allocated beef b p1 txID inputs)
  obtain row where "db_txs (p_db p1) = db_txs (p_db p2) @ [row]" "t_Reference row = t" "t_UserID row = uid" "t_Status row = TxStatusUnsigned"
    using insertTx_row [OF stored(7)] by (auto simp: unsignedTx_def)
  moreover have "template_of lib (cr_Inputs res) (u_Outpoint ` set (us @ res_AllocatedUTXOs fr))"
    using template_spends [OF stored(9) r] stored us by (simp add: image_Un)
  ultimately show ?thesis unfolding created_def using c stored db by auto
qed simp

lemma detached_db: "p_db (releaseReservationDetached uid t p) = p_db p"
  by (simp add: releaseReservationDetached_def utxo_call_def Let_def split: option.splits prod.splits sum.splits fault.splits)

lemma reserve_and_fund:
  assumes L: "golib_ok L" and w: "working p" "fresh_token (pc_reference pc) (p_utxo p)" and uid: "0 < uid"
    and pc: "prepareCreate lib bl L rnd pol (p_db p) uid args = Inr pc"
    and b: "\<forall>b d. fundingSource pol (ca_FuelShape args) = Inr (b, d) \<longrightarrow> b \<noteq> ''''"
  obtains (refused) p1 e where "reserveProvidedInputs uid (pc_reference pc) (walletOwnedOutpoints (pc_inputs pc)) p = (p1, Inl e)"
      "quiet p p1" "working p1" "coins (p_utxo p1) = coins (p_utxo p)"
  | (unfunded) p1 p2 e where "reserveProvidedInputs uid (pc_reference pc) (walletOwnedOutpoints (pc_inputs pc)) p = (p1, Inr ())"
      "fundStep L f (pc_fund pc) p1 = Some (p2, Inl e)" "quiet p p2" "e = Panicked \<or> coins (p_utxo p2) = coins (p_utxo p)"
  | (funded) p1 p2 fr us where "reserveProvidedInputs uid (pc_reference pc) (walletOwnedOutpoints (pc_inputs pc)) p = (p1, Inr ())"
      "fundStep L f (pc_fund pc) p1 = Some (p2, Inr fr)" "quiet p p2" "working p2" "pc_reference pc \<noteq> ''''"
      "mem.pass_result L f (pc_fund pc) (coins (p_utxo p1)) fr (p_utxo p2)"
      "claimed (pc_reference pc) (own_free uid) (coins (p_utxo p)) (us @ res_AllocatedUTXOs fr) (coins (p_utxo p2))"
      "u_Outpoint ` set us = set (walletOwnedOutpoints (pc_inputs pc))"
proof -
  let ?t = "pc_reference pc" and ?ops = "walletOwnedOutpoints (pc_inputs pc)"
  note a = prepare_facts(3,2) [OF pc]
  obtain p1 r1 where 1: "reserveProvidedInputs uid ?t ?ops p = (p1, r1)" "quiet p p1" "store_inv (p_utxo p1)" "\<not> s_closed (p_utxo p1)"
    "case r1 of Inl e \<Rightarrow> p_utxo p1 = p_utxo p \<and> e \<noteq> Panicked
     | Inr _ \<Rightarrow> (\<exists>us. claimed ?t (own_free uid) (coins (p_utxo p)) us (coins (p_utxo p1)) \<and> u_Outpoint ` set us = set ?ops \<and> (?ops \<noteq> [] \<longrightarrow> ?t \<noteq> ''''))"
    using reserve_quiet [OF w, of uid ?ops] .
  have w1: "working p1" using 1 w(1) quietD [OF 1(2)] by (simp add: working_def)
  show thesis
  proof (cases r1)
    case (Inl e)
    then show thesis using 1 w1 refused by simp
  next
    case (Inr x)
    with 1(5) obtain us where us: "claimed ?t (own_free uid) (coins (p_utxo p)) us (coins (p_utxo p1))" "u_Outpoint ` set us = set ?ops"
      "?ops \<noteq> [] \<longrightarrow> ?t \<noteq> ''''" by auto
    have va: "us = [] \<or> validate_args (pc_fund pc) = None" using us(2,3) prepare_valid [OF pc _ uid b] by fastforce
    obtain p2 r2 where 2: "fundStep L f (pc_fund pc) p1 = Some (p2, r2)" "quiet p p2"
      "case r2 of Inl e \<Rightarrow> e = Panicked \<or> coins (p_utxo p2) = coins (p_utxo p)
       | Inr fr \<Rightarrow> mem.pass_result L f (pc_fund pc) (coins (p_utxo p1)) fr (p_utxo p2) \<and> 1 \<le> a_MaxChangeOutputsPerTx (pc_fund pc) \<and> ?t \<noteq> '''' \<and>
           claimed ?t (own_free uid) (coins (p_utxo p)) (us @ res_AllocatedUTXOs fr) (coins (p_utxo p2)) \<and>
           store_inv (p_utxo p2) \<and> \<not> s_closed (p_utxo p2)"
      using funded_quiet [OF L w 1(2-4) us(1,2) a va, of f] .
    have "working p2" if "r2 = Inr fr" for fr using 2 w(1) that quietD [OF 2(2)] by (simp add: working_def)
    then show thesis using 1 Inr 2 us(2) unfunded funded by (cases r2) auto
  qed
qed

lemma create_unit:
  assumes L: "golib_ok L" and w: "working p" "fresh_token (pc_reference pc) (p_utxo p)" and uid: "0 < uid"
    and pc: "prepareCreate lib bl L rnd pol (p_db p) uid args = Inr pc"
    and b: "\<forall>b d. fundingSource pol (ca_FuelShape args) = Inr (b, d) \<longrightarrow> b \<noteq> ''''"
    and fails: "\<And>fr p2 q e. persist fr p2 = (q, Inl e) \<Longrightarrow> p_utxo q = p_utxo p2 \<and> p_faults q = p_faults p2 \<and> p_modeA q = p_modeA p2"
    and stored: "\<And>fr p1 p2 q res us. persist fr p2 = (q, Inr res) \<Longrightarrow> p_db p2 = p_db p \<Longrightarrow>
      reserveProvidedInputs uid (pc_reference pc) (walletOwnedOutpoints (pc_inputs pc)) p = (p1, Inr ()) \<Longrightarrow>
      fundStep L f (pc_fund pc) p1 = Some (p2, Inr fr) \<Longrightarrow> mem.pass_result L f (pc_fund pc) (coins (p_utxo p1)) fr (p_utxo p2) \<Longrightarrow>
      claimed (pc_reference pc) (own_free uid) (coins (p_utxo p)) (us @ res_AllocatedUTXOs fr) (coins (p_utxo p2)) \<Longrightarrow>
      u_Outpoint ` set us = set (walletOwnedOutpoints (pc_inputs pc)) \<Longrightarrow> good q res"
  shows "\<exists>q r. (if p_modeA p then createShared else createSplit) L f uid pc persist p = Some (q, r) \<and>
           (case r of Inl e \<Rightarrow> untouched p e q | Inr res \<Rightarrow> good q res)"
proof -
  let ?t = "pc_reference pc"
  have s: "store_inv (p_utxo p)" using w(1) by (simp add: working_def)
  from L w uid pc b show ?thesis
  proof (cases rule: reserve_and_fund [where f = f, consumes 6, case_names refused unfunded funded])
    case (refused p1 e)
    have "claimed ?t (own_free uid) (coins (p_utxo p)) [] (coins (p_utxo p1))" using refused(4) by simp
    from detached_coins [OF refused(3) this s w(2)] refused(4)
    have "coins (p_utxo (releaseReservationDetached uid ?t p1)) = coins (p_utxo p)" by simp
    then show ?thesis using refused(1) quietD [OF refused(2)]
      by (simp add: createShared_def createSplit_def DoUnit_def untouched_def detached_db)
  next
    case (unfunded p1 p2 e)
    then show ?thesis using quietD [OF unfunded(3)] by (auto simp: createShared_def createSplit_def DoUnit_def untouched_def)
  next
    case (funded p1 p2 fr us)
    note q = quietD [OF funded(3)]
    obtain p3 r3 where 3: "persist fr p2 = (p3, r3)" by force
    show ?thesis
    proof (cases r3)
      case (Inr res)
      have "good p3 res" using stored [OF 3 [unfolded Inr] _ funded(1,2,6,7,8)] q by simp
      then show ?thesis using funded(1,2) 3 Inr by (simp add: createShared_def createSplit_def DoUnit_def)
    next
      case (Inl e)
      note fr3 = fails [OF 3 [unfolded Inl]]
      let ?p3 = "p3\<lparr>p_db := p_db p\<rparr>"
      have "working ?p3" using funded(4) fr3 by (simp add: working_def)
      moreover have "claimed ?t (own_free uid) (coins (p_utxo p)) (us @ res_AllocatedUTXOs fr) (coins (p_utxo ?p3))" using funded(7) fr3 by simp
      ultimately have "coins (p_utxo (releaseReservationDetached uid ?t ?p3)) = coins (p_utxo p)"
        using detached_coins [of ?p3 ?t uid "p_utxo p" "us @ res_AllocatedUTXOs fr"] s w(2) funded(5) by simp
      then show ?thesis using funded(1,2) 3 Inl fr3 q
        by (auto simp: createShared_def createSplit_def DoUnit_def untouched_def detached_db)
    qed
  qed
qed

end
