(* ===== verification/Create_Balance.thy ===== *)
theory Create_Balance
  imports Create_Atomic
begin

text \<open>
  The template of a created action balances. Every sum of \<open>create.go\<close> is taken in \<open>int64\<close> and wraps, so the
  balance is first shown modulo \<open>2 ^ 64\<close> and is exact as soon as the amounts of the template do not themselves
  add up beyond \<open>int64\<close>.
\<close>

section \<open>Sums modulo the word size\<close>

definition same64 :: "int \<Rightarrow> int \<Rightarrow> bool" where
  "same64 a b \<longleftrightarrow> 2 ^ 64 dvd a - b"

lemma same64_refl [simp]: "same64 a a"
  by (simp add: same64_def)

lemma same64_sym: "same64 a b \<Longrightarrow> same64 b a"
  unfolding same64_def by (subst dvd_diff_commute)

lemma same64_trans: "same64 a b \<Longrightarrow> same64 b c \<Longrightarrow> same64 a c"
  unfolding same64_def using dvd_add [of "2 ^ 64" "a - b" "b - c"] by simp

lemma same64_add: "same64 a b \<Longrightarrow> same64 c d \<Longrightarrow> same64 (a + c) (b + d)"
  unfolding same64_def using dvd_add [of "2 ^ 64" "a - b" "c - d"] by (simp add: algebra_simps)

lemma same64_diff: "same64 a b \<Longrightarrow> same64 c d \<Longrightarrow> same64 (a - c) (b - d)"
  unfolding same64_def using dvd_diff [of "2 ^ 64" "a - b" "c - d"] by (simp add: algebra_simps)

lemma same64_mult: "same64 a b \<Longrightarrow> same64 (a * c) (b * c)"
  unfolding same64_def using dvd_mult2 [of "2 ^ 64" "a - b" c] by (simp add: algebra_simps)

lemma same64_wrap: "same64 (i64_wrap n) n"
proof -
  have "i64_wrap n - n = 2 ^ 64 * - ((n + 2 ^ 63) div 2 ^ 64)"
    unfolding i64_wrap_def using minus_mod_eq_mult_div [of "n + 2 ^ 63" "2 ^ 64"] by linarith
  then show ?thesis unfolding same64_def by (metis dvd_triv_left)
qed

lemma same64_i64: "same64 (i64 v) (int (unat v))"
proof -
  have "int (unat v) = sint v mod 2 ^ 64" using uint_sint [of v] by (simp add: take_bit_eq_mod)
  then have "i64 v - int (unat v) = 2 ^ 64 * (sint v div 2 ^ 64)" by (simp add: i64_def minus_mod_eq_mult_div)
  then show ?thesis unfolding same64_def by (metis dvd_triv_left)
qed

lemma same64_sum: "(\<And>x. x \<in> set xs \<Longrightarrow> same64 (f x) (g x)) \<Longrightarrow> same64 (\<Sum>x\<leftarrow>xs. f x) (\<Sum>x\<leftarrow>xs. g x)"
  by (induction xs) (auto intro: same64_add)

lemma same64_exact: "same64 a b \<Longrightarrow> \<bar>a - b\<bar> < 2 ^ 64 \<Longrightarrow> a = b"
  unfolding same64_def using zdvd_not_zless [of "\<bar>a - b\<bar>" "2 ^ 64"] by (cases "a = b") auto

lemma same64_small: "same64 a (b + c) \<Longrightarrow> \<bar>a\<bar> < 2 ^ 62 \<Longrightarrow> \<bar>b\<bar> < 2 ^ 62 \<Longrightarrow> \<bar>c\<bar> < 2 ^ 62 \<Longrightarrow> a = b + c"
  by (erule same64_exact) simp

section \<open>The parts of the template\<close>

lemma resolved_sum: "resolveProvidedInputs lib bl db uid beef ins tot = Inr (ris, s) \<Longrightarrow> same64 s (tot + (\<Sum>ri\<leftarrow>ris. ri_satoshis ri))"
proof (induction ins arbitrary: tot ris)
  case (Cons i ins)
  from Cons.prems obtain x xs where x: "ris = x # xs"
    "resolveProvidedInputs lib bl db uid beef ins (i64_wrap (tot + ri_satoshis x)) = Inr (xs, s)" by (auto split: sum.splits)
  from same64_trans [OF Cons.IH [OF x(2)] same64_add [OF same64_wrap same64_refl]] show ?case by (simp add: x(1) add.assoc)
qed simp

lemma given_sum: "providedPlans bl os = Inr ps \<Longrightarrow> same64 (fst (providedOutputSizes os tot)) (tot + (\<Sum>pl\<leftarrow>ps. pn_satoshis pl))"
proof (induction os arbitrary: tot ps)
  case (Cons x os)
  from Cons.prems obtain pl pls where p: "ps = pl # pls" "providedPlans bl os = Inr pls" "pn_satoshis pl = i64 (co_Satoshis x)"
    by (auto split: sum.splits option.splits)
  from same64_trans [OF Cons.IH [OF p(2)] same64_add [OF same64_wrap [of "tot + i64 (co_Satoshis x)"] same64_refl]] show ?case
    by (simp add: p(1,3) add.assoc split_beta)
qed simp

lemma derived_sum: "derivedPlans rnd k prefix bk vs = Inr ps \<Longrightarrow> (\<Sum>pl\<leftarrow>ps. pn_satoshis pl) = sum_list vs"
  by (induction rnd k prefix bk vs arbitrary: ps rule: derivedPlans.induct) (auto split: option.splits sum.splits)

lemma change_sum:
  assumes "of_go (distributeChange v n) = Inr vs" "0 \<le> v"
  shows "int (sum_list vs) = (if n = 0 then 0 else v)"
proof (cases "n = 0 \<or> v \<le> 0")
  case True
  with assms show ?thesis by (auto simp: of_go_def distributeChange_def)
next
  case False
  let ?t = "nat v" let ?o = "(replicate n (?t div n))[n - 1 := ?t div n + ?t mod n]"
  have "vs = ?o" using assms(1) False by (simp add: of_go_def distributeChange_def MustUInt64_def UInt64_def)
  moreover have "sum_list ?o = sum_list (replicate n (?t div n)) + (?t div n + ?t mod n) - ?t div n"
    using False by (subst sum_list_update) simp_all
  ultimately show ?thesis using False by (simp add: sum_list_replicate)
qed

lemma plans_sum:
  assumes "buildOutputPlans bl rnd pol args fr prefix scr = Inr plans" "0 \<le> res_ChangeAmount fr"
  shows "same64 (\<Sum>pl\<leftarrow>plans. pn_satoshis pl)
    (fundingTarget pol args sats + sats + (if res_ChangeOutputsCount fr = 0 then 0 else res_ChangeAmount fr))"
proof -
  from assms(1) obtain given fuel vs chg where g: "providedPlans bl (ca_Outputs args) = Inr given"
    and fu: "derivedPlans rnd 2 prefix (case ca_FuelShape args of None \<Rightarrow> '''' | Some sh \<Rightarrow> sh_Basket sh) (fuelValues args) = Inr fuel"
    and vs: "of_go (distributeChange (res_ChangeAmount fr) (res_ChangeOutputsCount fr)) = Inr vs"
    and ch: "derivedPlans rnd (2 + length fuel) prefix (changeDestinationBasket pol (ca_FuelShape args)) (map (\<lambda>v. i64_wrap (int v)) vs) = Inr chg"
    and plans: "plans = given @ commissionPlans pol scr @ fuel @ chg"
    by (auto simp: buildOutputPlans_def split: sum.splits)
  let ?c = "\<Sum>pl\<leftarrow>commissionPlans pol scr. pn_satoshis pl"
  define t1 where "t1 = (let t0 = fst (providedOutputSizes (ca_Outputs args) 0) in
    if cp_commissionSatoshis pol > 0 then i64_wrap (t0 + i64_wrap (int (cp_commissionSatoshis pol))) else t0)"
  have t1: "same64 t1 ((\<Sum>pl\<leftarrow>given. pn_satoshis pl) + ?c)"
    using given_sum [OF g, of 0] same64_trans [OF same64_wrap same64_add [OF given_sum [OF g, of 0] same64_refl]]
    by (simp add: t1_def commissionPlans_def Let_def)
  have fuel: "(\<Sum>pl\<leftarrow>fuel. pn_satoshis pl) = (case ca_FuelShape args of None \<Rightarrow> 0 | Some sh \<Rightarrow> int (unat (sh_Count sh)) * i64 (sh_Satoshis sh))"
    using derived_sum [OF fu] by (simp add: fuelValues_def sum_list_replicate split: option.splits)
  have "same64 (fundingTarget pol args sats) (((\<Sum>pl\<leftarrow>given. pn_satoshis pl) + ?c) + (\<Sum>pl\<leftarrow>fuel. pn_satoshis pl) - sats)"
  proof (cases "ca_FuelShape args")
    case None
    then show ?thesis using same64_trans [OF same64_wrap same64_diff [OF t1 same64_refl]] fuel
      by (simp add: fundingTarget_def t1_def Let_def)
  next
    case (Some sh)
    have "same64 (i64_wrap (i64 (sh_Count sh) * i64 (sh_Satoshis sh))) (\<Sum>pl\<leftarrow>fuel. pn_satoshis pl)"
      using same64_trans [OF same64_wrap same64_mult [OF same64_i64]] Some fuel by simp
    from same64_trans [OF same64_wrap same64_diff [OF same64_trans [OF same64_wrap same64_add [OF t1 this]] same64_refl]]
    show ?thesis using Some by (simp add: fundingTarget_def t1_def Let_def)
  qed
  moreover have "same64 (\<Sum>pl\<leftarrow>chg. pn_satoshis pl) (if res_ChangeOutputsCount fr = 0 then 0 else res_ChangeAmount fr)"
  proof -
    have "same64 (\<Sum>v\<leftarrow>vs. i64_wrap (int v)) (\<Sum>v\<leftarrow>vs. int v)" by (rule same64_sum) (rule same64_wrap)
    moreover have "(\<Sum>v\<leftarrow>vs. int v) = int (sum_list vs)" by (induction vs) simp_all
    ultimately show ?thesis using change_sum [OF vs assms(2)] derived_sum [OF ch] by simp
  qed
  ultimately have "same64 ((fundingTarget pol args sats + sats) + (if res_ChangeOutputsCount fr = 0 then 0 else res_ChangeAmount fr))
      ((((\<Sum>pl\<leftarrow>given. pn_satoshis pl) + ?c) + (\<Sum>pl\<leftarrow>fuel. pn_satoshis pl) - sats + sats) + (\<Sum>pl\<leftarrow>chg. pn_satoshis pl))"
    by (intro same64_add) (auto intro: same64_sym)
  from same64_sym [OF this] show ?thesis by (simp add: plans add.assoc)
qed

section \<open>The balance\<close>

definition retained :: "result \<Rightarrow> int" where
  "retained fr = res_Fee fr + (if res_ChangeOutputsCount fr = 0 then res_ChangeAmount fr else 0)"

lemma TotalAllocated_range: "TotalAllocated fr = Inr v \<Longrightarrow> v = sats_of (res_AllocatedUTXOs fr) \<and> in_range v"
  using checked_sums_exact [of "Unsigned 0" "Unsigned 0" v "map (\<lambda>u. Unsigned (unat (u_Satoshis u))) (res_AllocatedUTXOs fr)"]
  by (auto simp: TotalAllocated_def Collector.sats_of_def list_all_iff comp_def dest!: bspec [of _ _ "length (res_AllocatedUTXOs fr)"])

lemma map_enumerate: "map (\<lambda>vx. f (snd vx)) (enumerate n xs) = map f xs"
  by (induction xs arbitrary: n) simp_all

lemma outputs_sum: "same64 (\<Sum>x\<leftarrow>buildResultOutputs plans. int (unat (so_Satoshis x))) (\<Sum>pl\<leftarrow>plans. pn_satoshis pl)"
proof -
  have "same64 (int (unat (of_int v :: u64))) v" for v
  proof -
    have "int (unat (of_int v :: u64)) = v mod 2 ^ 64" by (simp add: unsigned_of_int take_bit_eq_mod)
    then have "int (unat (of_int v :: u64)) - v = 2 ^ 64 * - (v div 2 ^ 64)" using minus_mod_eq_mult_div [of v "2 ^ 64"] by simp
    then show ?thesis unfolding same64_def by (metis dvd_triv_left)
  qed
  then have "same64 (\<Sum>pl\<leftarrow>plans. int (unat (of_int (pn_satoshis pl) :: u64))) (\<Sum>pl\<leftarrow>plans. pn_satoshis pl)" by (intro same64_sum)
  moreover have "map (\<lambda>x. int (unat (so_Satoshis x))) (buildResultOutputs plans) = map (\<lambda>pl. int (unat (of_int (pn_satoshis pl) :: u64))) plans"
    unfolding map_enumerate [where f = "\<lambda>pl. int (unat (of_int (pn_satoshis pl) :: u64))" and n = 0, symmetric]
    by (simp add: buildResultOutputs_def comp_def split_beta')
  ultimately show ?thesis by simp
qed

lemma inputs_sum:
  assumes "buildResultInputs lib bl db uid ris us beef b = Inr ins"
  shows "same64 (\<Sum>i\<leftarrow>ins. si_SourceSatoshis i) ((\<Sum>ri\<leftarrow>ris. ri_satoshis ri) + sats_of us)"
proof -
  from assms obtain rows where ins: "ins = map (providedTemplate bl beef b) (enumerate 0 ris) @ map (allocatedTemplate lib bl beef b rows) (enumerate (length ris) us)"
    by (auto simp: buildResultInputs_def split: sum.splits)
  have "same64 (\<Sum>u\<leftarrow>us. i64 (u_Satoshis u)) (\<Sum>u\<leftarrow>us. int (unat (u_Satoshis u)))" by (rule same64_sum) (rule same64_i64)
  moreover have "map (\<lambda>x. si_SourceSatoshis (providedTemplate bl beef b x)) (enumerate 0 ris) = map ri_satoshis ris"
    "map (\<lambda>x. si_SourceSatoshis (allocatedTemplate lib bl beef b rows x)) (enumerate (length ris) us) = map (\<lambda>u. i64 (u_Satoshis u)) us"
    by (simp_all add: providedTemplate_def allocatedTemplate_def Let_def split_beta' map_enumerate [where f = ri_satoshis] map_enumerate [where f = "\<lambda>u. i64 (u_Satoshis u)"])
  ultimately show ?thesis by (auto simp: ins comp_def Collector.sats_of_def intro: same64_add)
qed

lemma persist_balances:
  assumes run: "persistCreateAction lib nt bl rnd pol uid t prefix args ris scr fr p2 = (q, Inr res)"
    and pr: "golib_ok L" "1 \<le> a_MaxChangeOutputsPerTx a" "mem.pass_result L f a V fr s"
    and r: "resolveProvidedInputs lib bl db uid beef' (ca_Inputs args) 0 = Inr (ris, sats)"
    and tgt: "From (Signed (fundingTarget pol args sats)) = Inr (a_TargetSat a)"
    and sh: "\<forall>ps. mset (Shuffle rnd ps) = mset ps"
  shows "same64 (\<Sum>i\<leftarrow>cr_Inputs res. si_SourceSatoshis i) ((\<Sum>x\<leftarrow>cr_Outputs res. int (unat (so_Satoshis x))) + retained fr) \<and>
         \<bar>retained fr\<bar> < 2 ^ 62"
  using run
proof (cases rule: persist_cases)
  case (stored res' plans0 allocated beef b p1 txID inputs)
  note facts = mem.pass_result_facts(4-7) [OF pr] and fee = mem.pass_result_fee [OF pr(3,1,2)]
  let ?chg = "if res_ChangeOutputsCount fr = 0 then 0 else res_ChangeAmount fr"
  have target: "a_TargetSat a = fundingTarget pol args sats" "in_range (a_TargetSat a)" using tgt by (simp_all add: From_Inr)
  let ?plans = "if ca_RandomizeOutputs args then Shuffle rnd plans0 else plans0"
  have "(\<Sum>pl\<leftarrow>?plans. pn_satoshis pl) = (\<Sum>pl\<leftarrow>plans0. pn_satoshis pl)"
    using sh by (simp add: sum_mset_sum_list [symmetric])
  then have outs: "same64 (\<Sum>x\<leftarrow>cr_Outputs res. int (unat (so_Satoshis x))) (a_TargetSat a + sats + ?chg)"
    using same64_trans [OF outputs_sum] plans_sum [OF stored(5) facts(2), of sats] target(1) stored(1,11) by simp
  have ins: "same64 (\<Sum>i\<leftarrow>cr_Inputs res. si_SourceSatoshis i) (sats + sats_of (res_AllocatedUTXOs fr))"
    using same64_trans [OF inputs_sum [OF stored(9)] same64_add [OF same64_sym [OF resolved_sum [OF r], simplified] same64_refl]] stored(1,10) by simp
  have eq: "sats + sats_of (res_AllocatedUTXOs fr) = (a_TargetSat a + sats + ?chg) + retained fr"
    using facts(1) by (simp add: retained_def)
  have "\<bar>retained fr\<bar> < 2 ^ 62"
    using TotalAllocated_range [OF stored(6)] target(2) fee facts(1) by (auto simp: retained_def in_range_def MaxSatoshis_def)
  then show ?thesis using same64_trans [OF ins [unfolded eq] same64_add [OF same64_sym [OF outs] same64_refl]] by blast
qed simp

end
