(* ===== verification/Create_Demo.thy ===== *)
theory Create_Demo
  imports Create_Balance
begin

text \<open>
  A wallet with two equal coins creates an action that names one of them: once over a store that answers, and
  once over a store that reports contention on the first claim.
\<close>

section \<open>The wallet\<close>

definition cd_coin :: "hash \<Rightarrow> utxo" where
  "cd_coin h = \<lparr>u_Outpoint = Outpoint h 0, u_UserID = 1, u_Basket = ''default'', u_Satoshis = 1035,
     u_InputSize = 107, u_Tier = TierMined, u_ReservedBy = '''', u_ReservedAt = zero_time, u_SpentBy = None,
     u_Frozen = False, u_Pinned = False, u_CreatedAt = zero_time\<rparr>"

definition cd_held :: "hash \<Rightarrow> utxo" where
  "cd_held h = (cd_coin h)\<lparr>u_ReservedBy := ''tx'', u_ReservedAt := 5\<rparr>"

definition cd_store :: "utxo \<Rightarrow> utxo \<Rightarrow> nat \<Rightarrow> store" where
  "cd_store a b n = \<lparr>s_rows = [(Outpoint 1 0, \<lparr>r_utxo = a, r_seq = 1\<rparr>), (Outpoint 2 0, \<lparr>r_utxo = b, r_seq = 2\<rparr>)],
     s_nextSeq = 2, s_closed = False, s_now = \<lambda>_. 5, s_ticks = n\<rparr>"

definition cd_sdk :: sdk where
  "cd_sdk = \<lparr>NewHashFromHex = \<lambda>s. if s = ''01'' then Some 1 else if s = ''02'' then Some 2 else None,
     HashString = \<lambda>h. if h = 1 then ''01'' else ''02'', TxInputs = \<lambda>_. None, Sum256 = \<lambda>_. [1], ErrorText = \<lambda>_. ''failed''\<rparr>"

definition cd_net :: net where
  "cd_net = \<lparr>NewTransactionFromBytes = \<lambda>_. None, BeefParses = \<lambda>_. True, SourceSatoshis = \<lambda>_ _. None, VerifyScripts = \<lambda>_ _. True,
     EF = \<lambda>_ _. None, Broadcast = \<lambda>_ _ _. undefined\<rparr>"

definition cd_beef :: "unit beef_lib" where
  "cd_beef = \<lparr>NewBeefV2 = (), NewBeefFromBytes = \<lambda>_. None, BeefBytes = \<lambda>_. Some [9], FindTransaction = \<lambda>_ _. None,
     FindTransactionByHash = \<lambda>_ _. None, MergeTxidOnly = \<lambda>_ _. (), MergeProvenTx = \<lambda>_ _ _. None, MergeRawTx = \<lambda>_ _. None,
     MergeBeefBytes = \<lambda>_ _. None, ScriptFromHex = \<lambda>s. Some [8]\<rparr>"

definition cd_rand :: rand where
  "cd_rand = \<lparr>Base64 = \<lambda>n. Some (if n = 0 then ''tx'' else ''x''), Shuffle = rev\<rparr>"

definition cd_policy :: create_policy where
  "cd_policy = \<lparr>cp_Throughput = None, cp_feeModel = demo_model, cp_commissionSatoshis = 0, cp_commissionScript = None,
     cp_NumberOfDesiredUTXOs = 9, cp_MinimumDesiredUTXOValue = 1, cp_MaxChangeOutputsPerTx = 8, cp_requireChangeOutput = False,
     cp_directInputBEEF = False\<rparr>"

definition cd_args :: create_args where
  "cd_args = \<lparr>ca_Description = ''pay'', ca_InputBEEF = [],
     ca_Inputs = [\<lparr>ci_TxID = ''01'', ci_Vout = 0, ci_UnlockingScript = None, ci_UnlockingScriptLength = Some 107\<rparr>],
     ca_Outputs = [\<lparr>co_LockingScript = ''0011223344556677889900112233445566778899001122334455'', co_Satoshis = 2035,
       co_OutputDescription = ''out'', co_Basket = None, co_CustomInstructions = None, co_Tags = []\<rparr>],
     ca_LockTime = 0, ca_Version = 1, ca_Labels = [], ca_IncludeAllSourceTransactions = False, ca_KnownTxids = [],
     ca_RandomizeOutputs = True, ca_FuelShape = None, ca_IsNoSend = False\<rparr>"

definition cd_mint :: tx_row where
  "cd_mint = \<lparr>t_TransactionID = 1, t_UserID = 1, t_ProvenTxID = None, t_Status = TxStatusCompleted, t_Reference = ''mint'',
     t_IsOutgoing = False, t_Satoshis = 1035, t_Description = ''mint'', t_Version = None, t_LockTime = None, t_InputBEEF = [],
     t_CreatedAt = 0, t_UpdatedAt = 0, tr_txid = Some [1]\<rparr>"

definition cd_output :: output_cols where
  "cd_output = \<lparr>o_OutputID = 1, o_UserID = 1, o_TransactionID = 1, o_Vout = 0, o_Satoshis = 1035, o_LockingScript = [7],
     o_Basket = Some ''default'', o_SpentBy = None, o_Change = True, o_Type = ''P2PKH'', o_ProvidedBy = ''storage'',
     o_Purpose = ''change'', o_Description = '''', o_DerivationPrefix = None, o_DerivationSuffix = None,
     o_SenderIdentityKey = None, o_CustomInstructions = None, o_CreatedAt = 0, o_UpdatedAt = 0\<rparr>"

definition cd_db :: metadb where
  "cd_db = \<lparr>db_known = [], db_txs = [cd_mint], db_labels = \<lparr>nt_rows = [], nt_edges = []\<rparr>, db_outputs = [cd_output],
     db_tags = \<lparr>nt_rows = [], nt_edges = []\<rparr>, db_outbox = []\<rparr>"

definition cd_prov :: "bool \<Rightarrow> (nat \<Rightarrow> fault option) \<Rightarrow> prov" where
  "cd_prov m fs = \<lparr>p_db = cd_db, p_utxo = cd_store (cd_coin 1) (cd_coin 2) 0, p_clock = \<lambda>_. 5, p_ticks = 0, p_faults = fs,
     p_calls = 0, p_modeA = m, p_posts = []\<rparr>"

section \<open>Preparing\<close>

definition cd_input :: resolvedInput where
  "cd_input = \<lparr>ri_input = hd (ca_Inputs cd_args), ri_satoshis = 1035, ri_lockingScript = [7], ri_op = Some (Outpoint 1 0)\<rparr>"

definition cd_fund :: fund_args where
  "cd_fund = \<lparr>a_UserID = 1, a_Basket = ''default'', a_Reservation = ''tx'', a_TargetSat = 1000, a_CurrentTxSize = 193,
     a_OutputCount = 1, a_Tiers = [TierMined, TierUnproven], a_NumberOfDesiredUTXOs = 9, a_MinimumDesiredUTXOValue = 1,
     a_MaxChangeOutputsPerTx = 8, a_RequireChange = False, a_ExistingBasketCount = 1, a_Denomination = 0\<rparr>"

definition cd_plan :: create_plan where
  "cd_plan = \<lparr>pc_reference = ''tx'', pc_prefix = ''x'', pc_inputs = [cd_input], pc_script = [], pc_fund = cd_fund\<rparr>"

lemma cd_enc: "encTxID ''01'' = Inr [1]" "encTxID ''02'' = Inr [2]"
  by code_simp+

lemma cd_join: "join_parent [cd_mint] [cd_output] = [(cd_output, cd_mint)]"
  by (simp add: join_parent_def List.map_filter_def parent_def cd_mint_def cd_output_def)

lemma cd_row:
  "o_UserID cd_output = 1" "o_Vout cd_output = 0" "tr_txid cd_mint = Some [1]" "o_Satoshis (output_scan (cd_output, cd_mint)) = 1035"
  "o_LockingScript (output_scan (cd_output, cd_mint)) = [7]" "o_OutputID (output_scan (cd_output, cd_mint)) = 1"
  by (simp_all add: cd_output_def cd_mint_def output_scan_def output_cols.defs output_row.defs)

lemma cd_find:
  "FindOutputs [cd_mint] [cd_output]
     \<lparr>fo_UserID = Some 1, fo_OutputID = None, fo_TransactionID = None, fo_Satoshis = None,
      fo_Vout = Some 0, fo_Change = None, fo_TxID = Some ''01'', fo_TxStatus = []\<rparr> = Inr [output_scan (cd_output, cd_mint)]"
  by (simp add: FindOutputs_def cd_enc cd_join cd_row opt_eq_def by_output_id_def)

lemma cd_resolve: "resolveProvidedInputs cd_sdk cd_beef cd_db 1 None (ca_Inputs cd_args) 0 = Inr ([cd_input], 1035)"
proof -
  have "resolveInput cd_sdk cd_beef cd_db 1 None (hd (ca_Inputs cd_args)) = Inr cd_input"
    by (simp add: resolveInput_def cd_args_def cd_db_def cd_find cd_row cd_sdk_def cd_input_def)
  then show ?thesis by (simp add: cd_args_def cd_input_def i64_wrap_def)
qed

lemma cd_size: "TransactionSizeFromScriptLengths std_golib (providedInputSizes (ca_Inputs cd_args)) (outputScriptLens cd_policy cd_args) = 193"
  by (simp add: TransactionSizeFromScriptLengths_def providedInputSizes_def inputScriptLength_def outputScriptLens_def cd_args_def cd_policy_def
      TransactionInputSize_def TransactionOutputSize_def txEnvelopeSize_def varIntSize_def std_golib_def u64_wrap_def
      inputConstSize_def satoshisSize_def)

lemma cd_target: "fundingTarget cd_policy cd_args 1035 = 1000"
  by (simp add: fundingTarget_def cd_policy_def cd_args_def i64_def i64_wrap_def)

lemma cd_prepare: "prepareCreate cd_sdk cd_beef std_golib cd_rand cd_policy cd_db 1 cd_args = Inr cd_plan"
proof -
  have "fundingSource cd_policy (ca_FuelShape cd_args) = Inr (''default'', 0)" "parseProvidedBEEF cd_beef (ca_InputBEEF cd_args) = Inr None"
    "commissionLockingScript cd_policy = Inr []" "nonChangeOutputCount cd_policy cd_args = 1" "changeBasketCount cd_policy cd_db 1 = 1"
    by (simp_all add: fundingSource_def cd_policy_def cd_args_def BasketNameForChange_def parseProvidedBEEF_def commissionLockingScript_def
        nonChangeOutputCount_def changeBasketCount_def CountInBasket_def cd_db_def cd_output_def)
  moreover have "From (Signed 1000) = Inr 1000" by (simp add: From_Inr in_range_def MaxSatoshis_def)
  moreover have "spendTiers cd_policy = [TierMined, TierUnproven]" "maxChangeOutputsPerTx cd_policy = 8"
    "cp_NumberOfDesiredUTXOs cd_policy = 9" "cp_MinimumDesiredUTXOValue cd_policy = 1" "\<not> cp_requireChangeOutput cd_policy"
    by (simp_all add: spendTiers_def SpendTiers_def SpendPolicyMinedOnly_def SpendPolicyAny_def cd_policy_def maxChangeOutputsPerTx_def)
  ultimately show ?thesis
    by (simp add: prepareCreate_def cd_rand_def cd_resolve cd_target fundArgs_def cd_size cd_plan_def cd_fund_def)
qed

section \<open>Funding\<close>

text \<open>One pass of the funder, over any store whose first claim finds a coin of 1035 satoshis or reports contention.\<close>

definition cd_result :: "hash \<Rightarrow> result" where
  "cd_result h = \<lparr>res_AllocatedUTXOs = [cd_held h], res_ChangeOutputsCount = 0, res_ChangeAmount = 0, res_Fee = 35, res_DustFloor = 40\<rparr>"

definition cd_col :: collector where
  "cd_col = \<lparr>c_txSats = 1000, c_txSize = 193, c_fee = 20,
      c_feeCalculator = 100, c_satsCovered = 0, c_allocatedUTXOs = [], c_outputCount = 1, c_numberOfDesiredUTXOs = 8,
      c_minimumDesiredUTXOValue = 1, c_maxChangeOutputsPerTx = 8, c_changeOutputsCount = 0, c_minimumChange = 0,
      c_requireChange = False, c_dustFloor = 40\<rparr>"

lemma cd_collect:
  "newCollector std_golib 1000 193 1 (i64_wrap 8) 1 100 8 False = Ok cd_col" "isFunded cd_col = Ok False"
  "remaining_sats std_golib cd_col = Ok 1020"
  "allocateUTXO std_golib cd_col (cd_held h) =
     Ok (cd_col\<lparr>c_txSize := 341, c_fee := 35, c_satsCovered := 1035, c_allocatedUTXOs := [cd_held h]\<rparr>)"
  "isFunded (cd_col\<lparr>c_txSize := 341, c_fee := 35, c_satsCovered := 1035, c_allocatedUTXOs := [cd_held h]\<rparr>) = Ok True"
  "collector_result (cd_col\<lparr>c_txSize := 341, c_fee := 35, c_satsCovered := 1035, c_allocatedUTXOs := [cd_held h]\<rparr>) = Ok (cd_result h)"
proof -
  note lib = std_lib_run [OF std_golib_ok] dustFloor_100 [OF std_golib_ok] Calculate_100 [OF std_golib_ok]
  show "newCollector std_golib 1000 193 1 (i64_wrap 8) 1 100 8 False = Ok cd_col"
    by (simp add: collector_run lib cd_col_def del: One_nat_def)
  show "isFunded cd_col = Ok False" by (simp add: collector_run cd_col_def)
  show "remaining_sats std_golib cd_col = Ok 1020" by (simp add: collector_run remaining_sats_def cd_col_def)
  show "allocateUTXO std_golib cd_col (cd_held h) =
     Ok (cd_col\<lparr>c_txSize := 341, c_fee := 35, c_satsCovered := 1035, c_allocatedUTXOs := [cd_held h]\<rparr>)"
    by (simp add: collector_run lib cd_col_def cd_held_def cd_coin_def del: One_nat_def)
  show "isFunded (cd_col\<lparr>c_txSize := 341, c_fee := 35, c_satsCovered := 1035, c_allocatedUTXOs := [cd_held h]\<rparr>) = Ok True"
    by (simp add: collector_run cd_col_def)
  show "collector_result (cd_col\<lparr>c_txSize := 341, c_fee := 35, c_satsCovered := 1035, c_allocatedUTXOs := [cd_held h]\<rparr>) = Ok (cd_result h)"
    by (simp add: collector_run cd_col_def cd_result_def)
qed

lemma cd_once_eq: "fundOnce std_golib demo_funder ops cd_fund s = walk std_golib ops cd_fund s cd_col"
  using cd_collect(1) by (simp add: fundOnce_def cd_fund_def demo_funder_def)

lemma cd_fund_simps: "a_Reservation cd_fund = ''tx''" "a_UserID cd_fund = 1" "a_Tiers cd_fund = [TierMined, TierUnproven]"
    "validate_args cd_fund = None"
  by (simp_all add: cd_fund_def validate_args_def Valid_def TierMined_def TierUnproven_def TierSending_def)

lemma cd_once_takes:
  assumes "ClaimSmallest ops s (arg_scope cd_fund TierMined) ''tx'' 1020 = (s', Inr (Some (cd_held h)))"
  shows "fundOnce std_golib demo_funder ops cd_fund s = Some (s', Ok (cd_result h))"
proof -
  let ?c = "cd_col\<lparr>c_txSize := 341, c_fee := 35, c_satsCovered := 1035, c_allocatedUTXOs := [cd_held h]\<rparr>"
  have "fromTier std_golib ops cd_fund s cd_col TierMined 1020 = (s', Ok (True, ?c))"
    using assms cd_collect(4) by (simp add: fromTier_def MustUInt64_def UInt64_def cd_fund_simps)
  then have "walkStep std_golib ops cd_fund s cd_col = Inr (s', ?c)"
    using cd_collect(2,3) by (simp add: walkStep_def round_tiers_def cd_fund_simps)
  moreover have "walkStep std_golib ops cd_fund s' ?c = Inl (s', Ok ?c)" using cd_collect(5) by (simp add: walkStep_def)
  ultimately have "boundedTieredClaim std_golib ops cd_fund s cd_col = Some (s', Ok ?c)"
    by (subst boundedTieredClaim.simps) (simp add: boundedTieredClaim.simps)
  then show ?thesis using cd_collect(6) by (simp add: cd_once_eq walk_def)
qed

lemma cd_once_contends:
  assumes "ClaimSmallest ops s (arg_scope cd_fund TierMined) ''tx'' 1020 = (s', Inl ErrContention)"
  shows "fundOnce std_golib demo_funder ops cd_fund s = Some (s', Err (StoreFailed ErrContention))"
proof -
  have "fromTier std_golib ops cd_fund s cd_col TierMined 1020 = (s', Err (StoreFailed ErrContention))"
    using assms by (simp add: fromTier_def MustUInt64_def UInt64_def cd_fund_simps)
  then have "walkStep std_golib ops cd_fund s cd_col = Inl (s', Err (StoreFailed ErrContention))"
    using cd_collect(2,3) by (simp add: walkStep_def round_tiers_def cd_fund_simps)
  then show ?thesis by (simp add: cd_once_eq walk_def boundedTieredClaim.simps contentionIfInventoryHidden_def)
qed

section \<open>The store\<close>

lemma cd_claims:
  "ClaimSmallestSufficient (cd_store (cd_held 1) (cd_coin 2) n) (arg_scope cd_fund TierMined) ''tx'' 1020 =
     (cd_store (cd_held 1) (cd_held 2) (Suc n), Inr (Some (cd_held 2)))"
  "ClaimSmallestSufficient (cd_store (cd_coin 1) (cd_coin 2) n) (arg_scope cd_fund TierMined) ''tx'' 1020 =
     (cd_store (cd_held 1) (cd_coin 2) (Suc n), Inr (Some (cd_held 1)))"
  by (simp_all add: ClaimSmallestSufficient_def ValidateClaim_def ValidateReservation_def ValidateScope_def cd_store_def cd_held_def cd_coin_def
      arg_scope_def cd_fund_def Valid_def TierMined_def TierSending_def claimable_def Let_def reserve_def
      now_time_def ticked_def set_reserved_def upd_key_def better_def)

lemma cd_reserve: "ReserveOutpoints (cd_store (cd_coin 1) (cd_coin 2) 0) 1 ''tx'' [Outpoint 1 0] = (cd_store (cd_held 1) (cd_coin 2) 1, None)"
  by (simp add: ReserveOutpoints_def ValidateReserveOutpoints_def ValidateReservation_def cd_store_def cd_held_def cd_coin_def
      distinctOutpoints_def classifyReserve_def Let_def ticked_def now_time_def set_reserved_def upd_key_def)

lemma cd_release: "ReleaseReservation (cd_store (cd_held 1) (cd_coin 2) n) 1 ''tx'' = (cd_store (cd_coin 1) (cd_coin 2) n, Inr 1)"
  by (simp add: ReleaseReservation_def ValidateReservation_def cd_store_def cd_held_def cd_coin_def heldBy_def clear_reservation_def
      upd_all_def zero_time_def count_rows_def)

section \<open>Storing\<close>

lemma cd_ancestry:
  assumes "h = 1 \<or> h = 2"
  shows "buildBEEF cd_sdk cd_net cd_beef d cd_db [] (Suc n) (HashString cd_sdk h) b = Inr ()"
proof -
  have "FindByTxID (db_known cd_db) (HashString cd_sdk h) = Inr None" "NewHashFromHex cd_sdk (HashString cd_sdk h) = Some h"
    using assms by (auto simp: FindByTxID_def cd_db_def cd_sdk_def cd_enc)
  then show ?thesis by (simp add: cd_beef_def)
qed

lemma cd_persist:
  assumes "p_db p = cd_db" "h = 1 \<or> h = 2"
  obtains q res where
    "persistCreateAction cd_sdk cd_net cd_beef cd_rand cd_policy 1 ''tx'' ''x'' cd_args [cd_input] [] (cd_result h) p = (q, Inr res)"
    "map (\<lambda>i. (si_SourceTxID i, si_SourceVout i)) (cr_Inputs res) = [(''01'', 0), (HashString cd_sdk h, 0)]"
    "map si_SourceSatoshis (cr_Inputs res) = [1035, 1035]" "map so_Satoshis (cr_Outputs res) = [2035]"
proof -
  have plans: "buildOutputPlans cd_beef cd_rand cd_policy cd_args (cd_result h) ''x'' [] = Inr ps \<Longrightarrow> map pn_satoshis ps = [2035]" for ps
    by (auto simp: buildOutputPlans_def cd_args_def hexBytes_def cd_beef_def commissionPlans_def cd_policy_def fuelValues_def of_go_def
        distributeChange_def cd_result_def i64_def)
  obtain pl where pl: "buildOutputPlans cd_beef cd_rand cd_policy cd_args (cd_result h) ''x'' [] = Inr [pl]"
    by (auto simp: buildOutputPlans_def cd_args_def hexBytes_def cd_beef_def commissionPlans_def cd_policy_def fuelValues_def of_go_def
        distributeChange_def cd_result_def)
  have total: "TotalAllocated (cd_result h) = Inr 1035"
    by (simp add: TotalAllocated_def cd_result_def cd_held_def cd_coin_def Sum_def Zero_def From_def validateUint_def validateInt_def i64_wrap_def
        MaxSatoshis_def Let_def)
  have beef: "inputBeefOf cd_sdk cd_net cd_beef cd_policy cd_db cd_args (res_AllocatedUTXOs (cd_result h)) = Inr ((), [9])"
    by (simp add: inputBeefOf_def parseProvidedBEEF_def cd_args_def getBEEFForTxIDs_def allocatedTxids_def cd_result_def cd_held_def cd_coin_def
        cd_ancestry [OF assms(2)] del: buildBEEF.simps) (simp add: cd_beef_def)
  have enc: "encTxID (HashString cd_sdk h) \<in> {Inr [1], Inr [2]}" using assms(2) by (auto simp: cd_sdk_def cd_enc)
  have local: "\<exists>rows. localOutputsByOutpoint db 1 (map (\<lambda>u. (HashString cd_sdk (op_TxID (u_Outpoint u)), op_Vout (u_Outpoint u)))
      (res_AllocatedUTXOs (cd_result h))) = Inr rows" for db
    using enc by (auto simp: localOutputsByOutpoint_def FindOutputsByOutpoints_def chunkLoop.simps outpointChunk_def cd_result_def
        cd_held_def cd_coin_def Let_def)
  obtain q1 where q1: "insertTx (unsignedTx 1 ''tx'' cd_args (i64_wrap (0 - 1035)) [9]) p = (q1, Inr 2)" "db_outputs (p_db q1) = [cd_output]"
    using assms(1) by (auto simp: insertTx_def tx_insert_def unsignedTx_def cd_db_def cd_mint_def cd_args_def nextID_def Let_def)
  obtain q2 where q2: "insertPlans 1 2 0 [pl] q1 = (q2, Inr ())"
    using q1(2) by (auto simp: insertOutput_def output_insert_def planOutput_def cd_output_def andThen_def ret_def Let_def)
  from local obtain rows where "localOutputsByOutpoint (p_db q2) 1 (map (\<lambda>u. (HashString cd_sdk (op_TxID (u_Outpoint u)), op_Vout (u_Outpoint u)))
      (res_AllocatedUTXOs (cd_result h))) = Inr rows" by blast
  then have ins: "buildResultInputs cd_sdk cd_beef (p_db q2) 1 [cd_input] (res_AllocatedUTXOs (cd_result h)) () False =
      Inr [providedTemplate cd_beef () False (0, cd_input), allocatedTemplate cd_sdk cd_beef () False rows (1, cd_held h)]"
    by (simp add: buildResultInputs_def cd_result_def)
  have args: "ca_RandomizeOutputs cd_args" "\<not> ca_IncludeAllSourceTransactions cd_args" "Shuffle cd_rand [pl] = [pl]"
    by (simp_all add: cd_args_def cd_rand_def)
  have "\<exists>res. persistCreateAction cd_sdk cd_net cd_beef cd_rand cd_policy 1 ''tx'' ''x'' cd_args [cd_input] [] (cd_result h) p = (q2, Inr res) \<and>
      cr_Inputs res = [providedTemplate cd_beef () False (0, cd_input), allocatedTemplate cd_sdk cd_beef () False rows (1, cd_held h)] \<and> cr_Outputs res = buildResultOutputs [pl]"
    using pl total beef args q1(1) q2 ins by (simp add: persistCreateAction_def assms(1) Let_def andThen_def cd_result_def)
  then obtain res where "persistCreateAction cd_sdk cd_net cd_beef cd_rand cd_policy 1 ''tx'' ''x'' cd_args [cd_input] [] (cd_result h) p = (q2, Inr res)"
      "cr_Inputs res = [providedTemplate cd_beef () False (0, cd_input), allocatedTemplate cd_sdk cd_beef () False rows (1, cd_held h)]" "cr_Outputs res = buildResultOutputs [pl]"
    by blast
  with plans [OF pl] show thesis
    by (intro that [of q2 res]) (simp_all add: providedTemplate_def allocatedTemplate_def Let_def cd_input_def cd_args_def cd_held_def cd_coin_def i64_def
        buildResultOutputs_def)
qed

section \<open>The runs\<close>

lemma cd_fund_run:
  assumes "fundOnce std_golib demo_funder prov_ops cd_fund p = Some (p', Ok r)"
  shows "fundStep std_golib demo_funder cd_fund p = Some (p', Inr r)"
  using assms by (simp add: fundStep_def Fund_def cd_fund_simps fundLoop.simps of_go_def)

lemma cd_fund_retry:
  assumes "fundOnce std_golib demo_funder prov_ops cd_fund p = Some (p1, Err (StoreFailed ErrContention))"
    and "fundOnce std_golib demo_funder prov_ops cd_fund (release prov_ops p1 1 ''tx'') = Some (p', Ok r)"
  shows "fundStep std_golib demo_funder cd_fund p = Some (p', Inr r)"
  using assms
  by (simp add: fundStep_def Fund_def cd_fund_simps fundLoop.simps [of _ _ _ _ 0] fundLoop.simps [of _ _ _ _ "Suc 0"] of_go_def is_contention_def
      maxFundingAttempts_def Let_def)

lemma cd_create:
  assumes "p_db p = cd_db" "reserveProvidedInputs 1 ''tx'' [Outpoint 1 0] p = (p1, Inr ())"
    "fundStep std_golib demo_funder cd_fund p1 = Some (p2, Inr (cd_result h))" "p_db p2 = cd_db" "h = 1 \<or> h = 2"
  obtains q res where
    "CreateAction cd_sdk cd_net cd_beef std_golib demo_funder cd_rand cd_policy (Some 1) cd_args p = Some (q, Inr res)"
    "map (\<lambda>i. (si_SourceTxID i, si_SourceVout i)) (cr_Inputs res) = [(''01'', 0), (HashString cd_sdk h, 0)]"
    "map si_SourceSatoshis (cr_Inputs res) = [1035, 1035]" "map so_Satoshis (cr_Outputs res) = [2035]" "p_utxo q = p_utxo p2"
proof -
  obtain q res where per: "persistCreateAction cd_sdk cd_net cd_beef cd_rand cd_policy 1 ''tx'' ''x'' cd_args [cd_input] [] (cd_result h) p2 = (q, Inr res)"
    and res: "map (\<lambda>i. (si_SourceTxID i, si_SourceVout i)) (cr_Inputs res) = [(''01'', 0), (HashString cd_sdk h, 0)]"
      "map si_SourceSatoshis (cr_Inputs res) = [1035, 1035]" "map so_Satoshis (cr_Outputs res) = [2035]"
    using cd_persist [OF assms(4,5)] .
  have "walletOwnedOutpoints [cd_input] = [Outpoint 1 0]" by (simp add: walletOwnedOutpoints_def cd_input_def List.map_filter_def)
  then have "CreateAction cd_sdk cd_net cd_beef std_golib demo_funder cd_rand cd_policy (Some 1) cd_args p = Some (q, Inr res)"
    using cd_prepare assms(1-3) per
    by (simp add: CreateAction_def cd_plan_def createShared_def createSplit_def DoUnit_def)
  moreover have "p_utxo q = p_utxo p2" using per by (cases rule: persist_cases) auto
  ultimately show thesis by (rule that [OF _ res])
qed

lemma cd_start:
  assumes "fs 0 = None"
  shows "reserveProvidedInputs 1 ''tx'' [Outpoint 1 0] (cd_prov m fs) =
     ((cd_prov m fs)\<lparr>p_calls := 1, p_utxo := cd_store (cd_held 1) (cd_coin 2) 1\<rparr>, Inr ())"
  using assms by (simp add: reserveProvidedInputs_def utxo_call_def cd_prov_def cd_reserve plain_err_def Let_def)

lemma cd_calm:
  obtains q res where
    "CreateAction cd_sdk cd_net cd_beef std_golib demo_funder cd_rand cd_policy (Some 1) cd_args (cd_prov m (\<lambda>_. None)) = Some (q, Inr res)"
    "map (\<lambda>i. (si_SourceTxID i, si_SourceVout i)) (cr_Inputs res) = [(''01'', 0), (''02'', 0)]"
    "map si_SourceSatoshis (cr_Inputs res) = [1035, 1035]" "map so_Satoshis (cr_Outputs res) = [2035]"
proof -
  let ?p1 = "(cd_prov m (\<lambda>_. None))\<lparr>p_calls := 1, p_utxo := cd_store (cd_held 1) (cd_coin 2) 1\<rparr>"
  let ?p2 = "?p1\<lparr>p_calls := 2, p_utxo := cd_store (cd_held 1) (cd_held 2) 2\<rparr>"
  have "ClaimSmallest prov_ops ?p1 (arg_scope cd_fund TierMined) ''tx'' 1020 = (?p2, Inr (Some (cd_held 2)))"
    using cd_claims(1) [of 1] by (simp add: prov_ops_def as_store_def utxo_call_def cd_prov_def Let_def numeral_2_eq_2)
  from cd_fund_run [OF cd_once_takes [OF this]] have fs: "fundStep std_golib demo_funder cd_fund ?p1 = Some (?p2, Inr (cd_result 2))" .
  have db: "p_db (cd_prov m (\<lambda>_. None)) = cd_db" "p_db ?p2 = cd_db" by (simp_all add: cd_prov_def)
  have h: "HashString cd_sdk 2 = ''02''" "2 = (1 :: hash) \<or> 2 = (2 :: hash)" by (simp_all add: cd_sdk_def)
  show thesis by (rule cd_create [OF db(1) cd_start [OF refl] fs db(2) h(2), unfolded h(1)]) (rule that)
qed

definition cd_contended :: "nat \<Rightarrow> fault option" where
  "cd_contended n = (if n = 1 then Some (FailBefore ErrContention) else None)"

lemma cd_retried:
  obtains q res where
    "CreateAction cd_sdk cd_net cd_beef std_golib demo_funder cd_rand cd_policy (Some 1) cd_args (cd_prov m cd_contended) = Some (q, Inr res)"
    "map (\<lambda>i. (si_SourceTxID i, si_SourceVout i)) (cr_Inputs res) = [(''01'', 0), (''01'', 0)]"
    "p_utxo q = cd_store (cd_held 1) (cd_coin 2) 2"
proof -
  let ?p1 = "(cd_prov m cd_contended)\<lparr>p_calls := 1, p_utxo := cd_store (cd_held 1) (cd_coin 2) 1\<rparr>"
  let ?p2 = "?p1\<lparr>p_calls := 2\<rparr>" and ?p3 = "?p1\<lparr>p_calls := 3, p_utxo := cd_store (cd_coin 1) (cd_coin 2) 1\<rparr>"
  let ?p4 = "?p1\<lparr>p_calls := 4, p_utxo := cd_store (cd_held 1) (cd_coin 2) 2\<rparr>"
  have "ClaimSmallest prov_ops ?p1 (arg_scope cd_fund TierMined) ''tx'' 1020 = (?p2, Inl ErrContention)"
    by (simp add: prov_ops_def as_store_def utxo_call_def cd_prov_def cd_contended_def Let_def numeral_2_eq_2)
  note 1 = cd_once_contends [OF this]
  have rel: "release prov_ops ?p2 1 ''tx'' = ?p3"
    using cd_release [of 1] by (simp add: release_def prov_ops_def as_store_def utxo_call_def cd_prov_def cd_contended_def Let_def eval_nat_numeral)
  have "ClaimSmallest prov_ops ?p3 (arg_scope cd_fund TierMined) ''tx'' 1020 = (?p4, Inr (Some (cd_held 1)))"
    using cd_claims(2) [of 1] by (simp add: prov_ops_def as_store_def utxo_call_def cd_prov_def cd_contended_def Let_def eval_nat_numeral)
  from cd_fund_retry [OF 1 cd_once_takes [OF this, folded rel]]
  have fs: "fundStep std_golib demo_funder cd_fund ?p1 = Some (?p4, Inr (cd_result 1))" .
  have db: "p_db (cd_prov m cd_contended) = cd_db" "p_db ?p4 = cd_db" by (simp_all add: cd_prov_def)
  have h: "HashString cd_sdk 1 = ''01''" "1 = (1 :: hash) \<or> 1 = (2 :: hash)" "cd_contended 0 = None"
    by (simp_all add: cd_sdk_def cd_contended_def)
  have u: "p_utxo ?p4 = cd_store (cd_held 1) (cd_coin 2) 2" by simp
  show thesis by (rule cd_create [OF db(1) cd_start [where fs = cd_contended, OF h(3)] fs db(2) h(2), unfolded h(1) u]) (rule that)
qed

end
