(* ===== verification/Create_Props.thy ===== *)
theory Create_Props
  imports Create_Demo
begin

text \<open>
  What creating an action guarantees: it holds exactly the coins its template spends or, on an error, none, and the
  template balances; and what a retry of the funder does to the inputs the caller named.
\<close>

lemma cd_setting:
  "working (cd_prov m (\<lambda>_. None))" "\<forall>t. Base64 cd_rand 0 = Some t \<longrightarrow> fresh_token t (p_utxo (cd_prov m (\<lambda>_. None)))"
  "\<forall>b d. fundingSource cd_policy (ca_FuelShape cd_args) = Inr (b, d) \<longrightarrow> b \<noteq> ''''"
  by (simp_all add: working_def fresh_token_def store_inv_def rows_inv_def alist_wf_def row_wf_def seq_key_def cd_prov_def cd_store_def cd_coin_def coins_def
      cd_rand_def Valid_def TierMined_def TierSending_def Let_def fundingSource_def cd_policy_def cd_args_def BasketNameForChange_def)

text \<open>
  C10: creating an action is all or nothing, in both modes. Over a store that answers, with a reference no reservation
  carries, \<open>CreateAction\<close> returns. On an error the database is what it was and every coin is what it was, a panic of the
  funder on the split store apart. On success the coins held under the new reference are distinct, were free coins of the
  user, are exactly those the template spends (every input the storage provides is one of them and each of them is an
  input), no other coin changed, and one unsigned transaction with that reference was added.
\<close>

theorem create_all_or_nothing:
  assumes "golib_ok L" "working p" "0 < uid" "\<forall>t. Base64 rnd 0 = Some t \<longrightarrow> fresh_token t (p_utxo p)"
    and "\<forall>b d. fundingSource pol (ca_FuelShape args) = Inr (b, d) \<longrightarrow> b \<noteq> ''''"
  shows "\<exists>q r. CreateAction lib nt bl L f rnd pol (Some uid) args p = Some (q, r) \<and>
           (case r of Inl e \<Rightarrow> untouched p e q | Inr res \<Rightarrow> Base64 rnd 0 = Some (cr_Reference res) \<and> created lib uid (cr_Reference res) p q res)"
proof (cases "prepareCreate lib bl L rnd pol (p_db p) uid args")
  case (Inr pc)
  note f = prepare_facts [OF Inr]
  from f(7) obtain beef sats where r: "resolveProvidedInputs lib bl (p_db p) uid beef (ca_Inputs args) 0 = Inr (pc_inputs pc, sats)" by blast
  let ?per = "persistCreateAction lib nt bl rnd pol uid (pc_reference pc) (pc_prefix pc) args (pc_inputs pc) (pc_script pc)"
  have fresh: "fresh_token (pc_reference pc) (p_utxo p)" using assms(4) f(1) by simp
  have fails: "p_utxo q = p_utxo p2 \<and> p_faults q = p_faults p2 \<and> p_modeA q = p_modeA p2" if "?per fr p2 = (q, Inl e)" for fr p2 q e
    using that by (cases rule: persist_cases) auto
  have "\<exists>q r. (if p_modeA p then createShared else createSplit) L f uid pc ?per p = Some (q, r) \<and>
          (case r of Inl e \<Rightarrow> untouched p e q | Inr res \<Rightarrow> created lib uid (pc_reference pc) p q res)"
    by (rule create_unit [OF assms(1,2) fresh assms(3) Inr assms(5) fails persist_created [OF _ _ _ _ r]])
  then obtain q rr where run: "(if p_modeA p then createShared else createSplit) L f uid pc ?per p = Some (q, rr)"
    and post: "case rr of Inl e \<Rightarrow> untouched p e q | Inr res \<Rightarrow> created lib uid (pc_reference pc) p q res" by blast
  have "CreateAction lib nt bl L f rnd pol (Some uid) args p = Some (q, rr)" using run Inr by (simp add: CreateAction_def)
  moreover have "cr_Reference res = pc_reference pc" if "rr = Inr res" for res using post that by (simp add: created_def)
  ultimately show ?thesis using post f(1) by (cases rr) auto
qed (simp add: CreateAction_def untouched_def)

lemma cd_ref: "Base64 cd_rand 0 = Some r \<longleftrightarrow> r = ''tx''"
  by (auto simp: cd_rand_def)

theorem create_all_or_nothing_witness:
  "\<exists>q res. CreateAction cd_sdk cd_net cd_beef std_golib demo_funder cd_rand cd_policy (Some 1) cd_args (cd_prov False (\<lambda>_. None)) = Some (q, Inr res) \<and>
     created cd_sdk 1 ''tx'' (cd_prov False (\<lambda>_. None)) q res \<and>
     map (\<lambda>i. (si_SourceTxID i, si_SourceVout i)) (cr_Inputs res) = [(''01'', 0), (''02'', 0)]"
proof -
  obtain q res where run: "CreateAction cd_sdk cd_net cd_beef std_golib demo_funder cd_rand cd_policy (Some 1) cd_args (cd_prov False (\<lambda>_. None)) = Some (q, Inr res)"
    and ins: "map (\<lambda>i. (si_SourceTxID i, si_SourceVout i)) (cr_Inputs res) = [(''01'', 0), (''02'', 0)]" by (rule cd_calm)
  from create_all_or_nothing [OF std_golib_ok cd_setting(1) [of False] _ cd_setting(2,3), where f = demo_funder and lib = cd_sdk and nt = cd_net and bl = cd_beef and uid = 1] run
  have "created cd_sdk 1 ''tx'' (cd_prov False (\<lambda>_. None)) q res" by (auto simp: cd_ref)
  with run ins show ?thesis by (intro exI conjI)
qed

text \<open>
  C11: a created action balances. When \<open>CreateAction\<close> returns a template whose input and output amounts do not
  themselves add up beyond \<open>int64\<close>, the inputs (those the caller named and those the funder allocated) are worth exactly
  the outputs (the caller's, the commission, the fan-out coins and the change, in whatever order they were shuffled) plus
  the fee the funder computed, plus the change it dropped when that is below the dust floor: no \<open>int64\<close> sum on the way
  wraps away a satoshi.
\<close>

theorem create_balances:
  assumes "golib_ok L" "working p" "0 < uid" "\<forall>t. Base64 rnd 0 = Some t \<longrightarrow> fresh_token t (p_utxo p)"
    and "\<forall>b d. fundingSource pol (ca_FuelShape args) = Inr (b, d) \<longrightarrow> b \<noteq> ''''"
    and "\<forall>ps. mset (Shuffle rnd ps) = mset ps"
    and "CreateAction lib nt bl L f rnd pol (Some uid) args p = Some (q, Inr res)"
    and "\<bar>\<Sum>i\<leftarrow>cr_Inputs res. si_SourceSatoshis i\<bar> < 2 ^ 62" "\<bar>\<Sum>x\<leftarrow>cr_Outputs res. int (unat (so_Satoshis x))\<bar> < 2 ^ 62"
  shows "\<exists>pc fr p1 p2. prepareCreate lib bl L rnd pol (p_db p) uid args = Inr pc \<and>
           reserveProvidedInputs uid (pc_reference pc) (walletOwnedOutpoints (pc_inputs pc)) p = (p1, Inr ()) \<and>
           fundStep L f (pc_fund pc) p1 = Some (p2, Inr fr) \<and>
           (\<Sum>i\<leftarrow>cr_Inputs res. si_SourceSatoshis i) =
             (\<Sum>x\<leftarrow>cr_Outputs res. int (unat (so_Satoshis x))) + res_Fee fr + (if res_ChangeOutputsCount fr = 0 then res_ChangeAmount fr else 0) \<and>
           0 \<le> res_ChangeAmount fr \<and> (res_ChangeOutputsCount fr = 0 \<longleftrightarrow> res_ChangeAmount fr < dustFloor_of L (f_feeCalculator f))"
proof -
  from assms(7) obtain pc where pc: "prepareCreate lib bl L rnd pol (p_db p) uid args = Inr pc"
    by (cases "prepareCreate lib bl L rnd pol (p_db p) uid args") (auto simp: CreateAction_def)
  note f = prepare_facts [OF pc]
  from f(7) obtain beef sats where r: "resolveProvidedInputs lib bl (p_db p) uid beef (ca_Inputs args) 0 = Inr (pc_inputs pc, sats)"
    and tgt: "From (Signed (fundingTarget pol args sats)) = Inr (a_TargetSat (pc_fund pc))" by blast
  have pos: "1 \<le> a_MaxChangeOutputsPerTx (pc_fund pc)" by (simp add: f maxChangeOutputsPerTx_def)
  let ?per = "persistCreateAction lib nt bl rnd pol uid (pc_reference pc) (pc_prefix pc) args (pc_inputs pc) (pc_script pc)"
  let ?good = "\<lambda>q res. \<exists>fr p1 p2. reserveProvidedInputs uid (pc_reference pc) (walletOwnedOutpoints (pc_inputs pc)) p = (p1, Inr ()) \<and>
      fundStep L f (pc_fund pc) p1 = Some (p2, Inr fr) \<and>
      same64 (\<Sum>i\<leftarrow>cr_Inputs res. si_SourceSatoshis i) ((\<Sum>x\<leftarrow>cr_Outputs res. int (unat (so_Satoshis x))) + retained fr) \<and>
      \<bar>retained fr\<bar> < 2 ^ 62 \<and> 0 \<le> res_ChangeAmount fr \<and> (res_ChangeOutputsCount fr = 0 \<longleftrightarrow> res_ChangeAmount fr < dustFloor_of L (f_feeCalculator f))"
  have fresh: "fresh_token (pc_reference pc) (p_utxo p)" using assms(4) f(1) by simp
  have fails: "p_utxo q = p_utxo p2 \<and> p_faults q = p_faults p2 \<and> p_modeA q = p_modeA p2" if "?per fr p2 = (q, Inl e)" for fr p2 q e
    using that by (cases rule: persist_cases) auto
  have stored: "?good q res" if "?per fr p2 = (q, Inr res)"
      "reserveProvidedInputs uid (pc_reference pc) (walletOwnedOutpoints (pc_inputs pc)) p = (p1, Inr ())"
      "fundStep L f (pc_fund pc) p1 = Some (p2, Inr fr)"
      "mem.pass_result L f (pc_fund pc) (coins (p_utxo p1)) fr (p_utxo p2)" for fr p1 p2 q res
    using persist_balances [OF that(1) assms(1) pos that(4) r tgt assms(6)] that(2,3) mem.pass_result_facts(5-7) [OF assms(1) pos that(4)]
    by (intro exI [of _ fr] exI [of _ p1] exI [of _ p2]) simp
  have "\<exists>q r. (if p_modeA p then createShared else createSplit) L f uid pc ?per p = Some (q, r) \<and>
          (case r of Inl e \<Rightarrow> untouched p e q | Inr res \<Rightarrow> ?good q res)"
    by (rule create_unit [OF assms(1,2) fresh assms(3) pc assms(5) fails stored])
  then obtain fr p1 p2 where "\<bar>retained fr\<bar> < 2 ^ 62"
      "same64 (\<Sum>i\<leftarrow>cr_Inputs res. si_SourceSatoshis i) ((\<Sum>x\<leftarrow>cr_Outputs res. int (unat (so_Satoshis x))) + retained fr)"
      "reserveProvidedInputs uid (pc_reference pc) (walletOwnedOutpoints (pc_inputs pc)) p = (p1, Inr ())" "fundStep L f (pc_fund pc) p1 = Some (p2, Inr fr)" "0 \<le> res_ChangeAmount fr"
      "res_ChangeOutputsCount fr = 0 \<longleftrightarrow> res_ChangeAmount fr < dustFloor_of L (f_feeCalculator f)"
    using assms(7) pc by (auto simp: CreateAction_def)
  moreover from same64_small [OF this(2) assms(8,9) this(1)]
  have "(\<Sum>i\<leftarrow>cr_Inputs res. si_SourceSatoshis i) = (\<Sum>x\<leftarrow>cr_Outputs res. int (unat (so_Satoshis x))) + retained fr" .
  ultimately show ?thesis using pc by (intro exI [of _ pc] exI [of _ fr] exI [of _ p1] exI [of _ p2]) (simp add: retained_def)
qed

theorem create_balances_witness:
  "\<exists>q res fr p1 p2. CreateAction cd_sdk cd_net cd_beef std_golib demo_funder cd_rand cd_policy (Some 1) cd_args (cd_prov True (\<lambda>_. None)) =
       Some (q, Inr res) \<and>
     map si_SourceSatoshis (cr_Inputs res) = [1035, 1035] \<and> map so_Satoshis (cr_Outputs res) = [2035] \<and>
     fundStep std_golib demo_funder cd_fund p1 = Some (p2, Inr fr) \<and>
     1035 + 1035 = 2035 + res_Fee fr + (if res_ChangeOutputsCount fr = 0 then res_ChangeAmount fr else 0)"
proof -
  obtain q res where run: "CreateAction cd_sdk cd_net cd_beef std_golib demo_funder cd_rand cd_policy (Some 1) cd_args (cd_prov True (\<lambda>_. None)) =
      Some (q, Inr res)"
    and sums: "map si_SourceSatoshis (cr_Inputs res) = [1035, 1035]" "map so_Satoshis (cr_Outputs res) = [2035]" by (rule cd_calm)
  have sh: "\<forall>ps. mset (Shuffle cd_rand ps) = mset ps" by (simp add: cd_rand_def)
  have "p_db (cd_prov True (\<lambda>_. None)) = cd_db" "pc_fund cd_plan = cd_fund" by (simp_all add: cd_prov_def cd_plan_def)
  moreover from create_balances [OF std_golib_ok cd_setting(1) _ cd_setting(2,3) sh run] sums obtain pc fr p1 p2 where
    "prepareCreate cd_sdk cd_beef std_golib cd_rand cd_policy (p_db (cd_prov True (\<lambda>_. None))) 1 cd_args = Inr pc"
    "fundStep std_golib demo_funder (pc_fund pc) p1 = Some (p2, Inr fr)"
    "1035 + 1035 = 2035 + res_Fee fr + (if res_ChangeOutputsCount fr = 0 then res_ChangeAmount fr else 0)" by auto
  ultimately show ?thesis using run sums cd_prepare
    by (intro exI [of _ q] exI [of _ res] exI [of _ fr] exI [of _ p1] exI [of _ p2]) simp
qed

text \<open>
  C20: a retry of the funder undoes the caller's reservation. \<open>CreateAction\<close> reserves the inputs the caller named before the
  funder runs so that the funder cannot allocate them, but on contention \<open>Fund\<close> releases the whole token and tries again,
  and nothing reserves those inputs a second time. In both modes one contended claim is enough: the wallet holds two equal
  coins, the caller names the first, and the action succeeds with a template that spends the first coin twice while the
  second stays free; over a store that answers the same request spends the two coins.
\<close>

theorem contention_doubles_input:
  "(\<exists>q res. CreateAction cd_sdk cd_net cd_beef std_golib demo_funder cd_rand cd_policy (Some 1) cd_args (cd_prov m cd_contended) = Some (q, Inr res) \<and>
      map (\<lambda>i. (si_SourceTxID i, si_SourceVout i)) (cr_Inputs res) = [(''01'', 0), (''01'', 0)] \<and>
      coins (p_utxo q) (Outpoint 2 0) = Some (cd_coin 2)) \<and>
   (\<exists>q res. CreateAction cd_sdk cd_net cd_beef std_golib demo_funder cd_rand cd_policy (Some 1) cd_args (cd_prov m (\<lambda>_. None)) = Some (q, Inr res) \<and>
      map (\<lambda>i. (si_SourceTxID i, si_SourceVout i)) (cr_Inputs res) = [(''01'', 0), (''02'', 0)])"
proof
  show "\<exists>q res. CreateAction cd_sdk cd_net cd_beef std_golib demo_funder cd_rand cd_policy (Some 1) cd_args (cd_prov m cd_contended) = Some (q, Inr res) \<and>
      map (\<lambda>i. (si_SourceTxID i, si_SourceVout i)) (cr_Inputs res) = [(''01'', 0), (''01'', 0)] \<and>
      coins (p_utxo q) (Outpoint 2 0) = Some (cd_coin 2)"
    by (rule cd_retried [of m]) (auto simp: coins_def cd_store_def)
  show "\<exists>q res. CreateAction cd_sdk cd_net cd_beef std_golib demo_funder cd_rand cd_policy (Some 1) cd_args (cd_prov m (\<lambda>_. None)) = Some (q, Inr res) \<and>
      map (\<lambda>i. (si_SourceTxID i, si_SourceVout i)) (cr_Inputs res) = [(''01'', 0), (''02'', 0)]"
    by (rule cd_calm [of m]) (intro exI conjI)
qed

end
