(* ===== verification/Known_Tx_Props.thy ===== *)
theory Known_Tx_Props
  imports Known_Tx
begin

text \<open>
  The known-transaction repository as a state machine: what any call can do to one row, the invariant of
  the table, and the abort/send arbiter, its recovery path and the sticky columns as consequences.
\<close>

section \<open>Calls\<close>

datatype kt_call =
    CallUpsert time known_tx "req_status list"
  | CallUpdateStatus time string req_status "req_status list"
  | CallBulkUpdateStatus time "string list" req_status "req_status list"
  | CallMarkSuspectFailed time string time string
  | CallStampVerifiedRejected time string time
  | CallTransitionSuspect time string req_status
  | CallTransitionToAborted time string
  | CallClaimForSend time string
  | CallReclaimStaleSend time string time
  | CallSetProof time string nat bytes bytes bytes
  | CallIncreaseAttempts time "string list"
  | CallSetBatch time "string list" string
  | CallSetArcadeStatus time string arc_status
  | CallBulkSetArcadeStatus time "string list" arc_status
  | CallMarkPolled time "string list"
  | CallMarkSuspect time string time "string list" arc_status string
  | CallClearProof time string req_status

fun exec_kt :: "kt_call \<Rightarrow> known_row list \<Rightarrow> known_row list" where
  "exec_kt (CallUpsert now kt skips) rows = fst (Upsert now rows kt skips)"
| "exec_kt (CallUpdateStatus now t st skips) rows = fst (KnownTx_UpdateStatus now rows t st skips)"
| "exec_kt (CallBulkUpdateStatus now ts st skips) rows = fst (BulkUpdateStatus now rows ts st skips)"
| "exec_kt (CallMarkSuspectFailed now t since reason) rows = fst (MarkSuspectFailed now rows t since reason)"
| "exec_kt (CallStampVerifiedRejected now t at) rows = fst (StampVerifiedRejected now rows t at)"
| "exec_kt (CallTransitionSuspect now t st) rows = fst (TransitionSuspect now rows t st)"
| "exec_kt (CallTransitionToAborted now t) rows = fst (TransitionToAborted now rows t)"
| "exec_kt (CallClaimForSend now t) rows = fst (ClaimForSend now rows t)"
| "exec_kt (CallReclaimStaleSend now t grace) rows = fst (ReclaimStaleSend now rows t grace)"
| "exec_kt (CallSetProof now t h bh mp mr) rows = fst (SetProof now rows t h bh mp mr)"
| "exec_kt (CallIncreaseAttempts now ts) rows = fst (IncreaseAttempts now rows ts)"
| "exec_kt (CallSetBatch now ts b) rows = fst (SetBatch now rows ts b)"
| "exec_kt (CallSetArcadeStatus now t a) rows = fst (SetArcadeStatus now rows t a)"
| "exec_kt (CallBulkSetArcadeStatus now ts a) rows = fst (BulkSetArcadeStatus now rows ts a)"
| "exec_kt (CallMarkPolled now ts) rows = fst (MarkPolled now rows ts)"
| "exec_kt (CallMarkSuspect now t since cs a reason) rows = fst (MarkSuspect now rows t since cs a reason)"
| "exec_kt (CallClearProof now t st) rows = fst (ClearProof now rows t st)"

definition exec_kts :: "kt_call list \<Rightarrow> known_row list \<Rightarrow> known_row list" where
  "exec_kts cs rows = foldl (\<lambda>rows c. exec_kt c rows) rows cs"

lemma exec_kts_simps [simp]: "exec_kts [] rows = rows" "exec_kts (c # cs) rows = exec_kts cs (exec_kt c rows)"
  by (simp_all add: exec_kts_def)

text \<open>The row of a transaction id, and the primary key.\<close>

definition known :: "known_row list \<Rightarrow> bytes \<Rightarrow> known_row option" where
  "known rows raw = find (\<lambda>r. kr_txid r = raw) rows"

definition known_inv :: "known_row list \<Rightarrow> bool" where
  "known_inv rows \<longleftrightarrow> distinct (map kr_txid rows)"

section \<open>What a call does to a row\<close>

text \<open>
  The steps a call can make on a row it addresses; \<open>keep\<close> is the step of a call whose guard refuses the row
  and of every call that does not address it.
\<close>

inductive known_step :: "kt_call \<Rightarrow> known_row \<Rightarrow> known_row \<Rightarrow> bool" where
  keep: "known_step c r r"
| upsert: "kt_Status r \<notin> set skips \<Longrightarrow>
    known_step (CallUpsert now kt skips) r (upsert_merge (upsert_row now kt (kr_txid r)) r)"
| status: "kt_Status r \<notin> set skips \<Longrightarrow> known_step (CallUpdateStatus now t st skips) r (set_status now st r)"
| bulk_status: "kt_Status r \<notin> set skips \<Longrightarrow> known_step (CallBulkUpdateStatus now ts st skips) r (set_status now st r)"
| suspect_failed: "known_step (CallMarkSuspectFailed now t since reason) r
    (r\<lparr>kt_Status := KnownTxStatusSuspectFailed, kt_SuspectSince := Some (encTime since), kt_VerifiedRejectedAt := None,
       kt_RejectReason := keep_reason reason (kt_RejectReason r), kt_UpdatedAt := encTime now\<rparr>)"
| stamp: "kt_Status r = KnownTxStatusSuspectFailed \<Longrightarrow> kt_VerifiedRejectedAt r = None \<Longrightarrow>
    known_step (CallStampVerifiedRejected now t at) r
      (r\<lparr>kt_VerifiedRejectedAt := Some (encTime at), kt_UpdatedAt := encTime now\<rparr>)"
| finish: "kt_Status r = KnownTxStatusSuspectFailed \<Longrightarrow>
    known_step (CallTransitionSuspect now t st) r (r\<lparr>kt_Status := st, kt_UpdatedAt := encTime now\<rparr>)"
| abort: "kt_Status r \<in> set knownTxPreBroadcastStatuses \<Longrightarrow> \<not> kt_WasBroadcast r \<Longrightarrow>
    known_step (CallTransitionToAborted now t) r (r\<lparr>kt_Status := KnownTxStatusAborted, kt_UpdatedAt := encTime now\<rparr>)"
| claim: "kt_Status r \<in> set knownTxPreBroadcastStatuses \<Longrightarrow> \<not> kt_WasBroadcast r \<Longrightarrow>
    known_step (CallClaimForSend now t) r (r\<lparr>kt_Status := ProvenTxStatusSending, kt_UpdatedAt := encTime now\<rparr>)"
| reclaim: "kt_Status r = ProvenTxStatusSending \<Longrightarrow> \<not> kt_WasBroadcast r \<Longrightarrow> kt_UpdatedAt r \<le> encTime (now - grace) \<Longrightarrow>
    known_step (CallReclaimStaleSend now t grace) r (r\<lparr>kt_UpdatedAt := encTime now\<rparr>)"
| proof_set: "known_step (CallSetProof now t h bh mp mr) r
    (r\<lparr>kt_Status := ProvenTxStatusCompleted, kt_WasBroadcast := True, kt_Notified := True, kt_BlockHeight := Some h,
       kt_BlockHash := bh, kt_MerklePath := mp, kt_MerkleRoot := mr, kt_InputBEEF := [], kt_UpdatedAt := encTime now\<rparr>)"
| attempts: "known_step (CallIncreaseAttempts now ts) r (r\<lparr>kt_Attempts := Suc (kt_Attempts r), kt_UpdatedAt := encTime now\<rparr>)"
| batch: "known_step (CallSetBatch now ts b) r (r\<lparr>kt_Batch := Some b, kt_UpdatedAt := encTime now\<rparr>)"
| arcade: "known_step (CallSetArcadeStatus now t a) r (r\<lparr>kt_ArcadeStatus := Some a, kt_UpdatedAt := encTime now\<rparr>)"
| bulk_arcade: "known_step (CallBulkSetArcadeStatus now ts a) r (r\<lparr>kt_ArcadeStatus := Some a, kt_UpdatedAt := encTime now\<rparr>)"
| polled: "known_step (CallMarkPolled now ts) r (r\<lparr>kr_LastPolledAt := encTime now\<rparr>)"
| suspect: "known_step (CallMarkSuspect now t since cs a reason) r
    (r\<lparr>kt_Status := KnownTxStatusSuspectFailed, kt_ArcadeStatus := Some a, kt_CompetingTxs := cs,
       kt_SuspectSince := Some (encTime since), kt_VerifiedRejectedAt := None,
       kt_RejectReason := keep_reason reason (kt_RejectReason r), kt_UpdatedAt := encTime now\<rparr>)"
| proof_cleared: "known_step (CallClearProof now t st) r
    (r\<lparr>kt_Status := st, kt_ArcadeStatus := None, kt_BlockHeight := None, kt_BlockHash := [], kt_MerklePath := [],
       kt_MerkleRoot := [], kt_UpdatedAt := encTime now\<rparr>)"

section \<open>Statements and rows\<close>

lemma known_update_where:
  assumes "\<And>r. p r \<Longrightarrow> kr_txid (f r) = kr_txid r"
  shows "known (update_where p f rows) raw = map_option (\<lambda>r. if p r then f r else r) (known rows raw)"
  unfolding known_def using assms by (rule find_update_where)

lemma known_inv_update_where:
  assumes "\<And>r. p r \<Longrightarrow> kr_txid (f r) = kr_txid r"
  shows "known_inv (update_where p f rows) = known_inv rows"
  using map_update_where [of p kr_txid f rows] assms by (simp add: known_inv_def)

lemma guarded_update_rows: "fst (guarded_update rows raw g f) = update_where (\<lambda>r. kr_txid r = raw \<and> g r) f rows"
  by (auto simp: guarded_update_def Let_def update_where_none)

lemma required_update_rows: "fst (required_update rows raw f) = update_where (\<lambda>r. kr_txid r = raw) f rows"
  by (auto simp: required_update_def Let_def update_where_none)

lemma known_None: "known rows raw = None \<longleftrightarrow> \<not> existsByTxID rows raw"
  by (auto simp: known_def existsByTxID_def find_None_iff)

lemma known_Some_txid: "known rows raw = Some r \<Longrightarrow> kr_txid r = raw"
  by (auto simp: known_def find_Some_iff)

lemma known_mem: "known_inv rows \<Longrightarrow> r \<in> set rows \<Longrightarrow> known rows (kr_txid r) = Some r"
  by (induction rows) (auto simp: known_def known_inv_def image_iff)

lemma known_append: "known (rows @ [new]) raw = (case known rows raw of Some r \<Rightarrow> Some r | None \<Rightarrow> if kr_txid new = raw then Some new else None)"
  by (induction rows) (auto simp: known_def)

lemma txid_writes [simp]:
  "kr_txid (upsert_row now kt raw) = raw" "kr_txid (upsert_merge new old) = kr_txid new" "kr_txid (set_status now st r) = kr_txid r"
  by (simp_all add: upsert_row_def upsert_merge_def set_status_def known_cols.defs known_row.defs)

lemma row_step:
  assumes "known rows raw = Some r" "\<And>r. p r \<Longrightarrow> kr_txid (f r) = kr_txid r" "\<And>r. p r \<Longrightarrow> known_step c r (f r)"
  shows "\<exists>r'. known (update_where p f rows) raw = Some r' \<and> known_step c r r'"
  using assms by (auto simp: known_update_where intro: known_step.keep)

lemmas kt_ops = Upsert_def KnownTx_UpdateStatus_def BulkUpdateStatus_def MarkSuspectFailed_def StampVerifiedRejected_def
  TransitionSuspect_def TransitionToAborted_def ClaimForSend_def casFromPreBroadcast_def ReclaimStaleSend_def SetProof_def
  IncreaseAttempts_def SetBatch_def SetArcadeStatus_def BulkSetArcadeStatus_def MarkPolled_def MarkSuspect_def ClearProof_def

section \<open>The lifecycle of a transaction\<close>

text \<open>
  The specification the callers work with.  Of a row they see the status and the broadcast mark; a call
  addresses the transactions it lists, all of them or, when one of the ids does not decode, none; and
  every call is a function on the lifecycle of the addressed transactions.
\<close>

type_synonym life = "req_status \<times> bool"

definition life_of :: "known_row \<Rightarrow> life" where
  "life_of r = (kt_Status r, kt_WasBroadcast r)"

definition lives :: "known_row list \<Rightarrow> bytes \<Rightarrow> life option" where
  "lives rows raw = map_option life_of (known rows raw)"

fun listed :: "kt_call \<Rightarrow> string list" where
  "listed (CallUpsert now kt skips) = [kt_TxID kt]"
| "listed (CallUpdateStatus now t st skips) = [t]"
| "listed (CallBulkUpdateStatus now ts st skips) = ts"
| "listed (CallMarkSuspectFailed now t since reason) = [t]"
| "listed (CallStampVerifiedRejected now t at) = [t]"
| "listed (CallTransitionSuspect now t st) = [t]"
| "listed (CallTransitionToAborted now t) = [t]"
| "listed (CallClaimForSend now t) = [t]"
| "listed (CallReclaimStaleSend now t grace) = [t]"
| "listed (CallSetProof now t h bh mp mr) = [t]"
| "listed (CallIncreaseAttempts now ts) = ts"
| "listed (CallSetBatch now ts b) = ts"
| "listed (CallSetArcadeStatus now t a) = [t]"
| "listed (CallBulkSetArcadeStatus now ts a) = ts"
| "listed (CallMarkPolled now ts) = ts"
| "listed (CallMarkSuspect now t since cs a reason) = [t]"
| "listed (CallClearProof now t st) = [t]"

definition addresses :: "string list \<Rightarrow> bytes \<Rightarrow> bool" where
  "addresses ts raw \<longleftrightarrow> list_all (\<lambda>t. \<not> isl (encTxID t)) ts \<and> list_ex (\<lambda>t. encTxID t = Inr raw) ts"

text \<open>The lifecycle machine: which statuses lead where, and when the broadcast mark is set.\<close>

fun life_step :: "kt_call \<Rightarrow> life \<Rightarrow> life" where
  "life_step (CallUpsert now kt skips) (st, b) =
     (if st \<in> set skips then (st, b) else (kt_Status kt, b \<or> kt_WasBroadcast kt \<or> WasBroadcastStatus (kt_Status kt)))"
| "life_step (CallUpdateStatus now t st' skips) (st, b) = (if st \<in> set skips then (st, b) else (st', b \<or> WasBroadcastStatus st'))"
| "life_step (CallBulkUpdateStatus now ts st' skips) (st, b) = (if st \<in> set skips then (st, b) else (st', b \<or> WasBroadcastStatus st'))"
| "life_step (CallMarkSuspectFailed now t since reason) (st, b) = (KnownTxStatusSuspectFailed, b)"
| "life_step (CallMarkSuspect now t since cs a reason) (st, b) = (KnownTxStatusSuspectFailed, b)"
| "life_step (CallTransitionSuspect now t st') (st, b) = (if st = KnownTxStatusSuspectFailed then st' else st, b)"
| "life_step (CallTransitionToAborted now t) (st, b) =
     (if st \<in> set knownTxPreBroadcastStatuses \<and> \<not> b then KnownTxStatusAborted else st, b)"
| "life_step (CallClaimForSend now t) (st, b) =
     (if st \<in> set knownTxPreBroadcastStatuses \<and> \<not> b then ProvenTxStatusSending else st, b)"
| "life_step (CallSetProof now t h bh mp mr) (st, b) = (ProvenTxStatusCompleted, True)"
| "life_step (CallClearProof now t st') (st, b) = (st', b)"
| "life_step _ l = l"

text \<open>Only an \<open>Upsert\<close> brings a transaction to life.\<close>

fun life_new :: "kt_call \<Rightarrow> life option" where
  "life_new (CallUpsert now kt skips) = Some (kt_Status kt, kt_WasBroadcast kt \<or> WasBroadcastStatus (kt_Status kt))"
| "life_new _ = None"

definition life_call :: "(bytes \<Rightarrow> life option) \<Rightarrow> kt_call \<Rightarrow> bytes \<Rightarrow> life option" where
  "life_call L c = (\<lambda>raw.
     if \<not> addresses (listed c) raw then L raw
     else case L raw of None \<Rightarrow> life_new c | Some l \<Rightarrow> Some (life_step c l))"

lemma addresses_single [simp]: "addresses [t] raw \<longleftrightarrow> encTxID t = Inr raw"
  by (auto simp: addresses_def)

lemma encAll_ids:
  "encAll ts = Inr ids \<Longrightarrow> (\<forall>t \<in> set ts. \<not> isl (encTxID t)) \<and> set ids = {raw. \<exists>t \<in> set ts. encTxID t = Inr raw}"
  "encAll ts = Inl e \<Longrightarrow> \<exists>t \<in> set ts. isl (encTxID t)"
  by (induction ts arbitrary: ids) (auto split: sum.splits)

lemma rawLoop_ids:
  "rawLoop seen ts = Inr ids \<Longrightarrow> (\<forall>t \<in> set ts - set seen. \<not> isl (encTxID t)) \<and>
     set ids = {raw. \<exists>t \<in> set ts - set seen. encTxID t = Inr raw}"
  "rawLoop seen ts = Inl e \<Longrightarrow> \<exists>t \<in> set ts - set seen. isl (encTxID t)"
proof (induction seen ts arbitrary: ids rule: rawLoop.induct)
  case (2 seen t ts)
  { case 1 then show ?case using 2 by (auto split: if_splits sum.splits) fastforce+ next
    case 2 then show ?case using "2.IH" by (auto split: if_splits sum.splits) (rule bexI [of _ t], simp_all) }
qed simp_all

text \<open>The two ways the bulk writes bind their ids.\<close>

lemma bulk_addresses:
  "encAll ts = Inr ids \<Longrightarrow> addresses ts raw \<longleftrightarrow> raw \<in> set ids" "encAll ts = Inl e \<Longrightarrow> \<not> addresses ts raw"
  "sortedRawTxIDs ts = Inr ids \<Longrightarrow> addresses ts raw \<longleftrightarrow> raw \<in> set ids" "sortedRawTxIDs ts = Inl e \<Longrightarrow> \<not> addresses ts raw"
  using encAll_ids [of ts] rawLoop_ids [of "[]" ts]
  by (auto simp: sortedRawTxIDs_def addresses_def list_all_iff list_ex_iff split: sum.splits)

text \<open>
  The two laws of a write: the rows it does not address keep their values, and the addressed ones follow
  the lifecycle machine.
\<close>

definition lawful :: "kt_call \<Rightarrow> known_row list \<Rightarrow> known_row list \<Rightarrow> bool" where
  "lawful c rows rows' \<longleftrightarrow> (\<forall>raw. \<not> addresses (listed c) raw \<longrightarrow> known rows' raw = known rows raw) \<and>
     lives rows' = life_call (lives rows) c"

lemma lawful_update:
  assumes "\<And>r. p r \<Longrightarrow> kr_txid (f r) = kr_txid r" "\<And>r. p r \<Longrightarrow> addresses (listed c) (kr_txid r)" "life_new c = None"
    and "\<And>r. addresses (listed c) (kr_txid r) \<Longrightarrow> life_of (if p r then f r else r) = life_step c (life_of r)"
  shows "lawful c rows (update_where p f rows)"
proof -
  have lk: "known (update_where p f rows) raw = map_option (\<lambda>r. if p r then f r else r) (known rows raw)" for raw
    using assms(1) by (rule known_update_where)
  have "known (update_where p f rows) raw = known rows raw" if "\<not> addresses (listed c) raw" for raw
    using lk that assms(2) known_Some_txid [of rows raw] by (cases "known rows raw") auto
  moreover have "lives (update_where p f rows) raw = life_call (lives rows) c raw" for raw
    using lk [of raw] assms(2,3) assms(4) [of "the (known rows raw)"] known_Some_txid [of rows raw]
    by (cases "known rows raw") (auto simp: lives_def life_call_def)
  ultimately show ?thesis by (auto simp: lawful_def)
qed

lemma lawful_none: "(\<And>raw. \<not> addresses (listed c) raw) \<Longrightarrow> lawful c rows rows"
  by (simp add: lawful_def life_call_def fun_eq_iff)

lemma lawful_with_txid:
  assumes "listed c = [t]" "\<And>raw. encTxID t = Inr raw \<Longrightarrow> lawful c rows (fst (F raw))"
  shows "lawful c rows (fst (with_txid rows t F))"
  using assms by (cases "encTxID t") (auto simp: with_txid_def intro: lawful_none)

lemma lawful_guarded:
  assumes "listed c = [t]" "encTxID t = Inr raw" "life_new c = None" "\<And>r. kr_txid (f r) = kr_txid r"
    and "\<And>r. life_of (if g r then f r else r) = life_step c (life_of r)"
  shows "lawful c rows (fst (guarded_update rows raw g f))"
  unfolding guarded_update_rows using assms by (intro lawful_update) auto

lemma lawful_required:
  assumes "listed c = [t]" "encTxID t = Inr raw" "life_new c = None" "\<And>r. kr_txid (f r) = kr_txid r"
    and "\<And>r. life_of (f r) = life_step c (life_of r)"
  shows "lawful c rows (fst (required_update rows raw f))"
  unfolding required_update_rows using assms by (intro lawful_update) auto

lemma lawful_bulk:
  assumes "listed c = ts" "life_new c = None" "\<And>r. kr_txid (f r) = kr_txid r"
    and "x = encAll ts \<or> x = sortedRawTxIDs ts"
    and "\<And>r. life_of (if g r then f r else r) = life_step c (life_of r)"
  shows "lawful c rows (fst (if ts = [] then (rows, None) else case x of Inl e \<Rightarrow> (rows, Some e)
      | Inr ids \<Rightarrow> (update_where (\<lambda>r. kr_txid r \<in> set ids \<and> g r) f rows, None)))"
proof (cases x)
  case (Inl e)
  then have "\<not> addresses ts raw" for raw using assms(4) bulk_addresses(2,4) by metis
  with Inl assms(1) show ?thesis by (auto intro: lawful_none)
next
  case (Inr ids)
  then have ids: "addresses ts raw \<longleftrightarrow> raw \<in> set ids" for raw using assms(4) bulk_addresses(1,3) by metis
  with assms(1-3,5) have "lawful c rows (update_where (\<lambda>r. kr_txid r \<in> set ids \<and> g r) f rows)"
    by (intro lawful_update) auto
  moreover have "lawful c rows rows" if "ts = []" using that assms(1) by (intro lawful_none) (simp add: addresses_def)
  ultimately show ?thesis using Inr by simp
qed

lemma lawful_bulk_all:
  assumes "listed c = ts" "life_new c = None" "\<And>r. kr_txid (f r) = kr_txid r"
    and "x = encAll ts \<or> x = sortedRawTxIDs ts" "\<And>r. life_of (f r) = life_step c (life_of r)"
  shows "lawful c rows (fst (if ts = [] then (rows, None) else case x of Inl e \<Rightarrow> (rows, Some e)
      | Inr ids \<Rightarrow> (update_where (\<lambda>r. kr_txid r \<in> set ids) f rows, None)))"
  using lawful_bulk [where g = "\<lambda>_. True" and rows = rows, OF assms(1-4)] assms(5) by (cases x) (simp_all split: if_splits)

lemma lawful_upsert: "lawful (CallUpsert now kt skips) rows (fst (Upsert now rows kt skips))"
  unfolding Upsert_def
proof (rule lawful_with_txid)
  let ?c = "CallUpsert now kt skips"
  fix raw' assume raw': "encTxID (kt_TxID kt) = Inr raw'"
  let ?p = "\<lambda>r. kr_txid r = raw' \<and> kt_Status r \<notin> set skips" and ?new = "upsert_row now kt raw'"
  have new: "life_of ?new = (kt_Status kt, kt_WasBroadcast kt \<or> WasBroadcastStatus (kt_Status kt))"
    "life_of (upsert_merge ?new r) = (kt_Status kt, kt_WasBroadcast r \<or> kt_WasBroadcast kt \<or> WasBroadcastStatus (kt_Status kt))" for r
    by (simp_all add: life_of_def upsert_row_def upsert_merge_def known_cols.defs)
  have app: "lawful ?c rows (rows @ [?new])" if "known rows raw' = None"
    using that raw' new(1) by (auto simp: lawful_def known_append lives_def life_call_def fun_eq_iff split: option.splits)
  have upd: "lawful ?c rows (update_where ?p (upsert_merge ?new) rows)" if "known rows raw' \<noteq> None"
  proof -
    have lk: "known (update_where ?p (upsert_merge ?new) rows) raw =
        map_option (\<lambda>r. if ?p r then upsert_merge ?new r else r) (known rows raw)" for raw
      by (rule known_update_where) simp
    have "known (update_where ?p (upsert_merge ?new) rows) raw = known rows raw" if "raw \<noteq> raw'" for raw
      unfolding lk using that known_Some_txid [of rows raw] by (cases "known rows raw") auto
    moreover have "lives (update_where ?p (upsert_merge ?new) rows) raw' = map_option (life_step ?c) (lives rows raw')"
      unfolding lives_def lk using known_Some_txid [of rows raw'] new(2) by (cases "known rows raw'") (auto simp: life_of_def)
    ultimately show ?thesis using raw' that by (auto simp: lawful_def life_call_def lives_def fun_eq_iff)
  qed
  show "lawful ?c rows (fst (let new = ?new; p = ?p in
       if \<not> existsByTxID rows raw' then (rows @ [new], None)
       else if affected p rows = 0 \<and> skips \<noteq> [] then (rows, Some ErrStatusUpdateSkipped)
       else (update_where p (upsert_merge new) rows, None)))"
    using app upd known_None [of rows raw'] by (auto simp: Let_def update_where_none)
qed simp

lemma exec_kt_lawful: "lawful c rows (exec_kt c rows)"
proof (cases c)
  case (CallUpsert now kt skips)
  then show ?thesis using lawful_upsert by simp
next
  case (CallUpdateStatus now t st skips)
  show ?thesis unfolding CallUpdateStatus exec_kt.simps KnownTx_UpdateStatus_def
    by (intro lawful_with_txid lawful_guarded [of _ t]) (simp_all add: life_of_def set_status_def)
next
  case (CallBulkUpdateStatus now ts st skips)
  show ?thesis unfolding CallBulkUpdateStatus exec_kt.simps BulkUpdateStatus_def
    by (intro lawful_bulk) (simp_all add: life_of_def set_status_def)
next
  case (CallStampVerifiedRejected now t at)
  show ?thesis unfolding CallStampVerifiedRejected exec_kt.simps StampVerifiedRejected_def
    by (intro lawful_with_txid, simp, unfold fst_conv, intro lawful_update) (auto simp: life_of_def)
next
  case (CallIncreaseAttempts now ts)
  show ?thesis unfolding CallIncreaseAttempts exec_kt.simps IncreaseAttempts_def
    by (intro lawful_bulk_all) (simp_all add: life_of_def)
next
  case (CallSetBatch now ts b)
  show ?thesis unfolding CallSetBatch exec_kt.simps SetBatch_def
    by (intro lawful_bulk_all) (simp_all add: life_of_def)
next
  case (CallBulkSetArcadeStatus now ts a)
  show ?thesis unfolding CallBulkSetArcadeStatus exec_kt.simps BulkSetArcadeStatus_def
    by (intro lawful_bulk_all) (simp_all add: life_of_def)
next
  case (CallMarkPolled now ts)
  show ?thesis unfolding CallMarkPolled exec_kt.simps MarkPolled_def
    by (intro lawful_bulk_all) (simp_all add: life_of_def)
qed (simp add: kt_ops, rule lawful_with_txid, simp, (rule lawful_guarded | rule lawful_required), (simp add: life_of_def; fail)+)+

section \<open>The steps of a row\<close>

lemma with_txid_step:
  assumes "known rows raw = Some r"
    and "\<And>raw'. encTxID t = Inr raw' \<Longrightarrow> \<exists>r'. known (fst (F raw')) raw = Some r' \<and> known_step c r r'"
  shows "\<exists>r'. known (fst (with_txid rows t F)) raw = Some r' \<and> known_step c r r'"
  using assms by (cases "encTxID t") (auto simp: with_txid_def intro: known_step.keep)

lemma guarded_step:
  assumes "known rows raw = Some r" "\<And>r. kr_txid (f r) = kr_txid r" "\<And>r. g r \<Longrightarrow> known_step c r (f r)"
  shows "\<exists>r'. known (fst (guarded_update rows raw' g f)) raw = Some r' \<and> known_step c r r'"
  unfolding guarded_update_rows using assms by (intro row_step) auto

lemma required_step:
  assumes "known rows raw = Some r" "\<And>r. kr_txid (f r) = kr_txid r" "\<And>r. known_step c r (f r)"
  shows "\<exists>r'. known (fst (required_update rows raw' f)) raw = Some r' \<and> known_step c r r'"
  unfolding required_update_rows using assms by (intro row_step) auto

lemma bulk_step:
  assumes "known rows raw = Some r" "\<And>r. kr_txid (f r) = kr_txid r" "\<And>ids r. P ids r \<Longrightarrow> known_step c r (f r)"
  shows "\<exists>r'. known (fst (if ts = [] then (rows, None) else case x of Inl e \<Rightarrow> (rows, Some e)
      | Inr ids \<Rightarrow> (update_where (P ids) f rows, None))) raw = Some r' \<and> known_step c r r'"
  using assms row_step [of rows raw r] by (cases x) (auto intro: known_step.keep)

lemma upsert_step:
  assumes "known rows raw = Some r"
  shows "\<exists>r'. known (fst (Upsert now rows kt skips)) raw = Some r' \<and> known_step (CallUpsert now kt skips) r r'"
  unfolding Upsert_def
proof (rule with_txid_step [OF assms])
  fix raw' assume "encTxID (kt_TxID kt) = Inr raw'"
  let ?p = "\<lambda>r. kr_txid r = raw' \<and> kt_Status r \<notin> set skips"
  have "\<exists>r'. known (update_where ?p (upsert_merge (upsert_row now kt raw')) rows) raw = Some r' \<and>
      known_step (CallUpsert now kt skips) r r'"
    using assms by (intro row_step) (auto intro: known_step.upsert)
  then show "\<exists>r'. known (fst (let new = upsert_row now kt raw'; p = ?p in
       if \<not> existsByTxID rows raw' then (rows @ [new], None)
       else if affected p rows = 0 \<and> skips \<noteq> [] then (rows, Some ErrStatusUpdateSkipped)
       else (update_where p (upsert_merge new) rows, None))) raw = Some r' \<and> known_step (CallUpsert now kt skips) r r'"
    using assms by (auto simp: Let_def known_append intro: known_step.keep)
qed

lemma exec_kt_step:
  assumes "known rows raw = Some r"
  shows "\<exists>r'. known (exec_kt c rows) raw = Some r' \<and> known_step c r r'"
proof (cases c)
  case (CallUpsert now kt skips)
  with upsert_step [OF assms] show ?thesis by simp
next
  case (CallStampVerifiedRejected now t at)
  show ?thesis
    unfolding CallStampVerifiedRejected exec_kt.simps StampVerifiedRejected_def
    by (rule with_txid_step [OF assms], unfold fst_conv, rule row_step [OF assms]) (auto intro: known_step.stamp)
next
  case (CallUpdateStatus now t st skips)
  show ?thesis unfolding CallUpdateStatus exec_kt.simps KnownTx_UpdateStatus_def
    by (intro with_txid_step guarded_step assms) (auto intro: known_step.status)
next
  case (CallBulkUpdateStatus now ts st skips)
  show ?thesis unfolding CallBulkUpdateStatus exec_kt.simps BulkUpdateStatus_def
    by (intro bulk_step assms) (auto intro: known_step.bulk_status)
next
  case (CallMarkSuspectFailed now t since reason)
  show ?thesis unfolding CallMarkSuspectFailed exec_kt.simps MarkSuspectFailed_def
    by (intro with_txid_step required_step assms) (auto intro: known_step.suspect_failed)
next
  case (CallTransitionSuspect now t st)
  show ?thesis unfolding CallTransitionSuspect exec_kt.simps TransitionSuspect_def
    by (intro with_txid_step guarded_step assms) (auto intro: known_step.finish)
next
  case (CallTransitionToAborted now t)
  show ?thesis unfolding CallTransitionToAborted exec_kt.simps TransitionToAborted_def casFromPreBroadcast_def
    by (intro with_txid_step guarded_step assms) (auto intro: known_step.abort)
next
  case (CallClaimForSend now t)
  show ?thesis unfolding CallClaimForSend exec_kt.simps ClaimForSend_def casFromPreBroadcast_def
    by (intro with_txid_step guarded_step assms) (auto intro: known_step.claim)
next
  case (CallReclaimStaleSend now t grace)
  show ?thesis unfolding CallReclaimStaleSend exec_kt.simps ReclaimStaleSend_def
    by (intro with_txid_step guarded_step assms) (auto intro: known_step.reclaim)
next
  case (CallSetProof now t h bh mp mr)
  show ?thesis unfolding CallSetProof exec_kt.simps SetProof_def
    by (intro with_txid_step required_step assms) (auto intro: known_step.proof_set)
next
  case (CallIncreaseAttempts now ts)
  show ?thesis unfolding CallIncreaseAttempts exec_kt.simps IncreaseAttempts_def
    by (intro bulk_step assms) (auto intro: known_step.attempts)
next
  case (CallSetBatch now ts b)
  show ?thesis unfolding CallSetBatch exec_kt.simps SetBatch_def
    by (intro bulk_step assms) (auto intro: known_step.batch)
next
  case (CallSetArcadeStatus now t a)
  show ?thesis unfolding CallSetArcadeStatus exec_kt.simps SetArcadeStatus_def
    by (intro with_txid_step required_step assms) (auto intro: known_step.arcade)
next
  case (CallBulkSetArcadeStatus now ts a)
  show ?thesis unfolding CallBulkSetArcadeStatus exec_kt.simps BulkSetArcadeStatus_def
    by (intro bulk_step assms) (auto intro: known_step.bulk_arcade)
next
  case (CallMarkPolled now ts)
  show ?thesis unfolding CallMarkPolled exec_kt.simps MarkPolled_def
    by (intro bulk_step assms) (auto intro: known_step.polled)
next
  case (CallMarkSuspect now t since cs a reason)
  show ?thesis unfolding CallMarkSuspect exec_kt.simps MarkSuspect_def
    by (intro with_txid_step required_step assms) (auto intro: known_step.suspect)
next
  case (CallClearProof now t st)
  show ?thesis unfolding CallClearProof exec_kt.simps ClearProof_def
    by (intro with_txid_step required_step assms) (auto intro: known_step.proof_cleared)
qed

text \<open>Every call moves an existing row by one step, and only if it addresses the row.\<close>

lemma exec_kt_row:
  assumes "known rows raw = Some r"
  shows "\<exists>r'. known (exec_kt c rows) raw = Some r' \<and> known_step c r r' \<and> (\<not> addresses (listed c) raw \<longrightarrow> r' = r)"
  using exec_kt_step [OF assms, of c] exec_kt_lawful [of c rows] assms by (auto simp: lawful_def)

lemma exec_kts_row:
  assumes "known rows raw = Some r" "P r"
    and "\<And>c r r'. c \<in> set cs \<Longrightarrow> known_step c r r' \<Longrightarrow> addresses (listed c) raw \<Longrightarrow> P r \<Longrightarrow> P r'"
  shows "\<exists>r'. known (exec_kts cs rows) raw = Some r' \<and> P r'"
  using assms
proof (induction cs arbitrary: rows r)
  case (Cons c cs)
  from exec_kt_row [OF Cons.prems(1), of c] obtain r' where r': "known (exec_kt c rows) raw = Some r'" "known_step c r r'" "\<not> addresses (listed c) raw \<longrightarrow> r' = r" by auto
  have "P r'" using Cons.prems(2,3) r'(2,3) by force
  with Cons.IH [OF r'(1)] Cons.prems(3) show ?case by auto
qed auto

lemma known_inv_append: "known_inv rows \<Longrightarrow> \<not> existsByTxID rows (kr_txid new) \<Longrightarrow> known_inv (rows @ [new])"
  by (auto simp: known_inv_def existsByTxID_def)

lemma with_txid_inv:
  "known_inv rows \<Longrightarrow> (\<And>raw. known_inv (fst (F raw))) \<Longrightarrow> known_inv (fst (with_txid rows t F))"
  by (simp add: with_txid_def split: sum.splits)

lemma upsert_inv: "known_inv rows \<Longrightarrow> known_inv (fst (Upsert now rows kt skips))"
  unfolding Upsert_def
  by (intro with_txid_inv) (auto simp: Let_def known_inv_append intro!: known_inv_update_where [THEN iffD2])

lemma guarded_inv: "known_inv rows \<Longrightarrow> (\<And>r. kr_txid (f r) = kr_txid r) \<Longrightarrow> known_inv (fst (guarded_update rows raw g f))"
  by (simp add: guarded_update_rows known_inv_update_where)

lemma required_inv: "known_inv rows \<Longrightarrow> (\<And>r. kr_txid (f r) = kr_txid r) \<Longrightarrow> known_inv (fst (required_update rows raw f))"
  by (simp add: required_update_rows known_inv_update_where)

lemma bulk_inv:
  "known_inv rows \<Longrightarrow> (\<And>r. kr_txid (f r) = kr_txid r) \<Longrightarrow>
     known_inv (fst (if ts = [] then (rows, None) else case x of Inl e \<Rightarrow> (rows, Some e)
      | Inr ids \<Rightarrow> (update_where (P ids) f rows, None)))"
  by (cases x) (simp_all add: known_inv_update_where)

lemma exec_kt_inv:
  assumes "known_inv rows" shows "known_inv (exec_kt c rows)"
proof (cases c)
  case (CallUpsert now kt skips)
  with upsert_inv [OF assms] show ?thesis by simp
next
  case (CallStampVerifiedRejected now t at)
  show ?thesis
    unfolding CallStampVerifiedRejected exec_kt.simps StampVerifiedRejected_def
    by (intro with_txid_inv assms) (simp add: known_inv_update_where assms)
next
  case (CallUpdateStatus now t st skips)
  show ?thesis unfolding CallUpdateStatus exec_kt.simps KnownTx_UpdateStatus_def by (intro with_txid_inv guarded_inv assms) simp
next
  case (CallBulkUpdateStatus now ts st skips)
  show ?thesis unfolding CallBulkUpdateStatus exec_kt.simps BulkUpdateStatus_def by (intro bulk_inv assms) simp
next
  case (CallMarkSuspectFailed now t since reason)
  show ?thesis unfolding CallMarkSuspectFailed exec_kt.simps MarkSuspectFailed_def by (intro with_txid_inv required_inv assms) simp
next
  case (CallTransitionSuspect now t st)
  show ?thesis unfolding CallTransitionSuspect exec_kt.simps TransitionSuspect_def by (intro with_txid_inv guarded_inv assms) simp
next
  case (CallTransitionToAborted now t)
  show ?thesis unfolding CallTransitionToAborted exec_kt.simps TransitionToAborted_def casFromPreBroadcast_def by (intro with_txid_inv guarded_inv assms) simp
next
  case (CallClaimForSend now t)
  show ?thesis unfolding CallClaimForSend exec_kt.simps ClaimForSend_def casFromPreBroadcast_def by (intro with_txid_inv guarded_inv assms) simp
next
  case (CallReclaimStaleSend now t grace)
  show ?thesis unfolding CallReclaimStaleSend exec_kt.simps ReclaimStaleSend_def by (intro with_txid_inv guarded_inv assms) simp
next
  case (CallSetProof now t h bh mp mr)
  show ?thesis unfolding CallSetProof exec_kt.simps SetProof_def by (intro with_txid_inv required_inv assms) simp
next
  case (CallIncreaseAttempts now ts)
  show ?thesis unfolding CallIncreaseAttempts exec_kt.simps IncreaseAttempts_def by (intro bulk_inv assms) simp
next
  case (CallSetBatch now ts b)
  show ?thesis unfolding CallSetBatch exec_kt.simps SetBatch_def by (intro bulk_inv assms) simp
next
  case (CallSetArcadeStatus now t a)
  show ?thesis unfolding CallSetArcadeStatus exec_kt.simps SetArcadeStatus_def by (intro with_txid_inv required_inv assms) simp
next
  case (CallBulkSetArcadeStatus now ts a)
  show ?thesis unfolding CallBulkSetArcadeStatus exec_kt.simps BulkSetArcadeStatus_def by (intro bulk_inv assms) simp
next
  case (CallMarkPolled now ts)
  show ?thesis unfolding CallMarkPolled exec_kt.simps MarkPolled_def by (intro bulk_inv assms) simp
next
  case (CallMarkSuspect now t since cs a reason)
  show ?thesis unfolding CallMarkSuspect exec_kt.simps MarkSuspect_def by (intro with_txid_inv required_inv assms) simp
next
  case (CallClearProof now t st)
  show ?thesis unfolding CallClearProof exec_kt.simps ClearProof_def by (intro with_txid_inv required_inv assms) simp
qed

lemma exec_kts_inv: "known_inv rows \<Longrightarrow> known_inv (exec_kts cs rows)"
  by (induction cs arbitrary: rows) (auto simp: exec_kt_inv)

section \<open>Single calls\<close>

lemma affected_row:
  assumes "known_inv rows" "known rows raw = Some r"
  shows "0 < affected (\<lambda>r. kr_txid r = raw \<and> g r) rows \<longleftrightarrow> g r"
proof -
  have "r \<in> set rows" "kr_txid r = raw" using assms(2) by (auto simp: known_def find_Some_iff)
  moreover have "r' = r" if "r' \<in> set rows" "kr_txid r' = raw" for r'
    using known_mem [OF assms(1) that(1)] that(2) assms(2) by simp
  ultimately show ?thesis unfolding neq0_conv [symmetric] affected_0 by blast
qed

lemma guarded_update_cases:
  assumes "known_inv rows" "known rows raw = Some r"
  shows "guarded_update rows raw g f =
    (if g r then (update_where (\<lambda>r. kr_txid r = raw \<and> g r) f rows, None) else (rows, Some ErrStatusUpdateSkipped))"
  using affected_row [OF assms, of g] assms(2) known_None [of rows raw] by (auto simp: guarded_update_def Let_def)

lemma guarded_update_None:
  assumes "known_inv rows" "guarded_update rows raw g f = (rows', None)"
  shows "\<exists>r. known rows raw = Some r \<and> g r \<and> rows' = update_where (\<lambda>r. kr_txid r = raw \<and> g r) f rows"
proof (cases "known rows raw")
  case None
  then have "affected (\<lambda>r. kr_txid r = raw \<and> g r) rows = 0"
    by (auto simp: affected_0 known_None existsByTxID_def)
  with assms(2) show ?thesis by (auto simp: guarded_update_def Let_def split: if_splits)
next
  case (Some r)
  with guarded_update_cases [OF assms(1) Some, of g f] assms(2) show ?thesis by (auto split: if_splits)
qed

lemma with_txid_raw: "encTxID t = Inr raw \<Longrightarrow> with_txid rows t F = F raw"
  by (simp add: with_txid_def)

lemma with_txid_None: "with_txid rows t F = (rows', None) \<Longrightarrow> \<exists>raw. encTxID t = Inr raw \<and> F raw = (rows', None)"
  by (auto simp: with_txid_def split: sum.splits)

lemma scan_txid: "encTxID (kt_TxID (knowntx_scan r)) = Inr (kr_txid r)"
  by (simp add: knowntx_scan_def known_cols.defs known_tx.defs decTxIDPtr_def encTxID_def hexDecode_hexEncode)

lemma set_limitOffset: "x \<in> set (limitOffset limit n xs) \<Longrightarrow> x \<in> set xs"
  by (auto simp: limitOffset_def split: if_splits dest: in_set_takeD in_set_dropD)

lemma FindResendable_row:
  assumes "kt \<in> set (FindResendable now rows grace limit)" "known_inv rows"
  shows "\<exists>r. known rows (kr_txid r) = Some r \<and> kt = knowntx_scan r \<and> resendable now grace r"
  using assms(1) known_mem [OF assms(2)] by (fastforce simp: FindResendable_def dest: set_limitOffset)

lemma not_resendable:
  assumes "known_inv rows" "known rows raw = Some r" "\<not> resendable now grace r"
  shows "list_all (\<lambda>kt. encTxID (kt_TxID kt) \<noteq> Inr raw) (FindResendable now rows grace limit)"
proof (unfold list_all_iff, intro ballI notI)
  fix kt assume kt: "kt \<in> set (FindResendable now rows grace limit)" "encTxID (kt_TxID kt) = Inr raw"
  from FindResendable_row [OF kt(1) assms(1)] obtain r' where r': "known rows (kr_txid r') = Some r'" "kt = knowntx_scan r'"
      "resendable now grace r'" by blast
  with kt(2) have "kr_txid r' = raw" by (simp add: scan_txid)
  with r' assms(2,3) show False by simp
qed

section \<open>A row for the witnesses\<close>

definition w_known :: "req_status \<Rightarrow> known_row" where
  "w_known st = \<lparr>kt_Status = st, kt_ArcadeStatus = None, kt_Attempts = 0, kt_RebroadcastAttempts = 0, kt_WasBroadcast = False,
     kt_Notified = False, kt_Batch = None, kt_Notify = ''{}'', kt_RawTx = [1], kt_InputBEEF = [], kt_BlockHeight = None,
     kt_BlockHash = [], kt_MerklePath = [], kt_MerkleRoot = [], kt_CompetingTxs = [], kt_SuspectSince = None,
     kt_VerifiedRejectedAt = None, kt_RejectReason = None, kt_CreatedAt = 0, kt_UpdatedAt = 0, kr_txid = [10], kr_LastPolledAt = 0\<rparr>"

lemma w_known_facts:
  "encTxID ''0a'' = Inr [10]" "known_inv [w_known st]" "known [w_known st] [10] = Some (w_known st)" "kt_Status (w_known st) = st"
  "\<not> kt_WasBroadcast (w_known st)" "kr_txid (w_known st) = [10]" "kt_RawTx (w_known st) = [1]" "kt_UpdatedAt (w_known st) = 0"
proof -
  show "encTxID ''0a'' = Inr [10]" by code_simp
qed (simp_all add: known_inv_def known_def w_known_def)

section \<open>Properties\<close>

text \<open>
  C33: The known-transaction table refines the lifecycle machine of its transactions.  Over any sequence
  of calls the status and the broadcast mark of every transaction are exactly those the machine computes:
  a call moves the transactions it lists, each by its guard, and no others; a list with an undecodable id
  moves none; only an \<open>Upsert\<close> adds a transaction.  A transaction no call lists keeps its whole row, and
  the table keeps one row per transaction id.
\<close>

theorem known_txs_refine_lifecycle:
  "lives (exec_kts cs rows) = foldl life_call (lives rows) cs \<and>
   (\<forall>raw. list_all (\<lambda>c. \<not> addresses (listed c) raw) cs \<longrightarrow> known (exec_kts cs rows) raw = known rows raw) \<and>
   (known_inv rows \<longrightarrow> known_inv (exec_kts cs rows))"
proof (intro conjI allI impI)
  show "lives (exec_kts cs rows) = foldl life_call (lives rows) cs"
    using exec_kt_lawful by (induction cs arbitrary: rows) (simp_all add: lawful_def)
  show "known (exec_kts cs rows) raw = known rows raw" if "list_all (\<lambda>c. \<not> addresses (listed c) raw) cs" for raw
    using that exec_kt_lawful by (induction cs arbitrary: rows) (simp_all add: lawful_def)
qed (rule exec_kts_inv)

theorem known_txs_refine_lifecycle_witness:
  "lives (exec_kts [CallClaimForSend 5 ''0a'', CallTransitionToAborted 6 ''0a'', CallBulkUpdateStatus 7 [''0a'', ''x''] ProvenTxStatusUnsent []]
     [w_known ProvenTxStatusUnsent]) [10] = Some (ProvenTxStatusSending, False) \<and>
   known (exec_kts [CallBulkUpdateStatus 7 [''0b''] ProvenTxStatusInvalid []] [w_known ProvenTxStatusUnsent]) [10] = Some (w_known ProvenTxStatusUnsent) \<and>
   known_inv (exec_kts [CallClaimForSend 5 ''0a''] [w_known ProvenTxStatusUnsent])"
proof -
  have enc: "encTxID ''0b'' = Inr [11]" "isl (encTxID ''x'')" by code_simp+
  have w: "lives [w_known ProvenTxStatusUnsent] [10] = Some (ProvenTxStatusUnsent, False)"
    by (simp add: lives_def w_known_facts life_of_def)
  have "\<not> addresses [''0a'', ''x''] raw" for raw using enc(2) by (simp add: addresses_def)
  moreover have "\<not> addresses [''0b''] [10]" using enc(1) by simp
  ultimately show ?thesis
    unfolding known_txs_refine_lifecycle [THEN conjunct1]
    using w known_txs_refine_lifecycle [of _ "[w_known ProvenTxStatusUnsent]"] w_known_facts(1-3)
    by (simp add: life_call_def knownTxPreBroadcastStatuses_def del: exec_kts_simps)
qed

text \<open>
  The callers' obligation: a write whose target leaves the fenced statuses carries the never-requeue set
  as its guard.
\<close>

definition fenced :: "req_status \<Rightarrow> bool" where
  "fenced st \<longleftrightarrow> st \<in> set KnownTxNeverRequeueStatuses \<and> st \<noteq> ProvenTxStatusSending"

fun respects_fence :: "kt_call \<Rightarrow> bool" where
  "respects_fence (CallUpsert now kt skips) = (fenced (kt_Status kt) \<or> set KnownTxNeverRequeueStatuses \<subseteq> set skips)"
| "respects_fence (CallUpdateStatus now t st skips) = (fenced st \<or> set KnownTxNeverRequeueStatuses \<subseteq> set skips)"
| "respects_fence (CallBulkUpdateStatus now ts st skips) = (fenced st \<or> set KnownTxNeverRequeueStatuses \<subseteq> set skips)"
| "respects_fence (CallTransitionSuspect now t st) = fenced st"
| "respects_fence (CallClearProof now t st) = fenced st"
| "respects_fence _ = True"

lemma fenced_facts:
  "fenced KnownTxStatusAborted" "fenced KnownTxStatusSuspectFailed" "fenced ProvenTxStatusCompleted"
  "\<not> fenced ProvenTxStatusSending" "fenced st \<Longrightarrow> st \<notin> set knownTxPreBroadcastStatuses"
  "fenced st \<Longrightarrow> st \<in> set KnownTxNeverRequeueStatuses"
  by (auto simp: fenced_def req_status_defs)

lemma upsert_status: "kt_Status (upsert_merge (upsert_row now kt raw) r) = kt_Status kt"
  by (simp add: upsert_merge_def upsert_row_def known_cols.defs)

lemma known_step_fenced: "known_step c r r' \<Longrightarrow> respects_fence c \<Longrightarrow> fenced (kt_Status r) \<Longrightarrow> fenced (kt_Status r')"
  by (induction rule: known_step.induct)
    (auto simp: upsert_status set_status_def fenced_facts dest: fenced_facts(5,6))

text \<open>
  An aborted transaction is never sent.  Whatever calls follow the abort, as long as every write that
  would leave the fenced statuses passes the never-requeue set as its guard, the row stays fenced: a send
  cannot claim it, the recovery of a stale send cannot take it, and the resend sweep never lists it.
\<close>

theorem aborted_never_sent:
  assumes "known_inv rows" "encTxID txid = Inr raw" "known rows raw = Some r" "kt_Status r = KnownTxStatusAborted"
    and "\<forall>c \<in> set cs. respects_fence c"
  shows "snd (ClaimForSend now (exec_kts cs rows) txid) = Some ErrStatusUpdateSkipped \<and>
    snd (ReclaimStaleSend now (exec_kts cs rows) txid grace) = Some ErrStatusUpdateSkipped \<and>
    list_all (\<lambda>kt. encTxID (kt_TxID kt) \<noteq> Inr raw) (FindResendable now (exec_kts cs rows) grace limit)"
proof -
  obtain r' where r': "known (exec_kts cs rows) raw = Some r'" "fenced (kt_Status r')"
    using exec_kts_row [OF assms(3), of "\<lambda>r. fenced (kt_Status r)" cs] assms(4,5) known_step_fenced fenced_facts(1) by force
  note inv = exec_kts_inv [OF assms(1), of cs]
  have st: "kt_Status r' \<notin> set knownTxPreBroadcastStatuses" "kt_Status r' \<noteq> ProvenTxStatusSending"
    using r'(2) fenced_facts(4,5) by auto
  then have "\<not> resendable now grace r'" by (auto simp: resendable_def knownTxPreBroadcastStatuses_def)
  from not_resendable [OF inv r'(1) this] st guarded_update_cases [OF inv r'(1)] show ?thesis
    by (simp add: ClaimForSend_def casFromPreBroadcast_def ReclaimStaleSend_def with_txid_raw [OF assms(2)])
qed

lemma guarded_update_row:
  assumes "known_inv rows" "guarded_update rows raw g f = (rows', None)" "\<And>r. kr_txid (f r) = kr_txid r"
  shows "\<exists>r. known rows raw = Some r \<and> g r \<and> known_inv rows' \<and> known rows' raw = Some (f r)"
  using guarded_update_None [OF assms(1,2)] assms(1,3)
  by (auto simp: known_update_where known_inv_update_where known_Some_txid)

lemma cas_row:
  assumes "known_inv rows" "casFromPreBroadcast now rows t st = (rows', None)"
  shows "\<exists>raw r. encTxID t = Inr raw \<and> known_inv rows' \<and> known rows' raw = Some r \<and> kt_Status r = st \<and>
    \<not> kt_WasBroadcast r \<and> kt_UpdatedAt r = encTime now"
proof -
  from with_txid_None [OF assms(2) [unfolded casFromPreBroadcast_def]] obtain raw where "encTxID t = Inr raw"
    and g: "guarded_update rows raw (\<lambda>r. kt_Status r \<in> set knownTxPreBroadcastStatuses \<and> \<not> kt_WasBroadcast r)
       (\<lambda>r. r\<lparr>kt_Status := st, kt_UpdatedAt := encTime now\<rparr>) = (rows', None)" by blast
  moreover from guarded_update_row [OF assms(1) g] obtain r where "\<not> kt_WasBroadcast r" "known_inv rows'"
      "known rows' raw = Some (r\<lparr>kt_Status := st, kt_UpdatedAt := encTime now\<rparr>)" by auto
  ultimately show ?thesis by fastforce
qed

lemma cas_lost:
  assumes "known_inv rows" "casFromPreBroadcast now rows t st = (rows', None)" "st \<notin> set knownTxPreBroadcastStatuses"
  shows "snd (casFromPreBroadcast now' rows' t st') = Some ErrStatusUpdateSkipped"
proof -
  from cas_row [OF assms(1,2)] obtain raw r where r: "encTxID t = Inr raw" "known_inv rows'" "known rows' raw = Some r" "kt_Status r = st"
    by blast
  from guarded_update_cases [OF r(2,3)] assms(3) r(4) show ?thesis
    by (simp add: casFromPreBroadcast_def with_txid_raw [OF r(1)])
qed

lemma cas_err: "snd (casFromPreBroadcast now rows t st) = snd (casFromPreBroadcast now rows t st')"
  by (simp add: casFromPreBroadcast_def with_txid_def guarded_update_def Let_def split: sum.splits)

text \<open>
  C32: Abort and send exclude each other.  After a claim for sending has won, an abort and a second claim
  are refused; after an abort has won, a claim and a second abort are refused; and on one and the same
  table both report the same outcome, so whichever comes first decides.
\<close>

theorem send_abort_exclusive:
  assumes "known_inv rows"
  shows "(ClaimForSend now rows t = (rows1, None) \<longrightarrow>
      snd (TransitionToAborted now' rows1 t) = Some ErrStatusUpdateSkipped \<and>
      snd (ClaimForSend now' rows1 t) = Some ErrStatusUpdateSkipped) \<and>
    (TransitionToAborted now rows t = (rows2, None) \<longrightarrow>
      snd (ClaimForSend now' rows2 t) = Some ErrStatusUpdateSkipped \<and>
      snd (TransitionToAborted now' rows2 t) = Some ErrStatusUpdateSkipped) \<and>
    snd (ClaimForSend now rows t) = snd (TransitionToAborted now rows t)"
  using cas_lost [OF assms] cas_err by (auto simp: ClaimForSend_def TransitionToAborted_def knownTxPreBroadcastStatuses_def)

theorem send_abort_exclusive_witness:
  "snd (TransitionToAborted 9 (fst (ClaimForSend 5 [w_known ProvenTxStatusUnsent] ''0a'')) ''0a'') = Some ErrStatusUpdateSkipped"
proof -
  have "snd (ClaimForSend 5 [w_known ProvenTxStatusUnsent] ''0a'') = None"
    using guarded_update_cases [OF w_known_facts(2,3)] w_known_facts(4,5)
    by (simp add: ClaimForSend_def casFromPreBroadcast_def with_txid_raw [OF w_known_facts(1)] knownTxPreBroadcastStatuses_def)
  then have "ClaimForSend 5 [w_known ProvenTxStatusUnsent] ''0a'' = (fst (ClaimForSend 5 [w_known ProvenTxStatusUnsent] ''0a''), None)"
    by (metis prod.collapse)
  with send_abort_exclusive [OF w_known_facts(2), where ?now = 5 and ?t = "''0a''" and ?now' = 9] show ?thesis by blast
qed

text \<open>
  C34: One recovery sweep per grace period.  When the recovery of a stale send wins a row, no other recovery
  wins it and no resend sweep lists it until the grace period has passed again, and an abort is still
  refused however long the row has been stale.
\<close>

theorem reclaim_backs_off:
  assumes "known_inv rows" "ReclaimStaleSend now rows t grace = (rows', None)" "encTime (now' - grace) < encTime now"
  shows "snd (ReclaimStaleSend now' rows' t grace) = Some ErrStatusUpdateSkipped \<and>
    list_all (\<lambda>kt. encTxID (kt_TxID kt) \<noteq> encTxID t) (FindResendable now' rows' grace limit) \<and>
    snd (TransitionToAborted at rows t) = Some ErrStatusUpdateSkipped \<and>
    snd (TransitionToAborted at rows' t) = Some ErrStatusUpdateSkipped"
proof -
  from with_txid_None [OF assms(2) [unfolded ReclaimStaleSend_def]] obtain raw where raw: "encTxID t = Inr raw"
    and g: "guarded_update rows raw (\<lambda>r. kt_Status r = ProvenTxStatusSending \<and> \<not> kt_WasBroadcast r \<and>
        kt_UpdatedAt r \<le> encTime (now - grace)) (\<lambda>r. r\<lparr>kt_UpdatedAt := encTime now\<rparr>) = (rows', None)" by blast
  from guarded_update_row [OF assms(1) g] obtain r where r: "known rows raw = Some r" "kt_Status r = ProvenTxStatusSending"
      "known_inv rows'" "known rows' raw = Some (r\<lparr>kt_UpdatedAt := encTime now\<rparr>)" by auto
  have "\<not> resendable now' grace (r\<lparr>kt_UpdatedAt := encTime now\<rparr>)" using assms(3) r(2) by (simp add: resendable_def)
  from not_resendable [OF r(3,4) this] guarded_update_cases [OF r(3,4)] guarded_update_cases [OF assms(1) r(1)] r(2) assms(3)
  show ?thesis
    by (simp add: raw ReclaimStaleSend_def TransitionToAborted_def casFromPreBroadcast_def with_txid_raw [OF raw]
        knownTxPreBroadcastStatuses_def)
qed

theorem reclaim_backs_off_witness:
  "snd (ReclaimStaleSend 60000000001 (fst (ReclaimStaleSend 60000000000 [w_known ProvenTxStatusSending] ''0a'' 60000000000)) ''0a''
     60000000000) = Some ErrStatusUpdateSkipped"
proof -
  have "snd (ReclaimStaleSend 60000000000 [w_known ProvenTxStatusSending] ''0a'' 60000000000) = None"
    using guarded_update_cases [OF w_known_facts(2,3)] w_known_facts(4,5,8)
    by (simp add: ReclaimStaleSend_def with_txid_raw [OF w_known_facts(1)] encTime_def)
  then have "ReclaimStaleSend 60000000000 [w_known ProvenTxStatusSending] ''0a'' 60000000000 =
      (fst (ReclaimStaleSend 60000000000 [w_known ProvenTxStatusSending] ''0a'' 60000000000), None)" by (metis prod.collapse)
  from reclaim_backs_off [OF w_known_facts(2) this, of 60000000001] show ?thesis by (simp add: encTime_def)
qed






end
