(* ===== verification/Status_Props.thy ===== *)
theory Status_Props
  imports Status_Updates Known_Tx_Props Memstore_Props
begin

text \<open>
  What applying status records guarantees: only verified proofs are stored, and a repair takes back the coins a
  mined transaction consumed.
\<close>

section \<open>Relations on the known transactions\<close>

text \<open>
  A preorder that only looks at the table of known transactions and at the broadcasts is kept by every step that
  changes neither; a unit of work that fails gives the table back, but not its broadcasts.
\<close>

locale known_order = step_order +
  assumes rolled_back: "R p q \<Longrightarrow> db_known (p_db q') = db_known (p_db p) \<Longrightarrow> p_posts q' = p_posts q \<Longrightarrow> R p q'"
begin

lemmas other = rolled_back [OF refl]

lemma in_other: "(\<And>p. db_known (p_db (fst (m p))) = db_known (p_db p) \<and> p_posts (fst (m p)) = p_posts p) \<Longrightarrow> steps_in R m"
  by (simp add: steps_in_def other)

lemma in_quiet:
  "steps_in R (on_txs f)" "steps_in R (on_outputs g)" "steps_in R (on_outbox h)" "steps_in R (utxo_call k)" "steps_in R (batch_call b)"
  by (rule in_other, simp add: on_txs_def on_outputs_def on_outbox_def utxo_call_def batch_call_def tick_p_def Let_def case_prod_unfold
      split: option.splits fault.splits)+

lemma in_tick: "steps_in R m \<Longrightarrow> steps_in R (\<lambda>p. m (tick_p p))"
  using trans other [of "tick_p _"] unfolding steps_in_def by (fastforce simp: tick_p_def)

lemma in_tolerate: "steps_in R m \<Longrightarrow> steps_in R (tolerate es m)"
  unfolding steps_in_def tolerate_def by (auto simp: case_prod_unfold split: sum.splits)

lemma in_DoUnit: "steps_in R m \<Longrightarrow> steps_in R (DoUnit m)"
  unfolding steps_in_def DoUnit_def by (auto simp: case_prod_unfold intro: rolled_back split: sum.splits)

lemma in_promote: "steps_in R (promote ops t)"
  unfolding promote_def by (auto intro!: in_combined in_quiet)

lemma in_promoteChange: "steps_in R (promoteChangeByTxID lib x t)" "steps_in R (promoteChangeByTxIDs lib xs t)"
  using in_promote unfolding steps_in_def promoteChangeByTxID_def promoteChangeByTxIDs_def by (auto simp: refl split: sum.splits)

lemma in_removeSpentBy: "steps_in R (removeSpentBy h)"
  unfolding removeSpentBy_def by (intro in_combined in_quiet)

lemma in_factSpend: "steps_in R (factSpendMinedInputs lib kt h res)"
  unfolding factSpendMinedInputs_def Let_def
  by (auto intro!: in_ret in_fail in_andThen in_quiet split: option.splits)

lemma in_markInputsSpentFromRaw: "steps_in R (markInputsSpentFromRaw lib t raw)"
proof -
  have "steps_in R (markInputsSpent lib uid n ins)" for uid n ins
    by (rule in_other) (simp add: markInputsSpent_def Let_def on_outputs_def tick_p_def split: sum.splits)
  then show ?thesis unfolding markInputsSpentFromRaw_def by (auto intro!: in_ret split: option.splits)
qed

lemma in_unfreezeReminted: "steps_in R (unfreezeReminted ops)"
  by (rule in_other) (auto simp: unfreezeReminted_def utxo_call_def Let_def case_prod_unfold split: option.splits fault.splits sum.splits perr.splits)

lemma in_remint: "steps_in R (remintChangeByTxID lib x t)"
proof -
  have "steps_in R (andThen (batch_call (\<lambda>s. Mint s ms)) (\<lambda>(errs, merr). case mintVerdict errs merr of
      Some e \<Rightarrow> fail e | None \<Rightarrow> andThen (utxo_call (\<lambda>s. Promote s ops t)) (\<lambda>_. unfreezeReminted ops)))" for ms ops
    by (auto intro!: in_fail in_andThen in_quiet in_unfreezeReminted split: option.splits)
  then show ?thesis unfolding steps_in_def remintChangeByTxID_def Let_def
    by (auto simp: refl split: sum.splits option.splits)
qed

end

section \<open>Stored proofs\<close>

text \<open>Proof material that passed the header check for a transaction id.\<close>

definition checked :: "sdk \<Rightarrow> chain \<Rightarrow> string \<Rightarrow> u32 \<Rightarrow> bytes \<Rightarrow> bytes \<Rightarrow> bool" where
  "checked lib ch txid height mpBytes rtv \<longleftrightarrow>
     (\<exists>h path mp hd' rt. NewHashFromHex lib txid = Some h \<and> NewMerklePathFromBinary ch path = Some mp \<and>
        ComputeRoot mp h = Some rt \<and> hdrs ch = Some hd' \<and> VerifyMerkleRoot hd' rt (mp_BlockHeight mp) = Some True \<and>
        height = mp_BlockHeight mp \<and> mpBytes = mp_Bytes mp \<and> rtv = HashBytes ch rt)"

lemma checkedI:
  "NewHashFromHex lib txid = Some h \<Longrightarrow> NewMerklePathFromBinary ch bin = Some mp \<Longrightarrow> ComputeRoot mp h = Some rt \<Longrightarrow> hdrs ch = Some hd' \<Longrightarrow>
   VerifyMerkleRoot hd' rt (mp_BlockHeight mp) = Some True \<Longrightarrow> checked lib ch txid (mp_BlockHeight mp) (mp_Bytes mp) (HashBytes ch rt)"
  unfolding checked_def by blast

text \<open>The proof columns of a row are checked material for the row's own transaction id.\<close>

definition proven :: "sdk \<Rightarrow> chain \<Rightarrow> known_row \<Rightarrow> bool" where
  "proven lib ch r \<longleftrightarrow>
     (\<exists>txid height. encTxID txid = Inr (kr_txid r) \<and> checked lib ch txid height (kt_MerklePath r) (kt_MerkleRoot r) \<and>
        kt_BlockHeight r = Some (unat height))"

definition row_proven :: "sdk \<Rightarrow> chain \<Rightarrow> known_row \<Rightarrow> bool" where
  "row_proven lib ch r \<longleftrightarrow> (kt_Status r = ProvenTxStatusCompleted \<or> kt_BlockHeight r \<noteq> None \<longrightarrow> proven lib ch r)"

definition proofs_ok :: "sdk \<Rightarrow> chain \<Rightarrow> prov \<Rightarrow> bool" where
  "proofs_ok lib ch p \<longleftrightarrow> list_all (row_proven lib ch) (db_known (p_db p))"

definition keeps_proofs :: "sdk \<Rightarrow> chain \<Rightarrow> prov \<Rightarrow> prov \<Rightarrow> bool" where
  "keeps_proofs lib ch p q \<longleftrightarrow> (proofs_ok lib ch p \<longrightarrow> proofs_ok lib ch q)"

interpretation kp: known_order "keeps_proofs lib ch" for lib ch
  by unfold_locales (simp_all add: keeps_proofs_def proofs_ok_def)

lemma kp_on_known:
  assumes "\<And>now rows. list_all (row_proven lib ch) rows \<Longrightarrow> list_all (row_proven lib ch) (fst (f now rows))"
  shows "steps_in (keeps_proofs lib ch) (on_known f)"
  using assms by (simp add: steps_in_def keeps_proofs_def proofs_ok_def on_known_def tick_p_def Let_def case_prod_unfold)

lemma row_proven_update:
  assumes "list_all (row_proven lib ch) rows" "\<And>r. q r \<Longrightarrow> row_proven lib ch r \<Longrightarrow> row_proven lib ch (f r)"
  shows "list_all (row_proven lib ch) (update_where q f rows)"
  using assms by (auto simp: update_where_def list_all_iff)

lemma row_proven_fields:
  "row_proven lib ch r \<Longrightarrow> row_proven lib ch (r\<lparr>kt_ArcadeStatus := a, kt_UpdatedAt := t\<rparr>)"
  "row_proven lib ch r \<Longrightarrow> st \<noteq> ProvenTxStatusCompleted \<Longrightarrow> row_proven lib ch (set_status now st r)"
  "row_proven lib ch r \<Longrightarrow> row_proven lib ch (r\<lparr>kt_Status := KnownTxStatusSuspectFailed, kt_ArcadeStatus := a, kt_CompetingTxs := c,
     kt_SuspectSince := s, kt_VerifiedRejectedAt := v, kt_RejectReason := x, kt_UpdatedAt := t\<rparr>)"
  by (auto simp: row_proven_def proven_def set_status_def)

lemma kp_writes:
  "steps_in (keeps_proofs lib ch) (on_known (\<lambda>now rows. SetArcadeStatus now rows x st))"
  "steps_in (keeps_proofs lib ch) (on_known (\<lambda>now rows. BulkSetArcadeStatus now rows xs st))"
  "steps_in (keeps_proofs lib ch) (on_known (\<lambda>now rows. KnownTx_UpdateStatus now rows x ProvenTxStatusUnconfirmed sk))"
  "steps_in (keeps_proofs lib ch) (on_known (\<lambda>now rows. BulkUpdateStatus now rows xs ProvenTxStatusUnconfirmed sk))"
  "steps_in (keeps_proofs lib ch) (on_known (\<lambda>now rows. MarkSuspect now rows x t cs st rs))"
  by (rule kp_on_known; auto simp: SetArcadeStatus_def BulkSetArcadeStatus_def KnownTx_UpdateStatus_def BulkUpdateStatus_def MarkSuspect_def
      with_txid_def guarded_update_rows required_update_rows split: sum.splits intro!: row_proven_update row_proven_fields)+

lemma verifyMinedOne_checked:
  assumes "verifyMinedOne lib ch rec = Some pr"
  shows "checked lib ch (rec_TxID rec) (pf_height pr) (pf_mpBytes pr) (pf_root pr) \<and> pf_rec pr = rec \<and> pf_spentOps pr = [] \<and>
    NewHashFromHex lib (rec_TxID rec) = Some (pf_txidHash pr)"
  using assms unfolding verifyMinedOne_def by (auto intro: checkedI split: if_splits option.splits bool.splits)

lemma kp_setProof:
  assumes "checked lib ch y height mpBytes rtv" "\<And>raw. encTxID x = Inr raw \<Longrightarrow> encTxID y = Inr raw"
  shows "steps_in (keeps_proofs lib ch) (setProof x height bh mpBytes rtv)"
  unfolding setProof_def
proof (intro kp.in_tolerate kp_on_known)
  fix now rows assume rows: "list_all (row_proven lib ch) rows"
  show "list_all (row_proven lib ch) (fst (SetProof now rows x (unat height) bh mpBytes rtv))"
  proof (cases "encTxID x")
    case (Inr raw)
    have "row_proven lib ch (r\<lparr>kt_Status := ProvenTxStatusCompleted, kt_WasBroadcast := True, kt_Notified := True,
        kt_BlockHeight := Some (unat height), kt_BlockHash := bh, kt_MerklePath := mpBytes, kt_MerkleRoot := rtv,
        kt_InputBEEF := [], kt_UpdatedAt := t\<rparr>)" if "kr_txid r = raw" for r t
      using assms(1) assms(2) [OF Inr] that unfolding row_proven_def proven_def by auto
    then show ?thesis using rows unfolding SetProof_def with_txid_def by (auto simp: Inr required_update_rows intro!: row_proven_update)
  qed (simp add: SetProof_def with_txid_def rows)
qed

lemma kp_setArcadeStatus: "steps_in (keeps_proofs lib ch) (setArcadeStatus x st)" "steps_in (keeps_proofs lib ch) (recordArcadeStatus x st)"
  unfolding recordArcadeStatus_def setArcadeStatus_def by (intro kp.in_tolerate kp_writes)+

lemma kp_markSuspect: "steps_in (keeps_proofs lib ch) (markSuspect rec)"
  using kp.in_tick [OF kp.in_tolerate [OF kp_writes(5)]] unfolding steps_in_def markSuspect_def by blast

lemma kp_applySeen: "steps_in (keeps_proofs lib ch) (applySeen lib' rec)"
  unfolding applySeen_def Let_def
  by (intro kp.in_DoUnit kp.in_andThen kp.in_tolerate kp.in_quiet kp_writes kp.in_promoteChange kp_setArcadeStatus)

lemma kp_commitMined:
  "checked lib ch (rec_TxID rec) height mpb rtv \<Longrightarrow> steps_in (keeps_proofs lib ch) (commitMined lib' rec h height bh mpb rtv)"
  unfolding commitMined_def Let_def
  by (intro kp.in_DoUnit kp.in_andThen kp.in_tolerate kp.in_quiet kp.in_promoteChange kp_setArcadeStatus kp_setProof kp.in_removeSpentBy) auto

lemma kp_applyMined: "steps_in (keeps_proofs lib ch) (applyMined lib ch rec)"
  unfolding applyMined_def by (auto intro!: kp.in_ret kp.in_fail kp_commitMined intro: checkedI split: option.splits bool.splits)

lemma FindByTxID_Some:
  assumes "FindByTxID rows x = Inr (Some kt)"
  shows "\<exists>raw r. encTxID x = Inr raw \<and> known rows raw = Some r \<and> kt = knowntx_scan r \<and> encTxID (kt_TxID kt) = Inr raw"
proof -
  obtain raw where raw: "encTxID x = Inr raw" using assms by (cases "encTxID x") (simp_all add: FindByTxID_def)
  then obtain r where "known rows raw = Some r" "kt = knowntx_scan r" using assms by (auto simp: FindByTxID_def known_def)
  with raw known_Some_txid scan_txid show ?thesis by metis
qed

lemma kp_commitMinedRepair:
  assumes "checked lib ch y (pf_height pr) (pf_mpBytes pr) (pf_root pr)" "encTxID (kt_TxID kt) = encTxID y"
  shows "steps_in (keeps_proofs lib ch) (commitMinedRepair lib' kt pr)"
proof -
  have "steps_in (keeps_proofs lib ch) (DoUnit (andThen (factSpendMinedInputs lib' kt (pf_txidHash pr) res)
        (\<lambda>_. andThen (case row of None \<Rightarrow> ret () | Some t \<Rightarrow> markInputsSpentFromRaw lib' t (kt_RawTx kt))
        (\<lambda>_. andThen (setProof (kt_TxID kt) (pf_height pr) (pf_blockHash pr) (pf_mpBytes pr) (pf_root pr))
        (\<lambda>_. andThen (tolerate [ErrStatusUpdateSkipped] (on_txs upd))
        (\<lambda>_. andThen (on_txs clr)
        (\<lambda>_. andThen (remintChangeByTxID lib' (kt_TxID kt) TierMined)
        (\<lambda>_. removeSpentBy (pf_txidHash pr)))))))))" for res row upd clr
    using assms
    by (intro kp.in_DoUnit kp.in_andThen kp.in_tolerate kp.in_quiet kp.in_factSpend kp_setProof kp.in_remint kp.in_removeSpentBy)
      (auto intro!: kp.in_ret kp.in_markInputsSpentFromRaw split: option.splits)
  then show ?thesis by (simp add: steps_in_def commitMinedRepair_def Let_def)
qed

lemma kp_applyMinedRepair:
  assumes "encTxID (kt_TxID kt) = encTxID (rec_TxID rec)"
  shows "steps_in (keeps_proofs lib ch) (applyMinedRepair lib ch rec kt)"
proof -
  have "steps_in (keeps_proofs lib ch) (commitMinedRepair lib kt pr)" if "verifyMinedOne lib ch rec = Some pr" for pr
    using kp_commitMinedRepair [OF _ assms] verifyMinedOne_checked [OF that] by blast
  then show ?thesis unfolding applyMinedRepair_def
    by (auto intro!: kp.in_ret kp.in_fail kp.in_andThen kp_setArcadeStatus split: option.splits)
qed

lemma kp_ApplyStatusUpdate: "steps_in (keeps_proofs lib ch) (ApplyStatusUpdate lib ch rec)"
proof (unfold steps_in_def, intro allI)
  fix p
  let ?R = "keeps_proofs lib ch"
  show "?R p (fst (ApplyStatusUpdate lib ch rec p))"
  proof (cases "FindByTxID (db_known (p_db p)) (rec_TxID rec)")
    case (Inr k)
    show ?thesis
    proof (cases k)
      case None
      then show ?thesis by (simp add: ApplyStatusUpdate_def Let_def Inr kp.refl)
    next
      case (Some kt)
      have "encTxID (kt_TxID kt) = encTxID (rec_TxID rec)" using FindByTxID_Some Inr Some by fastforce
      then have "steps_in ?R (andThen (applyMinedRepair lib ch rec kt) (\<lambda>_. ret ()))"
        by (intro kp.in_andThen kp_applyMinedRepair kp.in_ret)
      then have "?R p (fst (andThen (applyMinedRepair lib ch rec kt) (\<lambda>_. ret ()) p))" by (simp add: steps_in_def)
      moreover have "?R p (fst (applySeen lib rec p))" "?R p (fst (applyMined lib ch rec p))" "?R p (fst (markSuspect rec p))"
          "\<And>st. ?R p (fst (recordArcadeStatus (rec_TxID rec) st p))"
        using kp_applySeen kp_applyMined kp_markSuspect kp_setArcadeStatus(2) by (auto simp: steps_in_def)
      ultimately show ?thesis
        unfolding ApplyStatusUpdate_def Let_def applyRejected_def applyPendingRetry_def Inr Some by (simp add: kp.refl)
    qed
  qed (simp add: ApplyStatusUpdate_def Let_def kp.refl)
qed

subsection \<open>The batch\<close>

text \<open>The loops, each the composition of its steps.\<close>

lemma loop_steps:
  "setStatusLoop recs [] = ret ()" "applyRejectedBatch [] = ret ()" "setProofLoop [] = ret ()" "scanLoop [] = ret ()" "applyAll lib ch [] = ret ()"
  "setStatusLoop recs (st # sts) = andThen (on_known (\<lambda>now rows. BulkSetArcadeStatus now rows
     (map rec_TxID (filter (\<lambda>rec. rec_Status rec = st) recs)) st)) (\<lambda>_. setStatusLoop recs sts)"
  "applyRejectedBatch (rec # recs) = andThen (markSuspect rec) (\<lambda>_. applyRejectedBatch recs)"
  "setProofLoop (pr # prs) = andThen (setProof (rec_TxID (pf_rec pr)) (pf_height pr) (pf_blockHash pr) (pf_mpBytes pr) (pf_root pr))
     (\<lambda>_. setProofLoop prs)"
  "scanLoop (pr # prs) = andThen (removeSpentBy (pf_txidHash pr)) (\<lambda>_. scanLoop prs)"
  "applyAll lib ch (rec # recs) = andThen (ApplyStatusUpdate lib ch rec) (\<lambda>_. applyAll lib ch recs)"
  by (simp_all add: fun_eq_iff ret_def)

lemma kp_loops:
  "steps_in (keeps_proofs lib ch) (setStatusLoop recs sts)" "steps_in (keeps_proofs lib ch) (applyRejectedBatch recs)"
  "steps_in (keeps_proofs lib ch) (scanLoop prs)" "steps_in (keeps_proofs lib ch) (applyAll lib ch recs)"
proof -
  show "steps_in (keeps_proofs lib ch) (setStatusLoop recs sts)"
    by (induction sts) (simp_all only: loop_steps kp.in_ret kp.in_andThen kp_writes)
  show "steps_in (keeps_proofs lib ch) (applyRejectedBatch recs)"
    by (induction recs) (simp_all only: loop_steps kp.in_ret kp.in_andThen kp_markSuspect)
  show "steps_in (keeps_proofs lib ch) (scanLoop prs)"
    by (induction prs) (simp_all only: loop_steps kp.in_ret kp.in_andThen kp.in_removeSpentBy)
  show "steps_in (keeps_proofs lib ch) (applyAll lib ch recs)"
    by (induction recs) (simp_all only: loop_steps kp.in_ret kp.in_andThen kp_ApplyStatusUpdate)
qed

definition proof_checked :: "sdk \<Rightarrow> chain \<Rightarrow> mined_proof \<Rightarrow> bool" where
  "proof_checked lib ch pr \<longleftrightarrow> checked lib ch (rec_TxID (pf_rec pr)) (pf_height pr) (pf_mpBytes pr) (pf_root pr)"

lemma kp_setProofLoop: "list_all (proof_checked lib ch) prs \<Longrightarrow> steps_in (keeps_proofs lib ch) (setProofLoop prs)"
proof (induction prs)
  case (Cons pr prs)
  then show ?case unfolding loop_steps
    by (intro kp.in_andThen kp_setProof [of lib ch "rec_TxID (pf_rec pr)"]) (simp_all add: proof_checked_def)
qed (simp add: loop_steps kp.in_ret)

lemma set_insertProof: "set (insertProof pr prs) = insert pr (set prs)"
  by (induction prs) auto

lemma set_sortProofs: "set (sortProofs prs) = set prs"
  unfolding sortProofs_def by (induction prs) (auto simp: set_insertProof)

lemma kp_applyMinedBatch:
  assumes "list_all (proof_checked lib ch) prs" shows "steps_in (keeps_proofs lib ch) (applyMinedBatch lib' prs)"
proof -
  have "list_all (proof_checked lib ch) (sortProofs prs)" using assms by (simp add: list_all_iff set_sortProofs)
  then show ?thesis unfolding applyMinedBatch_def Let_def setArcadeStatusBatch_def doRemovePhantom_def
    by (auto intro!: kp.in_ret kp.in_andThen kp.in_quiet kp_setProofLoop kp_loops kp.in_promoteChange)
qed

lemma kp_applySeenBatch: "steps_in (keeps_proofs lib ch) (applySeenBatch lib' recs)"
  unfolding applySeenBatch_def Let_def setArcadeStatusBatch_def
  by (auto intro!: kp.in_ret kp.in_andThen kp.in_quiet kp_writes kp_loops kp.in_promoteChange)

lemma verified_checked: "list_all (proof_checked lib ch) (map (resolveSpent lib k) (verifyMinedBatch lib ch recs))"
proof -
  have "proof_checked lib ch (resolveSpent lib k pr)" if "proof_checked lib ch pr" for pr
    using that by (simp add: resolveSpent_def proof_checked_def split: option.splits)
  moreover have "proof_checked lib ch pr" if mem: "pr \<in> set (verifyMinedBatch lib ch recs)" for pr
  proof -
    obtain rec where "verifyMinedOne lib ch rec = Some pr" using mem by (auto simp: verifyMinedBatch_def List.map_filter_def)
    from verifyMinedOne_checked [OF this] show ?thesis by (simp add: proof_checked_def)
  qed
  ultimately show ?thesis by (simp add: list_all_iff)
qed

lemma kp_ApplyStatusBatch: "steps_in (keeps_proofs lib ch) (ApplyStatusBatch lib ch recs)"
proof (unfold steps_in_def, intro allI)
  fix p
  have "steps_in (keeps_proofs lib ch) (andThen (batchWrites lib plan (map (resolveSpent lib k) (verifyMinedBatch lib ch recs'))) (\<lambda>_. applyAll lib ch recs''))"
    for plan k recs' recs''
    unfolding batchWrites_def setArcadeStatusBatch_def
    by (auto intro!: kp.in_ret kp.in_andThen kp.in_DoUnit kp_applySeenBatch kp_applyMinedBatch kp_loops verified_checked)
  then show "keeps_proofs lib ch p (fst (ApplyStatusBatch lib ch recs p))"
    unfolding steps_in_def ApplyStatusBatch_def Let_def by (auto simp: kp.refl split: sum.splits)
qed

text \<open>
  C16: No unverified proof is ever stored.  Let every known transaction that is completed or carries proof
  columns have a proof that was checked: a merkle path that parsed, whose root for the row's own transaction
  id the header source confirmed at the path's height.  Then the same holds after applying any status record
  and after applying any batch of them, whatever the records say, whatever calls fail and whether or not the
  application itself succeeds.
\<close>

theorem stored_proofs_verified:
  assumes "proofs_ok lib ch p"
  shows "proofs_ok lib ch (fst (ApplyStatusUpdate lib ch rec p)) \<and> proofs_ok lib ch (fst (ApplyStatusBatch lib ch recs p))"
  using assms kp_ApplyStatusUpdate [of lib ch rec] kp_ApplyStatusBatch [of lib ch recs] by (simp add: steps_in_def keeps_proofs_def)

definition w_lib :: sdk where
  "w_lib = \<lparr>NewHashFromHex = \<lambda>s. if s = ''0a'' then Some 10 else None, HashString = \<lambda>_. ''0a'',
     TxInputs = \<lambda>raw. if raw = [1] then Some [Some (Outpoint 7 0)] else None, Sum256 = \<lambda>_. [1], ErrorText = \<lambda>_. ''failed''\<rparr>"

definition w_chain :: chain where
  "w_chain = \<lparr>NewMerklePathFromBinary = \<lambda>b. Some \<lparr>mp_BlockHeight = 8, mp_Bytes = b, ComputeRoot = \<lambda>h. Some (h + 1)\<rparr>,
     HashBytes = \<lambda>h. [ucast h], hdrs = Some \<lparr>VerifyMerkleRoot = \<lambda>rtv height. Some (rtv = 11 \<and> height = 8), HeaderByHeight = \<lambda>_. None\<rparr>\<rparr>"

definition w_mined :: tx_record where
  "w_mined = \<lparr>rec_TxID = ''0a'', rec_Status = StatusMined, rec_StatusCode = 0, rec_BlockHash = '''', rec_BlockHeight = 8,
     rec_MerklePath = [4], rec_ExtraInfo = '''', rec_CompetingTxs = [], rec_RawTx = []\<rparr>"

definition w_state :: "req_status \<Rightarrow> tx_status \<Rightarrow> store \<Rightarrow> prov" where
  "w_state kst st s = \<lparr>p_db = \<lparr>db_known = [w_known kst], db_txs = [w_tx 1 ''tx'' st (Some [10])], db_labels = \<lparr>nt_rows = [], nt_edges = []\<rparr>,
       db_outputs = [], db_tags = \<lparr>nt_rows = [], nt_edges = []\<rparr>, db_outbox = []\<rparr>,
     p_utxo = s, p_clock = \<lambda>_. 5, p_ticks = 0, p_faults = \<lambda>n. None, p_calls = 0, p_modeA = True, p_posts = []\<rparr>"

lemma w_found: "FindByTxID (db_known (p_db (w_state kst st s))) ''0a'' = Inr (Some (knowntx_scan (w_known kst)))"
  by (simp add: w_state_def FindByTxID_def w_known_facts known_def [symmetric])

lemma w_scan: "kt_Status (knowntx_scan (w_known kst)) = kst" "kt_ArcadeStatus (knowntx_scan (w_known kst)) = None"
    "kt_RawTx (knowntx_scan (w_known kst)) = [1]"
  by (simp_all add: knowntx_scan_def w_known_def known_cols.defs known_tx.defs)

lemma w_applied: "ApplyStatusUpdate w_lib w_chain w_mined (w_state ProvenTxStatusUnconfirmed TxStatusUnproven s) =
    applyMined w_lib w_chain w_mined (w_state ProvenTxStatusUnconfirmed TxStatusUnproven s)"
proof -
  have f: "FindByTxID (db_known (p_db (w_state ProvenTxStatusUnconfirmed TxStatusUnproven s))) (rec_TxID w_mined) =
      Inr (Some (knowntx_scan (w_known ProvenTxStatusUnconfirmed)))"
    using w_found [of ProvenTxStatusUnconfirmed] by (simp add: w_mined_def)
  show ?thesis unfolding ApplyStatusUpdate_def Let_def f
    by (simp add: w_scan CanSupersede_def IsTerminalFailure_def isMinedRepairStatus_def minedRepairStatuses_def) (simp add: w_mined_def)
qed

lemma w_mined_run:
  "snd (applyMined w_lib w_chain w_mined (w_state ProvenTxStatusUnconfirmed TxStatusUnproven w_held)) = Inr ()"
  "map (\<lambda>r. (kt_Status r, kr_txid r, kt_MerkleRoot r)) (db_known (p_db (fst (applyMined w_lib w_chain w_mined
     (w_state ProvenTxStatusUnconfirmed TxStatusUnproven w_held))))) = [(ProvenTxStatusCompleted, [10], [11])]"
  by (simp_all add: applyMined_def w_mined_def w_chain_def w_lib_def commitMined_def DoUnit_def andThen_def setProof_def setArcadeStatus_def
      tolerate_def on_known_def on_txs_def w_state_def SetProof_def SetArcadeStatus_def with_txid_def w_known_facts required_update_def
      UpdateStatusByTxID_def applyStatusUpdate_def ClearInputBEEFByTxID_def update_where_def affected_def w_tx_def clear_beef_def of_opt_def
      promoteChangeByTxID_def changeOutpointsByTxID_def changeOutpointsByTxIDs_def FindChangeOutputsByTxIDs_def join_parent_def by_output_id_def
      promote_def removeSpentBy_def utxo_call_def RemoveSpentBy_def w_held_eq ret_def tick_p_def now_p_def Let_def resolveBlockHash_def)

theorem stored_proofs_verified_witness:
  "proofs_ok w_lib w_chain (fst (ApplyStatusUpdate w_lib w_chain w_mined (w_state ProvenTxStatusUnconfirmed TxStatusUnproven w_held))) \<and>
   map kt_MerkleRoot (db_known (p_db (fst (ApplyStatusUpdate w_lib w_chain w_mined
     (w_state ProvenTxStatusUnconfirmed TxStatusUnproven w_held))))) = [[11]]"
proof -
  have "proofs_ok w_lib w_chain (w_state ProvenTxStatusUnconfirmed TxStatusUnproven w_held)"
    by (simp add: proofs_ok_def row_proven_def w_state_def w_known_def)
  from conjunct1 [OF stored_proofs_verified [OF this]]
  have "proofs_ok w_lib w_chain (fst (ApplyStatusUpdate w_lib w_chain w_mined (w_state ProvenTxStatusUnconfirmed TxStatusUnproven w_held)))" .
  with w_mined_run(2) show ?thesis by (auto simp: w_applied map_eq_Cons_conv)
qed

section \<open>Coins along status writes\<close>

text \<open>A preorder that only looks at the coins.\<close>

locale coin_order = step_order +
  assumes other_coins: "p_utxo q = p_utxo p \<Longrightarrow> R p q"
begin

lemma in_meta: "(\<And>p. p_utxo (fst (m p)) = p_utxo p) \<Longrightarrow> steps_in R m"
  by (simp add: steps_in_def other_coins)

lemma in_writes: "steps_in R (on_known f)" "steps_in R (on_txs g)" "steps_in R (on_outputs h)" "steps_in R (on_outbox k)"
  by (rule in_meta, simp add: on_known_def on_txs_def on_outputs_def on_outbox_def tick_p_def Let_def case_prod_unfold)+

lemma in_tolerated: "steps_in R m \<Longrightarrow> steps_in R (tolerate es m)"
  unfolding steps_in_def tolerate_def by (auto simp: case_prod_unfold split: sum.splits)

lemma in_DoUnit: "steps_in R m \<Longrightarrow> steps_in R (DoUnit m)"
proof (unfold steps_in_def, intro allI)
  fix p assume m: "\<forall>p. R p (fst (m p))"
  obtain q r where r: "m p = (q, r)" by force
  with m have "R p q" by (metis fst_conv)
  then have "R p (q\<lparr>p_db := db, p_utxo := p_utxo q\<rparr>)" for db using trans other_coins by auto
  moreover have "R p (q\<lparr>p_db := db, p_utxo := p_utxo p\<rparr>)" for db by (rule other_coins) simp
  ultimately show "R p (fst (DoUnit m p))" using r \<open>R p q\<close> by (simp add: DoUnit_def split: sum.splits)
qed

lemma in_setProof: "steps_in R (setProof x h b m r)"
  unfolding setProof_def by (intro in_tolerated in_writes)

lemma in_markInputsSpentFromRaw: "steps_in R (markInputsSpentFromRaw lib t raw)"
proof -
  have "steps_in R (markInputsSpent lib uid n ins)" for uid n ins
    by (rule in_meta) (simp add: markInputsSpent_def Let_def on_outputs_def tick_p_def split: sum.splits)
  then show ?thesis unfolding markInputsSpentFromRaw_def by (auto intro!: in_ret split: option.splits)
qed

end

sublocale coin_order \<subseteq> write_order
  by unfold_locales (simp_all add: other_coins tick_p_def)

definition coin_path :: "(call \<Rightarrow> bool) \<Rightarrow> prov \<Rightarrow> prov \<Rightarrow> bool" where
  "coin_path P p q \<longleftrightarrow> path P (p_utxo p) (p_utxo q)"

interpretation cp: coin_order "coin_path P" for P
  by unfold_locales (auto simp: coin_path_def intro: path_trans)

lemma cp_call:
  assumes "\<And>s. \<exists>c. P c \<and> fst (f s) = exec_call c s" shows "steps_in (coin_path P) (utxo_call f)"
proof (unfold steps_in_def, intro allI)
  fix p :: prov
  obtain c where c: "P c" "fst (f (p_utxo p)) = exec_call c (p_utxo p)" using assms by blast
  then show "coin_path P p (fst (utxo_call f p))"
    by (simp add: coin_path_def utxo_call_def Let_def case_prod_unfold path_one split: option.splits fault.splits)
qed

lemma cp_batch:
  assumes "\<And>s. \<exists>c. P c \<and> fst (f s) = exec_call c s" shows "steps_in (coin_path P) (batch_call f)"
proof (unfold steps_in_def, intro allI)
  fix p :: prov
  obtain c where c: "P c" "fst (f (p_utxo p)) = exec_call c (p_utxo p)" using assms by blast
  then show "coin_path P p (fst (batch_call f p))"
    by (simp add: coin_path_def batch_call_def Let_def path_one split: option.splits fault.splits)
qed

section \<open>The repair\<close>

text \<open>A coin that no claim can hand out any more: absent, or recorded as spent.\<close>

definition consumed :: "store \<Rightarrow> outpoint \<Rightarrow> bool" where
  "consumed s op \<longleftrightarrow> (case coins s op of None \<Rightarrow> True | Some u \<Rightarrow> u_SpentBy u \<noteq> None)"

lemma spendLoop_consumed:
  assumes "list_all (\<lambda>e. case e of None \<Rightarrow> True | Some x \<Rightarrow> survivable x) (snd (spendLoop rs sps True))" "sp \<in> set sps"
  shows "case map_of (fst (spendLoop rs sps True)) (sp_Outpoint sp) of None \<Rightarrow> True | Some r \<Rightarrow> u_SpentBy (r_utxo r) \<noteq> None"
  using assms
proof (induction sps arbitrary: rs)
  case (Cons x sps)
  obtain rs1 e where 1: "spendOne rs x True = (rs1, e)" by force
  have loop: "fst (spendLoop rs (x # sps) True) = fst (spendLoop rs1 sps True)" "snd (spendLoop rs (x # sps) True) = e # snd (spendLoop rs1 sps True)"
    by (simp_all add: 1 case_prod_unfold Let_def)
  show ?case
  proof (cases "sp \<in> set sps")
    case True
    then show ?thesis using Cons unfolding loop by simp
  next
    case False
    then have sp: "sp = x" using Cons.prems(2) by simp
    have "case e of None \<Rightarrow> True | Some x \<Rightarrow> survivable x" using Cons.prems(1) unfolding loop by simp
    then have head: "case map_of rs1 (sp_Outpoint x) of None \<Rightarrow> True | Some r \<Rightarrow> u_SpentBy (r_utxo r) \<noteq> None"
      using 1 by (auto simp: spendOne_def set_spent_def split: option.splits if_splits)
    show ?thesis
    proof (cases "map_of rs1 (sp_Outpoint x)")
      case None
      then show ?thesis using spendLoop_coin [of rs1 sps True "sp_Outpoint x"] unfolding loop(1) sp by auto
    next
      case (Some r)
      then show ?thesis using head spendLoop_spent [of rs1 "sp_Outpoint x" r _ sps True] unfolding loop(1) sp by auto
    qed
  qed
qed simp

lemma factSpend_consumes:
  assumes run: "factSpendMinedInputs lib kt h res p = (p', Inr u)" and raw: "kt_RawTx kt \<noteq> []" "TxInputs lib (kt_RawTx kt) = Some ins"
    and op: "op \<in> set (sourceOps ins)"
  shows "consumed (p_utxo p') op"
proof -
  define sps where "sps = map (\<lambda>op. \<lparr>sp_Outpoint = op, sp_Reservation = res, sp_SpendingTxID = h\<rparr>) (sourceOps ins)"
  have ne: "sps \<noteq> []" using op by (auto simp: sps_def)
  have run': "andThen (batch_call (\<lambda>s. Spend s sps True))
      (\<lambda>(errs, serr). case spendVerdict errs serr of None \<Rightarrow> ret () | Some e \<Rightarrow> fail e) p = (p', Inr u)"
    using run raw ne by (simp add: factSpendMinedInputs_def sps_def Let_def)
  then obtain errs serr where b: "batch_call (\<lambda>s. Spend s sps True) p = (p', Inr (errs, serr))" and v: "spendVerdict errs serr = None"
    by (auto simp: andThen_Inr ret_def fail_def split: option.splits)
  have nofault: "p_faults p (p_calls p) = None"
    using b v by (auto simp: batch_call_def Let_def spendVerdict_def map_filter_simps split: option.splits fault.splits)
  with b have s: "Spend (p_utxo p) sps True = (p_utxo p', errs, serr)" by (auto simp: batch_call_def Let_def prod_eq_iff)
  have op': "\<not> s_closed (p_utxo p)"
    using s v by (auto simp: Spend_def spendVerdict_def is_batch_def map_filter_simps split: if_splits)
  have "p_utxo p' = (p_utxo p)\<lparr>s_rows := fst (spendLoop (s_rows (p_utxo p)) sps True)\<rparr>"
    and rest: "errs = snd (spendLoop (s_rows (p_utxo p)) sps True)" "serr = BatchCountErr (failures errs) (length sps)"
    using s op' by (auto simp: Spend_def Let_def case_prod_unfold)
  then have rows: "s_rows (p_utxo p') = fst (spendLoop (s_rows (p_utxo p)) sps True)" by simp
  have "list_all (\<lambda>e. case e of None \<Rightarrow> True | Some x \<Rightarrow> survivable x) errs"
  proof (cases "failures errs = 0")
    case True
    then show ?thesis by (auto simp: failures_def list_all_iff filter_empty_conv)
  next
    case False
    then have "find (\<lambda>x. \<not> survivable x) (List.map_filter (\<lambda>x. x) errs) = None"
      using v rest(2) by (auto simp: spendVerdict_def BatchCountErr_def Let_def split: option.splits)
    then show ?thesis by (auto simp: find_None_iff list_all_iff List.map_filter_def split: option.splits)
  qed
  moreover have "\<lparr>sp_Outpoint = op, sp_Reservation = res, sp_SpendingTxID = h\<rparr> \<in> set sps" using op by (simp add: sps_def)
  ultimately have "case map_of (s_rows (p_utxo p')) op of None \<Rightarrow> True | Some r \<Rightarrow> u_SpentBy (r_utxo r) \<noteq> None"
    using spendLoop_consumed [of "s_rows (p_utxo p)" sps "\<lparr>sp_Outpoint = op, sp_Reservation = res, sp_SpendingTxID = h\<rparr>"] rows rest(1) by simp
  then show ?thesis by (cases "map_of (s_rows (p_utxo p')) op") (simp_all add: consumed_def coins_def)
qed

text \<open>The calls that follow the spends in a repair never bring such a coin back.\<close>

fun settle_call :: "outpoint \<Rightarrow> call \<Rightarrow> bool" where
  "settle_call op (CallMint ms) \<longleftrightarrow> (\<forall>m \<in> set ms. m_Outpoint m \<noteq> op)"
| "settle_call op (CallPromote ops t) \<longleftrightarrow> True"
| "settle_call op (CallUnfreeze ops) \<longleftrightarrow> True"
| "settle_call op (CallRemoveSpentBy h) \<longleftrightarrow> True"
| "settle_call op _ \<longleftrightarrow> False"

lemma settle_consumed:
  assumes "settle_call op c" "store_inv s" "consumed s op" shows "consumed (exec_call c s) op"
proof (cases "coins s op")
  case None
  have "coins (exec_call c s) op = None"
  proof (rule ccontr)
    assume "coins (exec_call c s) op \<noteq> None"
    then obtain u where u: "coins (exec_call c s) op = Some u" by blast
    then have "coin_minted c u" using exec_call_coin [OF assms(2), of c op] None by (simp add: coin_move_def)
    moreover have "u_Outpoint u = op" using coin_outpoint [OF exec_call_inv [OF assms(2)] u] .
    ultimately show False using assms(1) by (cases c) (auto simp: minted_def)
  qed
  then show ?thesis by (simp add: consumed_def)
next
  case (Some u)
  then obtain w where w: "u_SpentBy u = Some w" using assms(3) by (auto simp: consumed_def)
  show ?thesis
  proof (cases "coins (exec_call c s) op")
    case (Some u')
    then have "coin_step c u u'" using exec_call_coin [OF assms(2), of c op] \<open>coins s op = Some u\<close> by (simp add: coin_move_def)
    moreover have "c \<noteq> CallUnspend w ops" for ops using assms(1) by (cases c) auto
    ultimately have "u_SpentBy u' = Some w" using coin_step_spent w by blast
    with Some show ?thesis by (simp add: consumed_def)
  qed (simp add: consumed_def)
qed

lemma settle_path:
  assumes "path (settle_call op) s s'" "store_inv s" "consumed s op" shows "consumed s' op"
  using path_induct [OF assms(1), of "\<lambda>s. store_inv s \<and> consumed s op"] assms(2,3) settle_consumed exec_call_inv by blast

lemma settle_calls:
  "steps_in (coin_path (settle_call op)) (utxo_call (\<lambda>s. Promote s ops t))"
  "steps_in (coin_path (settle_call op)) (utxo_call (\<lambda>s. plain_err (Unfreeze s ops)))"
  "steps_in (coin_path (settle_call op)) (removeSpentBy h)"
proof -
  show "steps_in (coin_path (settle_call op)) (utxo_call (\<lambda>s. Promote s ops t))"
    by (rule cp_call) (metis exec_call.simps settle_call.simps)
  show "steps_in (coin_path (settle_call op)) (utxo_call (\<lambda>s. plain_err (Unfreeze s ops)))"
    by (rule cp_call) (metis exec_call.simps settle_call.simps plain_err_fst)
  show "steps_in (coin_path (settle_call op)) (removeSpentBy h)" unfolding removeSpentBy_def
    by (intro cp.in_andThen cp.in_ret cp_call) (metis exec_call.simps settle_call.simps)
qed

lemma settle_unfreeze: "steps_in (coin_path (settle_call op)) (unfreezeReminted ops)"
  using settle_calls(2) [of op ops] unfolding steps_in_def unfreezeReminted_def
  by (auto simp: case_prod_unfold split: sum.splits perr.splits)

lemma settle_remint:
  assumes "NewHashFromHex lib x \<noteq> Some (op_TxID op)"
  shows "steps_in (coin_path (settle_call op)) (remintChangeByTxID lib x t)"
proof -
  have "steps_in (coin_path (settle_call op)) (andThen (batch_call (\<lambda>s. Mint s (remints h t rows))) (\<lambda>(errs, merr). case mintVerdict errs merr of
      Some e \<Rightarrow> fail e | None \<Rightarrow> andThen (utxo_call (\<lambda>s. Promote s ops t)) (\<lambda>_. unfreezeReminted ops)))"
    if "NewHashFromHex lib x = Some h" for h rows ops
  proof -
    have "settle_call op (CallMint (remints h t rows))"
      using assms that by (auto simp: remints_def List.map_filter_def split: option.splits if_splits)
    then have "steps_in (coin_path (settle_call op)) (batch_call (\<lambda>s. Mint s (remints h t rows)))"
      by (intro cp_batch) (metis exec_call.simps)
    then show ?thesis by (intro cp.in_andThen) (auto intro!: cp.in_fail cp.in_andThen settle_calls settle_unfreeze split: option.splits)
  qed
  then show ?thesis unfolding steps_in_def remintChangeByTxID_def Let_def
    by (auto simp: cp.refl split: sum.splits option.splits)
qed

definition same_known :: "prov \<Rightarrow> prov \<Rightarrow> bool" where
  "same_known p q \<longleftrightarrow> db_known (p_db q) = db_known (p_db p)"

interpretation sk: known_order same_known
  by unfold_locales (simp_all add: same_known_def)

lemma setProof_completes:
  assumes "setProof x height bh mpb rtv p = (p', Inr u)" "encTxID x = Inr raw" "known (db_known (p_db p)) raw \<noteq> None"
  shows "\<exists>r. known (db_known (p_db p')) raw = Some r \<and> kt_Status r = ProvenTxStatusCompleted"
proof -
  have "db_known (p_db p') = fst (SetProof (now_p p) (db_known (p_db p)) x (unat height) bh mpb rtv)"
    using assms(1) by (auto simp: setProof_def tolerate_def on_known_def tick_p_def Let_def case_prod_unfold split: sum.splits if_splits)
  moreover obtain r where "known (db_known (p_db p)) raw = Some r" "kr_txid r = raw" using assms(3) known_Some_txid by blast
  ultimately show ?thesis by (simp add: SetProof_def with_txid_raw [OF assms(2)] required_update_rows known_update_where)
qed

lemma recordArcadeStatus_frame:
  "p_utxo (fst (recordArcadeStatus x st p)) = p_utxo p \<and>
   (known (db_known (p_db (fst (recordArcadeStatus x st p)))) raw = None \<longleftrightarrow> known (db_known (p_db p)) raw = None)"
proof -
  have *: "p_utxo (fst (tolerate es (on_known f) p)) = p_utxo p \<and>
      db_known (p_db (fst (tolerate es (on_known f) p))) = fst (f (now_p p) (db_known (p_db p)))" for es f
    by (auto simp: tolerate_def on_known_def tick_p_def Let_def case_prod_unfold split: sum.splits)
  show ?thesis unfolding recordArcadeStatus_def setArcadeStatus_def using *
    by (cases "encTxID x") (simp_all add: SetArcadeStatus_def with_txid_def required_update_rows known_update_where)
qed

lemma factSpend_path: "steps_in (coin_path (\<lambda>_. True)) (factSpendMinedInputs lib kt h res)"
proof -
  have "steps_in (coin_path (\<lambda>_. True)) (batch_call (\<lambda>s. Spend s sps True))" for sps
    by (rule cp_batch) (metis exec_call.simps)
  then show ?thesis unfolding factSpendMinedInputs_def Let_def
    by (auto intro!: cp.in_ret cp.in_fail cp.in_andThen split: option.splits)
qed

lemma removeSpentBy_gone:
  assumes "removeSpentBy h p = (p', Inr u)" "coins (p_utxo p') op = Some c" shows "u_SpentBy c \<noteq> Some h"
proof -
  obtain n where "utxo_call (\<lambda>s. RemoveSpentBy s h) p = (p', Inr n)" using assms(1) by (auto simp: removeSpentBy_def andThen_Inr ret_def)
  then have "RemoveSpentBy (p_utxo p) h = (p_utxo p', Inr n)"
    by (auto simp: utxo_call_def Let_def case_prod_unfold prod_eq_iff split: option.splits fault.splits sum.splits)
  then have "p_utxo p' = (p_utxo p)\<lparr>s_rows := del_if (\<lambda>r. u_SpentBy (r_utxo r) = Some h) (s_rows (p_utxo p))\<rparr>"
    by (auto simp: RemoveSpentBy_def Let_def split: if_splits)
  then have "s_rows (p_utxo p') = del_if (\<lambda>r. u_SpentBy (r_utxo r) = Some h) (s_rows (p_utxo p))" by simp
  with assms(2) show ?thesis by (auto simp: coins_def del_if_def dest!: map_of_SomeD)
qed

text \<open>
  C17: The repair of a written-off transaction takes its coins back.  Suppose the wallet had aborted or failed a
  transaction and a proof for it verifies, so that \<open>applyMinedRepair\<close> reports the repair as applied.  Then
  every input of the retained raw transaction is out of circulation: the coin is gone from the store, or it is
  recorded as spent by a competitor; and the known transaction is completed.  Only an input that names the
  transaction itself, which no transaction can have, is excluded.
\<close>

theorem mined_repair_takes_coins:
  assumes "applyMinedRepair lib ch rec kt p = (p', Inr True)" "store_inv (p_utxo p)"
    and "encTxID (kt_TxID kt) = Inr raw" "known (db_known (p_db p)) raw \<noteq> None"
    and "kt_RawTx kt \<noteq> []" "TxInputs lib (kt_RawTx kt) = Some ins" "NewHashFromHex lib (rec_TxID rec) = Some h"
    and "list_all (\<lambda>op. NewHashFromHex lib (kt_TxID kt) \<noteq> Some (op_TxID op)) (sourceOps ins)"
  shows "list_all (\<lambda>op. case coins (p_utxo p') op of None \<Rightarrow> True | Some u \<Rightarrow> u_SpentBy u \<noteq> None \<and> u_SpentBy u \<noteq> Some h) (sourceOps ins) \<and>
    (\<exists>r. known (db_known (p_db p')) raw = Some r \<and> kt_Status r = ProvenTxStatusCompleted)"
proof -
  obtain p0 pr where 0: "recordArcadeStatus (rec_TxID rec) (rec_Status rec) p = (p0, Inr ())" and pr: "verifyMinedOne lib ch rec = Some pr"
    and c: "commitMinedRepair lib kt pr p0 = (p', Inr ())"
    using assms(1) by (auto simp: applyMinedRepair_def andThen_Inr ret_def fail_def split: option.splits)
  have h: "pf_txidHash pr = h" using verifyMinedOne_checked [OF pr] assms(7) by simp
  have p0: "p_utxo p0 = p_utxo p" "known (db_known (p_db p0)) raw \<noteq> None"
    using recordArcadeStatus_frame [of "rec_TxID rec" "rec_Status rec" p raw] 0 assms(4) by simp_all
  obtain p1 p2 p3 p4 p5 p6 row u1 upd clr where 1: "factSpendMinedInputs lib kt h (repairReservation row (kt_TxID kt)) p0 = (p1, Inr u1)"
      and 2: "(case row of None \<Rightarrow> ret () | Some t \<Rightarrow> markInputsSpentFromRaw lib t (kt_RawTx kt)) p1 = (p2, Inr ())"
      and 3: "setProof (kt_TxID kt) (pf_height pr) (pf_blockHash pr) (pf_mpBytes pr) (pf_root pr) p2 = (p3, Inr ())"
      and 4: "tolerate [ErrStatusUpdateSkipped] (on_txs upd) p3 = (p4, Inr ())" and 5: "on_txs clr p4 = (p5, Inr ())"
      and 6: "remintChangeByTxID lib (kt_TxID kt) TierMined p5 = (p6, Inr ())" and 7: "removeSpentBy h p6 = (p', Inr ())"
    using c by (auto simp: commitMinedRepair_def Let_def DoUnit_def andThen_Inr h split: prod.splits sum.splits)
  have inv1: "store_inv (p_utxo p1)"
    using path_inv steps_inD [OF factSpend_path 1] assms(2) p0(1) unfolding coin_path_def by simp
  have "case coins (p_utxo p') op of None \<Rightarrow> True | Some u \<Rightarrow> u_SpentBy u \<noteq> None \<and> u_SpentBy u \<noteq> Some h" if op: "op \<in> set (sourceOps ins)" for op
  proof -
    have ne: "NewHashFromHex lib (kt_TxID kt) \<noteq> Some (op_TxID op)" using assms(8) op by (simp add: list_all_iff)
    have "steps_in (coin_path (settle_call op)) (case row of None \<Rightarrow> ret () | Some t \<Rightarrow> markInputsSpentFromRaw lib t (kt_RawTx kt))"
      by (auto intro!: cp.in_ret cp.in_markInputsSpentFromRaw split: option.splits)
    from steps_inD [OF this 2] steps_inD [OF cp.in_setProof 3] steps_inD [OF cp.in_tolerated [OF cp.in_writes(2)] 4]
      steps_inD [OF cp.in_writes(2) 5] steps_inD [OF settle_remint [OF ne] 6] steps_inD [OF settle_calls(3) 7]
    have "coin_path (settle_call op) p1 p'" using cp.trans by meson
    then have "consumed (p_utxo p') op"
      using settle_path [of op "p_utxo p1" "p_utxo p'"] inv1 factSpend_consumes [OF 1 assms(5,6) op] by (simp add: coin_path_def)
    then show ?thesis using removeSpentBy_gone [OF 7, of op] by (auto simp: consumed_def split: option.splits)
  qed
  moreover have "\<exists>r. known (db_known (p_db p')) raw = Some r \<and> kt_Status r = ProvenTxStatusCompleted"
  proof -
    have "steps_in same_known (case row of None \<Rightarrow> ret () | Some t \<Rightarrow> markInputsSpentFromRaw lib t (kt_RawTx kt))"
      by (auto intro!: sk.in_ret sk.in_markInputsSpentFromRaw split: option.splits)
    from steps_inD [OF sk.in_factSpend 1] steps_inD [OF this 2] have "db_known (p_db p2) = db_known (p_db p0)" by (simp add: same_known_def)
    then have "\<exists>r. known (db_known (p_db p3)) raw = Some r \<and> kt_Status r = ProvenTxStatusCompleted"
      using setProof_completes [OF 3 assms(3)] p0(2) by simp
    moreover from steps_inD [OF sk.in_tolerate [OF sk.in_quiet(1)] 4] steps_inD [OF sk.in_quiet(1) 5] steps_inD [OF sk.in_remint 6]
      steps_inD [OF sk.in_removeSpentBy 7] have "db_known (p_db p') = db_known (p_db p3)" by (simp add: same_known_def)
    ultimately show ?thesis by simp
  qed
  ultimately show ?thesis by (simp add: list_all_iff)
qed

lemma w_txid: "kt_TxID (knowntx_scan (w_known kst)) = ''0a''"
proof -
  have "hexEncode [10 :: u8] = ''0a''" by code_simp
  then show ?thesis by (simp add: knowntx_scan_def w_known_def known_cols.defs known_tx.defs decTxIDPtr_def del: hexEncode.simps)
qed

theorem mined_repair_takes_coins_witness:
  "coins w_store (Outpoint 7 0) = Some w_coin \<and>
   (\<exists>p'. applyMinedRepair w_lib w_chain w_mined (knowntx_scan (w_known KnownTxStatusAborted))
        (w_state KnownTxStatusAborted TxStatusAborted w_store) = (p', Inr True) \<and>
      (case coins (p_utxo p') (Outpoint 7 0) of None \<Rightarrow> True | Some u \<Rightarrow> u_SpentBy u \<noteq> None))"
proof -
  let ?p = "w_state KnownTxStatusAborted TxStatusAborted w_store" and ?kt = "knowntx_scan (w_known KnownTxStatusAborted)"
  obtain p' r where run: "applyMinedRepair w_lib w_chain w_mined ?kt ?p = (p', r)" by force
  have "snd (applyMinedRepair w_lib w_chain w_mined ?kt ?p) = Inr True"
    by (simp add: applyMinedRepair_def verifyMinedOne_def w_mined_def w_chain_def w_lib_def recordArcadeStatus_def setArcadeStatus_def DoUnit_def
      andThen_def setProof_def tolerate_def on_known_def on_txs_def w_state_def SetProof_def SetArcadeStatus_def with_txid_def w_known_facts
      required_update_def UpdateStatusByTxID_def applyStatusUpdate_def ClearInputBEEFByTxID_def update_where_def affected_def of_opt_def
      commitMinedRepair_def w_txid w_scan factSpendMinedInputs_def batch_call_def repairTxRow_def FindByTxIDAllUsers_def newest_tx_first_def
      w_tx_def tx_scan_def tx_cols.defs table_transaction.defs repairReservation_def sourceOps_def map_filter_simps Spend_def spendOne_def
      ValidateSpend_def ValidateReservation_def w_store_eq w_coin_def BatchCountErr_def failures_def spendVerdict_def markInputsSpentFromRaw_def
      markInputsSpent_def localOutputsByOutpoint_def FindOutputsByOutpoints_def chunkLoop.simps outpointChunk_def outpointPage_def join_parent_def
      by_output_id_def remintChangeByTxID_def FindOutputs_def removeSpentBy_def utxo_call_def RemoveSpentBy_def ret_def tick_p_def now_p_def Let_def
      minedRepairTxStatuses_def)
  with run have run': "applyMinedRepair w_lib w_chain w_mined ?kt ?p = (p', Inr True)" by simp
  have "list_all (\<lambda>op. case coins (p_utxo p') op of None \<Rightarrow> True | Some u \<Rightarrow> u_SpentBy u \<noteq> None \<and> u_SpentBy u \<noteq> Some 10)
      (sourceOps [Some (Outpoint 7 0)]) \<and> (\<exists>r. known (db_known (p_db p')) [10] = Some r \<and> kt_Status r = ProvenTxStatusCompleted)"
    by (rule mined_repair_takes_coins [OF run'])
      (simp_all add: w_state_def w_txid w_scan w_known_facts w_lib_def w_mined_def sourceOps_def map_filter_simps reachable_inv [OF w_reachable(1)])
  then have "case coins (p_utxo p') (Outpoint 7 0) of None \<Rightarrow> True | Some u \<Rightarrow> u_SpentBy u \<noteq> None"
    by (auto simp: sourceOps_def map_filter_simps split: option.splits)
  with run' w_coins(1) show ?thesis by blast
qed


section \<open>The fence and rejections\<close>

text \<open>
  C18: A rejection lifts the fence.  An aborted or stuck transaction is fenced: a SEEN record must not advance
  it, and a stuck one is kept for an operator.  A REJECTED or DOUBLE_SPEND_ATTEMPTED record that may
  supersede its arcade status nevertheless moves it to suspectFailed, with the rejection clock restarted; from there a
  SEEN record is no longer refused and the reconciler releases its inputs on its own.
\<close>

theorem rejection_lifts_fence:
  assumes "rec_TxID rec = txid" "txid \<noteq> ''''" "encTxID txid = Inr raw" "known (db_known (p_db p)) raw = Some r"
    and "kt_Status r \<in> {KnownTxStatusAborted, KnownTxStatusStuck}"
    and "rec_Status rec \<in> {StatusRejected, StatusDoubleSpendAttempted}"
    and "CanSupersede (rec_Status rec) (case kt_ArcadeStatus r of Some a \<Rightarrow> a | None \<Rightarrow> no_status)"
  shows "\<exists>p' r'. ApplyStatusUpdate lib ch rec p = (p', Inr ()) \<and> known (db_known (p_db p')) raw = Some r' \<and>
    isSeenFenced (kt_Status r) \<and> \<not> isSeenFenced (kt_Status r') \<and> kt_Status r' = KnownTxStatusSuspectFailed \<and>
    kt_SuspectSince r' = Some (encTime (now_p p)) \<and> kt_VerifiedRejectedAt r' = None"
proof -
  have scan: "FindByTxID (db_known (p_db p)) txid = Inr (Some (knowntx_scan r))"
    using assms(3,4) by (simp add: FindByTxID_def known_def)
  have fields: "kt_Status (knowntx_scan r) = kt_Status r" "kt_ArcadeStatus (knowntx_scan r) = kt_ArcadeStatus r"
    by (simp_all add: knowntx_scan_def known_cols.defs known_tx.defs)
  have route: "ApplyStatusUpdate lib ch rec p = markSuspect rec p"
    using assms(1,2,5-7) by (auto simp: ApplyStatusUpdate_def Let_def scan fields isMinedClass_def IsTerminalFailure_def applyRejected_def)
  define upd where "upd = (\<lambda>x :: known_row. x\<lparr>kt_Status := KnownTxStatusSuspectFailed, kt_ArcadeStatus := Some (rec_Status rec),
    kt_CompetingTxs := rec_CompetingTxs rec, kt_SuspectSince := Some (encTime (now_p p)), kt_VerifiedRejectedAt := None,
    kt_RejectReason := keep_reason (rec_ExtraInfo rec) (kt_RejectReason x), kt_UpdatedAt := encTime (now_p (tick_p p))\<rparr>)"
  have "0 < affected (\<lambda>x. kr_txid x = raw) (db_known (p_db p))"
    using assms(4) by (auto simp: known_def affected_def find_Some_iff filter_empty_conv)
  then have "MarkSuspect (now_p (tick_p p)) (db_known (p_db p)) txid (now_p p) (rec_CompetingTxs rec) (rec_Status rec) (rec_ExtraInfo rec) =
      (update_where (\<lambda>x. kr_txid x = raw) upd (db_known (p_db p)), None)"
    by (simp add: MarkSuspect_def with_txid_raw [OF assms(3)] required_update_def upd_def Let_def)
  then have "markSuspect rec p = ((tick_p (tick_p p))\<lparr>p_db := (p_db p)\<lparr>db_known := update_where (\<lambda>x. kr_txid x = raw) upd (db_known (p_db p))\<rparr>\<rparr>, Inr ())"
    by (simp add: markSuspect_def tolerate_def on_known_def assms(1) of_opt_def tick_p_def)
  moreover have "known (update_where (\<lambda>x. kr_txid x = raw) upd (db_known (p_db p))) raw = Some (upd r)"
    using assms(4) known_Some_txid [OF assms(4)] by (subst known_update_where) (simp_all add: upd_def)
  ultimately show ?thesis using assms(5) unfolding route by (auto simp: upd_def isSeenFenced_def seenFencedStatuses_def)
qed

definition w_rejected :: tx_record where
  "w_rejected = w_mined\<lparr>rec_Status := StatusRejected, rec_MerklePath := []\<rparr>"

theorem rejection_lifts_fence_witness:
  "\<exists>p' r'. ApplyStatusUpdate w_lib w_chain w_rejected (w_state KnownTxStatusStuck TxStatusFailed w_store) = (p', Inr ()) \<and>
     known (db_known (p_db p')) [10] = Some r' \<and> kt_Status r' = KnownTxStatusSuspectFailed"
proof -
  let ?p = "w_state KnownTxStatusStuck TxStatusFailed w_store"
  have "known (db_known (p_db ?p)) [10] = Some (w_known KnownTxStatusStuck)" by (simp add: w_state_def w_known_facts)
  from rejection_lifts_fence [OF _ _ w_known_facts(1) this, of w_rejected w_lib w_chain] show ?thesis
    by (auto simp: w_rejected_def w_mined_def w_known_facts CanSupersede_def w_known_def)
qed

section \<open>The batch and the sequence\<close>

definition w_bare :: tx_record where
  "w_bare = w_mined\<lparr>rec_MerklePath := []\<rparr>"

text \<open>
  C19: A batch is not always the sequence of its records.  Two MINED records of one transaction, the first with
  its merkle path and the second without: applied one after the other they complete the transaction, while the
  batch keeps the last record only and leaves the transaction unproven.
\<close>

theorem batch_drops_proof:
  "map kt_Status (db_known (p_db (fst (applyAll w_lib w_chain [w_mined, w_bare]
      (w_state ProvenTxStatusUnconfirmed TxStatusUnproven w_held))))) = [ProvenTxStatusCompleted] \<and>
   ApplyStatusBatch w_lib w_chain [w_mined, w_bare] (w_state ProvenTxStatusUnconfirmed TxStatusUnproven w_held) =
     (w_state ProvenTxStatusUnconfirmed TxStatusUnproven w_held, Inr ())"
proof
  let ?p = "w_state ProvenTxStatusUnconfirmed TxStatusUnproven w_held"
  obtain p1 r1 where 1: "ApplyStatusUpdate w_lib w_chain w_mined ?p = (p1, r1)" by force
  have r1: "r1 = Inr ()" "map (\<lambda>r. (kt_Status r, kr_txid r, kt_MerkleRoot r)) (db_known (p_db p1)) = [(ProvenTxStatusCompleted, [10], [11])]"
    using 1 w_mined_run by (simp_all add: w_applied)
  then obtain r where r: "db_known (p_db p1) = [r]" "kt_Status r = ProvenTxStatusCompleted" "kr_txid r = [10]" by auto
  have "ApplyStatusUpdate w_lib w_chain w_bare p1 = (p1, Inr ())"
    using r by (simp add: ApplyStatusUpdate_def w_bare_def w_mined_def FindByTxID_def w_known_facts knowntx_scan_def known_cols.defs known_tx.defs
      isMinedRepairStatus_def minedRepairStatuses_def Let_def)
  then show "map kt_Status (db_known (p_db (fst (applyAll w_lib w_chain [w_mined, w_bare] ?p)))) = [ProvenTxStatusCompleted]"
    using r1 r by (simp add: andThen_def 1)
  have k: "knownMap [knowntx_scan (w_known ProvenTxStatusUnconfirmed)] ''0a'' = Some (knowntx_scan (w_known ProvenTxStatusUnconfirmed))"
    by (simp add: knownMap_def w_txid)
  have v: "verifyMinedOne w_lib w_chain w_bare = None" by (simp add: verifyMinedOne_def w_bare_def)
  have c: "classifyOne (knowntx_scan (w_known ProvenTxStatusUnconfirmed)) [w_mined, w_bare] empty_plan = empty_plan\<lparr>bp_mined := [w_bare]\<rparr>"
    by (simp add: classifyOne_def Let_def w_scan minedRepairBatchRoute_def isMinedRepairStatus_def minedRepairStatuses_def IsTerminalFailure_def
      multipleDistinctStatuses_def w_bare_def w_mined_def CanSupersede_def empty_plan_def)
  have f: "FindByTxIDs (db_known (p_db ?p)) [''0a''] = Inr [knowntx_scan (w_known ProvenTxStatusUnconfirmed)]"
    by (simp add: FindByTxIDs_def w_state_def w_known_facts)
  have o: "batchOrder [w_mined, w_bare] [] = [''0a'']" by (simp add: w_bare_def w_mined_def)
  have t: "perTxid [w_mined, w_bare] ''0a'' = [w_mined, w_bare]" by (simp add: perTxid_def w_bare_def w_mined_def)
  show "ApplyStatusBatch w_lib w_chain [w_mined, w_bare] ?p = (?p, Inr ())"
    unfolding ApplyStatusBatch_def Let_def o
    by (simp add: f k t c v verifyMinedBatch_def map_filter_simps) (simp add: batchWrites_def empty_plan_def andThen_def ret_def)
qed

end
