(* ===== verification/Process_Props.thy ===== *)
theory Process_Props
  imports Process Status_Props
begin

text \<open>
  What processing a signed transaction guarantees: an accepted broadcast records the spend of its inputs, a failed
  commit can be driven again, and signed bytes are only ever stored over a pinned reservation.
\<close>

section \<open>The spend of an accepted broadcast\<close>

definition spends :: "hash \<Rightarrow> string \<Rightarrow> signed_tx \<Rightarrow> spend_op list" where
  "spends h reference tx = map (\<lambda>op. \<lparr>sp_Outpoint = op, sp_Reservation = reference, sp_SpendingTxID = h\<rparr>) (sourceOps (tx_inputs tx))"

definition item_ok :: "item_error option \<Rightarrow> bool" where
  "item_ok e \<longleftrightarrow> (case e of None \<Rightarrow> True | Some x \<Rightarrow> external x)"

text \<open>A coin the spend has settled: absent, or recorded as spent by the given transaction.\<close>

definition settled :: "(outpoint \<times> row) list \<Rightarrow> spend_op \<Rightarrow> bool" where
  "settled rs sp \<longleftrightarrow> (case map_of rs (sp_Outpoint sp) of None \<Rightarrow> True | Some r \<Rightarrow> u_SpentBy (r_utxo r) = Some (sp_SpendingTxID sp))"

lemma spendLoop_Cons:
  "fst (spendLoop rs (sp # sps) f) = fst (spendLoop (fst (spendOne rs sp f)) sps f)"
  "snd (spendLoop rs (sp # sps) f) = snd (spendOne rs sp f) # snd (spendLoop (fst (spendOne rs sp f)) sps f)"
  by (simp_all add: case_prod_unfold Let_def)

lemma settled_kept: "settled rs sp \<Longrightarrow> settled (fst (spendLoop rs sps True)) sp"
proof (cases "map_of rs (sp_Outpoint sp)")
  case None
  then show ?thesis using spendLoop_coin [of rs sps True "sp_Outpoint sp"] by (auto simp: settled_def)
next
  case (Some r)
  then show "settled rs sp \<Longrightarrow> ?thesis" using spendLoop_spent [of rs "sp_Outpoint sp" r _ sps True] by (auto simp: settled_def)
qed

lemma spendOne_settles:
  "item_ok (snd (spendOne rs sp True)) \<Longrightarrow> ValidateSpend sp = None \<and> settled (fst (spendOne rs sp True)) sp"
  by (auto simp: spendOne_def item_ok_def settled_def set_spent_def split: option.splits if_splits)

lemma spendLoop_settles:
  "list_all item_ok (snd (spendLoop rs sps True)) \<Longrightarrow> list_all (\<lambda>sp. ValidateSpend sp = None \<and> settled (fst (spendLoop rs sps True)) sp) sps"
proof (induction sps arbitrary: rs)
  case (Cons sp sps)
  then show ?case using spendOne_settles [of rs sp] settled_kept unfolding spendLoop_Cons by simp
qed simp

text \<open>A second run over settled coins finds nothing left to do.\<close>

lemma spendLoop_again:
  "list_all (\<lambda>sp. ValidateSpend sp = None \<and> settled rs sp) sps \<Longrightarrow> fst (spendLoop rs sps True) = rs \<and> list_all item_ok (snd (spendLoop rs sps True))"
proof (induction sps)
  case (Cons sp sps)
  then have "ValidateSpend sp = None" "settled rs sp" by simp_all
  then have "fst (spendOne rs sp True) = rs" "item_ok (snd (spendOne rs sp True))"
    by (auto simp: spendOne_def item_ok_def settled_def split: option.split)
  with Cons show ?case unfolding spendLoop_Cons by simp
qed simp

definition after_spends :: "hash \<Rightarrow> string \<Rightarrow> signed_tx \<Rightarrow> store \<Rightarrow> store" where
  "after_spends h reference tx s = (if sourceOps (tx_inputs tx) = [] then s else fst (Spend s (spends h reference tx) True))"

definition spendable :: "hash \<Rightarrow> string \<Rightarrow> signed_tx \<Rightarrow> store \<Rightarrow> bool" where
  "spendable h reference tx s \<longleftrightarrow> reference \<noteq> '''' \<and> (sourceOps (tx_inputs tx) = [] \<or>
     \<not> s_closed s \<and> list_all item_ok (snd (spendLoop (s_rows s) (spends h reference tx) True)))"

lemma acceptedVerdict_Spend:
  "acceptedVerdict (fst (snd (Spend s sps True))) (snd (snd (Spend s sps True))) = None \<longleftrightarrow>
     \<not> s_closed s \<and> list_all item_ok (snd (spendLoop (s_rows s) sps True))"
proof (cases "s_closed s")
  case True
  then show ?thesis by (simp add: Spend_def acceptedVerdict_def is_batch_def map_filter_simps)
next
  case False
  define errs where "errs = snd (spendLoop (s_rows s) sps True)"
  have fail: "failures errs = 0 \<longleftrightarrow> List.map_filter (\<lambda>x. x) errs = []"
    by (induction errs) (auto simp: failures_def map_filter_simps split: option.split)
  have "find (\<lambda>x. \<not> external x) (List.map_filter (\<lambda>x. x) errs) = None \<longleftrightarrow> list_all item_ok errs"
    by (induction errs) (auto simp: map_filter_simps item_ok_def split: option.splits)
  moreover have "List.map_filter (\<lambda>x. x) errs = [] \<Longrightarrow> list_all item_ok errs"
    by (induction errs) (auto simp: map_filter_simps item_ok_def split: option.splits)
  ultimately show ?thesis using False fail
    by (auto simp: Spend_def Let_def case_prod_unfold acceptedVerdict_def BatchCountErr_def is_batch_def errs_def [symmetric] split: option.split)
qed

lemma after_spends_again:
  assumes "spendable h ref tx s"
  shows "spendable h ref tx (after_spends h ref tx s) \<and> after_spends h ref tx (after_spends h ref tx s) = after_spends h ref tx s"
proof (cases "sourceOps (tx_inputs tx) = []")
  case False
  define rs where "rs = fst (spendLoop (s_rows s) (spends h ref tx) True)"
  have s: "\<not> s_closed s" "list_all item_ok (snd (spendLoop (s_rows s) (spends h ref tx) True))" "ref \<noteq> ''''"
    using assms False by (auto simp: spendable_def)
  then have "fst (spendLoop rs (spends h ref tx) True) = rs \<and> list_all item_ok (snd (spendLoop rs (spends h ref tx) True))"
    using spendLoop_again spendLoop_settles unfolding rs_def by blast
  moreover have "after_spends h ref tx s = s\<lparr>s_rows := rs\<rparr>"
    using False s(1) by (simp add: after_spends_def Spend_def case_prod_unfold Let_def rs_def)
  ultimately show ?thesis using False s by (simp add: spendable_def after_spends_def Spend_def case_prod_unfold Let_def)
qed (use assms in \<open>simp add: spendable_def after_spends_def\<close>)

lemma spendReserved_cases:
  assumes "NewHashFromHex lib x = Some h" "spendReservedInputs lib tx x ref p = (q, r)"
  shows "p_db q = p_db p" "p_utxo q = p_utxo p \<or> p_utxo q = after_spends h ref tx (p_utxo p)" "p_modeA q = p_modeA p"
    and "r = Inr u \<Longrightarrow> spendable h ref tx (p_utxo p) \<and> p_utxo q = after_spends h ref tx (p_utxo p)"
    and "p_faults p (p_calls p) = None \<Longrightarrow> spendable h ref tx (p_utxo p) \<Longrightarrow> r = Inr ()"
proof -
  define ops where "ops = spends h ref tx"
  have none: "sourceOps (tx_inputs tx) = [] \<longleftrightarrow> ops = []" by (simp add: ops_def spends_def)
  have run: "spendReservedInputs lib tx x ref p = (if ref = '''' then fail (BadRequest ''no reference'') else if ops = [] then ret ()
      else andThen (batch_call (\<lambda>s. Spend s ops True)) (\<lambda>(errs, serr). case acceptedVerdict errs serr of None \<Rightarrow> ret () | Some e \<Rightarrow> fail e)) p"
    by (simp add: spendReservedInputs_def assms(1) ops_def spends_def Let_def)
  note defs = batch_call_def Let_def andThen_def ret_def fail_def case_prod_unfold
  show "p_db q = p_db p" "p_utxo q = p_utxo p \<or> p_utxo q = after_spends h ref tx (p_utxo p)" "p_modeA q = p_modeA p"
    using assms(2) unfolding run after_spends_def none
    by (auto simp: defs ops_def [symmetric] split: if_splits option.splits fault.splits)
  have bad: "acceptedVerdict [] (Some e) = Some (StoreErr e)" for e by (simp add: acceptedVerdict_def map_filter_simps)
  show "spendable h ref tx (p_utxo p) \<and> p_utxo q = after_spends h ref tx (p_utxo p)" if "r = Inr u"
    using assms(2) acceptedVerdict_Spend [of "p_utxo p" ops] unfolding run that after_spends_def spendable_def none ops_def [symmetric]
    by (auto simp: defs bad split: if_splits option.splits fault.splits)
  show "r = Inr ()" if "p_faults p (p_calls p) = None" "spendable h ref tx (p_utxo p)"
    using assms(2) that acceptedVerdict_Spend [of "p_utxo p" ops] unfolding run spendable_def none ops_def [symmetric]
    by (auto simp: defs split: if_splits option.splits)
qed

section \<open>The metadata of an accepted broadcast\<close>

text \<open>Whether the input outpoints can be looked up does not depend on the tables.\<close>

definition inputs_readable :: "sdk \<Rightarrow> outpoint option list \<Rightarrow> bool" where
  "inputs_readable lib ins \<longleftrightarrow>
     (\<forall>txs outs uid. \<exists>rows. FindOutputsByOutpoints txs outs uid (map (\<lambda>op. (HashString lib (op_TxID op), op_Vout op)) (sourceOps ins)) = Inr rows)"

lemma chunkLoop_reads: "chunkLoop txs outs u ops = Inr rows \<Longrightarrow> \<exists>rows'. chunkLoop txs' outs' u' ops = Inr rows'"
proof (induction txs outs u ops arbitrary: rows rule: chunkLoop.induct)
  case (1 txs outs u ops)
  show ?case
  proof (cases "ops = []")
    case False
    then obtain raws rest where raws: "encAll (map fst (take outpointChunk ops)) = Inr raws" "chunkLoop txs outs u (drop outpointChunk ops) = Inr rest"
      using 1(2) by (subst (asm) chunkLoop.simps) (auto split: sum.splits)
    from 1(1) [OF False this] obtain rows' where "chunkLoop txs' outs' u' (drop outpointChunk ops) = Inr rows'" by blast
    with False raws(1) show ?thesis by (subst chunkLoop.simps) simp
  qed (subst chunkLoop.simps, simp)
qed

lemma markInputsSpent_reads:
  "markInputsSpent lib uid n ins p = (q, Inr u) \<Longrightarrow> inputs_readable lib ins"
  "inputs_readable lib ins \<Longrightarrow> \<exists>q. markInputsSpent lib uid n ins p = (q, Inr ())"
proof -
  let ?ops = "map (\<lambda>op. (HashString lib (op_TxID op), op_Vout op)) (sourceOps ins)"
  have nil: "\<exists>rows. FindOutputsByOutpoints txs outs uid [] = Inr rows" for txs outs uid
    unfolding FindOutputsByOutpoints_def by (subst chunkLoop.simps) simp
  show "inputs_readable lib ins" if run: "markInputsSpent lib uid n ins p = (q, Inr u)"
  proof (cases "?ops = []")
    case False
    then obtain rows where "FindOutputsByOutpoints (db_txs (p_db p)) (db_outputs (p_db p)) uid ?ops = Inr rows"
      using run by (cases "FindOutputsByOutpoints (db_txs (p_db p)) (db_outputs (p_db p)) uid ?ops")
        (simp_all add: markInputsSpent_def localOutputsByOutpoint_def Let_def)
    then show ?thesis unfolding inputs_readable_def FindOutputsByOutpoints_def using chunkLoop_reads by blast
  qed (auto simp: inputs_readable_def nil)
  show "\<exists>q. markInputsSpent lib uid n ins p = (q, Inr ())" if read: "inputs_readable lib ins"
  proof -
    obtain rows where "FindOutputsByOutpoints (db_txs (p_db p)) (db_outputs (p_db p)) uid ?ops = Inr rows"
      using read unfolding inputs_readable_def by blast
    then show ?thesis by (auto simp: markInputsSpent_def localOutputsByOutpoint_def on_outputs_def Let_def)
  qed
qed

text \<open>What follows the spend.\<close>

definition advance :: "sdk \<Rightarrow> string \<Rightarrow> signed_tx \<Rightarrow> table_transaction \<Rightarrow> unit step" where
  "advance lib txid tx t =
     andThen (tolerate [ErrStatusUpdateSkipped] (on_txs (\<lambda>now rows. UpdateStatusByTxID now rows txid TxStatusUnproven
         [TxStatusSending, TxStatusNoSend, TxStatusUnproven, TxStatusUnprocessed])))
       (\<lambda>_. andThen (tolerate [ErrStatusUpdateSkipped, ErrNotFound] (on_known (\<lambda>now rows.
         KnownTx_UpdateStatus now rows txid ProvenTxStatusUnconfirmed ProvenTxReqBeyondBroadcastStageStatuses)))
       (\<lambda>_. markInputsSpent lib (t_UserID t) (t_TransactionID t) (tx_inputs tx)))"

lemma commitSpends_advance:
  "commitSpends lib txid tx t = DoUnit (andThen (spendReservedInputs lib tx txid (t_Reference t)) (\<lambda>_. advance lib txid tx t))"
  by (simp add: commitSpends_def advance_def)

lemma tolerate_Inr: "tolerate es m p = (q, Inr u) \<longleftrightarrow> (\<exists>r. m p = (q, r) \<and> (\<forall>e. r = Inl e \<longrightarrow> e \<in> MetaErr ` set es))"
  by (auto simp: tolerate_def split: prod.splits sum.splits)

lemma advance_coins: "steps_in (coin_path P) (advance lib txid tx t)"
proof -
  have "steps_in (coin_path P) (markInputsSpent lib uid n ins)" for uid n ins
    by (rule cp.in_meta) (simp add: markInputsSpent_def Let_def on_outputs_def tick_p_def split: sum.split)
  then show ?thesis unfolding advance_def by (intro cp.in_andThen cp.in_tolerated cp.in_writes)
qed

lemma advance_ok:
  assumes "encTxID txid = Inr raw" shows "(\<exists>q. advance lib txid tx t p = (q, Inr ())) \<longleftrightarrow> inputs_readable lib (tx_inputs tx)"
proof -
  obtain p1 r1 where 1: "tolerate [ErrStatusUpdateSkipped] (on_txs (\<lambda>now rows. UpdateStatusByTxID now rows txid TxStatusUnproven
         [TxStatusSending, TxStatusNoSend, TxStatusUnproven, TxStatusUnprocessed])) p = (p1, r1)" by force
  obtain p2 r2 where 2: "tolerate [ErrStatusUpdateSkipped, ErrNotFound] (on_known (\<lambda>now rows.
         KnownTx_UpdateStatus now rows txid ProvenTxStatusUnconfirmed ProvenTxReqBeyondBroadcastStageStatuses)) p1 = (p2, r2)" by force
  have "r1 = Inr ()" using 1
    by (auto simp: tolerate_def on_txs_def UpdateStatusByTxID_def assms applyStatusUpdate_def Let_def of_opt_def split: if_splits)
  moreover have "r2 = Inr ()" using 2
    by (auto simp: tolerate_def on_known_def KnownTx_UpdateStatus_def with_txid_raw [OF assms] guarded_update_def Let_def of_opt_def
        case_prod_unfold split: if_splits)
  ultimately have "advance lib txid tx t p = markInputsSpent lib (t_UserID t) (t_TransactionID t) (tx_inputs tx) p2"
    using 1 2 by (simp add: advance_def andThen_def)
  then show ?thesis using markInputsSpent_reads by metis
qed

lemma AllUsers_enc: "FindByTxIDAllUsers rows txid = Inr ts \<Longrightarrow> \<exists>raw. encTxID txid = Inr raw"
  by (auto simp: FindByTxIDAllUsers_def split: sum.splits)

text \<open>The attempt as a whole: when it succeeds, and what a failed one leaves behind.\<close>

definition acceptable :: "sdk \<Rightarrow> string \<Rightarrow> signed_tx \<Rightarrow> hash \<Rightarrow> table_transaction \<Rightarrow> prov \<Rightarrow> bool" where
  "acceptable lib txid tx h t p \<longleftrightarrow> NewHashFromHex lib txid = Some h \<and>
     (\<exists>t0 ts. FindByTxIDAllUsers (db_txs (p_db p)) txid = Inr (t0 # ts) \<and> t = acceptedRow t0 ts) \<and>
     spendable h (t_Reference t) tx (p_utxo p) \<and> inputs_readable lib (tx_inputs tx)"

lemma accepted_success:
  assumes "applyAcceptedBroadcast lib txid tx p = (q, Inr u)"
  shows "\<exists>h t p1. acceptable lib txid tx h t p \<and> spendReservedInputs lib tx txid (t_Reference t) p = (p1, Inr ()) \<and>
    advance lib txid tx t p1 = (q, Inr ()) \<and> p_utxo q = after_spends h (t_Reference t) tx (p_utxo p)"
proof -
  obtain t0 ts where rows: "FindByTxIDAllUsers (db_txs (p_db p)) txid = Inr (t0 # ts)" and c: "commitSpends lib txid tx (acceptedRow t0 ts) p = (q, Inr u)"
    using assms by (auto simp: applyAcceptedBroadcast_def split: sum.splits list.splits)
  let ?t = "acceptedRow t0 ts"
  obtain p1 where p1: "spendReservedInputs lib tx txid (t_Reference ?t) p = (p1, Inr ())" "advance lib txid tx ?t p1 = (q, Inr ())"
    using c by (auto simp: commitSpends_advance DoUnit_def andThen_Inr split: prod.splits sum.splits)
  obtain h where h: "NewHashFromHex lib txid = Some h"
    using p1(1) by (cases "NewHashFromHex lib txid") (auto simp: spendReservedInputs_def fail_def split: if_splits)
  obtain raw where "encTxID txid = Inr raw" using AllUsers_enc [OF rows] by blast
  from advance_ok [OF this, of lib tx ?t p1] p1(2) have "inputs_readable lib (tx_inputs tx)" by blast
  moreover have "p_utxo q = p_utxo p1"
    using steps_inD [OF advance_coins [of "\<lambda>_. False"] p1(2)] by (auto simp: coin_path_def path_def list_all_iff)
  ultimately show ?thesis using rows h p1 spendReserved_cases(4) [OF h p1(1)] by (auto simp: acceptable_def)
qed

lemma accepted_run:
  assumes "acceptable lib txid tx h t p" "applyAcceptedBroadcast lib txid tx p = (q, r)"
  shows "r = Inr () \<longleftrightarrow> snd (spendReservedInputs lib tx txid (t_Reference t) p) = Inr ()"
    and "r \<noteq> Inr () \<Longrightarrow> p_db q = p_db p \<and> (p_utxo q = p_utxo p \<or> p_utxo q = after_spends h (t_Reference t) tx (p_utxo p))"
proof -
  obtain t0 ts where h: "NewHashFromHex lib txid = Some h" and rows: "FindByTxIDAllUsers (db_txs (p_db p)) txid = Inr (t0 # ts)" "t = acceptedRow t0 ts"
    and read: "inputs_readable lib (tx_inputs tx)" using assms(1) by (auto simp: acceptable_def)
  obtain raw where raw: "encTxID txid = Inr raw" using AllUsers_enc [OF rows(1)] by blast
  obtain p1 r1 where 1: "spendReservedInputs lib tx txid (t_Reference t) p = (p1, r1)" by force
  obtain q1 where 2: "advance lib txid tx t p1 = (q1, Inr ())" using advance_ok [OF raw] read by blast
  have run: "applyAcceptedBroadcast lib txid tx p = commitSpends lib txid tx t p" by (simp add: applyAcceptedBroadcast_def rows)
  show "r = Inr () \<longleftrightarrow> snd (spendReservedInputs lib tx txid (t_Reference t) p) = Inr ()"
    using assms(2) unfolding run commitSpends_advance by (cases r1) (auto simp: DoUnit_def andThen_def 1 2)
  show "p_db q = p_db p \<and> (p_utxo q = p_utxo p \<or> p_utxo q = after_spends h (t_Reference t) tx (p_utxo p))" if "r \<noteq> Inr ()"
    using assms(2) that spendReserved_cases(2) [OF h 1] unfolding run commitSpends_advance
    by (cases r1) (auto simp: DoUnit_def andThen_def 1 2)
qed

section \<open>Properties\<close>

lemma KnownTx_UpdateStatus_advances:
  assumes "known_inv rows" "encTxID txid = Inr raw" "known rows raw = Some r"
  shows "\<exists>r'. known (fst (KnownTx_UpdateStatus now rows txid ProvenTxStatusUnconfirmed ProvenTxReqBeyondBroadcastStageStatuses)) raw = Some r' \<and>
    WasBroadcastStatus (kt_Status r')"
  using guarded_update_cases [OF assms(1,3)] assms(3) known_Some_txid [OF assms(3)]
  by (auto simp: KnownTx_UpdateStatus_def with_txid_raw [OF assms(2)] known_update_where set_status_def req_status_defs)

text \<open>
  C7: An accepted broadcast records its spend, or changes no metadata.  When the commit of an accepted broadcast
  succeeds, every input of the transaction that is a coin of the wallet is recorded as spent by this very
  transaction, whatever reservation it was under, and the known transaction has left the statuses a send may
  claim.  When it fails, at whatever point and through whatever failing call, the metadata is as before, and with
  a shared database the coins are too.
\<close>

theorem accepted_spend_recorded:
  assumes "applyAcceptedBroadcast lib txid tx p = (q, r)"
  shows "case r of
      Inl e \<Rightarrow> p_db q = p_db p \<and> (p_modeA p \<longrightarrow> p_utxo q = p_utxo p)
    | Inr _ \<Rightarrow> (\<exists>h. NewHashFromHex lib txid = Some h \<and>
        list_all (\<lambda>op. case coins (p_utxo q) op of None \<Rightarrow> True | Some u \<Rightarrow> u_SpentBy u = Some h) (sourceOps (tx_inputs tx))) \<and>
        (\<forall>raw k. known_inv (db_known (p_db p)) \<and> encTxID txid = Inr raw \<and> known (db_known (p_db p)) raw = Some k \<longrightarrow>
           (\<exists>k'. known (db_known (p_db q)) raw = Some k' \<and> WasBroadcastStatus (kt_Status k')))"
proof (cases r)
  case (Inl e)
  then show ?thesis using assms
    by (auto simp: applyAcceptedBroadcast_def commitSpends_advance DoUnit_def split: sum.splits list.splits prod.splits)
next
  case (Inr u)
  then obtain h t p1 where acc: "acceptable lib txid tx h t p" and p1: "spendReservedInputs lib tx txid (t_Reference t) p = (p1, Inr ())"
      "advance lib txid tx t p1 = (q, Inr ())" and q: "p_utxo q = after_spends h (t_Reference t) tx (p_utxo p)"
    using accepted_success assms by blast
  have h: "NewHashFromHex lib txid = Some h" and ok: "spendable h (t_Reference t) tx (p_utxo p)" using acc by (simp_all add: acceptable_def)
  have "case coins (p_utxo q) op of None \<Rightarrow> True | Some u \<Rightarrow> u_SpentBy u = Some h" if op: "op \<in> set (sourceOps (tx_inputs tx))" for op
  proof -
    let ?sp = "\<lparr>sp_Outpoint = op, sp_Reservation = t_Reference t, sp_SpendingTxID = h\<rparr>"
    have ne: "sourceOps (tx_inputs tx) \<noteq> []" using op by auto
    have "?sp \<in> set (spends h (t_Reference t) tx)" using op by (simp add: spends_def)
    then have "settled (fst (spendLoop (s_rows (p_utxo p)) (spends h (t_Reference t) tx) True)) ?sp"
      using spendLoop_settles ok ne by (auto simp: spendable_def list_all_iff)
    then show ?thesis using ok ne unfolding q
      by (auto simp: settled_def coins_def after_spends_def Spend_def spendable_def case_prod_unfold Let_def split: option.splits)
  qed
  moreover have "\<exists>k'. known (db_known (p_db q)) raw = Some k' \<and> WasBroadcastStatus (kt_Status k')"
    if k: "known_inv (db_known (p_db p))" "encTxID txid = Inr raw" "known (db_known (p_db p)) raw = Some k" for raw k
  proof -
    obtain p2 p3 where 2: "tolerate [ErrStatusUpdateSkipped] (on_txs (\<lambda>now rows. UpdateStatusByTxID now rows txid TxStatusUnproven
         [TxStatusSending, TxStatusNoSend, TxStatusUnproven, TxStatusUnprocessed])) p1 = (p2, Inr ())"
      and 3: "tolerate [ErrStatusUpdateSkipped, ErrNotFound] (on_known (\<lambda>now rows.
         KnownTx_UpdateStatus now rows txid ProvenTxStatusUnconfirmed ProvenTxReqBeyondBroadcastStageStatuses)) p2 = (p3, Inr ())"
      and 4: "markInputsSpent lib (t_UserID t) (t_TransactionID t) (tx_inputs tx) p3 = (q, Inr ())"
      using p1(2) by (auto simp: advance_def andThen_Inr)
    have "db_known (p_db p2) = db_known (p_db p)"
      using steps_inD [OF sk.in_tolerate [OF sk.in_quiet(1)] 2] spendReserved_cases(1) [OF h p1(1)] by (simp add: same_known_def)
    moreover have "db_known (p_db q) = db_known (p_db p3)"
      using 4 by (auto simp: markInputsSpent_def Let_def on_outputs_def tick_p_def split: sum.splits if_splits)
    moreover have "db_known (p_db p3) = fst (KnownTx_UpdateStatus (now_p p2) (db_known (p_db p2)) txid ProvenTxStatusUnconfirmed
        ProvenTxReqBeyondBroadcastStageStatuses)"
      using 3 by (auto simp: tolerate_Inr on_known_def Let_def case_prod_unfold)
    ultimately show ?thesis using KnownTx_UpdateStatus_advances [OF k] by simp
  qed
  ultimately show ?thesis using Inr h by (auto simp: list_all_iff)
qed

text \<open>
  C8: A commit that failed can be driven again.  Suppose the commit of an accepted broadcast would succeed with a
  working store, but this attempt fails, because the store failed before or after the spends took effect.  Then
  the attempt leaves a state from which the next one, with a working store, succeeds, and the coins end as if the
  first attempt had succeeded: spends recorded by a lost attempt are recognised as the transaction's own.
\<close>

theorem accepted_redrive_completes:
  assumes "applyAcceptedBroadcast lib txid tx (p\<lparr>p_faults := \<lambda>_. None\<rparr>) = (q0, Inr ())"
    and "applyAcceptedBroadcast lib txid tx p = (q, Inl e)"
  shows "\<exists>q'. applyAcceptedBroadcast lib txid tx (q\<lparr>p_faults := \<lambda>_. None\<rparr>) = (q', Inr ()) \<and> p_utxo q' = p_utxo q0"
proof -
  from accepted_success [OF assms(1)] obtain h t where acc0: "acceptable lib txid tx h t (p\<lparr>p_faults := \<lambda>_. None\<rparr>)"
    and q0: "p_utxo q0 = after_spends h (t_Reference t) tx (p_utxo p)" by auto
  then have acc: "acceptable lib txid tx h t p" by (simp add: acceptable_def)
  have q: "p_db q = p_db p" "p_utxo q = p_utxo p \<or> p_utxo q = after_spends h (t_Reference t) tx (p_utxo p)"
    using accepted_run(2) [OF acc assms(2)] by simp_all
  have h: "NewHashFromHex lib txid = Some h" and sp: "spendable h (t_Reference t) tx (p_utxo p)" using acc by (simp_all add: acceptable_def)
  have again: "spendable h (t_Reference t) tx (p_utxo q)" "after_spends h (t_Reference t) tx (p_utxo q) = p_utxo q0"
    using q(2) sp after_spends_again [OF sp] q0 by auto
  let ?q = "q\<lparr>p_faults := \<lambda>_. None\<rparr>"
  have acc': "acceptable lib txid tx h t ?q" using acc q(1) again(1) by (simp add: acceptable_def)
  obtain p1 r1 where 1: "spendReservedInputs lib tx txid (t_Reference t) ?q = (p1, r1)" by force
  obtain q' r where run: "applyAcceptedBroadcast lib txid tx ?q = (q', r)" by force
  have "r1 = Inr ()" using spendReserved_cases(5) [OF h 1] again(1) by simp
  then have r: "r = Inr ()" using accepted_run(1) [OF acc' run] 1 by simp
  from accepted_success [OF run [unfolded r]] obtain h' t' where "acceptable lib txid tx h' t' ?q" "p_utxo q' = after_spends h' (t_Reference t') tx (p_utxo ?q)"
    by blast
  with acc' again(2) run r show ?thesis by (auto simp: acceptable_def)
qed

section \<open>Witnesses\<close>

definition w_signed :: signed_tx where
  "w_signed = \<lparr>tx_id = ''0a'', tx_inputs = [Some (Outpoint 7 0)], tx_outputs = [], tx_bytes = [1]\<rparr>"

abbreviation w_sending :: prov where
  "w_sending \<equiv> w_state ProvenTxStatusSending TxStatusSending w_held"

lemma w_inputs: "sourceOps (tx_inputs w_signed) = [Outpoint 7 0]" "inputs_readable w_lib (tx_inputs w_signed)"
proof -
  show "sourceOps (tx_inputs w_signed) = [Outpoint 7 0]" by (simp add: w_signed_def sourceOps_def map_filter_simps)
  then show "inputs_readable w_lib (tx_inputs w_signed)"
    by (simp add: inputs_readable_def FindOutputsByOutpoints_def chunkLoop.simps outpointChunk_def w_lib_def w_known_facts)
qed

lemma w_spendable: "spendable 10 ''tx'' w_signed w_held"
  by (simp add: spendable_def w_inputs spends_def w_held_eq spendOne_def ValidateSpend_def ValidateReservation_def item_ok_def w_coin_def case_prod_unfold Let_def
      split: option.split)

lemma w_acceptable:
  assumes "p_db p = p_db w_sending" "p_utxo p = w_held" shows "\<exists>t. acceptable w_lib ''0a'' w_signed 10 t p \<and> t_Reference t = ''tx''"
proof -
  have "FindByTxIDAllUsers (db_txs (p_db p)) ''0a'' = Inr [tx_scan (w_tx 1 ''tx'' TxStatusSending (Some [10]))]"
    by (simp add: assms w_state_def FindByTxIDAllUsers_def w_known_facts newest_tx_first_def w_tx_def)
  moreover have "t_Reference (acceptedRow (tx_scan (w_tx 1 ''tx'' TxStatusSending (Some [10]))) []) = ''tx''"
    by (simp add: acceptedRow_def tx_scan_def w_tx_def tx_cols.defs table_transaction.defs)
  moreover have "NewHashFromHex w_lib ''0a'' = Some 10" by (simp add: w_lib_def)
  ultimately show ?thesis using w_spendable w_inputs(2) assms(2) by (auto simp: acceptable_def)
qed

lemma w_accepts:
  assumes "p_db p = p_db w_sending" "p_utxo p = w_held" "p_faults p (p_calls p) = None"
  shows "\<exists>q. applyAcceptedBroadcast w_lib ''0a'' w_signed p = (q, Inr ())"
proof -
  obtain q r where run: "applyAcceptedBroadcast w_lib ''0a'' w_signed p = (q, r)" by force
  obtain t where t: "acceptable w_lib ''0a'' w_signed 10 t p" "t_Reference t = ''tx''" using w_acceptable assms by blast
  obtain p1 r1 where 1: "spendReservedInputs w_lib w_signed ''0a'' ''tx'' p = (p1, r1)" by force
  have "NewHashFromHex w_lib ''0a'' = Some 10" by (simp add: w_lib_def)
  from spendReserved_cases(5) [OF this 1 assms(3)] have "r1 = Inr ()" using w_spendable assms(2) by simp
  with accepted_run(1) [OF t(1) run] 1 t(2) run show ?thesis by simp
qed

theorem accepted_spend_recorded_witness:
  "\<exists>q. applyAcceptedBroadcast w_lib ''0a'' w_signed w_sending = (q, Inr ()) \<and>
     (case coins (p_utxo q) (Outpoint 7 0) of None \<Rightarrow> True | Some u \<Rightarrow> u_SpentBy u = Some 10)"
proof -
  obtain q where q: "applyAcceptedBroadcast w_lib ''0a'' w_signed w_sending = (q, Inr ())"
    using w_accepts [of w_sending] by (auto simp: w_state_def)
  from accepted_spend_recorded [OF q] have "case coins (p_utxo q) (Outpoint 7 0) of None \<Rightarrow> True | Some u \<Rightarrow> u_SpentBy u = Some 10"
    by (simp add: w_inputs(1)) (simp add: w_lib_def)
  with q show ?thesis by blast
qed

text \<open>Split stores; the first call of the store takes effect and then reports an error.\<close>

definition w_lost :: prov where
  "w_lost = w_sending\<lparr>p_modeA := False, p_faults := \<lambda>n. if n = 0 then Some (FailAfter ErrContention) else None\<rparr>"

theorem accepted_redrive_completes_witness:
  "\<exists>q e q'. applyAcceptedBroadcast w_lib ''0a'' w_signed w_lost = (q, Inl e) \<and>
     applyAcceptedBroadcast w_lib ''0a'' w_signed (q\<lparr>p_faults := \<lambda>_. None\<rparr>) = (q', Inr ())"
proof -
  have lost: "p_db w_lost = p_db w_sending" "p_utxo w_lost = w_held" "p_faults w_lost (p_calls w_lost) = Some (FailAfter ErrContention)"
    by (simp_all add: w_lost_def w_state_def)
  obtain q r where run: "applyAcceptedBroadcast w_lib ''0a'' w_signed w_lost = (q, r)" by force
  obtain t where t: "acceptable w_lib ''0a'' w_signed 10 t w_lost" "t_Reference t = ''tx''" using w_acceptable lost by blast
  have "NewHashFromHex w_lib ''0a'' = Some 10" by (simp add: w_lib_def)
  then have "snd (spendReservedInputs w_lib w_signed ''0a'' ''tx'' w_lost) \<noteq> Inr ()" using lost(3)
    by (simp add: spendReservedInputs_def w_inputs(1) batch_call_def andThen_def acceptedVerdict_def map_filter_simps is_batch_def fail_def Let_def)
  then obtain e where e: "r = Inl e" using accepted_run(1) [OF t(1) run] t(2) by (cases r) auto
  obtain q0 where "applyAcceptedBroadcast w_lib ''0a'' w_signed (w_lost\<lparr>p_faults := \<lambda>_. None\<rparr>) = (q0, Inr ())"
    using w_accepts [of "w_lost\<lparr>p_faults := \<lambda>_. None\<rparr>"] lost by auto
  from accepted_redrive_completes [OF this run [unfolded e]] run e show ?thesis by blast
qed

end
