(* ===== verification/Abort.thy ===== *)
theory Abort
  imports Provider_Facts
begin

text \<open>
  Aborting a transaction that was not broadcast: \<open>src/pkg/storage/abort.go\<close>.  The abort is a metadata half,
  which fences the raw transaction, and a UTXO half, which gives the funding coins back; the definitions
  follow the two ways the source orders and commits them.  \<open>abortFence\<close> is the first unit of work of
  \<open>abortViaOutbox\<close>, \<open>inlineLoop\<close> runs in its second.
\<close>

section \<open>The fence\<close>

definition abortableStatuses :: "tx_status list" where
  "abortableStatuses = [TxStatusUnsigned, TxStatusNoSend, TxStatusUnprocessed, TxStatusNonFinal]"

definition abortTxID :: "table_transaction \<Rightarrow> string" where
  "abortTxID t = (case t_TxID t of None \<Rightarrow> '''' | Some x \<Rightarrow> x)"

definition fenceAborted :: "table_transaction \<Rightarrow> string \<Rightarrow> unit step" where
  "fenceAborted t txid p =
     (case on_txs (\<lambda>now rows. Tx_UpdateStatus now rows (t_TransactionID t) TxStatusAborted
             [TxStatusUnsigned, TxStatusNoSend, TxStatusUnprocessed, TxStatusNonFinal]) p of
        (p1, Inl e) \<Rightarrow> (p1, Inl (if e = MetaErr ErrStatusUpdateSkipped then ErrNotAbortableAction else e))
      | (p1, Inr _) \<Rightarrow>
          if txid = '''' then (p1, Inr ())
          else
            (case on_known (\<lambda>now rows. TransitionToAborted now rows txid) p1 of
               (p2, Inl e) \<Rightarrow>
                 if e = MetaErr ErrNotFound
                 then on_outputs (\<lambda>now outs. ClearSpentBy now outs (t_TransactionID t)) p2
                 else (p2, Inl (if e = MetaErr ErrStatusUpdateSkipped then ErrAbortLostToSend else e))
             | (p2, Inr _) \<Rightarrow> on_outputs (\<lambda>now outs. ClearSpentBy now outs (t_TransactionID t)) p2))"

section \<open>Mode A\<close>

definition abortDirect :: "sdk \<Rightarrow> int \<Rightarrow> table_transaction \<Rightarrow> unit step" where
  "abortDirect lib userID t =
     (let txid = abortTxID t in
      DoUnit (andThen (fenceAborted t txid)
        (\<lambda>_. andThen (doAbortRelease userID (t_Reference t))
          (\<lambda>_ p. if txid = '''' then (p, Inr ())
                 else case changeOutpoints lib (p_db p) userID (t_TransactionID t) txid of
                   Inl e \<Rightarrow> (p, Inl e)
                 | Inr ops \<Rightarrow> doAbortRemoveChange lib txid ops p))))"

section \<open>Mode B\<close>

record abort_op =
  ao_key :: bytes
  ao_opType :: string
  ao_payload :: payload

definition abortOutboxKey :: "sdk \<Rightarrow> string \<Rightarrow> bytes" where
  "abortOutboxKey lib reference = Sum256 lib (''abort:'' @ reference)"

definition releaseIntent :: "sdk \<Rightarrow> int \<Rightarrow> string \<Rightarrow> abort_op" where
  "releaseIntent lib userID reference =
     \<lparr>ao_key = abortOutboxKey lib reference, ao_opType = opAbortRelease,
      ao_payload = no_payload\<lparr>pl_userId := userID, pl_reservation := reference\<rparr>\<rparr>"

definition abortOps :: "sdk \<Rightarrow> metadb \<Rightarrow> int \<Rightarrow> table_transaction \<Rightarrow> perr + abort_op list" where
  "abortOps lib db userID t =
     (let txid = abortTxID t; rel = releaseIntent lib userID (t_Reference t) in
      if txid = '''' then Inr [rel]
      else case changeOutpoints lib db userID (t_TransactionID t) txid of
        Inl e \<Rightarrow> Inl e
      | Inr change \<Rightarrow>
          if change = [] then Inr [rel]
          else case encodeTxidToRaw txid of
            Inl e \<Rightarrow> Inl e
          | Inr raw \<Rightarrow>
              Inr [rel, \<lparr>ao_key = raw, ao_opType = opAbortRemoveChange,
                         ao_payload = no_payload\<lparr>pl_mintTxId := txid, pl_ops := encodeOutpoints lib change\<rparr>\<rparr>])"

fun enqueueAll :: "abort_op list \<Rightarrow> unit step" where
  "enqueueAll [] p = (p, Inr ())"
| "enqueueAll (op # ops) p =
     enqueueAll ops (fst (on_outbox (\<lambda>now rows. Enqueue now rows (ao_key op) (ao_opType op) 0 (ao_payload op)) p))"

text \<open>Phase 1: the fence and the durable intent, in one unit of work.\<close>

definition abortFence :: "sdk \<Rightarrow> int \<Rightarrow> table_transaction \<Rightarrow> abort_op list step" where
  "abortFence lib userID t =
     DoUnit (andThen (fenceAborted t (abortTxID t))
       (\<lambda>_ p. case abortOps lib (p_db p) userID t of
                Inl e \<Rightarrow> (p, Inl e)
              | Inr ops \<Rightarrow> andThen (enqueueAll ops) (\<lambda>_. ret ops) p))"

text \<open>Phase 2: inline execution; a failed operation is recorded and left for the drain.\<close>

fun inlineLoop :: "sdk \<Rightarrow> abort_op list \<Rightarrow> unit step" where
  "inlineLoop lib [] p = (p, Inr ())"
| "inlineLoop lib (op # ops) p =
     (case executeOutboxOp lib (ao_opType op) (ao_payload op) p of
        (p', Inl x) \<Rightarrow>
          inlineLoop lib ops (fst (on_outbox (\<lambda>_ rows. RecordError rows (ao_key op) (ao_opType op) 0 (ErrorText lib x)) p'))
      | (p', Inr _) \<Rightarrow>
          inlineLoop lib ops (fst (on_outbox (\<lambda>_ rows. MarkDone rows (ao_key op) (ao_opType op) 0) p')))"

definition abortViaOutbox :: "sdk \<Rightarrow> int \<Rightarrow> table_transaction \<Rightarrow> unit step" where
  "abortViaOutbox lib userID t =
     andThen (abortFence lib userID t) (\<lambda>ops p. (fst (DoUnit (inlineLoop lib ops) p), Inr ()))"

definition abortTxRow :: "sdk \<Rightarrow> int \<Rightarrow> table_transaction \<Rightarrow> unit step" where
  "abortTxRow lib userID t p = (if p_modeA p then abortDirect lib userID t p else abortViaOutbox lib userID t p)"

section \<open>AbortAction\<close>

definition findAbortRow :: "metadb \<Rightarrow> int \<Rightarrow> string \<Rightarrow> perr + table_transaction option" where
  "findAbortRow db userID reference =
     (case FindByReference (db_txs db) userID reference of
        Some t \<Rightarrow> Inr (Some t)
      | None \<Rightarrow>
          if length reference \<noteq> 64 then Inr None
          else case Tx_FindByTxID (db_txs db) userID reference of
            Inl e \<Rightarrow> Inl (MetaErr e)
          | Inr [] \<Rightarrow> Inr None
          | Inr (t # _) \<Rightarrow> Inr (Some t))"

definition AbortAction :: "sdk \<Rightarrow> int option \<Rightarrow> string \<Rightarrow> unit step" where
  "AbortAction lib auth reference p =
     (case auth of
        None \<Rightarrow> (p, Inl ErrAuthorization)
      | Some userID \<Rightarrow>
          (case findAbortRow (p_db p) userID reference of
             Inl e \<Rightarrow> (p, Inl e)
           | Inr None \<Rightarrow> (p, Inl ErrNotAbortableAction)
           | Inr (Some t) \<Rightarrow>
               if \<not> t_IsOutgoing t then (p, Inl ErrNotAbortableAction)
               else if t_Status t \<notin> set abortableStatuses then (p, Inl ErrNotAbortableAction)
               else abortTxRow lib userID t p))"

end
