(* ===== verification/Spend_Conflict.thy ===== *)
theory Spend_Conflict
  imports Status_Updates "HOL-Library.Sublist"
begin

text \<open>
  Reading a rejection: \<open>src/pkg/storage/spend_conflict.go\<close>, which decides whether an arcade record reports a
  spend conflict and which outpoints and spenders its text names.

  A Go string is a list of bytes.  The three regular expressions are written out as matchers, with the leftmost
  non-overlapping matches of \<open>FindAllStringSubmatch\<close>; a case-insensitive \<open>s\<close> also matches the long s, and a
  case-insensitive letter the Kelvin sign, both given by their UTF-8 bytes.  \<open>strings.ToUpper\<close> is written out as
  far as its result is ASCII, which is all the keywords can see; identifiers are taken to be ASCII.
\<close>

section \<open>Bytes\<close>

definition between :: "nat \<Rightarrow> nat \<Rightarrow> char \<Rightarrow> bool" where
  "between a b c \<longleftrightarrow> a \<le> of_char c \<and> of_char c \<le> b"

definition isLower :: "char \<Rightarrow> bool" where "isLower c \<longleftrightarrow> between 97 122 c"
definition isUpper :: "char \<Rightarrow> bool" where "isUpper c \<longleftrightarrow> between 65 90 c"

definition upperChar :: "char \<Rightarrow> char" where
  "upperChar c = (if isLower c then char_of (of_char c - 32 :: nat) else c)"

definition lowerChar :: "char \<Rightarrow> char" where
  "lowerChar c = (if isUpper c then char_of (of_char c + 32 :: nat) else c)"

definition longS :: string where "longS = [char_of (197 :: nat), char_of (191 :: nat)]"
definition dotlessI :: string where "dotlessI = [char_of (196 :: nat), char_of (177 :: nat)]"
definition kelvin :: string where "kelvin = [char_of (226 :: nat), char_of (132 :: nat), char_of (170 :: nat)]"

fun ToUpper :: "string \<Rightarrow> string" where
  "ToUpper (a # b # cs) =
     (if [a, b] = longS then CHR ''S'' # ToUpper cs
      else if [a, b] = dotlessI then CHR ''I'' # ToUpper cs
      else upperChar a # ToUpper (b # cs))"
| "ToUpper cs = map upperChar cs"

definition ToLower :: "string \<Rightarrow> string" where "ToLower = map lowerChar"

text \<open>\<open>\s\<close> of a regular expression, and the wider class that \<open>strings.TrimSpace\<close> cuts.\<close>

definition isSpace :: "char \<Rightarrow> bool" where
  "isSpace c \<longleftrightarrow> (of_char c :: nat) \<in> {9, 10, 12, 13, 32}"

definition trimmed :: "char \<Rightarrow> bool" where
  "trimmed c \<longleftrightarrow> isSpace c \<or> of_char c = (11 :: nat)"

definition TrimSpace :: "string \<Rightarrow> string" where
  "TrimSpace s = rev (dropWhile trimmed (rev (dropWhile trimmed s)))"

definition isWord :: "char \<Rightarrow> bool" where
  "isWord c \<longleftrightarrow> isLower c \<or> isUpper c \<or> isDigit c \<or> c = CHR ''_''"

definition isHexDigit :: "char \<Rightarrow> bool" where
  "isHexDigit c \<longleftrightarrow> isDigit c \<or> between 97 102 c \<or> between 65 70 c"

section \<open>The matchers\<close>

text \<open>\<open>([0-9a-f]{64})\<close>\<close>

definition matchHash :: "string \<Rightarrow> (string \<times> string) option" where
  "matchHash s =
     (if 64 \<le> length s \<and> list_all isHexDigit (take 64 s) then Some (take 64 s, drop 64 s) else None)"

text \<open>
  \<open>outpointInText\<close> after its first word boundary.  The digits cannot be cut short: between two digits there is no
  boundary.
\<close>

definition matchOutpoint :: "string \<Rightarrow> (string \<times> string \<times> string) option" where
  "matchOutpoint s =
     (case matchHash s of
        Some (h, c # rest) \<Rightarrow>
          (let ds = takeWhile isDigit rest; tl' = dropWhile isDigit rest in
           if c = CHR '':'' \<and> ds \<noteq> [] \<and> (case tl' of [] \<Rightarrow> True | d # _ \<Rightarrow> \<not> isWord d) then Some (h, ds, tl') else None)
      | _ \<Rightarrow> None)"

lemma matchOutpoint_split:
  assumes "matchOutpoint s = Some (h, ds, rest)"
  shows "s = h @ '':'' @ ds @ rest \<and> length h = 64 \<and> list_all isHexDigit h \<and> ds \<noteq> [] \<and> list_all isDigit ds"
proof -
  obtain r where h: "matchHash s = Some (h, CHR '':'' # r)" and ds: "ds = takeWhile isDigit r" "rest = dropWhile isDigit r" "ds \<noteq> []"
    using assms by (auto simp: matchOutpoint_def Let_def split: option.splits list.splits if_splits)
  from h have "64 \<le> length s" "list_all isHexDigit h" "h = take 64 s" "drop 64 s = CHR '':'' # r"
    by (auto simp: matchHash_def split: if_splits)
  moreover have "s = take 64 s @ drop 64 s" by simp
  moreover have "r = ds @ rest" using ds by simp
  moreover have "list_all isDigit ds" unfolding ds(1) using set_takeWhileD by (fastforce simp: list_all_iff)
  ultimately show ?thesis using ds(3) by auto
qed

text \<open>\<open>FindAllStringSubmatch\<close>: \<open>w\<close> tells whether the byte before is a word character.\<close>

function scanOutpoints :: "bool \<Rightarrow> string \<Rightarrow> (string \<times> string) list" where
  "scanOutpoints w s =
     (case (if w then None else matchOutpoint s) of
        Some (h, ds, rest) \<Rightarrow> (h, ds) # scanOutpoints True rest
      | None \<Rightarrow> (case s of [] \<Rightarrow> [] | c # cs \<Rightarrow> scanOutpoints (isWord c) cs))"
  by pat_completeness auto
termination
  by (relation "measure (\<lambda>(w, s). length s)") (auto split: if_splits dest: matchOutpoint_split)

declare scanOutpoints.simps [simp del]

fun matchFold :: "string \<Rightarrow> string \<Rightarrow> string option" where
  "matchFold [] s = Some s"
| "matchFold (k # ks) (c # cs) =
     (if lowerChar c = k then matchFold ks cs
      else if k = CHR ''s'' \<and> take 2 (c # cs) = longS then matchFold ks (drop 1 cs) else None)"
| "matchFold (k # ks) [] = None"

definition matchSpaces :: "string \<Rightarrow> string option" where
  "matchSpaces s = (case s of c # cs \<Rightarrow> if isSpace c then Some (dropWhile isSpace cs) else None | [] \<Rightarrow> None)"

text \<open>\<open>spentByTxInText\<close>\<close>

definition matchSpentBy :: "string \<Rightarrow> (string \<times> string) option" where
  "matchSpentBy s =
     Option.bind (matchFold ''spent'' s) (\<lambda>s. Option.bind (matchSpaces s) (\<lambda>s. Option.bind (matchFold ''by'' s) (\<lambda>s.
     Option.bind (matchSpaces s) (\<lambda>s. Option.bind (matchFold ''tx'' s) (\<lambda>s. Option.bind (matchSpaces s) matchHash)))))"

lemma matchFold_le: "matchFold ks s = Some r \<Longrightarrow> length r \<le> length s"
  by (induction ks s rule: matchFold.induct) (auto split: if_splits)

lemma matchSpaces_less: "matchSpaces s = Some r \<Longrightarrow> length r < length s"
  using length_dropWhile_le [of isSpace] by (auto simp: matchSpaces_def less_Suc_eq_le split: list.splits if_splits)

lemma matchSpentBy_shorter: "matchSpentBy s = Some (h, r) \<Longrightarrow> length r < length s"
  by (auto simp: matchSpentBy_def matchHash_def bind_eq_Some_conv split: if_splits
    dest!: matchFold_le matchSpaces_less)

function scanSpenders :: "string \<Rightarrow> string list" where
  "scanSpenders s =
     (case matchSpentBy s of
        Some (h, rest) \<Rightarrow> h # scanSpenders rest
      | None \<Rightarrow> (case s of [] \<Rightarrow> [] | c # cs \<Rightarrow> scanSpenders cs))"
  by pat_completeness auto
termination
  by (relation "measure length") (auto dest: matchSpentBy_shorter)

declare scanSpenders.simps [simp del]

lemma take_drop_less: "take n s = c # cs \<Longrightarrow> length s - n < length s"
  by (cases n; cases s) auto

text \<open>\<open>teranodeCodePrefix\<close>: the code at the head of a line.\<close>

function takeCode :: "string \<Rightarrow> string \<times> string" where
  "takeCode s =
     (if take 2 s = longS then (let (k, r) = takeCode (drop 2 s) in (longS @ k, r))
      else if take 3 s = kelvin then (let (k, r) = takeCode (drop 3 s) in (kelvin @ k, r))
      else case s of
        c # cs \<Rightarrow> if isLower c \<or> isUpper c \<or> c = CHR ''_'' then (let (k, r) = takeCode cs in (c # k, r)) else ([], s)
      | [] \<Rightarrow> ([], []))"
  by pat_completeness auto
termination
  by (relation "measure length") (auto simp: longS_def kelvin_def dest: take_drop_less)

declare takeCode.simps [simp del]

definition teranodeCode :: "string \<Rightarrow> string option" where
  "teranodeCode line =
     (let (k, r) = takeCode (dropWhile isSpace line) in
      if k = [] then None
      else case dropWhile isSpace r of
        b # r1 \<Rightarrow>
          if b = CHR ''('' \<and> takeWhile isDigit r1 \<noteq> [] then
            (case dropWhile isDigit r1 of
               e # r2 \<Rightarrow> if e = CHR '')'' \<and> take 1 (dropWhile isSpace r2) = '':'' then Some k else None
             | [] \<Rightarrow> None)
          else None
      | [] \<Rightarrow> None)"

section \<open>Conflict records\<close>

text \<open>\<open>strings.Split(extra, "\n")\<close>\<close>

fun splitLines :: "string \<Rightarrow> string list" where
  "splitLines [] = [[]]"
| "splitLines (c # cs) =
     (if of_char c = (10 :: nat) then [] # splitLines cs
      else case splitLines cs of l # ls \<Rightarrow> (c # l) # ls | [] \<Rightarrow> [[c]])"

definition contains :: "string \<Rightarrow> string \<Rightarrow> bool" where
  "contains s k \<longleftrightarrow> sublist k s"

definition extraLooksLikeSpendConflict :: "string \<Rightarrow> bool" where
  "extraLooksLikeSpendConflict extra \<longleftrightarrow>
     (let u = ToUpper extra in
      contains u ''UTXO_SPENT'' \<or> contains u ''TX_CONFLICTING'' \<or> contains u ''TX_INVALID_DOUBLE_SPEND'' \<or>
      contains u ''ALREADY SPENT'' \<or> contains u ''DOUBLE SPEND'' \<or> contains u ''DOUBLE_SPEND'') \<or>
     list_ex (\<lambda>line. case teranodeCode line of
        None \<Rightarrow> False
      | Some k \<Rightarrow> ToUpper k \<in> {''UTXO_SPENT'', ''TX_CONFLICTING'', ''TX_INVALID_DOUBLE_SPEND''}) (splitLines extra)"

record spend_conflict_info =
  sc_Conflict :: bool
  sc_Spent :: "outpoint list"
  sc_Spenders :: "string list"

definition asserted :: "sdk \<Rightarrow> string \<times> string \<Rightarrow> outpoint option" where
  "asserted lib m =
     (case NewHashFromHex lib (fst m) of None \<Rightarrow> None | Some txid \<Rightarrow> map_option (Outpoint txid) (ParseUint32 (snd m)))"

definition parseSpendConflictExtra :: "sdk \<Rightarrow> string \<Rightarrow> spend_conflict_info" where
  "parseSpendConflictExtra lib extra =
     (if TrimSpace extra = '''' then \<lparr>sc_Conflict = False, sc_Spent = [], sc_Spenders = []\<rparr>
      else \<lparr>sc_Conflict = extraLooksLikeSpendConflict extra,
            sc_Spent = List.map_filter (asserted lib) (scanOutpoints False extra),
            sc_Spenders = rev (remdups (rev (map ToLower (scanSpenders extra))))\<rparr>)"

definition arcStatusConflict :: int where
  "arcStatusConflict = 466"

definition isSpendConflictRecord :: "sdk \<Rightarrow> tx_record \<Rightarrow> bool" where
  "isSpendConflictRecord lib rec \<longleftrightarrow>
     rec_CompetingTxs rec \<noteq> [] \<or> rec_StatusCode rec = arcStatusConflict \<or> sc_Conflict (parseSpendConflictExtra lib (rec_ExtraInfo rec))"

fun addSpenders :: "string list \<Rightarrow> string list \<Rightarrow> string list" where
  "addSpenders [] out = out"
| "addSpenders (i # ids) out =
     (let t = ToLower (TrimSpace i) in
      if t = '''' \<or> t \<in> set out then addSpenders ids out else addSpenders ids (out @ [t]))"

definition mergeSpenders :: "string list \<Rightarrow> string list \<Rightarrow> string list" where
  "mergeSpenders competing fromExtra = addSpenders fromExtra (addSpenders competing [])"

definition filterReleaseInputs :: "outpoint list \<Rightarrow> outpoint list \<Rightarrow> outpoint list \<times> nat" where
  "filterReleaseInputs all spent =
     (filter (\<lambda>op. op \<notin> set spent) all, length (filter (\<lambda>op. op \<in> set spent) all))"

section \<open>Facts\<close>

lemma hex_word: "isHexDigit c \<Longrightarrow> isWord c"
  by (auto simp: isHexDigit_def isWord_def isLower_def isUpper_def between_def)

lemma matchOutpoint_self:
  assumes "length h = 64" "list_all isHexDigit h" "ds \<noteq> []" "list_all isDigit ds" "post = [] \<or> \<not> isWord (hd post)"
  shows "matchOutpoint (h @ '':'' @ ds @ post) = Some (h, ds, post)"
proof -
  have post: "post = [] \<or> \<not> isDigit (hd post)" using assms(5) by (auto simp: isWord_def)
  then have "takeWhile isDigit post = []" "dropWhile isDigit post = post" by (cases post; simp)+
  then have cut: "takeWhile isDigit (ds @ post) = ds" "dropWhile isDigit (ds @ post) = post"
    using assms(4) by (simp_all add: list_all_iff)
  have "matchHash (h @ '':'' @ ds @ post) = Some (h, CHR '':'' # ds @ post)" using assms(1,2) by (simp add: matchHash_def)
  then show ?thesis unfolding matchOutpoint_def using cut assms(3,5) by (auto simp: Let_def split: list.splits)
qed

text \<open>
  An outpoint the text names is found, wherever it stands: after a byte that is neither a word character nor a
  colon, and before one that is not a word character.
\<close>

lemma scanOutpoints_finds:
  assumes x: "x = h @ '':'' @ ds @ post" "matchOutpoint x = Some (h, ds, post)"
  shows "(if pre = [] then \<not> w else \<not> isWord (last pre) \<and> last pre \<noteq> CHR '':'') \<Longrightarrow> (h, ds) \<in> set (scanOutpoints w (pre @ x))"
proof (induction pre arbitrary: w rule: length_induct)
  case (1 pre)
  show ?case
  proof (cases pre)
    case Nil
    with 1(2) show ?thesis by (simp add: scanOutpoints.simps [of False] x(2))
  next
    case (Cons c cs)
    then have last: "\<not> isWord (last pre)" "last pre \<noteq> CHR '':''" using 1(2) by (simp_all split: if_splits)
    show ?thesis
    proof (cases "if w then None else matchOutpoint (pre @ x)")
      case None
      have "if cs = [] then \<not> isWord c else \<not> isWord (last cs) \<and> last cs \<noteq> CHR '':''" using last Cons by auto
      then have "(h, ds) \<in> set (scanOutpoints (isWord c) (cs @ x))" using 1(1) Cons by simp
      then show ?thesis using None Cons by (simp add: scanOutpoints.simps [of w] split: if_splits)
    next
      case (Some m)
      obtain h' ds' rest where m: "m = (h', ds', rest)" by (cases m)
      then have hit: "matchOutpoint (pre @ x) = Some (h', ds', rest)" using Some by (simp split: if_splits)
      obtain eaten where eaten: "eaten = h' @ '':'' @ ds'" by blast
      then have eat: "pre @ x = eaten @ rest" "last pre \<notin> set eaten" "eaten \<noteq> []"
        using matchOutpoint_split [OF hit] last hex_word by (auto simp: list_all_iff isWord_def)
      have "\<not> length pre \<le> length eaten"
      proof
        assume "length pre \<le> length eaten"
        then have "pre = take (length pre) eaten" using arg_cong [OF eat(1), of "take (length pre)"] by simp
        moreover have "last pre \<in> set pre" using Cons by simp
        ultimately have "last pre \<in> set eaten" by (metis in_set_takeD)
        with eat(2) show False by simp
      qed
      then obtain pre' where pre': "pre = eaten @ pre'" "pre' \<noteq> []" "rest = pre' @ x"
        using eat(1) by (auto simp: append_eq_append_conv2)
      then have "(h, ds) \<in> set (scanOutpoints True rest)" using 1(1) last eat(3) by auto
      then show ?thesis using Some m by (simp add: scanOutpoints.simps [of w])
    qed
  qed
qed

lemma TrimSpace_keeps:
  assumes "c \<in> set s" "\<not> trimmed c" shows "TrimSpace s \<noteq> []"
proof
  assume "TrimSpace s = []"
  then have "\<forall>d \<in> set (dropWhile trimmed s). trimmed d" by (simp add: TrimSpace_def)
  moreover have "s = takeWhile trimmed s @ dropWhile trimmed s" by simp
  ultimately show False using assms by (metis Un_iff set_append set_takeWhileD)
qed

lemma named_outpoint_asserted:
  assumes h: "length h = 64" "list_all isHexDigit h" "NewHashFromHex lib h = Some txid"
    and pre: "pre = [] \<or> (\<not> isWord (last pre) \<and> last pre \<noteq> CHR '':'')" and post: "post = [] \<or> \<not> isWord (hd post)"
  shows "Outpoint txid v \<in> set (sc_Spent (parseSpendConflictExtra lib (pre @ h @ '':'' @ decimal (unat v) @ post)))"
proof -
  let ?ds = "decimal (unat v)"
  let ?x = "h @ '':'' @ ?ds @ post"
  have m: "matchOutpoint ?x = Some (h, ?ds, post)" using h post decimal_facts by (intro matchOutpoint_self) auto
  have found: "(h, ?ds) \<in> set (scanOutpoints False (pre @ ?x))"
    by (rule scanOutpoints_finds [OF _ m]) (use pre in auto)
  have hit: "asserted lib (h, ?ds) = Some (Outpoint txid v)" by (simp add: asserted_def h(3) ParseUint32_decimal)
  have "CHR '':'' \<in> set (pre @ ?x)" by simp
  then have "TrimSpace (pre @ ?x) \<noteq> []" by (rule TrimSpace_keeps) (simp add: trimmed_def isSpace_def)
  then have "sc_Spent (parseSpendConflictExtra lib (pre @ ?x)) = List.map_filter (asserted lib) (scanOutpoints False (pre @ ?x))"
    by (simp add: parseSpendConflictExtra_def)
  moreover have "Outpoint txid v \<in> set (List.map_filter (asserted lib) (scanOutpoints False (pre @ ?x)))"
    unfolding List.map_filter_def comp_def using found hit by (auto intro!: image_eqI [of _ _ "(h, ?ds)"])
  ultimately show ?thesis by simp
qed

lemma mergeSpenders_distinct: "distinct (mergeSpenders as bs) \<and> '''' \<notin> set (mergeSpenders as bs)"
proof -
  have "distinct out \<and> '''' \<notin> set out \<Longrightarrow> distinct (addSpenders ids out) \<and> '''' \<notin> set (addSpenders ids out)" for ids out
    by (induction ids out rule: addSpenders.induct) (auto simp: Let_def)
  then show ?thesis by (simp add: mergeSpenders_def)
qed

lemma addSpenders_keeps: "t \<in> set out \<Longrightarrow> t \<in> set (addSpenders ids out)"
  by (induction ids out rule: addSpenders.induct) (auto simp: Let_def)

lemma addSpenders_all: "i \<in> set ids \<Longrightarrow> ToLower (TrimSpace i) \<noteq> '''' \<Longrightarrow> ToLower (TrimSpace i) \<in> set (addSpenders ids out)"
  by (induction ids out rule: addSpenders.induct) (auto simp: Let_def addSpenders_keeps)

lemma mergeSpenders_all:
  "i \<in> set competing \<union> set fromExtra \<Longrightarrow> ToLower (TrimSpace i) \<noteq> '''' \<Longrightarrow> ToLower (TrimSpace i) \<in> set (mergeSpenders competing fromExtra)"
  unfolding mergeSpenders_def using addSpenders_all addSpenders_keeps by auto

end
