(* ===== verification/Reconciler.thy ===== *)
theory Reconciler
  imports Spend_Conflict
begin

text \<open>
  The reject-to-release reconciler, \<open>src/pkg/storage/reconciler.go\<close>: a pass over the suspect transactions that
  asks arcade again and gives the inputs of the provably dead ones back to the pool.  Logging and the
  cancellation of a context are not modelled.

  Arcade is a parameter.  During a pass each suspect asks at most one question per call site and transaction, so
  an answer is a function of the suspect, the site and the transaction asked for, and nothing more is assumed.
\<close>

section \<open>The oracle and the report\<close>

datatype gettx = TxNotFound | GetTxFailed | NilRecord | GotTx tx_record

datatype site = AskSuspect | AskUnreadable | AskWinner

type_synonym arcade_oracle = "string \<Rightarrow> site \<Rightarrow> string \<Rightarrow> gettx"

record reconciler_report =
  rr_Scanned :: nat
  rr_Released :: nat
  rr_FalsePositive :: nat
  rr_Stuck :: nat
  rr_Ambiguous :: nat
  rr_Cascaded :: nat

definition no_report :: reconciler_report where
  "no_report = \<lparr>rr_Scanned = 0, rr_Released = 0, rr_FalsePositive = 0, rr_Stuck = 0, rr_Ambiguous = 0, rr_Cascaded = 0\<rparr>"

definition Report_Add :: "reconciler_report \<Rightarrow> reconciler_report \<Rightarrow> reconciler_report" where
  "Report_Add r o' =
     \<lparr>rr_Scanned = rr_Scanned r + rr_Scanned o', rr_Released = rr_Released r + rr_Released o',
      rr_FalsePositive = rr_FalsePositive r + rr_FalsePositive o', rr_Stuck = rr_Stuck r + rr_Stuck o',
      rr_Ambiguous = rr_Ambiguous r + rr_Ambiguous o', rr_Cascaded = rr_Cascaded r + rr_Cascaded o'\<rparr>"

section \<open>Holds, failure, escalation\<close>

text \<open>The errors of the two holds are logged and dropped.\<close>

definition freezeChange :: "sdk \<Rightarrow> string \<Rightarrow> prov \<Rightarrow> prov" where
  "freezeChange lib txid p =
     (case changeOutpointsByTxID lib (p_db p) txid of
        Inl _ \<Rightarrow> p
      | Inr ops \<Rightarrow> if ops = [] then p else fst (utxo_call (\<lambda>s. plain_err (Freeze s ops)) p))"

definition unfreezeChange :: "sdk \<Rightarrow> string \<Rightarrow> prov \<Rightarrow> prov" where
  "unfreezeChange lib txid p =
     (case changeOutpointsByTxID lib (p_db p) txid of
        Inl _ \<Rightarrow> p
      | Inr ops \<Rightarrow> if ops = [] then p else fst (utxo_call (\<lambda>s. plain_err (Unfreeze s ops)) p))"

definition txStatusesToFail :: "tx_status list" where
  "txStatusesToFail = [TxStatusUnproven, TxStatusSending, TxStatusUnprocessed, TxStatusNoSend]"

definition failTransactions :: "string \<Rightarrow> unit step" where
  "failTransactions txid =
     tolerate [ErrStatusUpdateSkipped] (on_txs (\<lambda>now rows. UpdateStatusByTxID now rows txid TxStatusFailed txStatusesToFail))"

definition escalateStuck :: "string \<Rightarrow> unit step" where
  "escalateStuck txid =
     DoUnit (andThen (on_known (\<lambda>now rows. TransitionSuspect now rows txid KnownTxStatusStuck)) (\<lambda>_. failTransactions txid))"

definition leaveOrEscalate :: "known_tx \<Rightarrow> time \<Rightarrow> reconciler_report step" where
  "leaveOrEscalate kt maxQuarantine p =
     (case kt_SuspectSince kt of
        None \<Rightarrow> (p, Inr (no_report\<lparr>rr_Ambiguous := 1\<rparr>))
      | Some since \<Rightarrow>
          if now_p p - since \<ge> maxQuarantine then
            (case escalateStuck (kt_TxID kt) (tick_p p) of
               (p', Inr _) \<Rightarrow> (p', Inr (no_report\<lparr>rr_Stuck := 1\<rparr>))
             | (p', Inl e) \<Rightarrow>
                 if e = MetaErr ErrStatusUpdateSkipped \<or> e = MetaErr ErrNotFound then (p', Inr no_report) else (p', Inl e))
          else (tick_p p, Inr (no_report\<lparr>rr_Ambiguous := 1\<rparr>)))"

section \<open>The release plan\<close>

record ref_user =
  ru_reference :: string
  ru_userID :: int

record release_plan =
  rp_txid :: string
  rp_spendingTxID :: hash
  rp_terminalKnown :: req_status
  rp_refs :: "ref_user list"
  rp_realInputs :: "outpoint list"
  rp_phantomInputs :: "outpoint list"
  rp_changeOps :: "outpoint list"

definition sourceTxDead :: "sdk \<Rightarrow> metadb \<Rightarrow> outpoint \<Rightarrow> bool" where
  "sourceTxDead lib db op =
     (case FindByTxID (db_known db) (HashString lib (op_TxID op)) of
        Inr (Some kt) \<Rightarrow> IsTerminalFailure (kt_Status kt) \<or> kt_Status kt = KnownTxStatusStuck
      | _ \<Rightarrow> False)"

definition buildReleasePlan :: "sdk \<Rightarrow> metadb \<Rightarrow> known_tx \<Rightarrow> req_status \<Rightarrow> outpoint list \<Rightarrow> release_plan" where
  "buildReleasePlan lib db kt terminal inputs =
     \<lparr>rp_txid = kt_TxID kt,
      rp_spendingTxID = (case NewHashFromHex lib (kt_TxID kt) of Some h \<Rightarrow> h | None \<Rightarrow> 0),
      rp_terminalKnown = terminal,
      rp_refs = (case FindByTxIDAllUsers (db_txs db) (kt_TxID kt) of
                   Inl _ \<Rightarrow> []
                 | Inr rows \<Rightarrow> map (\<lambda>t. \<lparr>ru_reference = t_Reference t, ru_userID = t_UserID t\<rparr>) rows),
      rp_realInputs = filter (\<lambda>op. \<not> sourceTxDead lib db op) inputs,
      rp_phantomInputs = filter (sourceTxDead lib db) inputs,
      rp_changeOps = (case changeOutpointsByTxID lib db (kt_TxID kt) of Inl _ \<Rightarrow> [] | Inr ops \<Rightarrow> ops)\<rparr>"

text \<open>The gate: a suspect that is no longer suspect has been handled.\<close>

definition gateAndFinalizeStatuses :: "release_plan \<Rightarrow> unit step" where
  "gateAndFinalizeStatuses plan p =
     (case on_known (\<lambda>now rows. TransitionSuspect now rows (rp_txid plan) (rp_terminalKnown plan)) p of
        (p', Inl e) \<Rightarrow>
          (p', Inl (if e = MetaErr ErrStatusUpdateSkipped \<or> e = MetaErr ErrNotFound then ErrAlreadyHandled else e))
      | (p', Inr _) \<Rightarrow> failTransactions (rp_txid plan) p')"

fun releaseRefs :: "ref_user list \<Rightarrow> outpoint list \<Rightarrow> unit step" where
  "releaseRefs [] ops = ret ()"
| "releaseRefs (r # rs) ops = andThen (doReleaseOutpoints (ru_reference r) ops) (\<lambda>_. releaseRefs rs ops)"

definition applyReleaseOpsDirect :: "sdk \<Rightarrow> release_plan \<Rightarrow> nat step" where
  "applyReleaseOpsDirect lib plan =
     andThen (doUnspend (rp_spendingTxID plan) (rp_realInputs plan))
       (\<lambda>_. andThen (releaseRefs (rp_refs plan) (rp_realInputs plan))
       (\<lambda>_. andThen (doRemovePhantom (rp_phantomInputs plan))
       (\<lambda>_. doRemoveMinted lib (rp_spendingTxID plan) (rp_changeOps plan))))"

text \<open>A finished release answers the number of cascaded children, an already finished one \<^const>\<open>None\<close>.\<close>

definition handled_ok :: "'a option step \<Rightarrow> 'a option step" where
  "handled_ok m p =
     (case m p of (p', Inl e) \<Rightarrow> if e = ErrAlreadyHandled then (p', Inr None) else (p', Inl e) | (p', Inr a) \<Rightarrow> (p', Inr a))"

definition releaseDirect :: "sdk \<Rightarrow> release_plan \<Rightarrow> nat option step" where
  "releaseDirect lib plan =
     handled_ok (DoUnit (andThen (gateAndFinalizeStatuses plan)
       (\<lambda>_. andThen (applyReleaseOpsDirect lib plan) (\<lambda>c. ret (Some c)))))"

record outbox_op =
  oo_opType :: string
  oo_chunk :: nat
  oo_payload :: payload

fun releaseOps :: "sdk \<Rightarrow> outpoint list \<Rightarrow> nat \<Rightarrow> ref_user list \<Rightarrow> outbox_op list" where
  "releaseOps lib ops i [] = []"
| "releaseOps lib ops i (r # rs) =
     \<lparr>oo_opType = opReleaseResv, oo_chunk = i,
      oo_payload = no_payload\<lparr>pl_reservation := ru_reference r, pl_ops := encodeOutpoints lib ops\<rparr>\<rparr> # releaseOps lib ops (Suc i) rs"

definition outboxOps :: "sdk \<Rightarrow> release_plan \<Rightarrow> outbox_op list" where
  "outboxOps lib plan =
     (let h = HashString lib (rp_spendingTxID plan) in
      (if rp_realInputs plan = [] then []
       else \<lparr>oo_opType = opUnspend, oo_chunk = 0,
             oo_payload = no_payload\<lparr>pl_spendingTxId := h, pl_ops := encodeOutpoints lib (rp_realInputs plan)\<rparr>\<rparr> #
            releaseOps lib (rp_realInputs plan) 0 (rp_refs plan)) @
      (if rp_phantomInputs plan = [] then []
       else [\<lparr>oo_opType = opRemovePhantom, oo_chunk = 0,
              oo_payload = no_payload\<lparr>pl_ops := encodeOutpoints lib (rp_phantomInputs plan)\<rparr>\<rparr>]) @
      (if rp_changeOps plan = [] then []
       else [\<lparr>oo_opType = opRemoveMinted, oo_chunk = 0,
              oo_payload = no_payload\<lparr>pl_mintTxId := h, pl_ops := encodeOutpoints lib (rp_changeOps plan)\<rparr>\<rparr>]))"

fun enqueueOps :: "bytes \<Rightarrow> outbox_op list \<Rightarrow> unit step" where
  "enqueueOps raw [] = ret ()"
| "enqueueOps raw (op # ops) =
     andThen (on_outbox (\<lambda>now rows. Enqueue now rows raw (oo_opType op) (oo_chunk op) (oo_payload op))) (\<lambda>_. enqueueOps raw ops)"

fun inlineOps :: "sdk \<Rightarrow> bytes \<Rightarrow> outbox_op list \<Rightarrow> nat \<Rightarrow> nat step" where
  "inlineOps lib raw [] n p = (p, Inr n)"
| "inlineOps lib raw (op # ops) n p =
     (case executeOutboxOp lib (oo_opType op) (oo_payload op) p of
        (p', Inl x) \<Rightarrow>
          inlineOps lib raw ops n (fst (on_outbox (\<lambda>_ rows. RecordError rows raw (oo_opType op) (oo_chunk op) (ErrorText lib x)) p'))
      | (p', Inr c) \<Rightarrow>
          inlineOps lib raw ops (n + c) (fst (on_outbox (\<lambda>_ rows. MarkDone rows raw (oo_opType op) (oo_chunk op)) p')))"

definition releaseViaOutbox :: "sdk \<Rightarrow> release_plan \<Rightarrow> nat option step" where
  "releaseViaOutbox lib plan =
     (case encodeTxidToRaw (rp_txid plan) of
        Inl e \<Rightarrow> fail e
      | Inr raw \<Rightarrow>
          handled_ok (andThen (DoUnit (andThen (gateAndFinalizeStatuses plan) (\<lambda>_. enqueueOps raw (outboxOps lib plan))))
            (\<lambda>_ p. case DoUnit (inlineOps lib raw (outboxOps lib plan) 0) p of
                     (p', Inr n) \<Rightarrow> (p', Inr (Some n))
                   | (p', Inl _) \<Rightarrow> (p', Inr (Some 0)))))"

definition releaseVerifiedDead :: "sdk \<Rightarrow> release_plan \<Rightarrow> nat option step" where
  "releaseVerifiedDead lib plan p = (if p_modeA p then releaseDirect lib plan p else releaseViaOutbox lib plan p)"

definition released_report :: "nat option \<Rightarrow> reconciler_report" where
  "released_report c = (case c of None \<Rightarrow> no_report | Some n \<Rightarrow> no_report\<lparr>rr_Released := 1, rr_Cascaded := n\<rparr>)"

section \<open>Winners\<close>

definition txInputs :: "sdk \<Rightarrow> known_tx \<Rightarrow> perr + outpoint list" where
  "txInputs lib kt =
     (if kt_RawTx kt = [] then Inr []
      else case TxInputs lib (kt_RawTx kt) of None \<Rightarrow> Inl BadRawTx | Some ins \<Rightarrow> Inr (sourceOps ins))"

text \<open>A spender is a confirmed winner when arcade calls it mined; its inputs are known when its raw transaction parses.\<close>

definition winnerOf :: "gettx \<Rightarrow> tx_record option" where
  "winnerOf g = (case g of GotTx rec \<Rightarrow> if isMinedClass (rec_Status rec) then Some rec else None | _ \<Rightarrow> None)"

definition readInputs :: "sdk \<Rightarrow> bytes \<Rightarrow> outpoint list option" where
  "readInputs lib raw = (if raw = [] then None else map_option sourceOps (TxInputs lib raw))"

fun localWinnerInputs :: "sdk \<Rightarrow> metadb \<Rightarrow> string list \<Rightarrow> outpoint list \<times> bool" where
  "localWinnerInputs lib db [] = ([], False)"
| "localWinnerInputs lib db (c # cs) =
     (let (ops, found) = localWinnerInputs lib db cs in
      if c = '''' then (ops, found)
      else case FindByTxID (db_known db) c of
        Inr (Some kt) \<Rightarrow> (case readInputs lib (kt_RawTx kt) of Some ins \<Rightarrow> (ins @ ops, True) | None \<Rightarrow> (ops, found))
      | _ \<Rightarrow> (ops, found))"

fun hasConfirmedUnreadableWinner :: "sdk \<Rightarrow> (string \<Rightarrow> gettx) \<Rightarrow> string list \<Rightarrow> bool" where
  "hasConfirmedUnreadableWinner lib ask [] = False"
| "hasConfirmedUnreadableWinner lib ask (c # cs) =
     (if c = '''' then hasConfirmedUnreadableWinner lib ask cs
      else case winnerOf (ask c) of
        None \<Rightarrow> hasConfirmedUnreadableWinner lib ask cs
      | Some rec \<Rightarrow>
          if readInputs lib (rec_RawTx rec) = None then True else hasConfirmedUnreadableWinner lib ask cs)"

text \<open>\<^const>\<open>None\<close> for the answer that no winner is found, or that a winner cannot be read.\<close>

fun findWinnerLoop :: "sdk \<Rightarrow> (string \<Rightarrow> gettx) \<Rightarrow> string list \<Rightarrow> outpoint list \<Rightarrow> bool \<Rightarrow> outpoint list option" where
  "findWinnerLoop lib ask [] consumed anyWinner = (if anyWinner then Some consumed else None)"
| "findWinnerLoop lib ask (c # cs) consumed anyWinner =
     (if c = '''' then findWinnerLoop lib ask cs consumed anyWinner
      else case winnerOf (ask c) of
        None \<Rightarrow> findWinnerLoop lib ask cs consumed anyWinner
      | Some rec \<Rightarrow>
          (case readInputs lib (rec_RawTx rec) of
             None \<Rightarrow> None
           | Some ins \<Rightarrow> findWinnerLoop lib ask cs (consumed @ ins) True))"

definition findWinnerInputs :: "sdk \<Rightarrow> (string \<Rightarrow> gettx) \<Rightarrow> string list \<Rightarrow> outpoint list option" where
  "findWinnerInputs lib ask competing = findWinnerLoop lib ask competing [] False"

section \<open>The branches\<close>

definition deferSuspect :: "sdk \<Rightarrow> known_tx \<Rightarrow> time \<Rightarrow> reconciler_report step" where
  "deferSuspect lib kt maxQuarantine p = leaveOrEscalate kt maxQuarantine (freezeChange lib (kt_TxID kt) p)"

definition spendersOf :: "sdk \<Rightarrow> known_tx \<Rightarrow> tx_record \<Rightarrow> string list" where
  "spendersOf lib kt rec =
     (let competing = (if rec_CompetingTxs rec = [] \<and> kt_CompetingTxs kt \<noteq> [] then kt_CompetingTxs kt else rec_CompetingTxs rec) in
      mergeSpenders competing (sc_Spenders (parseSpendConflictExtra lib (rec_ExtraInfo rec))))"

text \<open>Everything proven spent: named by the text, taken by a readable winner, or taken by a spender of the local ledger.\<close>

definition provenSpent :: "sdk \<Rightarrow> metadb \<Rightarrow> (string \<Rightarrow> gettx) \<Rightarrow> known_tx \<Rightarrow> tx_record \<Rightarrow> outpoint list" where
  "provenSpent lib db ask kt rec =
     sc_Spent (parseSpendConflictExtra lib (rec_ExtraInfo rec)) @
     (case findWinnerInputs lib ask (spendersOf lib kt rec) of Some ins \<Rightarrow> ins | None \<Rightarrow> []) @
     (let (ops, found) = localWinnerInputs lib db (spendersOf lib kt rec) in if found then ops else [])"

definition winnerResolved :: "sdk \<Rightarrow> metadb \<Rightarrow> (string \<Rightarrow> gettx) \<Rightarrow> known_tx \<Rightarrow> tx_record \<Rightarrow> bool" where
  "winnerResolved lib db ask kt rec \<longleftrightarrow>
     findWinnerInputs lib ask (spendersOf lib kt rec) \<noteq> None \<or> snd (localWinnerInputs lib db (spendersOf lib kt rec))"

definition releaseSpendConflict ::
    "sdk \<Rightarrow> (site \<Rightarrow> string \<Rightarrow> gettx) \<Rightarrow> known_tx \<Rightarrow> tx_record \<Rightarrow> time \<Rightarrow> reconciler_report step" where
  "releaseSpendConflict lib ask kt rec maxQuarantine p =
     (let spent = provenSpent lib (p_db p) (ask AskWinner) kt rec in
      if hasConfirmedUnreadableWinner lib (ask AskUnreadable) (spendersOf lib kt rec) then deferSuspect lib kt maxQuarantine p
      else if spent = [] then deferSuspect lib kt maxQuarantine p
      else case txInputs lib kt of
        Inl e \<Rightarrow> (p, Inl e)
      | Inr allInputs \<Rightarrow>
          (let (releaseInputs, held) = filterReleaseInputs allInputs spent in
           if held = 0 then deferSuspect lib kt maxQuarantine p
           else if \<not> winnerResolved lib (p_db p) (ask AskWinner) kt rec \<and> releaseInputs \<noteq> [] then deferSuspect lib kt maxQuarantine p
           else andThen (releaseVerifiedDead lib (buildReleasePlan lib (p_db p) kt ProvenTxStatusDoubleSpend releaseInputs))
                  (\<lambda>c. ret (released_report c)) p))"

definition handleDoubleSpend ::
    "sdk \<Rightarrow> (site \<Rightarrow> string \<Rightarrow> gettx) \<Rightarrow> known_tx \<Rightarrow> tx_record \<Rightarrow> time \<Rightarrow> reconciler_report step" where
  "handleDoubleSpend lib ask kt rec maxQuarantine = releaseSpendConflict lib ask kt rec maxQuarantine"

text \<open>The two passes: the first stamps, a later one that is at least \<open>grace\<close> after the stamp releases.\<close>

definition handleRejected ::
    "sdk \<Rightarrow> (site \<Rightarrow> string \<Rightarrow> gettx) \<Rightarrow> known_tx \<Rightarrow> tx_record \<Rightarrow> time \<Rightarrow> time \<Rightarrow> reconciler_report step" where
  "handleRejected lib ask kt rec grace maxQuarantine p =
     (case kt_VerifiedRejectedAt kt of
        None \<Rightarrow>
          (case on_known (\<lambda>now rows. StampVerifiedRejected now rows (kt_TxID kt) (now_p p)) (tick_p p) of
             (p', Inl e) \<Rightarrow> (p', Inl e)
           | (p', Inr _) \<Rightarrow> (freezeChange lib (kt_TxID kt) p', Inr (no_report\<lparr>rr_Ambiguous := 1\<rparr>)))
      | Some since \<Rightarrow>
          (let p1 = tick_p p in
           if now_p p - since \<ge> grace then
             if isSpendConflictRecord lib rec then releaseSpendConflict lib ask kt rec maxQuarantine p1
             else case txInputs lib kt of
               Inl e \<Rightarrow> (p1, Inl e)
             | Inr inputs \<Rightarrow>
                 andThen (releaseVerifiedDead lib (buildReleasePlan lib (p_db p1) kt ProvenTxStatusInvalid inputs))
                   (\<lambda>c. ret (released_report c)) p1
           else (freezeChange lib (kt_TxID kt) p1, Inr (no_report\<lparr>rr_Ambiguous := 1\<rparr>))))"

definition isRecovered :: "arc_status \<Rightarrow> bool" where
  "isRecovered s \<longleftrightarrow>
     s \<in> {StatusSeenOnNetwork, StatusSeenMultipleNodes, StatusAcceptedByNetwork, StatusMined, StatusImmutable}"

definition handleRecovered :: "sdk \<Rightarrow> chain \<Rightarrow> known_tx \<Rightarrow> tx_record \<Rightarrow> reconciler_report step" where
  "handleRecovered lib ch kt rec p =
     andThen (ApplyStatusUpdate lib ch rec) (\<lambda>_. ret (no_report\<lparr>rr_FalsePositive := 1\<rparr>)) (unfreezeChange lib (kt_TxID kt) p)"

definition reconcileSuspect ::
    "sdk \<Rightarrow> chain \<Rightarrow> (site \<Rightarrow> string \<Rightarrow> gettx) \<Rightarrow> time \<Rightarrow> time \<Rightarrow> known_tx \<Rightarrow> reconciler_report step" where
  "reconcileSuspect lib ch ask grace maxQuarantine kt =
     (case ask AskSuspect (kt_TxID kt) of
        GotTx got \<Rightarrow>
          (let rec = (if rec_TxID got = '''' then got\<lparr>rec_TxID := kt_TxID kt\<rparr> else got) in
           if isRecovered (rec_Status rec) then handleRecovered lib ch kt rec
           else if rec_Status rec = StatusRejected then handleRejected lib ask kt rec grace maxQuarantine
           else if rec_Status rec = StatusDoubleSpendAttempted then handleDoubleSpend lib ask kt rec maxQuarantine
           else leaveOrEscalate kt maxQuarantine)
      | _ \<Rightarrow> leaveOrEscalate kt maxQuarantine)"

text \<open>The failure of one suspect does not end the pass.\<close>

fun suspectLoop ::
    "sdk \<Rightarrow> chain \<Rightarrow> arcade_oracle \<Rightarrow> time \<Rightarrow> time \<Rightarrow> known_tx list \<Rightarrow> reconciler_report \<Rightarrow> reconciler_report step" where
  "suspectLoop lib ch orc grace maxQ [] report p = (p, Inr report)"
| "suspectLoop lib ch orc grace maxQ (kt # kts) report p =
     (let report1 = report\<lparr>rr_Scanned := Suc (rr_Scanned report)\<rparr> in
      case reconcileSuspect lib ch (orc (kt_TxID kt)) grace maxQ kt p of
        (p', Inl _) \<Rightarrow> suspectLoop lib ch orc grace maxQ kts report1 p'
      | (p', Inr sub) \<Rightarrow> suspectLoop lib ch orc grace maxQ kts (Report_Add report1 sub) p')"

definition VerifyAndReleaseSuspects ::
    "sdk \<Rightarrow> chain \<Rightarrow> arcade_oracle option \<Rightarrow> time \<Rightarrow> time \<Rightarrow> int \<Rightarrow> reconciler_report step" where
  "VerifyAndReleaseSuspects lib ch orc grace maxQuarantine limit p =
     (case orc of
        None \<Rightarrow> (p, Inl NoOracle)
      | Some ask \<Rightarrow>
          (let suspects = FindSuspectFailed (now_p p) (db_known (p_db p)) grace (if limit \<le> 0 then defaultMonitorBatchLimit else limit) in
           suspectLoop lib ch ask grace maxQuarantine suspects no_report (tick_p p)))"

end
