(* ===== verification/Sweeps.thy ===== *)
theory Sweeps
  imports Process Abort Reconciler
begin

text \<open>
  The monitor's sweeps over the two stores, the second half of \<open>src/pkg/storage/status_updates.go\<close>: sending what
  waits, reclaiming stale reservations, aborting abandoned actions, polling arcade for statuses and proofs, the
  backfill of mined transactions the wallet wrote off, and the demotion of proofs after a reorganisation.

  The sends and fetches that the source runs with bounded concurrency are run one after the other, in list order.
  Arcade's answer to a poll is a parameter that may depend on the number of clock readings so far.  The counters
  of a sweep feed its log line only and are dropped, as is the cancellation of a context.
\<close>

section \<open>Sending what waits\<close>

text \<open>A row's own ancestry wins; the others are resolved in one query, and a miss is empty.\<close>

definition inputBEEFForBatch :: "metadb \<Rightarrow> known_tx list \<Rightarrow> perr + (string \<Rightarrow> bytes)" where
  "inputBEEFForBatch db kts =
     (let own = (\<lambda>t. case find (\<lambda>k. kt_TxID k = t \<and> kt_InputBEEF k \<noteq> []) (rev kts) of Some k \<Rightarrow> kt_InputBEEF k | None \<Rightarrow> []);
          missing = map kt_TxID (filter (\<lambda>k. kt_InputBEEF k = []) kts) in
      if missing = [] then Inr own
      else case InputBEEFByTxIDs (db_txs db) missing of
        Inl e \<Rightarrow> Inl (MetaErr e)
      | Inr found \<Rightarrow> Inr (\<lambda>t. case map_of found t of Some b \<Rightarrow> b | None \<Rightarrow> own t))"

definition settleWaiting :: "sdk \<Rightarrow> string \<Rightarrow> signed_tx \<Rightarrow> broadcast_answer \<Rightarrow> unit step" where
  "settleWaiting lib txid tx a =
     (case a of
        BroadcastDone res \<Rightarrow>
          if br_Rejected res
          then (\<lambda>q. tolerate [ErrNotFound] (on_known (\<lambda>now rows. MarkSuspect now rows txid (now_p q) [] (br_Status res) (br_ExtraInfo res))) (tick_p q))
          else applyAcceptedBroadcast lib txid tx
      | _ \<Rightarrow> fail ArcadeFailed)"

definition sendOneWaiting :: "sdk \<Rightarrow> net \<Rightarrow> known_tx \<Rightarrow> bytes \<Rightarrow> unit step" where
  "sendOneWaiting lib nt kt beef p =
     (let txid = kt_TxID kt in
      case prepareSend nt txid (kt_RawTx kt) (Inr beef) of
        Inl e \<Rightarrow> (p, Inl e)
      | Inr (tx, ef) \<Rightarrow>
          (case claimForBroadcast txid (kt_Status kt) p of
             (p1, Inl (NotBroadcastable t st)) \<Rightarrow> (p1, Inr ())
           | (p1, Inl e) \<Rightarrow> (p1, Inl e)
           | (p1, Inr claim) \<Rightarrow>
               if claim \<noteq> sendClaimOwned then (p1, Inr ())
               else andThen (broadcastWithBackpressure nt txid ef) (settleWaiting lib txid tx) p1))"

text \<open>The failure of one send does not end the sweep.\<close>

fun sendLoop :: "sdk \<Rightarrow> net \<Rightarrow> (string \<Rightarrow> bytes) \<Rightarrow> known_tx list \<Rightarrow> prov \<Rightarrow> prov" where
  "sendLoop lib nt beefs [] p = p"
| "sendLoop lib nt beefs (kt # kts) p = sendLoop lib nt beefs kts (fst (sendOneWaiting lib nt kt (beefs (kt_TxID kt)) p))"

definition SendWaitingTransactions :: "sdk \<Rightarrow> net \<Rightarrow> int \<Rightarrow> unit step" where
  "SendWaitingTransactions lib nt limit p =
     (let waiting = FindResendable (now_p p) (db_known (p_db p)) resendGrace (if limit \<le> 0 then defaultMonitorBatchLimit else limit);
          p1 = tick_p p in
      if waiting = [] then (p1, Inr ())
      else case inputBEEFForBatch (p_db p1) waiting of
        Inl e \<Rightarrow> (p1, Inl e)
      | Inr beefs \<Rightarrow> (sendLoop lib nt beefs waiting p1, Inr ()))"

section \<open>Stale reservations and abandoned actions\<close>

definition sweepAbortableStatuses :: "tx_status list" where
  "sweepAbortableStatuses = [TxStatusUnsigned, TxStatusNoSend]"

datatype sweepOutcome = sweptSkipped | sweptByAbort | sweptByHeal | sweptOrphan | sweptSkippedInFlight

datatype pinState = refUnpinned | refPinned | refPinUnreadable

fun refPinState :: "outpoint list \<Rightarrow> prov \<Rightarrow> prov \<times> pinState" where
  "refPinState [] p = (p, refUnpinned)"
| "refPinState (op # ops) p =
     (case utxo_call (\<lambda>s. (s, Get s op)) p of
        (p', Inr u) \<Rightarrow> if u_Pinned u then (p', refPinned) else refPinState ops p'
      | (p', Inl (StoreErr e)) \<Rightarrow> if not_found_in e then refPinState ops p' else (p', refPinUnreadable)
      | (p', Inl _) \<Rightarrow> (p', refPinUnreadable))"

definition not_abortable :: "perr \<Rightarrow> bool" where
  "not_abortable e \<longleftrightarrow> e = ErrNotAbortableAction \<or> e = ErrAbortLostToSend"

definition sweepStaleReservation :: "sdk \<Rightarrow> reservation_ref \<Rightarrow> sweepOutcome step" where
  "sweepStaleReservation lib ref p =
     (case FindByReference (db_txs (p_db p)) (rr_UserID ref) (rr_Reservation ref) of
        None \<Rightarrow>
          (case refPinState (rr_Outpoints ref) p of
             (p1, refUnpinned) \<Rightarrow>
               andThen (utxo_call (\<lambda>s. ReleaseReservation s (rr_UserID ref) (rr_Reservation ref))) (\<lambda>_. ret sweptOrphan) p1
           | (p1, _) \<Rightarrow> (p1, Inr sweptSkipped))
      | Some t \<Rightarrow>
          if t_Status t \<in> set sweepAbortableStatuses then
            (case abortTxRow lib (rr_UserID ref) t p of
               (p1, Inl e) \<Rightarrow> if not_abortable e then (p1, Inr sweptSkipped) else (p1, Inl e)
             | (p1, Inr _) \<Rightarrow> (p1, Inr sweptByAbort))
          else if t_Status t = TxStatusAborted then
            andThen (doAbortRelease (rr_UserID ref) (rr_Reservation ref))
              (\<lambda>_ p1. (fst (on_outbox (\<lambda>_ rows. MarkDone rows (abortOutboxKey lib (rr_Reservation ref)) opAbortRelease 0) p1), Inr sweptByHeal)) p
          else if t_Status t = TxStatusCompleted then (p, Inr sweptSkipped)
          else (p, Inr sweptSkippedInFlight))"

fun sweepLoop :: "sdk \<Rightarrow> reservation_ref list \<Rightarrow> prov \<Rightarrow> prov" where
  "sweepLoop lib [] p = p"
| "sweepLoop lib (ref # refs) p = sweepLoop lib refs (fst (sweepStaleReservation lib ref p))"

definition SweepStaleReservations :: "sdk \<Rightarrow> time \<Rightarrow> int \<Rightarrow> unit step" where
  "SweepStaleReservations lib olderThan limit =
     andThen (utxo_call (\<lambda>s. (s, FindStaleReservationsIncludingPinned s olderThan (if limit \<le> 0 then defaultMonitorBatchLimit else limit))))
       (\<lambda>refs p. (sweepLoop lib refs p, Inr ()))"

fun abandonLoop :: "sdk \<Rightarrow> table_transaction list \<Rightarrow> prov \<Rightarrow> prov" where
  "abandonLoop lib [] p = p"
| "abandonLoop lib (t # ts) p = abandonLoop lib ts (fst (abortTxRow lib (t_UserID t) t p))"

definition AbortAbandoned :: "sdk \<Rightarrow> time \<Rightarrow> int \<Rightarrow> unit step" where
  "AbortAbandoned lib olderThan limit p =
     (abandonLoop lib (FindAbandonedBefore (db_txs (p_db p)) olderThan (if limit \<le> 0 then defaultMonitorBatchLimit else limit)) p, Inr ())"

section \<open>Polling arcade\<close>

type_synonym poll_oracle = "nat \<Rightarrow> string \<Rightarrow> gettx"

definition syncStaleness :: time where
  "syncStaleness = 60 * 1000000000"

definition repairSweepBudget :: time where
  "repairSweepBudget = 30 * 1000000000"

definition maxRepairPages :: int where
  "maxRepairPages = 16"

definition pollApplyAttempts :: nat where
  "pollApplyAttempts = 3"

definition pollableStatuses :: "req_status list" where
  "pollableStatuses = [ProvenTxStatusSending, ProvenTxStatusUnprocessed, ProvenTxStatusUnconfirmed, ProvenTxStatusUnmined,
     ProvenTxStatusCallback, ProvenTxStatusReorg]"

definition unprovenStatuses :: "req_status list" where
  "unprovenStatuses = [ProvenTxStatusUnconfirmed, ProvenTxStatusUnmined, ProvenTxStatusCallback]"

fun mergeLoop :: "known_tx list \<Rightarrow> known_tx list \<Rightarrow> known_tx list" where
  "mergeLoop out [] = out"
| "mergeLoop out (k # ks) = mergeLoop (if kt_TxID k \<in> kt_TxID ` set out then out else out @ [k]) ks"

definition mergeKnownTxs :: "known_tx list \<Rightarrow> known_tx list \<Rightarrow> known_tx list" where
  "mergeKnownTxs a b = mergeLoop a b"

text \<open>One answer per row; a row arcade does not know, or whose fetch failed, is left out.\<close>

definition pollRecord :: "(string \<Rightarrow> gettx) \<Rightarrow> string \<Rightarrow> tx_record option" where
  "pollRecord ask txid =
     (case ask txid of GotTx rec \<Rightarrow> Some (if rec_TxID rec = '''' then rec\<lparr>rec_TxID := txid\<rparr> else rec) | _ \<Rightarrow> None)"

definition polled :: "(string \<Rightarrow> gettx) \<Rightarrow> known_tx list \<Rightarrow> tx_record list" where
  "polled ask kts = filter (\<lambda>rec. rec_TxID rec \<noteq> '''') (List.map_filter (\<lambda>k. pollRecord ask (kt_TxID k)) kts)"

fun applyRetry :: "sdk \<Rightarrow> chain \<Rightarrow> tx_record list \<Rightarrow> nat \<Rightarrow> unit step" where
  "applyRetry lib ch batch 0 p = (p, Inr ())"
| "applyRetry lib ch batch (Suc n) p =
     (case ApplyStatusBatch lib ch batch p of
        (p', Inr _) \<Rightarrow> (p', Inr ())
      | (p', Inl e) \<Rightarrow> if n = 0 then (p', Inl e) else applyRetry lib ch batch n p')"

fun applyEach :: "sdk \<Rightarrow> chain \<Rightarrow> tx_record list \<Rightarrow> string list \<Rightarrow> prov \<Rightarrow> prov \<times> string list" where
  "applyEach lib ch [] failed p = (p, failed)"
| "applyEach lib ch (rec # recs) failed p =
     (case ApplyStatusUpdate lib ch rec p of
        (p', Inr _) \<Rightarrow> applyEach lib ch recs failed p'
      | (p', Inl _) \<Rightarrow> applyEach lib ch recs (failed @ [rec_TxID rec]) p')"

definition pollAndApply :: "sdk \<Rightarrow> chain \<Rightarrow> poll_oracle \<Rightarrow> known_tx list \<Rightarrow> unit step" where
  "pollAndApply lib ch orc kts p =
     (if kts = [] then (p, Inr ())
      else
        (let p1 = fst (on_known (\<lambda>now rows. MarkPolled now rows (map kt_TxID kts)) p);
             batch = polled (orc (p_ticks p1)) kts in
         if batch = [] then (p1, Inr ())
         else case applyRetry lib ch batch pollApplyAttempts p1 of
           (p2, Inr _) \<Rightarrow> (p2, Inr ())
         | (p2, Inl e) \<Rightarrow>
             (case applyEach lib ch batch [] p2 of (p3, failed) \<Rightarrow> (p3, if failed = [] then Inr () else Inl e))))"

fun repairPages :: "sdk \<Rightarrow> chain \<Rightarrow> poll_oracle \<Rightarrow> time \<Rightarrow> int \<Rightarrow> time \<Rightarrow> nat \<Rightarrow> unit step" where
  "repairPages lib ch orc cutoff limit deadline 0 p = (p, Inr ())"
| "repairPages lib ch orc cutoff limit deadline (Suc n) p =
     (let p1 = tick_p p; page = FindMissingArcadeStatus (db_known (p_db p1)) cutoff limit pollableStatuses in
      if \<not> now_p p < deadline then (p1, Inr ())
      else if page = [] then (p1, Inr ())
      else case pollAndApply lib ch orc page p1 of
        (p2, Inl e) \<Rightarrow> (p2, Inl e)
      | (p2, Inr _) \<Rightarrow> if int (length page) < limit then (p2, Inr ()) else repairPages lib ch orc cutoff limit deadline n p2)"

definition drainRepairBacklog :: "sdk \<Rightarrow> chain \<Rightarrow> poll_oracle \<Rightarrow> time \<Rightarrow> int \<Rightarrow> nat \<Rightarrow> unit step" where
  "drainRepairBacklog lib ch orc cutoff limit firstPage p =
     (let total = int (CountMissingArcadeStatus (db_known (p_db p)) pollableStatuses);
          pages = (if int firstPage \<ge> limit \<and> total > 0 then min ((total + limit - 1) div limit) maxRepairPages else 0) in
      repairPages lib ch orc cutoff limit (now_p p + repairSweepBudget) (nat pages) (tick_p p))"

definition SynchronizeTransactionStatuses :: "sdk \<Rightarrow> chain \<Rightarrow> poll_oracle \<Rightarrow> int \<Rightarrow> unit step" where
  "SynchronizeTransactionStatuses lib ch orc limit0 p =
     (let limit = (if limit0 \<le> 0 then defaultMonitorBatchLimit else limit0);
          cutoff = now_p p - syncStaleness; p1 = tick_p p;
          stale = FindByStatusOlderThan (db_known (p_db p1)) cutoff limit pollableStatuses;
          stranded = FindMissingArcadeStatus (db_known (p_db p1)) cutoff limit pollableStatuses in
      andThen (pollAndApply lib ch orc (mergeKnownTxs stale stranded))
        (\<lambda>_. if stranded = [] then ret () else drainRepairBacklog lib ch orc cutoff limit (length stranded)) p1)"

section \<open>The backfill of mined transactions the wallet wrote off\<close>

datatype repairOutcome = repairApplied | repairDeferred | repairDisagreed

text \<open>\<open>fromBytes\<close> reads a hash from its 32 stored bytes.\<close>

definition storedProofRecord :: "sdk \<Rightarrow> (bytes \<Rightarrow> hash) \<Rightarrow> known_tx \<Rightarrow> tx_record option" where
  "storedProofRecord lib fromBytes kt =
     (case kt_BlockHeight kt of
        None \<Rightarrow> None
      | Some height \<Rightarrow>
          if kt_MerklePath kt = [] then None
          else Some \<lparr>rec_TxID = kt_TxID kt, rec_Status = StatusMined, rec_StatusCode = 0,
                     rec_BlockHash = (if length (kt_BlockHash kt) = 32 then HashString lib (fromBytes (kt_BlockHash kt)) else ''''),
                     rec_BlockHeight = of_nat height, rec_MerklePath = kt_MerklePath kt, rec_ExtraInfo = '''',
                     rec_CompetingTxs = [], rec_RawTx = []\<rparr>)"

definition driveRepair :: "sdk \<Rightarrow> chain \<Rightarrow> tx_record \<Rightarrow> known_tx \<Rightarrow> repairOutcome step" where
  "driveRepair lib ch rec kt =
     andThen (applyMinedRepair lib ch rec kt) (\<lambda>applied. ret (if applied then repairApplied else repairDeferred))"

definition repairOneMinedFenced ::
    "sdk \<Rightarrow> chain \<Rightarrow> (bytes \<Rightarrow> hash) \<Rightarrow> poll_oracle option \<Rightarrow> known_tx \<Rightarrow> repairOutcome step" where
  "repairOneMinedFenced lib ch fromBytes orc kt p =
     (case storedProofRecord lib fromBytes kt of
        Some rec \<Rightarrow> driveRepair lib ch rec kt p
      | None \<Rightarrow>
          (case orc of
             None \<Rightarrow> (p, Inl NoOracle)
           | Some ask \<Rightarrow>
               (case ask (p_ticks p) (kt_TxID kt) of
                  TxNotFound \<Rightarrow> (p, Inr repairDisagreed)
                | NilRecord \<Rightarrow> (p, Inr repairDisagreed)
                | GetTxFailed \<Rightarrow> (p, Inl ArcadeFailed)
                | GotTx got \<Rightarrow>
                    (let rec = (if rec_TxID got = '''' then got\<lparr>rec_TxID := kt_TxID kt\<rparr> else got) in
                     if \<not> isMinedClass (rec_Status rec)
                     then andThen (recordArcadeStatus (kt_TxID kt) (rec_Status rec)) (\<lambda>_. ret repairDisagreed) p
                     else driveRepair lib ch rec kt p))))"

fun repairLoop :: "sdk \<Rightarrow> chain \<Rightarrow> (bytes \<Rightarrow> hash) \<Rightarrow> poll_oracle option \<Rightarrow> known_tx list \<Rightarrow> prov \<Rightarrow> prov" where
  "repairLoop lib ch fromBytes orc [] p = p"
| "repairLoop lib ch fromBytes orc (kt # kts) p =
     repairLoop lib ch fromBytes orc kts (fst (repairOneMinedFenced lib ch fromBytes orc kt p))"

definition repairMinedFenced :: "sdk \<Rightarrow> chain \<Rightarrow> (bytes \<Rightarrow> hash) \<Rightarrow> poll_oracle option \<Rightarrow> int \<Rightarrow> unit step" where
  "repairMinedFenced lib ch fromBytes orc limit p =
     (let diverged = FindMinedOnDeadTransactions (db_known (p_db p)) (db_txs (p_db p)) minedArcadeStatuses
            (if limit \<le> 0 then defaultMonitorBatchLimit else limit) in
      if diverged = [] then (p, Inr ())
      else (repairLoop lib ch fromBytes orc diverged
              (fst (on_known (\<lambda>now rows. MarkPolled now rows (map kt_TxID diverged)) p)), Inr ()))"

definition CheckProofs :: "sdk \<Rightarrow> chain \<Rightarrow> (bytes \<Rightarrow> hash) \<Rightarrow> poll_oracle \<Rightarrow> int \<Rightarrow> unit step" where
  "CheckProofs lib ch fromBytes orc limit0 p =
     (let limit = (if limit0 \<le> 0 then defaultMonitorBatchLimit else limit0);
          unproven = FindByStatusOlderThan (db_known (p_db p)) (now_p p) limit unprovenStatuses in
      case pollAndApply lib ch orc unproven (tick_p p) of
        (p1, r) \<Rightarrow> (fst (repairMinedFenced lib ch fromBytes (Some orc) limit p1), r))"

section \<open>Reorganisations\<close>

definition demoteProof :: "sdk \<Rightarrow> string \<Rightarrow> unit step" where
  "demoteProof lib txid =
     DoUnit (andThen (tolerate [ErrNotFound] (on_known (\<lambda>now rows. ClearProof now rows txid ProvenTxStatusUnconfirmed)))
       (\<lambda>_. andThen (tolerate [ErrStatusUpdateSkipped] (on_txs (\<lambda>now rows. UpdateStatusByTxID now rows txid TxStatusUnproven [TxStatusCompleted])))
       (\<lambda>_. promoteChangeByTxID lib txid TierUnproven)))"

definition proofStands :: "headers \<Rightarrow> (bytes \<Rightarrow> hash) \<Rightarrow> known_tx \<Rightarrow> bool" where
  "proofStands hd' fromBytes kt \<longleftrightarrow>
     (case kt_BlockHeight kt of
        None \<Rightarrow> True
      | Some height \<Rightarrow> length (kt_MerkleRoot kt) \<noteq> 32 \<or> VerifyMerkleRoot hd' (fromBytes (kt_MerkleRoot kt)) (of_nat height) = Some True)"

fun demoteLoop :: "sdk \<Rightarrow> headers \<Rightarrow> (bytes \<Rightarrow> hash) \<Rightarrow> known_tx list \<Rightarrow> prov \<Rightarrow> prov" where
  "demoteLoop lib hd' fromBytes [] p = p"
| "demoteLoop lib hd' fromBytes (kt # kts) p =
     demoteLoop lib hd' fromBytes kts (if proofStands hd' fromBytes kt then p else fst (demoteProof lib (kt_TxID kt) p))"

definition DemoteReorgedProofs :: "sdk \<Rightarrow> chain \<Rightarrow> (bytes \<Rightarrow> hash) \<Rightarrow> u32 \<Rightarrow> unit step" where
  "DemoteReorgedProofs lib ch fromBytes forkHeight p =
     (case hdrs ch of
        None \<Rightarrow> (p, Inr ())
      | Some hd' \<Rightarrow>
          (demoteLoop lib hd' fromBytes (FindProvenAtOrAbove (db_known (p_db p)) (unat forkHeight) defaultMonitorBatchLimit) p, Inr ()))"

end
