(* ===== verification/Reconciler_Props.thy ===== *)
theory Reconciler_Props
  imports Reconciler Status_Props
begin

text \<open>
  What the reconciler may do to coins: it touches nothing outside the inputs it has evidence for and the dead
  transaction's own change, it releases a transaction once, and the released coins are claimable again.
\<close>

section \<open>The inline loop\<close>

context step_order
begin

lemma in_inlineOps:
  assumes "\<And>f. steps_in R (on_outbox f)" "list_all (\<lambda>op. steps_in R (executeOutboxOp lib (oo_opType op) (oo_payload op))) ops"
  shows "steps_in R (inlineOps lib raw ops n)"
proof -
  have "R p (fst (inlineOps lib raw ops n p))" for p
    using assms(2)
  proof (induction ops arbitrary: n p)
    case (Cons op ops)
    obtain q r where r: "executeOutboxOp lib (oo_opType op) (oo_payload op) p = (q, r)" by force
    have "steps_in R (executeOutboxOp lib (oo_opType op) (oo_payload op))" using Cons.prems by simp
    from steps_inD [OF this r] have "R p q" .
    moreover have "R q (fst (on_outbox f q))" for f using assms(1) by (simp add: steps_in_def)
    ultimately have "R p (fst (on_outbox f q))" for f using trans by blast
    moreover have "R q' (fst (inlineOps lib raw ops m q'))" for m q' using Cons by simp
    ultimately have "R p (fst (inlineOps lib raw ops m (fst (on_outbox f q))))" for m f using trans by blast
    then show ?case using r by (cases r) simp_all
  qed (simp add: refl)
  then show ?thesis by (simp add: steps_in_def)
qed

end

section \<open>Coins outside a set of outpoints\<close>

fun touches :: "outpoint set \<Rightarrow> call \<Rightarrow> bool" where
  "touches T (CallRemove ops force) \<longleftrightarrow> set ops \<subseteq> T"
| "touches T (CallReleaseOutpoints t ops) \<longleftrightarrow> set ops \<subseteq> T"
| "touches T (CallUnspend h ops) \<longleftrightarrow> set ops \<subseteq> T"
| "touches T (CallRemoveByMintTx h ops) \<longleftrightarrow> set ops \<subseteq> T"
| "touches T (CallFreeze ops) \<longleftrightarrow> set ops \<subseteq> T"
| "touches T (CallUnfreeze ops) \<longleftrightarrow> set ops \<subseteq> T"
| "touches T _ \<longleftrightarrow> False"

lemma exec_call_outside:
  assumes "store_inv s" "touches T c" "op \<notin> T" shows "coins (exec_call c s) op = coins s op"
proof -
  have move: "coin_move c (coins s op) (coins (exec_call c s) op)" by (rule exec_call_coin [OF assms(1)])
  show ?thesis
  proof (cases "coins s op")
    case None
    then show ?thesis using move assms(2) by (cases c) (auto simp: coin_move_def split: option.splits)
  next
    case (Some u)
    then have "u_Outpoint u = op" using assms(1) coin_outpoint by blast
    then have "\<not> coin_removed c u" "coin_step c u u' \<Longrightarrow> u' = u" for u'
      using assms(2,3) by (cases c; auto elim: coin_step.cases)+
    then show ?thesis using move Some by (auto simp: coin_move_def split: option.splits)
  qed
qed

lemma path_outside:
  assumes "path (touches T) s s'" "store_inv s" "op \<notin> T" shows "coins s' op = coins s op"
proof -
  have "store_inv s' \<and> coins s' op = coins s op"
    by (rule path_induct [OF assms(1)]) (use assms in \<open>auto simp: exec_call_outside intro: exec_call_inv\<close>)
  then show ?thesis ..
qed

definition outside :: "outpoint set \<Rightarrow> prov \<Rightarrow> prov \<Rightarrow> bool" where
  "outside T = coin_path (touches T)"

lemma outsideD: "outside T p q \<Longrightarrow> store_inv (p_utxo p) \<Longrightarrow> op \<notin> T \<Longrightarrow> coins (p_utxo q) op = coins (p_utxo p) op"
  unfolding outside_def coin_path_def by (rule path_outside)

interpretation out: coin_order "outside T" for T
  unfolding outside_def by (rule cp.coin_order_axioms)

lemma out_call: "(\<And>s. \<exists>c. touches T c \<and> fst (f s) = exec_call c s) \<Longrightarrow> steps_in (outside T) (utxo_call f)"
  unfolding outside_def by (rule cp_call)

lemma out_calls:
  assumes "set ops \<subseteq> T"
  shows "steps_in (outside T) (utxo_call (\<lambda>s. Unspend s h ops))"
    "steps_in (outside T) (utxo_call (\<lambda>s. plain_err (Freeze s ops)))"
    "steps_in (outside T) (utxo_call (\<lambda>s. plain_err (Unfreeze s ops)))"
    "steps_in (outside T) (utxo_call (\<lambda>s. plain_err (ReleaseOutpoints s t ops)))"
    "steps_in (outside T) (utxo_call (\<lambda>s. plain_err (Remove s ops True)))"
    "steps_in (outside T) (utxo_call (\<lambda>s. report_err (RemoveByMintTx s h ops)))"
  by (rule out_call, metis assms exec_call.simps plain_err_fst touches.simps)+

lemma out_primitives:
  assumes "set ops \<subseteq> T"
  shows "steps_in (outside T) (doUnspend h ops)" "steps_in (outside T) (doReleaseOutpoints t ops)"
    "steps_in (outside T) (doRemovePhantom ops)" "steps_in (outside T) (doRemoveMinted lib h ops)"
  using out_calls [OF assms] unfolding doUnspend_def doReleaseOutpoints_def doRemovePhantom_def doRemoveMinted_def
  by (auto intro!: out.in_combined out.in_cascadeChildren)

lemma out_releaseRefs: "set ops \<subseteq> T \<Longrightarrow> steps_in (outside T) (releaseRefs rs ops)"
  by (induction rs) (auto intro!: out.in_combined out_primitives)

lemma out_enqueueOps: "steps_in (outside T) (enqueueOps raw ops)"
  by (induction ops) (auto intro!: out.in_combined out.in_writes)

text \<open>A queued operation on outpoints of a set.\<close>

definition op_within :: "sdk \<Rightarrow> outpoint set \<Rightarrow> outbox_op \<Rightarrow> bool" where
  "op_within lib T op \<longleftrightarrow>
     oo_opType op \<in> {opUnspend, opReleaseResv, opRemovePhantom, opRemoveMinted} \<and>
     (\<exists>ops. set ops \<subseteq> T \<and> pl_ops (oo_payload op) = encodeOutpoints lib ops)"

lemma out_executeOutboxOp:
  assumes "sdk_ok lib" "op_within lib T op" shows "steps_in (outside T) (executeOutboxOp lib (oo_opType op) (oo_payload op))"
proof -
  obtain ops where "set ops \<subseteq> T" and dec: "decodeOutpoints lib (pl_ops (oo_payload op)) = Inr ops"
    using assms by (auto simp: op_within_def decode_encode)
  note prim = out_primitives [OF this(1)]
  show ?thesis using assms(2) unfolding executeOutboxOp_def op_within_def
    by (auto simp: op_types with_ops_def dec intro!: out.in_with_hash out.in_no_cascade prim)
qed

lemma out_inlineOps:
  assumes "sdk_ok lib" "list_all (op_within lib T) ops" shows "steps_in (outside T) (inlineOps lib raw ops n)"
  using assms by (intro out.in_inlineOps out.in_writes) (auto simp: list_all_iff out_executeOutboxOp)

definition plan_ops :: "release_plan \<Rightarrow> outpoint set" where
  "plan_ops plan = set (rp_realInputs plan) \<union> set (rp_phantomInputs plan) \<union> set (rp_changeOps plan)"

lemma outboxOps_within: "list_all (op_within lib (plan_ops plan)) (outboxOps lib plan)"
proof -
  have "list_all (op_within lib (plan_ops plan)) (releaseOps lib (rp_realInputs plan) i rs)" for i rs
    by (induction rs arbitrary: i) (auto simp: op_within_def plan_ops_def)
  then show ?thesis by (auto simp: outboxOps_def Let_def op_within_def plan_ops_def)
qed

lemma out_handled: "steps_in (outside T) m \<Longrightarrow> steps_in (outside T) (handled_ok m)"
  unfolding steps_in_def handled_ok_def by (auto simp: case_prod_unfold split: sum.splits)

lemma out_gate: "steps_in (outside T) (gateAndFinalizeStatuses plan)"
  by (rule out.in_meta)
    (simp add: gateAndFinalizeStatuses_def failTransactions_def tolerate_def on_known_def on_txs_def tick_p_def Let_def case_prod_unfold
      split: sum.splits)

lemma out_releaseVerifiedDead:
  assumes "sdk_ok lib" shows "steps_in (outside (plan_ops plan)) (releaseVerifiedDead lib plan)"
proof -
  let ?T = "plan_ops plan"
  have "set (rp_realInputs plan) \<subseteq> ?T" "set (rp_phantomInputs plan) \<subseteq> ?T" "set (rp_changeOps plan) \<subseteq> ?T"
    by (auto simp: plan_ops_def)
  then have "steps_in (outside ?T) (applyReleaseOpsDirect lib plan)"
    unfolding applyReleaseOpsDirect_def by (intro out.in_andThen out_primitives out_releaseRefs)
  then have A: "steps_in (outside ?T) (releaseDirect lib plan)"
    unfolding releaseDirect_def by (intro out_handled out.in_DoUnit out.in_andThen out_gate out.in_ret)
  have inl: "steps_in (outside ?T) (DoUnit (inlineOps lib raw (outboxOps lib plan) 0))" for raw
    by (intro out.in_DoUnit out_inlineOps assms outboxOps_within)
  have "steps_in (outside ?T) (\<lambda>p. case DoUnit (inlineOps lib raw (outboxOps lib plan) 0) p of
      (p', Inr n) \<Rightarrow> (p', Inr (Some n)) | (p', Inl _) \<Rightarrow> (p', Inr (Some 0)))" for raw
    using inl [of raw] unfolding steps_in_def by (simp add: case_prod_unfold split: sum.splits)
  then have B: "steps_in (outside ?T) (releaseViaOutbox lib plan)"
    unfolding releaseViaOutbox_def
    by (auto intro!: out.in_fail out_handled out.in_andThen out.in_DoUnit out_gate out_enqueueOps split: sum.splits)
  show ?thesis using A B by (simp add: steps_in_def releaseVerifiedDead_def)
qed

section \<open>Status records move coins along calls\<close>

abbreviation moved :: "prov \<Rightarrow> prov \<Rightarrow> bool" where
  "moved \<equiv> coin_path (\<lambda>_. True)"

lemma moved_inv: "moved p q \<Longrightarrow> store_inv (p_utxo p) \<Longrightarrow> store_inv (p_utxo q)"
  unfolding coin_path_def by (rule path_inv)

lemma moved_outside: "outside T p q \<Longrightarrow> moved p q"
  unfolding outside_def coin_path_def path_def by (auto simp: list_all_iff)

lemma moved_calls:
  "steps_in moved (utxo_call (\<lambda>s. Promote s ops t))" "steps_in moved (utxo_call (\<lambda>s. RemoveSpentBy s h))"
  "steps_in moved (utxo_call (\<lambda>s. plain_err (Unfreeze s ops)))"
  by (rule cp_call, metis exec_call.simps plain_err_fst)+

lemma moved_promote: "steps_in moved (promoteChangeByTxID lib x t)"
proof -
  have "steps_in moved (promote ops t)" for ops unfolding promote_def by (auto intro!: cp.in_combined moved_calls)
  then show ?thesis unfolding steps_in_def promoteChangeByTxID_def by (auto simp: cp.refl split: sum.splits)
qed

lemma moved_removeSpentBy: "steps_in moved (removeSpentBy h)"
  unfolding removeSpentBy_def by (intro cp.in_combined moved_calls)

lemma moved_unfreeze: "steps_in moved (unfreezeReminted ops)"
  using moved_calls(3) [of ops] unfolding steps_in_def unfreezeReminted_def
  by (auto simp: case_prod_unfold split: sum.splits perr.splits)

lemma moved_remint: "steps_in moved (remintChangeByTxID lib x t)"
proof -
  have "steps_in moved (batch_call (\<lambda>s. Mint s ms))" for ms by (rule cp_batch) (metis exec_call.simps)
  then have "steps_in moved (andThen (batch_call (\<lambda>s. Mint s ms)) (\<lambda>(errs, merr). case mintVerdict errs merr of
      Some e \<Rightarrow> fail e | None \<Rightarrow> andThen (utxo_call (\<lambda>s. Promote s ops t)) (\<lambda>_. unfreezeReminted ops)))" for ms ops
    by (intro cp.in_andThen) (auto intro!: cp.in_fail cp.in_andThen moved_calls moved_unfreeze split: option.splits)
  then show ?thesis unfolding steps_in_def remintChangeByTxID_def Let_def
    by (auto simp: cp.refl split: sum.splits option.splits)
qed

lemma moved_setArcadeStatus: "steps_in moved (setArcadeStatus x st)" "steps_in moved (recordArcadeStatus x st)"
  unfolding recordArcadeStatus_def setArcadeStatus_def by (intro cp.in_tolerated cp.in_writes)+

lemma moved_appliers:
  "steps_in moved (applySeen lib rec)" "steps_in moved (applyMined lib ch rec)" "steps_in moved (markSuspect rec)"
proof -
  show "steps_in moved (applySeen lib rec)" unfolding applySeen_def Let_def
    by (intro cp.in_DoUnit cp.in_andThen cp.in_tolerated cp.in_writes moved_promote moved_setArcadeStatus)
  have "steps_in moved (commitMined lib rec h height bh mpb rtv)" for h height bh mpb rtv unfolding commitMined_def Let_def
    by (intro cp.in_DoUnit cp.in_andThen cp.in_tolerated cp.in_writes cp.in_setProof moved_promote moved_setArcadeStatus moved_removeSpentBy)
  then show "steps_in moved (applyMined lib ch rec)" unfolding applyMined_def
    by (auto intro!: cp.in_ret cp.in_fail split: option.splits bool.splits)
  show "steps_in moved (markSuspect rec)"
    by (rule cp.in_meta) (simp add: markSuspect_def tolerate_def on_known_def tick_p_def Let_def case_prod_unfold split: sum.splits)
qed

lemma moved_commitMinedRepair: "steps_in moved (commitMinedRepair lib kt pr)"
proof -
  have "steps_in moved (DoUnit (andThen (factSpendMinedInputs lib kt (pf_txidHash pr) res)
        (\<lambda>_. andThen (case row of None \<Rightarrow> ret () | Some t \<Rightarrow> markInputsSpentFromRaw lib t (kt_RawTx kt))
        (\<lambda>_. andThen (setProof (kt_TxID kt) (pf_height pr) (pf_blockHash pr) (pf_mpBytes pr) (pf_root pr))
        (\<lambda>_. andThen (tolerate [ErrStatusUpdateSkipped] (on_txs upd))
        (\<lambda>_. andThen (on_txs clr)
        (\<lambda>_. andThen (remintChangeByTxID lib (kt_TxID kt) TierMined)
        (\<lambda>_. removeSpentBy (pf_txidHash pr)))))))))" for res row upd clr
    by (intro cp.in_DoUnit cp.in_andThen cp.in_tolerated cp.in_writes factSpend_path cp.in_setProof moved_remint moved_removeSpentBy)
      (auto intro!: cp.in_ret cp.in_markInputsSpentFromRaw split: option.splits)
  then show ?thesis by (simp add: steps_in_def commitMinedRepair_def Let_def)
qed

lemma moved_repair: "steps_in moved (applyMinedRepair lib ch rec kt)"
  unfolding applyMinedRepair_def
  by (auto intro!: cp.in_ret cp.in_fail cp.in_andThen moved_commitMinedRepair moved_setArcadeStatus split: option.splits)

lemma moved_ApplyStatusUpdate: "steps_in moved (ApplyStatusUpdate lib ch rec)"
proof (unfold steps_in_def, intro allI)
  fix p
  have "steps_in moved (andThen (applyMinedRepair lib ch rec kt) (\<lambda>_. ret ()))" for kt
    by (intro cp.in_andThen moved_repair cp.in_ret)
  then have "moved p (fst (andThen (applyMinedRepair lib ch rec kt) (\<lambda>_. ret ()) p))" for kt by (simp add: steps_in_def)
  moreover have "moved p (fst (applySeen lib rec p))" "moved p (fst (applyMined lib ch rec p))" "moved p (fst (markSuspect rec p))"
      "\<And>st. moved p (fst (recordArcadeStatus (rec_TxID rec) st p))"
    using moved_appliers moved_setArcadeStatus(2) by (auto simp: steps_in_def)
  ultimately have "moved p (fst (ApplyStatusUpdate lib ch rec p))" if "FindByTxID (db_known (p_db p)) (rec_TxID rec) = Inr (Some kt)" for kt
    unfolding ApplyStatusUpdate_def Let_def applyRejected_def applyPendingRetry_def that by (simp add: cp.refl)
  moreover have "moved p (fst (ApplyStatusUpdate lib ch rec p))" if "\<nexists>kt. FindByTxID (db_known (p_db p)) (rec_TxID rec) = Inr (Some kt)"
    using that by (auto simp: ApplyStatusUpdate_def Let_def cp.refl split: sum.splits option.splits)
  ultimately show "moved p (fst (ApplyStatusUpdate lib ch rec p))" by blast
qed

section \<open>Evidence\<close>

definition own_change :: "sdk \<Rightarrow> metadb \<Rightarrow> string \<Rightarrow> outpoint set" where
  "own_change lib db txid = (case changeOutpointsByTxID lib db txid of Inl _ \<Rightarrow> {} | Inr ops \<Rightarrow> set ops)"

definition consumes :: "sdk \<Rightarrow> bytes \<Rightarrow> outpoint \<Rightarrow> bool" where
  "consumes lib raw op \<longleftrightarrow> (\<exists>ins. readInputs lib raw = Some ins \<and> op \<in> set ins)"

text \<open>
  An input is taken when the record names it as spent, when a mined spender consumes it, or when a spender the
  local ledger has the bytes of consumes it.
\<close>

definition taken_by :: "sdk \<Rightarrow> metadb \<Rightarrow> (string \<Rightarrow> gettx) \<Rightarrow> outpoint \<Rightarrow> string \<Rightarrow> bool" where
  "taken_by lib db ask op c \<longleftrightarrow>
     (\<exists>w. winnerOf (ask c) = Some w \<and> consumes lib (rec_RawTx w) op) \<or>
     (\<exists>k. FindByTxID (db_known db) c = Inr (Some k) \<and> consumes lib (kt_RawTx k) op)"

definition taken :: "sdk \<Rightarrow> metadb \<Rightarrow> (string \<Rightarrow> gettx) \<Rightarrow> known_tx \<Rightarrow> tx_record \<Rightarrow> outpoint \<Rightarrow> bool" where
  "taken lib db ask kt rec op \<longleftrightarrow>
     op \<in> set (sc_Spent (parseSpendConflictExtra lib (rec_ExtraInfo rec))) \<or>
     list_ex (taken_by lib db ask op) (spendersOf lib kt rec)"

lemma findWinnerLoop_keeps:
  assumes "\<not> hasConfirmedUnreadableWinner lib ask cs"
  shows "\<exists>ops. findWinnerLoop lib ask cs acc True = Some ops \<and> set acc \<subseteq> set ops"
  using assms
proof (induction cs arbitrary: acc)
  case (Cons c cs)
  show ?case
  proof (cases "c = '''' \<or> winnerOf (ask c) = None")
    case False
    then obtain w where w: "winnerOf (ask c) = Some w" "c \<noteq> ''''" by auto
    then obtain ins where "readInputs lib (rec_RawTx w) = Some ins" using Cons.prems by (auto split: if_splits)
    moreover have "\<not> hasConfirmedUnreadableWinner lib ask cs" using Cons.prems w by (auto split: if_splits)
    ultimately show ?thesis using Cons.IH [of "acc @ ins"] w by auto
  qed (use Cons in auto)
qed simp

lemma findWinnerLoop_finds:
  assumes "\<not> hasConfirmedUnreadableWinner lib ask cs" "c \<in> set cs" "c \<noteq> ''''" "winnerOf (ask c) = Some w" "consumes lib (rec_RawTx w) op"
  shows "\<exists>ops. findWinnerLoop lib ask cs acc b = Some ops \<and> op \<in> set ops"
  using assms(1,2)
proof (induction cs arbitrary: acc b)
  case (Cons c' cs)
  have rest: "\<not> hasConfirmedUnreadableWinner lib ask cs" using Cons.prems(1) by (auto split: if_splits option.splits)
  show ?case
  proof (cases "c' = c")
    case True
    obtain ins where "readInputs lib (rec_RawTx w) = Some ins" "op \<in> set ins" using assms(5) by (auto simp: consumes_def)
    with findWinnerLoop_keeps [OF rest, of "acc @ ins"] assms(3,4) True show ?thesis by fastforce
  next
    case False
    with Cons rest show ?thesis by (auto split: option.splits if_splits)
  qed
qed simp

lemma localWinnerInputs_finds:
  "c \<in> set cs \<Longrightarrow> c \<noteq> '''' \<Longrightarrow> FindByTxID (db_known db) c = Inr (Some k) \<Longrightarrow> consumes lib (kt_RawTx k) op \<Longrightarrow>
   snd (localWinnerInputs lib db cs) \<and> op \<in> set (fst (localWinnerInputs lib db cs))"
  by (induction cs) (auto simp: consumes_def case_prod_unfold Let_def split: sum.splits option.splits)

lemma taken_proven:
  assumes "\<not> hasConfirmedUnreadableWinner lib ask (spendersOf lib kt rec)" "taken lib db ask kt rec op"
  shows "op \<in> set (provenSpent lib db ask kt rec)"
proof -
  have ne: "c \<noteq> ''''" if "c \<in> set (spendersOf lib kt rec)" for c
    using that mergeSpenders_distinct by (auto simp: spendersOf_def Let_def)
  have "op \<in> set (provenSpent lib db ask kt rec)" if "c \<in> set (spendersOf lib kt rec)" "taken_by lib db ask op c" for c
    using that(2) findWinnerLoop_finds [OF assms(1) that(1) ne [OF that(1)], of _ op "[]" False]
      localWinnerInputs_finds [OF that(1) ne [OF that(1)], of db _ lib op]
    by (auto simp: taken_by_def provenSpent_def findWinnerInputs_def case_prod_unfold)
  then show ?thesis using assms(2) by (auto simp: taken_def list_ex_iff provenSpent_def)
qed

section \<open>The branches stay within their evidence\<close>

lemma build_ops: "plan_ops (buildReleasePlan lib db kt st inputs) = set inputs \<union> own_change lib db (kt_TxID kt)"
  by (auto simp: plan_ops_def buildReleasePlan_def own_change_def split: sum.splits)

lemma out_holds:
  "own_change lib (p_db p) x \<subseteq> T \<Longrightarrow> outside T p (freezeChange lib x p)"
  "own_change lib (p_db p) x \<subseteq> T \<Longrightarrow> outside T p (unfreezeChange lib x p)"
  using out_calls(2,3) unfolding own_change_def freezeChange_def unfreezeChange_def
  by (auto simp: out.refl steps_in_def split: sum.splits)

lemma out_leave: "outside T p (fst (leaveOrEscalate kt maxQ p))"
proof -
  have "steps_in (outside T) (failTransactions x)" for x
    unfolding failTransactions_def by (intro out.in_tolerated out.in_writes)
  then have "steps_in (outside T) (escalateStuck x)" for x
    unfolding escalateStuck_def by (intro out.in_DoUnit out.in_andThen out.in_writes)
  then have "outside T (tick_p p) (fst (escalateStuck (kt_TxID kt) (tick_p p)))" by (simp add: steps_in_def)
  then have esc: "outside T p (fst (escalateStuck (kt_TxID kt) (tick_p p)))" by (rule out.trans [OF out.tick])
  have "fst (leaveOrEscalate kt maxQ p) \<in> {p, tick_p p, fst (escalateStuck (kt_TxID kt) (tick_p p))}"
    by (simp add: leaveOrEscalate_def case_prod_unfold split: option.splits sum.splits)
  then show ?thesis using esc out.tick out.refl by auto
qed

lemma out_defer: "own_change lib (p_db p) (kt_TxID kt) \<subseteq> T \<Longrightarrow> outside T p (fst (deferSuspect lib kt maxQ p))"
  unfolding deferSuspect_def by (rule out.trans [OF out_holds(1) out_leave])

lemma out_release:
  assumes "sdk_ok lib"
  shows "outside (set inputs \<union> own_change lib db (kt_TxID kt)) p
    (fst (andThen (releaseVerifiedDead lib (buildReleasePlan lib db kt st inputs)) (\<lambda>c. ret (released_report c)) p))"
proof -
  have "steps_in (outside (set inputs \<union> own_change lib db (kt_TxID kt)))
      (andThen (releaseVerifiedDead lib (buildReleasePlan lib db kt st inputs)) (\<lambda>c. ret (released_report c)))"
    using out_releaseVerifiedDead [OF assms, of "buildReleasePlan lib db kt st inputs"]
    unfolding build_ops by (intro out.in_andThen out.in_ret)
  then show ?thesis by (simp add: steps_in_def)
qed

text \<open>
  What licenses the reconciler to touch an input of a suspect: two rejections at least \<open>grace\<close> apart, or a double
  spend; and in a conflict, that the input is not taken and that some spender has been read.
\<close>

definition licensed :: "sdk \<Rightarrow> (site \<Rightarrow> string \<Rightarrow> gettx) \<Rightarrow> time \<Rightarrow> known_tx \<Rightarrow> prov \<Rightarrow> outpoint \<Rightarrow> bool" where
  "licensed lib ask grace kt q op \<longleftrightarrow>
     (\<exists>rec ins. ask AskSuspect (kt_TxID kt) = GotTx rec \<and> txInputs lib kt = Inr ins \<and> op \<in> set ins \<and>
        (rec_Status rec = StatusDoubleSpendAttempted \<or>
         rec_Status rec = StatusRejected \<and> (\<exists>since. kt_VerifiedRejectedAt kt = Some since \<and> grace \<le> now_p q - since)) \<and>
        (rec_Status rec = StatusRejected \<and> \<not> isSpendConflictRecord lib rec \<or>
         \<not> taken lib (p_db q) (ask AskWinner) kt rec op \<and> winnerResolved lib (p_db q) (ask AskWinner) kt rec))"

definition recovered :: "(site \<Rightarrow> string \<Rightarrow> gettx) \<Rightarrow> known_tx \<Rightarrow> bool" where
  "recovered ask kt \<longleftrightarrow> (\<exists>rec. ask AskSuspect (kt_TxID kt) = GotTx rec \<and> isRecovered (rec_Status rec))"

lemma conflict_within:
  assumes ok: "sdk_ok lib" and same: "ask AskUnreadable = ask AskWinner" and inv: "store_inv (p_utxo p)"
    and changed: "coins (p_utxo (fst (releaseSpendConflict lib ask kt rec maxQ p))) op \<noteq> coins (p_utxo p) op"
    and op: "op \<notin> own_change lib (p_db p) (kt_TxID kt)"
  shows "\<exists>ins. txInputs lib kt = Inr ins \<and> op \<in> set ins \<and> \<not> taken lib (p_db p) (ask AskWinner) kt rec op \<and>
    winnerResolved lib (p_db p) (ask AskWinner) kt rec"
proof -
  let ?spent = "provenSpent lib (p_db p) (ask AskWinner) kt rec"
  have kept: "coins (p_utxo (fst (deferSuspect lib kt maxQ p))) op = coins (p_utxo p) op"
    by (rule outsideD [OF out_defer [OF order_refl] inv op])
  have run: "releaseSpendConflict lib ask kt rec maxQ p \<noteq> deferSuspect lib kt maxQ p" "releaseSpendConflict lib ask kt rec maxQ p \<noteq> (p, Inl e)" for e
    using changed kept by auto
  then obtain ins where ins: "txInputs lib kt = Inr ins"
    by (cases "txInputs lib kt") (auto simp: releaseSpendConflict_def Let_def split: if_splits)
  define out' where "out' = filter (\<lambda>op. op \<notin> set ?spent) ins"
  have readable: "\<not> hasConfirmedUnreadableWinner lib (ask AskWinner) (spendersOf lib kt rec)"
    and winner: "winnerResolved lib (p_db p) (ask AskWinner) kt rec \<or> out' = []"
    and go: "releaseSpendConflict lib ask kt rec maxQ p =
      andThen (releaseVerifiedDead lib (buildReleasePlan lib (p_db p) kt ProvenTxStatusDoubleSpend out')) (\<lambda>c. ret (released_report c)) p"
    using run(1) same by (auto simp: releaseSpendConflict_def Let_def ins filterReleaseInputs_def out'_def split: if_splits)
  have mem: "op \<in> set out'"
    using changed op outsideD [OF out_release [OF ok, of out' "p_db p" kt p ProvenTxStatusDoubleSpend] inv, of op] unfolding go by auto
  then have "winnerResolved lib (p_db p) (ask AskWinner) kt rec" using winner by auto
  then show ?thesis using mem ins taken_proven [OF readable, of "p_db p" op] by (auto simp: out'_def)
qed

lemma spenders_txid [simp]:
  "spendersOf lib kt (rec\<lparr>rec_TxID := x\<rparr>) = spendersOf lib kt rec"
  "isSpendConflictRecord lib (rec\<lparr>rec_TxID := x\<rparr>) = isSpendConflictRecord lib rec"
  "taken lib db ask kt (rec\<lparr>rec_TxID := x\<rparr>) op = taken lib db ask kt rec op"
  "winnerResolved lib db ask kt (rec\<lparr>rec_TxID := x\<rparr>) = winnerResolved lib db ask kt rec"
  by (simp_all add: spendersOf_def isSpendConflictRecord_def taken_def winnerResolved_def)

lemma rejected_within:
  assumes ok: "sdk_ok lib" and same: "ask AskUnreadable = ask AskWinner" and inv: "store_inv (p_utxo p)"
    and changed: "coins (p_utxo (fst (handleRejected lib ask kt rec grace maxQ p))) op \<noteq> coins (p_utxo p) op"
    and op: "op \<notin> own_change lib (p_db p) (kt_TxID kt)"
  shows "(\<exists>since. kt_VerifiedRejectedAt kt = Some since \<and> grace \<le> now_p p - since) \<and> (\<exists>ins. txInputs lib kt = Inr ins \<and> op \<in> set ins \<and>
    (\<not> isSpendConflictRecord lib rec \<or> \<not> taken lib (p_db p) (ask AskWinner) kt rec op \<and> winnerResolved lib (p_db p) (ask AskWinner) kt rec))"
proof -
  let ?out = "outside (own_change lib (p_db p) (kt_TxID kt))"
  have still: False if "?out p (fst (handleRejected lib ask kt rec grace maxQ p))"
    using outsideD [OF that inv op] changed by simp
  show ?thesis
  proof (cases "kt_VerifiedRejectedAt kt")
    case None
    obtain q r where r: "on_known (\<lambda>now rows. StampVerifiedRejected now rows (kt_TxID kt) (now_p p)) (tick_p p) = (q, r)" by force
    then have "?out p q" using out.trans [OF out.tick steps_inD [OF out.in_writes(1) r]] by simp
    moreover have "db_txs (p_db q) = db_txs (p_db p)" "db_outputs (p_db q) = db_outputs (p_db p)"
      using r by (auto simp: on_known_def Let_def case_prod_unfold tick_p_def)
    then have "own_change lib (p_db q) (kt_TxID kt) = own_change lib (p_db p) (kt_TxID kt)"
      by (simp add: own_change_def changeOutpointsByTxID_def changeOutpointsByTxIDs_def)
    then have "?out q (freezeChange lib (kt_TxID kt) q)" by (intro out_holds) simp
    ultimately have "?out p q" "?out p (freezeChange lib (kt_TxID kt) q)" using out.trans by blast+
    moreover have "fst (handleRejected lib ask kt rec grace maxQ p) \<in> {q, freezeChange lib (kt_TxID kt) q}"
      using r by (cases r) (simp_all add: handleRejected_def None)
    ultimately have "?out p (fst (handleRejected lib ask kt rec grace maxQ p))" by auto
    then show ?thesis using still by blast
  next
    case (Some since)
    have tick: "p_db (tick_p p) = p_db p" "p_utxo (tick_p p) = p_utxo p" by (simp_all add: tick_p_def)
    show ?thesis
    proof (cases "grace \<le> now_p p - since")
      case False
      then have "?out p (fst (handleRejected lib ask kt rec grace maxQ p))"
        using out.trans [OF out.tick out_holds(1)] by (simp add: handleRejected_def Some Let_def tick)
      then show ?thesis using still by blast
    next
      case True
      show ?thesis
      proof (cases "isSpendConflictRecord lib rec")
        case conflict: True
        with changed Some True have "coins (p_utxo (fst (releaseSpendConflict lib ask kt rec maxQ (tick_p p)))) op \<noteq> coins (p_utxo (tick_p p)) op"
          by (simp add: handleRejected_def Let_def tick)
        from conflict_within [OF ok same _ this] inv op Some True show ?thesis by (auto simp: tick)
      next
        case pure: False
        obtain ins where ins: "txInputs lib kt = Inr ins"
          using changed Some True pure by (cases "txInputs lib kt") (simp_all add: handleRejected_def Let_def tick)
        have "op \<in> set ins"
          using changed op outsideD [OF out_release [OF ok, of ins "p_db p" kt "tick_p p" ProvenTxStatusInvalid], of op] inv Some True pure
          by (auto simp: handleRejected_def Let_def tick ins)
        then show ?thesis using ins Some True pure by simp
      qed
    qed
  qed
qed

lemma suspect_within:
  assumes ok: "sdk_ok lib" and same: "ask AskUnreadable = ask AskWinner" and inv: "store_inv (p_utxo p)"
    and changed: "coins (p_utxo (fst (reconcileSuspect lib ch ask grace maxQ kt p))) op \<noteq> coins (p_utxo p) op"
  shows "recovered ask kt \<or> op \<in> own_change lib (p_db p) (kt_TxID kt) \<or> licensed lib ask grace kt p op"
proof (rule ccontr)
  assume none: "\<not> ?thesis"
  then have op: "op \<notin> own_change lib (p_db p) (kt_TxID kt)" by simp
  have left: "coins (p_utxo (fst (leaveOrEscalate kt maxQ p))) op = coins (p_utxo p) op"
    by (rule outsideD [OF out_leave [of "{}"] inv]) simp
  then obtain got where got: "ask AskSuspect (kt_TxID kt) = GotTx got"
    using changed by (cases "ask AskSuspect (kt_TxID kt)") (simp_all add: reconcileSuspect_def)
  define rec where "rec = (if rec_TxID got = '''' then got\<lparr>rec_TxID := kt_TxID kt\<rparr> else got)"
  have st: "rec_Status rec = rec_Status got" and nr: "\<not> isRecovered (rec_Status rec)"
    using none got by (auto simp: rec_def recovered_def)
  have eqs: "isSpendConflictRecord lib rec = isSpendConflictRecord lib got" "taken lib db f kt rec op = taken lib db f kt got op"
    "winnerResolved lib db f kt rec = winnerResolved lib db f kt got" for db f by (simp_all add: rec_def)
  have run: "reconcileSuspect lib ch ask grace maxQ kt = (if rec_Status rec = StatusRejected then handleRejected lib ask kt rec grace maxQ
      else if rec_Status rec = StatusDoubleSpendAttempted then handleDoubleSpend lib ask kt rec maxQ else leaveOrEscalate kt maxQ)"
    using got nr by (simp add: reconcileSuspect_def rec_def [symmetric] Let_def)
  consider "rec_Status rec = StatusRejected" | "rec_Status rec = StatusDoubleSpendAttempted" "rec_Status rec \<noteq> StatusRejected"
    using changed left run by (auto split: if_splits)
  then have "licensed lib ask grace kt p op"
  proof cases
    case 1
    then have "coins (p_utxo (fst (handleRejected lib ask kt rec grace maxQ p))) op \<noteq> coins (p_utxo p) op" using changed run by simp
    from rejected_within [OF ok same inv this op] 1 got show ?thesis unfolding licensed_def eqs st by blast
  next
    case 2
    then have "coins (p_utxo (fst (releaseSpendConflict lib ask kt rec maxQ p))) op \<noteq> coins (p_utxo p) op"
      using changed run by (simp add: handleDoubleSpend_def)
    from conflict_within [OF ok same inv this op] 2 got show ?thesis unfolding licensed_def eqs st by blast
  qed
  with none show False by simp
qed

lemma moved_reconcile:
  assumes ok: "sdk_ok lib" shows "moved p (fst (reconcileSuspect lib ch ask grace maxQ kt p))"
proof -
  have all: "outside UNIV p q \<Longrightarrow> moved p q" for p q by (rule moved_outside)
  have rel: "moved q (fst (andThen (releaseVerifiedDead lib (buildReleasePlan lib db kt st inputs)) (\<lambda>c. ret (released_report c)) q))" for q db st inputs
    using out_release [OF ok] by (rule moved_outside)
  have fr: "moved q (freezeChange lib x q)" "moved q (unfreezeChange lib x q)" for x q by (rule all, rule out_holds, simp)+
  have lv: "moved q (fst (leaveOrEscalate kt maxQ q))" "moved q (fst (deferSuspect lib kt maxQ q))" for q
    using out_leave out_defer [of lib q kt UNIV] by (auto intro!: all)
  have con: "moved q (fst (releaseSpendConflict lib ask kt rec maxQ q))" for rec q
    using rel lv by (simp add: releaseSpendConflict_def Let_def case_prod_unfold cp.refl split: sum.splits)
  have rej: "moved q (fst (handleRejected lib ask kt rec grace maxQ q))" for rec q
  proof -
    have "moved q (fst (on_known f (tick_p q)))" for f
      using cp.trans [OF cp.tick] cp.in_writes(1) by (simp add: steps_in_def)
    then have "moved q (fst (on_known f (tick_p q)))" "moved q (freezeChange lib (kt_TxID kt) (fst (on_known f (tick_p q))))" for f
      using cp.trans fr(1) by blast+
    moreover have "moved q (fst (releaseSpendConflict lib ask kt rec maxQ (tick_p q)))" by (rule cp.trans [OF cp.tick con])
    moreover have "moved q (freezeChange lib (kt_TxID kt) (tick_p q))" by (rule cp.trans [OF cp.tick fr(1)])
    moreover have "moved q (fst (andThen (releaseVerifiedDead lib (buildReleasePlan lib db kt st inputs)) (\<lambda>c. ret (released_report c)) (tick_p q)))"
      for db st inputs by (rule cp.trans [OF cp.tick rel])
    ultimately show ?thesis
      by (simp add: handleRejected_def Let_def case_prod_unfold cp.tick split: option.splits sum.splits)
  qed
  have "moved p (fst (handleRecovered lib ch kt rec p))" for rec
  proof -
    have "steps_in moved (andThen (ApplyStatusUpdate lib ch rec) (\<lambda>_. ret (no_report\<lparr>rr_FalsePositive := 1\<rparr>)))"
      by (intro cp.in_andThen moved_ApplyStatusUpdate cp.in_ret)
    then have "moved q (fst (andThen (ApplyStatusUpdate lib ch rec) (\<lambda>_. ret (no_report\<lparr>rr_FalsePositive := 1\<rparr>)) q))" for q
      unfolding steps_in_def ..
    then show ?thesis unfolding handleRecovered_def by (rule cp.trans [OF fr(2)])
  qed
  then show ?thesis using rej con lv
    by (simp add: reconcileSuspect_def handleDoubleSpend_def Let_def split: gettx.splits)
qed

lemma suspectLoop_fold:
  "fst (suspectLoop lib ch orc grace maxQ kts rep p) = foldl (\<lambda>q kt. fst (reconcileSuspect lib ch (orc (kt_TxID kt)) grace maxQ kt q)) p kts"
proof (induction kts arbitrary: rep p)
  case (Cons kt kts)
  obtain q r where "reconcileSuspect lib ch (orc (kt_TxID kt)) grace maxQ kt p = (q, r)" by force
  then show ?case using Cons by (cases r) (simp_all add: Let_def)
qed simp

lemma loop_within:
  assumes ok: "sdk_ok lib" and same: "\<And>t. orc t AskUnreadable = orc t AskWinner" and inv: "store_inv (p_utxo p)"
    and changed: "coins (p_utxo (fst (suspectLoop lib ch orc grace maxQ kts rep p))) op \<noteq> coins (p_utxo p) op"
  shows "\<exists>before kt after q. kts = before @ kt # after \<and> q = fst (suspectLoop lib ch orc grace maxQ before rep p) \<and>
    (recovered (orc (kt_TxID kt)) kt \<or> op \<in> own_change lib (p_db q) (kt_TxID kt) \<or> licensed lib (orc (kt_TxID kt)) grace kt q op)"
proof -
  define f where "f = (\<lambda>q kt. fst (reconcileSuspect lib ch (orc (kt_TxID kt)) grace maxQ kt q))"
  have "\<exists>before kt after. kts = before @ kt # after \<and> (recovered (orc (kt_TxID kt)) kt \<or>
      op \<in> own_change lib (p_db (foldl f p before)) (kt_TxID kt) \<or> licensed lib (orc (kt_TxID kt)) grace kt (foldl f p before) op)"
    using inv changed unfolding suspectLoop_fold f_def [symmetric]
  proof (induction kts arbitrary: p)
    case (Cons kt kts)
    show ?case
    proof (cases "coins (p_utxo (f p kt)) op = coins (p_utxo p) op")
      case True
      have inv': "store_inv (p_utxo (f p kt))" unfolding f_def by (rule moved_inv [OF moved_reconcile [OF ok] Cons.prems(1)])
      have "coins (p_utxo (foldl f (f p kt) kts)) op \<noteq> coins (p_utxo (f p kt)) op" using Cons.prems(2) True by simp
      from Cons.IH [OF inv' this] obtain bs k as where "kts = bs @ k # as" "recovered (orc (kt_TxID k)) k \<or>
          op \<in> own_change lib (p_db (foldl f (f p kt) bs)) (kt_TxID k) \<or> licensed lib (orc (kt_TxID k)) grace k (foldl f (f p kt) bs) op" by blast
      then have "kt # kts = (kt # bs) @ k # as \<and> (recovered (orc (kt_TxID k)) k \<or>
          op \<in> own_change lib (p_db (foldl f p (kt # bs))) (kt_TxID k) \<or> licensed lib (orc (kt_TxID k)) grace k (foldl f p (kt # bs)) op)" by simp
      then show ?thesis by blast
    next
      case False
      then have "recovered (orc (kt_TxID kt)) kt \<or> op \<in> own_change lib (p_db p) (kt_TxID kt) \<or> licensed lib (orc (kt_TxID kt)) grace kt p op"
        using suspect_within [where ask = "orc (kt_TxID kt)", OF ok same Cons.prems(1)] unfolding f_def by blast
      then have "kt # kts = [] @ kt # kts \<and> (recovered (orc (kt_TxID kt)) kt \<or>
          op \<in> own_change lib (p_db (foldl f p [])) (kt_TxID kt) \<or> licensed lib (orc (kt_TxID kt)) grace kt (foldl f p []) op)" by simp
      then show ?thesis by blast
    qed
  qed simp
  then show ?thesis unfolding suspectLoop_fold f_def by simp
qed

text \<open>
  C12: Coins a reconciler pass may change.  If a pass leaves some coin other than it found it, then while handling
  one of the suspects it listed, either arcade reported that the suspect had made it after all, or the coin is
  that transaction's own change, or the pass had a licence: the coin is an input of the suspect; arcade reports a
  double spend, or rejects it now and did so at a stamp at least \<open>grace\<close> ago; and if the report is a spend
  conflict, no spender has taken the input: the report does not name it, no mined spender with readable bytes and
  no spender of the local ledger consumes it, and at least one spender has been read.  Calls of the store may fail
  at any point.  Arcade is assumed not to change its answer between the two questions about one competitor.
\<close>

theorem release_needs_evidence:
  assumes "sdk_ok lib" "\<And>t. orc t AskUnreadable = orc t AskWinner" "store_inv (p_utxo p)"
    and "VerifyAndReleaseSuspects lib ch (Some orc) grace maxQ limit p = (p', r)"
    and "coins (p_utxo p') op \<noteq> coins (p_utxo p) op"
  shows "\<exists>before kt after q.
    FindSuspectFailed (now_p p) (db_known (p_db p)) grace (if limit \<le> 0 then defaultMonitorBatchLimit else limit) = before @ kt # after \<and>
    q = fst (suspectLoop lib ch orc grace maxQ before no_report (tick_p p)) \<and>
    (recovered (orc (kt_TxID kt)) kt \<or> op \<in> own_change lib (p_db q) (kt_TxID kt) \<or> licensed lib (orc (kt_TxID kt)) grace kt q op)"
proof (rule loop_within [OF assms(1,2)])
  have tick: "p_utxo (tick_p p) = p_utxo p" by (simp add: tick_p_def)
  then show "store_inv (p_utxo (tick_p p))" using assms(3) by simp
  show "coins (p_utxo (fst (suspectLoop lib ch orc grace maxQ
      (FindSuspectFailed (now_p p) (db_known (p_db p)) grace (if limit \<le> 0 then defaultMonitorBatchLimit else limit)) no_report (tick_p p)))) op \<noteq>
    coins (p_utxo (tick_p p)) op"
    using assms(4,5) unfolding tick VerifyAndReleaseSuspects_def Let_def by simp
qed

section \<open>A release happens once\<close>

definition finalized :: "bytes \<Rightarrow> prov \<Rightarrow> bool" where
  "finalized raw p \<longleftrightarrow> known_inv (db_known (p_db p)) \<and>
     (\<exists>r. known (db_known (p_db p)) raw = Some r \<and> IsTerminalFailure (kt_Status r))"

definition keeps_final :: "bytes \<Rightarrow> prov \<Rightarrow> prov \<Rightarrow> bool" where
  "keeps_final raw p q \<longleftrightarrow> (finalized raw p \<longrightarrow> finalized raw q)"

interpretation kf: known_order "keeps_final raw" for raw
  by unfold_locales (auto simp: keeps_final_def finalized_def)

lemma kf_cascadeLoop: "keeps_final raw p (fst (cascadeLoop lib reason hs n p))"
proof (induction hs arbitrary: n p)
  case (Cons h hs)
  obtain q r where r: "on_known (\<lambda>now rows. MarkSuspect now rows (HashString lib h) (now_p p) [] (OtherStatus ''cascade'') reason) (tick_p p) = (q, r)"
    by force
  show ?case
  proof (cases "FindByTxID (db_known (p_db p)) (HashString lib h)")
    case (Inr k)
    show ?thesis
    proof (cases "case k of None \<Rightarrow> True | Some kt \<Rightarrow> cascade_skips (kt_Status kt)")
      case True
      then show ?thesis using Inr Cons.IH by (cases k) simp_all
    next
      case False
      then obtain kt where k: "k = Some kt" "\<not> cascade_skips (kt_Status kt)" by (cases k) auto
      obtain raw' r' where r': "encTxID (HashString lib h) = Inr raw'" "known (db_known (p_db p)) raw' = Some r'" "kt = knowntx_scan r'"
        using FindByTxID_Some Inr k(1) by blast
      have "kt_Status r' = kt_Status kt" using r'(3) by (simp add: knowntx_scan_def known_cols.defs known_tx.defs)
      then have other: "finalized raw p \<Longrightarrow> raw' \<noteq> raw" using k(2) r'(2) by (auto simp: finalized_def cascade_skips_def)
      have rows: "db_known (p_db q) = fst (MarkSuspect (now_p (tick_p p)) (db_known (p_db p)) (HashString lib h) (now_p p) [] (OtherStatus ''cascade'') reason)"
        using r by (auto simp: on_known_def Let_def case_prod_unfold tick_p_def)
      have "known_inv (db_known (p_db q)) = known_inv (db_known (p_db p))"
        unfolding rows MarkSuspect_def with_txid_raw [OF r'(1)] required_update_rows by (rule known_inv_update_where) simp
      moreover have "raw' \<noteq> raw \<Longrightarrow> known (db_known (p_db q)) raw = known (db_known (p_db p)) raw"
        using known_Some_txid [of "db_known (p_db p)" raw]
        unfolding rows MarkSuspect_def with_txid_raw [OF r'(1)] required_update_rows
        by (cases "known (db_known (p_db p)) raw") (simp_all add: known_update_where)
      ultimately have "keeps_final raw p q" using other by (auto simp: keeps_final_def finalized_def)
      then have "keeps_final raw p (fst (cascadeLoop lib reason hs m q))" for m using kf.trans Cons.IH by blast
      then show ?thesis using Inr k r \<open>keeps_final raw p q\<close> by (cases r) simp_all
    qed
  qed (simp add: kf.refl)
qed (simp add: kf.refl)

lemma kf_primitives:
  "steps_in (keeps_final raw) (doUnspend h ops)" "steps_in (keeps_final raw) (doReleaseOutpoints t ops)"
  "steps_in (keeps_final raw) (doRemovePhantom ops)" "steps_in (keeps_final raw) (doRemoveMinted lib h ops)"
  "steps_in (keeps_final raw) (doAbortRelease uid t)" "steps_in (keeps_final raw) (doAbortRemoveChange lib m ops)"
proof -
  have casc: "steps_in (keeps_final raw) (cascadeChildren lib h hs)" for h hs
    by (simp add: steps_in_def cascadeChildren_def kf_cascadeLoop)
  show "steps_in (keeps_final raw) (doUnspend h ops)" "steps_in (keeps_final raw) (doReleaseOutpoints t ops)"
    "steps_in (keeps_final raw) (doRemovePhantom ops)" "steps_in (keeps_final raw) (doRemoveMinted lib h ops)"
    unfolding doUnspend_def doReleaseOutpoints_def doRemovePhantom_def doRemoveMinted_def
    by (auto intro!: kf.in_combined kf.in_quiet casc)
  show "steps_in (keeps_final raw) (doAbortRelease uid t)" "steps_in (keeps_final raw) (doAbortRemoveChange lib m ops)"
    unfolding doAbortRelease_def doAbortRemoveChange_def by (auto intro!: kf.in_combined kf.in_quiet split: option.splits)
qed

lemma kf_executeOutboxOp: "steps_in (keeps_final raw) (executeOutboxOp lib ty pl)"
  unfolding executeOutboxOp_def by (auto intro!: kf.in_combined kf_primitives)

lemma kf_outbox: "keeps_final raw p q \<Longrightarrow> keeps_final raw p (fst (on_outbox f q))"
  using kf.trans kf.in_quiet(3) unfolding steps_in_def by blast

lemma kf_inlineOps: "steps_in (keeps_final raw) (inlineOps lib raw' ops n)"
  by (intro kf.in_inlineOps kf.in_quiet) (simp add: list_all_iff kf_executeOutboxOp)

lemma kf_DrainOutbox: "steps_in (keeps_final raw) (DrainOutbox lib limit)"
proof -
  have "keeps_final raw p (fst (drainPending lib es rep p))" for es rep p
  proof (induction es arbitrary: rep p)
    case (Cons e es)
    obtain q r where r: "executeOutboxOp lib (ob_OpType e) (ob_Payload e) p = (q, r)" by force
    have "keeps_final raw p (fst (on_outbox f q))" for f using kf_outbox steps_inD [OF kf_executeOutboxOp r] by blast
    then have "keeps_final raw p (fst (drainPending lib es rep' (fst (on_outbox f q))))" for rep' f using kf.trans Cons.IH by blast
    then show ?case using r by (cases r) (simp_all add: Let_def)
  qed (simp add: kf.refl)
  then have "steps_in (keeps_final raw) (\<lambda>p. let pending = FetchPending (db_outbox (p_db p)) l in
        case drainPending lib pending rep0 p of (p', Inl e) \<Rightarrow> (p', Inl e)
        | (p', Inr rep) \<Rightarrow> (p', Inr (rep\<lparr>dr_ParkedTotal := CountParked (db_outbox (p_db p'))\<rparr>)))" for l rep0
    unfolding steps_in_def Let_def by (auto simp: case_prod_unfold split: sum.splits)
  then show ?thesis unfolding DrainOutbox_def by (rule kf.in_DoUnit)
qed

lemma gate_finalizes:
  assumes "known_inv (db_known (p_db p))" "IsTerminalFailure (rp_terminalKnown plan)" "gateAndFinalizeStatuses plan p = (q, Inr u)"
  shows "\<exists>raw. encTxID (rp_txid plan) = Inr raw \<and> finalized raw q"
proof -
  let ?T = "TransitionSuspect (now_p p) (db_known (p_db p)) (rp_txid plan) (rp_terminalKnown plan)"
  obtain q1 where q1: "on_known (\<lambda>now rows. TransitionSuspect now rows (rp_txid plan) (rp_terminalKnown plan)) p = (q1, Inr ())"
      and fl: "failTransactions (rp_txid plan) q1 = (q, Inr u)"
    using assms(3) by (auto simp: gateAndFinalizeStatuses_def split: prod.splits sum.splits)
  have T: "snd ?T = None" and rows: "db_known (p_db q1) = fst ?T"
    using q1 by (auto simp: on_known_def Let_def case_prod_unfold of_opt_def split: option.splits)
  obtain raw where raw: "encTxID (rp_txid plan) = Inr raw"
    using T by (cases "encTxID (rp_txid plan)") (simp_all add: TransitionSuspect_def with_txid_def)
  let ?f = "\<lambda>r. r\<lparr>kt_Status := rp_terminalKnown plan, kt_UpdatedAt := encTime (now_p p)\<rparr>"
  let ?g = "\<lambda>r. kt_Status r = KnownTxStatusSuspectFailed"
  have gu: "guarded_update (db_known (p_db p)) raw ?g ?f = (fst ?T, None)"
    using T by (simp add: TransitionSuspect_def with_txid_raw [OF raw] prod_eq_iff)
  obtain r where r: "known (db_known (p_db p)) raw = Some r" "?g r"
      and new: "fst ?T = update_where (\<lambda>r. kr_txid r = raw \<and> ?g r) ?f (db_known (p_db p))"
    using guarded_update_None [OF assms(1) gu] by blast
  have "known (db_known (p_db q1)) raw = Some (?f r)" "known_inv (db_known (p_db q1))"
    unfolding rows new using r assms(1) known_Some_txid [OF r(1)] by (simp_all add: known_update_where known_inv_update_where)
  then have "finalized raw q1" using assms(2) by (simp add: finalized_def)
  moreover have "steps_in (keeps_final raw) (failTransactions (rp_txid plan))"
    unfolding failTransactions_def by (intro kf.in_tolerate kf.in_quiet)
  from steps_inD [OF this fl] have "keeps_final raw q1 q" .
  ultimately show ?thesis using raw by (auto simp: keeps_final_def)
qed

lemma gate_refuses:
  assumes "finalized raw p" "encTxID (rp_txid plan) = Inr raw"
  shows "\<exists>q. gateAndFinalizeStatuses plan p = (q, Inl ErrAlreadyHandled) \<and> p_utxo q = p_utxo p"
proof -
  obtain r where r: "known_inv (db_known (p_db p))" "known (db_known (p_db p)) raw = Some r" "IsTerminalFailure (kt_Status r)"
    using assms(1) by (auto simp: finalized_def)
  then have "kt_Status r \<noteq> KnownTxStatusSuspectFailed" by (auto simp: IsTerminalFailure_def)
  then have "TransitionSuspect now (db_known (p_db p)) (rp_txid plan) st = (db_known (p_db p), Some ErrStatusUpdateSkipped)" for now st
    using guarded_update_cases [OF r(1,2)] by (simp add: TransitionSuspect_def with_txid_raw [OF assms(2)])
  then show ?thesis by (simp add: gateAndFinalizeStatuses_def on_known_def of_opt_def Let_def tick_p_def)
qed

lemma release_parts_A:
  assumes "p_modeA p" "releaseVerifiedDead lib plan p = (q, Inr (Some n))"
  shows "\<exists>p1 u. gateAndFinalizeStatuses plan p = (p1, Inr u) \<and> applyReleaseOpsDirect lib plan p1 = (q, Inr n)"
  using assms by (auto simp: releaseVerifiedDead_def releaseDirect_def handled_ok_def DoUnit_def andThen_Inr ret_def
    split: prod.splits sum.splits if_splits)

lemma release_parts_B:
  assumes "\<not> p_modeA p" "releaseVerifiedDead lib plan p = (q, Inr (Some n))"
  shows "\<exists>raw p1 u p2 v. gateAndFinalizeStatuses plan p = (p1, Inr u) \<and> enqueueOps raw (outboxOps lib plan) p1 = (p2, Inr v) \<and>
    fst (DoUnit (inlineOps lib raw (outboxOps lib plan) 0) p2) = q"
proof -
  obtain raw where "handled_ok (andThen (DoUnit (andThen (gateAndFinalizeStatuses plan) (\<lambda>_. enqueueOps raw (outboxOps lib plan))))
            (\<lambda>_ p. case DoUnit (inlineOps lib raw (outboxOps lib plan) 0) p of
                     (p', Inr n) \<Rightarrow> (p', Inr (Some n)) | (p', Inl _) \<Rightarrow> (p', Inr (Some 0)))) p = (q, Inr (Some n))"
    using assms by (auto simp: releaseVerifiedDead_def releaseViaOutbox_def fail_def split: sum.splits)
  then have "andThen (DoUnit (andThen (gateAndFinalizeStatuses plan) (\<lambda>_. enqueueOps raw (outboxOps lib plan))))
            (\<lambda>_ p. case DoUnit (inlineOps lib raw (outboxOps lib plan) 0) p of
                     (p', Inr n) \<Rightarrow> (p', Inr (Some n)) | (p', Inl _) \<Rightarrow> (p', Inr (Some 0))) p = (q, Inr (Some n))" (is "andThen _ ?rest p = _")
    by (auto simp: handled_ok_def split: prod.splits sum.splits if_splits)
  then obtain p2 v where unit: "DoUnit (andThen (gateAndFinalizeStatuses plan) (\<lambda>_. enqueueOps raw (outboxOps lib plan))) p = (p2, Inr v)"
      and rest: "?rest v p2 = (q, Inr (Some n))"
    unfolding andThen_Inr by blast
  have inl: "fst (DoUnit (inlineOps lib raw (outboxOps lib plan) 0) p2) = q"
    using rest by (simp add: case_prod_unfold split: sum.splits)
  obtain p1 u where "gateAndFinalizeStatuses plan p = (p1, Inr u)" "enqueueOps raw (outboxOps lib plan) p1 = (p2, Inr v)"
    using unit by (auto simp: DoUnit_def andThen_Inr split: prod.splits sum.splits)
  with inl show ?thesis by blast
qed

lemma release_finalizes:
  assumes "known_inv (db_known (p_db p))" "IsTerminalFailure (rp_terminalKnown plan)" "releaseVerifiedDead lib plan p = (q, Inr (Some n))"
  shows "\<exists>raw. encTxID (rp_txid plan) = Inr raw \<and> finalized raw q"
proof (cases "p_modeA p")
  case True
  then obtain p1 u where gate: "gateAndFinalizeStatuses plan p = (p1, Inr u)" and ops: "applyReleaseOpsDirect lib plan p1 = (q, Inr n)"
    using release_parts_A assms(3) by blast
  obtain raw where raw: "encTxID (rp_txid plan) = Inr raw" "finalized raw p1" using gate_finalizes [OF assms(1,2) gate] by blast
  have "steps_in (keeps_final raw) (releaseRefs rs ops)" for rs ops by (induction rs) (auto intro!: kf.in_combined kf_primitives)
  then have "steps_in (keeps_final raw) (applyReleaseOpsDirect lib plan)"
    unfolding applyReleaseOpsDirect_def by (intro kf.in_andThen kf_primitives)
  from steps_inD [OF this ops] raw show ?thesis by (auto simp: keeps_final_def)
next
  case False
  then obtain rw p1 u p2 v where gate: "gateAndFinalizeStatuses plan p = (p1, Inr u)" and enq: "enqueueOps rw (outboxOps lib plan) p1 = (p2, Inr v)"
      and inl: "fst (DoUnit (inlineOps lib rw (outboxOps lib plan) 0) p2) = q"
    using release_parts_B assms(3) by blast
  obtain raw where raw: "encTxID (rp_txid plan) = Inr raw" "finalized raw p1" using gate_finalizes [OF assms(1,2) gate] by blast
  have "steps_in (keeps_final raw) (enqueueOps rw ops)" for ops by (induction ops) (auto intro!: kf.in_combined kf.in_quiet)
  from steps_inD [OF this enq] raw have "finalized raw p2" by (simp add: keeps_final_def)
  moreover have "keeps_final raw p2 q" using kf.in_DoUnit [OF kf_inlineOps] inl by (auto simp: steps_in_def)
  ultimately show ?thesis using raw by (auto simp: keeps_final_def)
qed

text \<open>
  C13: No double release.  After a release of a dead transaction has run, in either mode and whatever calls of the
  store failed, a second release of the same transaction with any plan is refused, at once as well as after a drain
  of the outbox: it reports that there was nothing to do, and leaves both stores as they were.
\<close>

theorem release_once:
  assumes "known_inv (db_known (p_db p))" "IsTerminalFailure (rp_terminalKnown plan)"
    and "releaseVerifiedDead lib plan p = (p1, Inr (Some n))" "rp_txid plan' = rp_txid plan"
    and "p2 = p1 \<or> p2 = fst (DrainOutbox lib limit p1)"
  shows "\<exists>q. releaseVerifiedDead lib plan' p2 = (q, Inr None) \<and> p_db q = p_db p2 \<and> p_utxo q = p_utxo p2"
proof -
  obtain raw where raw: "encTxID (rp_txid plan) = Inr raw" "finalized raw p1" using release_finalizes [OF assms(1,2,3)] by blast
  have "keeps_final raw p1 p2" using kf_DrainOutbox assms(5) by (auto simp: steps_in_def keeps_final_def)
  then obtain q1 where gate: "gateAndFinalizeStatuses plan' p2 = (q1, Inl ErrAlreadyHandled)" "p_utxo q1 = p_utxo p2"
    using gate_refuses [of raw p2 plan'] raw assms(4) by (auto simp: keeps_final_def)
  have "\<exists>b. encodeTxidToRaw (rp_txid plan') = Inr b" using raw(1) assms(4) by (auto simp: encTxID_def encodeTxidToRaw_def split: option.splits)
  then show ?thesis using gate
    by (auto simp: releaseVerifiedDead_def releaseDirect_def releaseViaOutbox_def handled_ok_def DoUnit_def andThen_def)
qed

section \<open>Released coins are claimable\<close>

definition returned :: "utxo \<Rightarrow> utxo" where
  "returned u = u\<lparr>u_SpentBy := None, u_ReservedBy := '''', u_ReservedAt := zero_time, u_Pinned := False, u_Frozen := False\<rparr>"

fun calm :: "outpoint \<Rightarrow> call \<Rightarrow> bool" where
  "calm op (CallReleaseOutpoints t ops) \<longleftrightarrow> True"
| "calm op (CallRemove ops force) \<longleftrightarrow> op \<notin> set ops"
| "calm op (CallRemoveByMintTx h ops) \<longleftrightarrow> op \<notin> set ops"
| "calm op _ \<longleftrightarrow> False"

lemma calm_no_claim: "calm op c \<Longrightarrow> \<not> claims_for c t"
  by (cases c) auto

lemma calm_step: "coin_step c v v' \<Longrightarrow> calm op c \<Longrightarrow> v' = v \<or> v' = unpinned (freed v)"
  by (induction rule: coin_step.induct) (auto dest: calm_no_claim)

lemma returned_free: "unpinned (freed (returned u)) = returned u"
  by (simp add: freed_def unpinned_def returned_def)

lemma exec_call_calm:
  assumes "store_inv s" "calm op c" "coins s op = Some (returned u)" shows "coins (exec_call c s) op = Some (returned u)"
proof -
  have move: "coin_move c (Some (returned u)) (coins (exec_call c s) op)" using exec_call_coin [OF assms(1), of c op] assms(3) by simp
  have op: "u_Outpoint (returned u) = op" using coin_outpoint [OF assms(1,3)] .
  then have "\<not> coin_removed c (returned u)" using assms(2) by (cases c) auto
  moreover have "u' = returned u" if "coin_step c (returned u) u'" for u'
    using calm_step [OF that assms(2)] returned_free by auto
  ultimately show ?thesis using move by (auto simp: coin_move_def split: option.splits)
qed

lemma path_calm:
  assumes "path (calm op) s s'" "store_inv s" "coins s op = Some (returned u)" shows "coins s' op = Some (returned u)"
proof -
  have "store_inv s' \<and> coins s' op = Some (returned u)"
    by (rule path_induct [OF assms(1)]) (use assms in \<open>auto simp: exec_call_calm intro: exec_call_inv\<close>)
  then show ?thesis ..
qed

lemma calm_primitives:
  "steps_in (coin_path (calm op)) (doReleaseOutpoints t ops)"
  "op \<notin> set ops \<Longrightarrow> steps_in (coin_path (calm op)) (doRemovePhantom ops)"
  "op \<notin> set ops \<Longrightarrow> steps_in (coin_path (calm op)) (doRemoveMinted lib h ops)"
proof -
  have c1: "steps_in (coin_path (calm op)) (utxo_call (\<lambda>s. plain_err (ReleaseOutpoints s t ops)))"
    by (rule cp_call) (metis exec_call.simps plain_err_fst calm.simps(1))
  have c2: "steps_in (coin_path (calm op)) (utxo_call (\<lambda>s. plain_err (Remove s ops True)))"
    and c3: "steps_in (coin_path (calm op)) (utxo_call (\<lambda>s. report_err (RemoveByMintTx s h ops)))" if "op \<notin> set ops"
    by (rule cp_call, metis that exec_call.simps plain_err_fst calm.simps(2,3))+
  show "steps_in (coin_path (calm op)) (doReleaseOutpoints t ops)"
    unfolding doReleaseOutpoints_def by (auto intro!: cp.in_ret c1)
  show "op \<notin> set ops \<Longrightarrow> steps_in (coin_path (calm op)) (doRemovePhantom ops)"
    unfolding doRemovePhantom_def by (auto intro!: cp.in_ret c2)
  show "op \<notin> set ops \<Longrightarrow> steps_in (coin_path (calm op)) (doRemoveMinted lib h ops)"
    unfolding doRemoveMinted_def by (auto intro!: cp.in_ret cp.in_andThen c3 cp.in_cascadeChildren)
qed

definition reliable :: "prov \<Rightarrow> bool" where
  "reliable p \<longleftrightarrow> p_faults p = (\<lambda>_. None) \<and> \<not> s_closed (p_utxo p)"

lemma doUnspend_returns:
  assumes "reliable p" "op \<in> set ops" "coins (p_utxo p) op = Some u" "u_SpentBy u = Some h"
  shows "snd (doUnspend h ops p) = Inr () \<and> coins (p_utxo (fst (doUnspend h ops p))) op = Some (returned u)"
proof -
  let ?rows = "fst (unspendLoop (s_rows (p_utxo p)) h ops)"
  obtain r where r: "map_of (s_rows (p_utxo p)) op = Some r" "r_utxo r = u" using assms(3) by (auto simp: coins_def)
  have rows: "map_of (fst (frozenLoop ?rows ops False)) op = Some (set_frozen False (set_unspent r))"
    using r assms(2,4) by (simp add: frozenLoop_coin unspendLoop_coin)
  have "ops \<noteq> []" using assms(2) by auto
  moreover have "p_faults p = (\<lambda>_. None)" "\<not> s_closed (p_utxo p)" using assms(1) by (simp_all add: reliable_def)
  ultimately have "snd (doUnspend h ops p) = Inr ()" "s_rows (p_utxo (fst (doUnspend h ops p))) = fst (frozenLoop ?rows ops False)"
    by (simp_all add: doUnspend_def andThen_def utxo_call_def Unspend_def Unfreeze_def setFrozen_def plain_err_def Let_def case_prod_unfold)
  then show ?thesis using rows r(2) by (simp add: coins_def set_frozen_def set_unspent_def returned_def)
qed

lemma gate_frame:
  "gateAndFinalizeStatuses plan p = (q, r) \<Longrightarrow> p_utxo q = p_utxo p \<and> p_faults q = p_faults p"
  by (auto simp: gateAndFinalizeStatuses_def failTransactions_def tolerate_def on_known_def on_txs_def tick_p_def Let_def case_prod_unfold
      split: sum.splits if_splits)

lemma enqueue_frame: "enqueueOps raw ops p = (q, r) \<Longrightarrow> p_utxo q = p_utxo p \<and> p_faults q = p_faults p"
proof (induction ops arbitrary: p)
  case (Cons op ops)
  obtain p1 where "on_outbox (\<lambda>now rows. Enqueue now rows raw (oo_opType op) (oo_chunk op) (oo_payload op)) p = (p1, Inr ())"
      "p_utxo p1 = p_utxo p" "p_faults p1 = p_faults p"
    by (simp add: on_outbox_def tick_p_def)
  with Cons show ?case by (auto simp: andThen_def)
qed (simp add: ret_def)

lemma inlineOps_Inr: "\<exists>m. snd (inlineOps lib raw ops n p) = Inr m"
proof (induction ops arbitrary: n p)
  case (Cons op ops)
  obtain q r where "executeOutboxOp lib (oo_opType op) (oo_payload op) p = (q, r)" by force
  then show ?case using Cons by (cases r) simp_all
qed simp

lemma calm_outboxOps:
  assumes ok: "sdk_ok lib" and op: "op \<notin> set (rp_phantomInputs plan) \<union> set (rp_changeOps plan)" and real: "rp_realInputs plan \<noteq> []"
  shows "\<exists>ops. outboxOps lib plan = \<lparr>oo_opType = opUnspend, oo_chunk = 0, oo_payload = no_payload\<lparr>pl_spendingTxId := HashString lib (rp_spendingTxID plan),
      pl_ops := encodeOutpoints lib (rp_realInputs plan)\<rparr>\<rparr> # ops \<and>
    list_all (\<lambda>o'. steps_in (coin_path (calm op)) (executeOutboxOp lib (oo_opType o') (oo_payload o'))) ops"
proof -
  let ?P = "\<lambda>o'. steps_in (coin_path (calm op)) (executeOutboxOp lib (oo_opType o') (oo_payload o'))"
  have "list_all ?P (releaseOps lib (rp_realInputs plan) i rs)" for i rs
    by (induction rs arbitrary: i)
      (simp_all add: executeOutboxOp_def op_types with_ops_def decode_encode [OF ok] cp.in_no_cascade calm_primitives)
  then show ?thesis using op real
    by (auto simp: outboxOps_def Let_def executeOutboxOp_def op_types with_ops_def decode_encode [OF ok]
        intro!: cp.in_no_cascade cp.in_with_hash calm_primitives)
qed

text \<open>
  C14: A release gives the coins back.  When the store answers every call, a release that ran returns each input
  that the dead transaction had spent to the pool: unspent, unreserved, not pinned and not held, otherwise as it
  was.  Inputs whose source is dead, and the transaction's own change, are excepted: they are removed.
\<close>

theorem release_returns_inputs:
  assumes "sdk_ok lib" "reliable p" "store_inv (p_utxo p)" "releaseVerifiedDead lib plan p = (q, Inr (Some n))"
    and "op \<in> set (rp_realInputs plan)" "op \<notin> set (rp_phantomInputs plan) \<union> set (rp_changeOps plan)"
    and "coins (p_utxo p) op = Some u" "u_SpentBy u = Some (rp_spendingTxID plan)"
  shows "coins (p_utxo q) op = Some (u\<lparr>u_SpentBy := None, u_ReservedBy := '''', u_ReservedAt := zero_time, u_Pinned := False, u_Frozen := False\<rparr>)"
proof -
  have done': "coins (p_utxo q) op = Some (returned u)" if "doUnspend (rp_spendingTxID plan) (rp_realInputs plan) p1 = (p2, r)"
      "coin_path (calm op) p2 q" "p_utxo p1 = p_utxo p" "p_faults p1 = p_faults p" for p1 p2 r
  proof -
    have "coins (p_utxo p2) op = Some (returned u)"
      using doUnspend_returns [of p1 op "rp_realInputs plan" u "rp_spendingTxID plan"] that assms by (simp add: reliable_def)
    moreover have "store_inv (p_utxo p2)"
      using steps_inD [OF out_primitives(1) [OF order_refl] that(1)] moved_outside moved_inv assms(3) that(3) by metis
    ultimately show ?thesis using that(2) path_calm by (simp add: coin_path_def)
  qed
  have "coins (p_utxo q) op = Some (returned u)"
  proof (cases "p_modeA p")
    case True
    then obtain p1 v p2 where gate: "gateAndFinalizeStatuses plan p = (p1, Inr v)"
        and un: "doUnspend (rp_spendingTxID plan) (rp_realInputs plan) p1 = (p2, Inr ())"
        and rest: "andThen (releaseRefs (rp_refs plan) (rp_realInputs plan)) (\<lambda>_. andThen (doRemovePhantom (rp_phantomInputs plan))
          (\<lambda>_. doRemoveMinted lib (rp_spendingTxID plan) (rp_changeOps plan))) p2 = (q, Inr n)"
      using release_parts_A [OF _ assms(4)] by (auto simp: applyReleaseOpsDirect_def andThen_Inr)
    have "steps_in (coin_path (calm op)) (releaseRefs rs ops)" for rs ops by (induction rs) (auto intro!: cp.in_combined calm_primitives)
    then have "steps_in (coin_path (calm op)) (andThen (releaseRefs (rp_refs plan) (rp_realInputs plan)) (\<lambda>_. andThen (doRemovePhantom (rp_phantomInputs plan))
          (\<lambda>_. doRemoveMinted lib (rp_spendingTxID plan) (rp_changeOps plan))))"
      using assms(6) by (intro cp.in_andThen calm_primitives) auto
    from done' [OF un steps_inD [OF this rest]] gate_frame [OF gate] show ?thesis by simp
  next
    case False
    have "rp_realInputs plan \<noteq> []" using assms(5) by auto
    then obtain ops where ops: "outboxOps lib plan = \<lparr>oo_opType = opUnspend, oo_chunk = 0,
          oo_payload = no_payload\<lparr>pl_spendingTxId := HashString lib (rp_spendingTxID plan), pl_ops := encodeOutpoints lib (rp_realInputs plan)\<rparr>\<rparr> # ops"
        and calm: "list_all (\<lambda>o'. steps_in (coin_path (calm op)) (executeOutboxOp lib (oo_opType o') (oo_payload o'))) ops"
      using calm_outboxOps [OF assms(1,6)] by blast
    obtain raw p1 u1 p2 u2 where gate: "gateAndFinalizeStatuses plan p = (p1, Inr u1)" and enq: "enqueueOps raw (outboxOps lib plan) p1 = (p2, Inr u2)"
        and inl: "fst (DoUnit (inlineOps lib raw (outboxOps lib plan) 0) p2) = q"
      using release_parts_B [OF False assms(4)] by blast
    have frame: "p_utxo p2 = p_utxo p" "p_faults p2 = p_faults p" using gate_frame [OF gate] enqueue_frame [OF enq] by simp_all
    obtain p3 where un: "doUnspend (rp_spendingTxID plan) (rp_realInputs plan) p2 = (p3, Inr ())"
      using doUnspend_returns [of p2 op "rp_realInputs plan" u "rp_spendingTxID plan"] assms frame
      by (metis prod.collapse reliable_def)
    have run: "inlineOps lib raw (outboxOps lib plan) 0 p2 =
        inlineOps lib raw ops 0 (fst (on_outbox (\<lambda>_ rows. MarkDone rows raw opUnspend 0) p3))"
      using un assms(1) by (simp add: ops executeOutboxOp_def with_hash_def with_ops_def decode_encode no_cascade_def andThen_def ret_def sdk_ok_def)
    obtain m where "snd (inlineOps lib raw (outboxOps lib plan) 0 p2) = Inr m" using inlineOps_Inr by blast
    then have "fst (inlineOps lib raw (outboxOps lib plan) 0 p2) = q" using inl by (simp add: DoUnit_def case_prod_unfold)
    then have q: "fst (inlineOps lib raw ops 0 (fst (on_outbox (\<lambda>_ rows. MarkDone rows raw opUnspend 0) p3))) = q" using run by simp
    have "coin_path (calm op) p3 (fst (on_outbox f p3))" for f using cp.in_writes(4) by (simp add: steps_in_def)
    moreover have "steps_in (coin_path (calm op)) (inlineOps lib raw ops 0)" by (intro cp.in_inlineOps cp.in_writes calm)
    then have "coin_path (calm op) q' (fst (inlineOps lib raw ops 0 q'))" for q' by (simp add: steps_in_def)
    ultimately have "coin_path (calm op) p3 q" using cp.trans unfolding q [symmetric] by blast
    from done' [OF un this frame] show ?thesis .
  qed
  then show ?thesis by (simp add: returned_def)
qed

section \<open>A dead transaction\<close>

text \<open>A codec with the laws the provider relies on, and a suspect rejected twice whose input the store holds as spent.\<close>

definition w_codec :: sdk where
  "w_codec = \<lparr>NewHashFromHex = \<lambda>s. if s = ''0a'' then Some 10
       else if s \<noteq> [] \<and> list_all isDigit s then Some (of_nat (foldl (\<lambda>acc c. 10 * acc + digitValue c) 0 s)) else None,
     HashString = \<lambda>h. decimal (unat h), TxInputs = \<lambda>raw. if raw = [1] then Some [Some (Outpoint 7 0)] else None,
     Sum256 = \<lambda>_. [1], ErrorText = \<lambda>_. ''failed''\<rparr>"

lemma w_codec_ok: "sdk_ok w_codec"
proof -
  have "decimal n \<noteq> ''0a''" for n using decimal_facts [of n] by (auto simp: isDigit_def)
  then show ?thesis using decimal_facts by (simp add: sdk_ok_def w_codec_def)
qed

definition w_gone :: store where
  "w_gone = exec_call (CallSpend [\<lparr>sp_Outpoint = Outpoint 7 0, sp_Reservation = ''tx'', sp_SpendingTxID = 10\<rparr>] False) w_held"

definition w_taken :: utxo where
  "w_taken = w_coin\<lparr>u_ReservedBy := ''tx'', u_ReservedAt := 9, u_SpentBy := Some 10\<rparr>"

lemma w_gone_eq: "w_gone = \<lparr>s_rows = [(Outpoint 7 0, \<lparr>r_utxo = w_taken, r_seq = 1\<rparr>)], s_nextSeq = 1, s_closed = False, s_now = \<lambda>_. 9, s_ticks = 2\<rparr>"
  by (simp add: w_gone_def w_held_eq Spend_def spendOne_def ValidateSpend_def ValidateReservation_def set_spent_def upd_key_def w_taken_def
      w_coin_def Let_def)

lemma w_gone_inv: "store_inv w_gone"
  unfolding w_gone_def by (intro exec_call_inv reachable_inv [OF w_reachable(2)])

definition w_suspect :: known_row where
  "w_suspect = (w_known KnownTxStatusSuspectFailed)\<lparr>kt_SuspectSince := Some 0, kt_VerifiedRejectedAt := Some 0\<rparr>"

definition w_pass :: prov where
  "w_pass = (w_state KnownTxStatusSuspectFailed TxStatusUnproven w_gone)\<lparr>p_db := (p_db (w_state KnownTxStatusSuspectFailed TxStatusUnproven w_gone))\<lparr>db_known := [w_suspect]\<rparr>\<rparr>"

definition w_dead :: known_tx where
  "w_dead = knowntx_scan w_suspect"

definition w_plan :: release_plan where
  "w_plan = \<lparr>rp_txid = ''0a'', rp_spendingTxID = 10, rp_terminalKnown = ProvenTxStatusInvalid, rp_refs = [\<lparr>ru_reference = ''tx'', ru_userID = 1\<rparr>],
     rp_realInputs = [Outpoint 7 0], rp_phantomInputs = [], rp_changeOps = []\<rparr>"

lemma w_dead_fields: "kt_TxID w_dead = ''0a''" "kt_VerifiedRejectedAt w_dead = Some 0" "kt_SuspectSince w_dead = Some 0" "kt_RawTx w_dead = [1]"
    "kt_CompetingTxs w_dead = []"
  using w_txid [of KnownTxStatusSuspectFailed]
  by (simp_all add: w_dead_def knowntx_scan_def w_suspect_def w_known_def known_cols.defs known_tx.defs)

lemma w_pass_fields: "db_known (p_db w_pass) = [w_suspect]" "db_txs (p_db w_pass) = [w_tx 1 ''tx'' TxStatusUnproven (Some [10])]"
    "db_outputs (p_db w_pass) = []" "p_utxo w_pass = w_gone" "now_p w_pass = 5" "p_modeA w_pass" "p_faults w_pass = (\<lambda>_. None)"
  by (simp_all add: w_pass_def w_state_def now_p_def)

lemma w_no_change: "changeOutpointsByTxID w_codec (p_db w_pass) ''0a'' = Inr []"
  by (simp add: changeOutpointsByTxID_def changeOutpointsByTxIDs_def FindChangeOutputsByTxIDs_def w_known_facts w_pass_fields join_parent_def
      by_output_id_def encAll.simps)

lemma w_refs: "(case FindByTxIDAllUsers (db_txs (p_db w_pass)) ''0a'' of Inl _ \<Rightarrow> []
    | Inr rows \<Rightarrow> map (\<lambda>t. \<lparr>ru_reference = t_Reference t, ru_userID = t_UserID t\<rparr>) rows) = [\<lparr>ru_reference = ''tx'', ru_userID = 1\<rparr>]"
  by (simp add: FindByTxIDAllUsers_def w_known_facts w_pass_fields newest_tx_first_def)
    (simp add: w_tx_def tx_scan_def tx_cols.defs table_transaction.defs)

lemma w_alive: "\<not> sourceTxDead w_codec (p_db w_pass) (Outpoint 7 0)"
proof -
  have "encTxID ''7'' = Inl (BadTxID ''7'')" by code_simp
  moreover have "decimal 7 = ''7''" by code_simp
  ultimately show ?thesis by (simp add: sourceTxDead_def w_codec_def FindByTxID_def)
qed

lemma w_plan_built: "buildReleasePlan w_codec (p_db w_pass) w_dead ProvenTxStatusInvalid [Outpoint 7 0] = w_plan"
proof -
  have h: "NewHashFromHex w_codec ''0a'' = Some 10" by (simp add: w_codec_def)
  show ?thesis unfolding buildReleasePlan_def w_dead_fields(1) h w_no_change w_refs by (simp add: w_plan_def w_alive)
qed

definition w_at :: "nat \<Rightarrow> prov" where
  "w_at n = w_pass\<lparr>p_ticks := n\<rparr>"

lemma w_released:
  "snd (releaseVerifiedDead w_codec w_plan (w_at n)) = Inr (Some 0)"
  "coins (p_utxo (fst (releaseVerifiedDead w_codec w_plan (w_at n)))) (Outpoint 7 0) = Some w_coin"
proof -
  have m: "p_modeA (w_at n)" and f: "p_faults (w_at n) = (\<lambda>_. None)" and u: "p_utxo (w_at n) = w_gone" and db: "p_db (w_at n) = p_db w_pass"
    using w_pass_fields by (simp_all add: w_at_def)
  have rows: "TransitionSuspect now [w_suspect] ''0a'' ProvenTxStatusInvalid =
      ([w_suspect\<lparr>kt_Status := ProvenTxStatusInvalid, kt_UpdatedAt := encTime now\<rparr>], None)" for now
    by (simp add: TransitionSuspect_def with_txid_raw [OF w_known_facts(1)] guarded_update_def affected_def update_where_def w_pass_fields w_suspect_def
        w_known_def)
  have "\<exists>q. gateAndFinalizeStatuses w_plan (w_at n) = (q, Inr ()) \<and> p_utxo q = w_gone \<and> p_faults q = (\<lambda>_. None) \<and> p_modeA q"
    using m f u
    by (simp add: gateAndFinalizeStatuses_def on_known_def w_plan_def db rows of_opt_def failTransactions_def tolerate_def on_txs_def
        UpdateStatusByTxID_def applyStatusUpdate_def w_known_facts w_pass_fields affected_def w_tx_def txStatusesToFail_def tick_p_def Let_def)
  then obtain q where q: "gateAndFinalizeStatuses w_plan (w_at n) = (q, Inr ())" "p_utxo q = w_gone" "p_faults q = (\<lambda>_. None)" by blast
  have "\<exists>q'. applyReleaseOpsDirect w_codec w_plan q = (q', Inr 0) \<and> coins (p_utxo q') (Outpoint 7 0) = Some w_coin"
    using q(2,3)
    by (simp add: applyReleaseOpsDirect_def w_plan_def doUnspend_def doReleaseOutpoints_def doRemovePhantom_def doRemoveMinted_def andThen_def utxo_call_def
        Unspend_def Unfreeze_def setFrozen_def ReleaseOutpoints_def ValidateReservation_def plain_err_def w_gone_eq w_taken_def w_coin_def set_unspent_def
        set_frozen_def upd_key_def JoinBatch_def ret_def coins_def Let_def)
  then obtain q' where q': "applyReleaseOpsDirect w_codec w_plan q = (q', Inr 0)" "coins (p_utxo q') (Outpoint 7 0) = Some w_coin" by blast
  have "releaseVerifiedDead w_codec w_plan (w_at n) = (q', Inr (Some 0))"
    using m q(1) q'(1) by (simp add: releaseVerifiedDead_def releaseDirect_def handled_ok_def DoUnit_def andThen_def ret_def)
  then show "snd (releaseVerifiedDead w_codec w_plan (w_at n)) = Inr (Some 0)"
    "coins (p_utxo (fst (releaseVerifiedDead w_codec w_plan (w_at n)))) (Outpoint 7 0) = Some w_coin" using q'(2) by simp_all
qed

lemma w_at_fields: "reliable (w_at n)" "store_inv (p_utxo (w_at n))" "known_inv (db_known (p_db (w_at n)))" "coins (p_utxo (w_at n)) (Outpoint 7 0) = Some w_taken"
  using w_pass_fields w_gone_inv by (simp_all add: w_at_def reliable_def w_gone_eq known_inv_def coins_def)

lemma w_rejected_pure: "\<not> isSpendConflictRecord w_codec w_rejected" "rec_Status w_rejected = StatusRejected" "rec_TxID w_rejected = ''0a''"
  by (simp_all add: isSpendConflictRecord_def w_rejected_def w_mined_def arcStatusConflict_def parseSpendConflictExtra_def TrimSpace_def)

lemma w_run:
  "fst (VerifyAndReleaseSuspects w_codec w_chain (Some (\<lambda>_ _ _. GotTx w_rejected)) 0 100 10 w_pass) =
   fst (releaseVerifiedDead w_codec w_plan (w_at 2))"
proof -
  have one: "FindSuspectFailed 5 [w_suspect] 0 10 = [w_dead]"
    by (simp add: FindSuspectFailed_def w_suspect_def encTime_def limitOffset_def w_dead_def w_known_def)
  have ins: "txInputs w_codec w_dead = Inr [Outpoint 7 0]"
    by (simp add: txInputs_def w_dead_fields w_codec_def sourceOps_def map_filter_simps)
  have tick: "tick_p (tick_p w_pass) = w_at 2" "p_db (w_at 2) = p_db w_pass" "now_p (tick_p w_pass) = 5"
    by (simp_all add: w_at_def tick_p_def w_pass_def w_state_def now_p_def)
  have suspect: "reconcileSuspect w_codec w_chain (\<lambda>_ _. GotTx w_rejected) 0 100 w_dead (tick_p w_pass) =
      andThen (releaseVerifiedDead w_codec w_plan) (\<lambda>c. ret (released_report c)) (w_at 2)"
    by (simp add: reconcileSuspect_def w_rejected_pure isRecovered_def handleRejected_def w_dead_fields tick Let_def ins w_plan_built)
  obtain q where q: "releaseVerifiedDead w_codec w_plan (w_at 2) = (q, Inr (Some 0))" using w_released(1) [of 2] by (metis prod.collapse)
  show ?thesis
    by (simp add: VerifyAndReleaseSuspects_def w_pass_fields one suspect q andThen_def ret_def Let_def)
qed

theorem release_needs_evidence_witness:
  "\<exists>before kt after q.
    FindSuspectFailed (now_p w_pass) (db_known (p_db w_pass)) 0 10 = before @ kt # after \<and>
    q = fst (suspectLoop w_codec w_chain (\<lambda>_ _ _. GotTx w_rejected) 0 100 before no_report (tick_p w_pass)) \<and>
    (recovered (\<lambda>_ _. GotTx w_rejected) kt \<or> Outpoint 7 0 \<in> own_change w_codec (p_db q) (kt_TxID kt) \<or>
     licensed w_codec (\<lambda>_ _. GotTx w_rejected) 0 kt q (Outpoint 7 0))"
proof -
  let ?orc = "\<lambda>_ _ _. GotTx w_rejected"
  obtain p' r where run: "VerifyAndReleaseSuspects w_codec w_chain (Some ?orc) 0 100 10 w_pass = (p', r)" by force
  then have "coins (p_utxo p') (Outpoint 7 0) = Some w_coin" using w_run w_released(2) [of 2] by (metis fst_conv)
  moreover have "coins (p_utxo w_pass) (Outpoint 7 0) = Some w_taken" by (simp add: w_pass_fields w_gone_eq coins_def)
  moreover have "w_taken \<noteq> w_coin" by (simp add: w_taken_def w_coin_def)
  ultimately have changed: "coins (p_utxo p') (Outpoint 7 0) \<noteq> coins (p_utxo w_pass) (Outpoint 7 0)" by simp
  have "store_inv (p_utxo w_pass)" using w_gone_inv by (simp add: w_pass_fields)
  from release_needs_evidence [OF w_codec_ok _ this run changed] show ?thesis by simp
qed

theorem release_once_witness:
  "(\<exists>q. releaseVerifiedDead w_codec w_plan (fst (releaseVerifiedDead w_codec w_plan (w_at 0))) = (q, Inr None)) \<and>
   (\<exists>q. releaseVerifiedDead w_codec w_plan (fst (DrainOutbox w_codec 10 (fst (releaseVerifiedDead w_codec w_plan (w_at 0))))) = (q, Inr None))"
proof -
  obtain p1 where p1: "releaseVerifiedDead w_codec w_plan (w_at 0) = (p1, Inr (Some 0))" using w_released(1) [of 0] by (metis prod.collapse)
  have "IsTerminalFailure (rp_terminalKnown w_plan)" by (simp add: w_plan_def IsTerminalFailure_def)
  from release_once [OF w_at_fields(3) this p1, of w_plan p1] release_once [OF w_at_fields(3) this p1, of w_plan "fst (DrainOutbox w_codec 10 p1)" 10] p1
  show ?thesis by auto
qed

theorem release_returns_inputs_witness:
  "coins (p_utxo (fst (releaseVerifiedDead w_codec w_plan (w_at 0)))) (Outpoint 7 0) =
   Some (w_taken\<lparr>u_SpentBy := None, u_ReservedBy := '''', u_ReservedAt := zero_time, u_Pinned := False, u_Frozen := False\<rparr>)"
proof -
  obtain q where q: "releaseVerifiedDead w_codec w_plan (w_at 0) = (q, Inr (Some 0))" using w_released(1) [of 0] by (metis prod.collapse)
  have "Outpoint 7 0 \<in> set (rp_realInputs w_plan)" "Outpoint 7 0 \<notin> set (rp_phantomInputs w_plan) \<union> set (rp_changeOps w_plan)"
      "u_SpentBy w_taken = Some (rp_spendingTxID w_plan)" by (simp_all add: w_plan_def w_taken_def w_coin_def)
  from release_returns_inputs [OF w_codec_ok w_at_fields(1,2) q this(1,2) w_at_fields(4) this(3)] q show ?thesis by simp
qed

end
