(* ===== verification/Abort_Props.thy ===== *)
theory Abort_Props
  imports Abort Known_Tx_Props Memstore_Props
begin

text \<open>
  What an abort guarantees, whatever the UTXO store's failures: the fence and the release of the coins, or in
  Mode B the durable intent to release them, come together or not at all; and a drain without failures
  completes the intent.
\<close>

section \<open>The fence\<close>

text \<open>The row is aborted and its raw transaction can no longer be claimed for sending.\<close>

definition abort_fenced :: "metadb \<Rightarrow> table_transaction \<Rightarrow> bool" where
  "abort_fenced db t \<longleftrightarrow>
     (\<exists>r. txrow (db_txs db) (t_TransactionID t) = Some r \<and> t_Status r = TxStatusAborted) \<and>
     (abortTxID t \<noteq> '''' \<longrightarrow>
        (\<forall>now. snd (ClaimForSend now (db_known db) (abortTxID t)) \<in> {Some ErrStatusUpdateSkipped, Some ErrNotFound}))"

lemma abort_fenced_cong: "db_txs db' = db_txs db \<Longrightarrow> db_known db' = db_known db \<Longrightarrow> abort_fenced db' t = abort_fenced db t"
  by (simp add: abort_fenced_def)

lemma on_step_fields [simp]:
  "p_utxo (fst (on_known f p)) = p_utxo p" "p_utxo (fst (on_txs g p)) = p_utxo p"
  "p_utxo (fst (on_outputs h p)) = p_utxo p" "p_utxo (fst (on_outbox k p)) = p_utxo p"
  "p_modeA (fst (on_known f p)) = p_modeA p" "p_modeA (fst (on_txs g p)) = p_modeA p"
  "p_modeA (fst (on_outputs h p)) = p_modeA p" "p_modeA (fst (on_outbox k p)) = p_modeA p"
  "db_outbox (p_db (fst (on_known f p))) = db_outbox (p_db p)" "db_outbox (p_db (fst (on_txs g p))) = db_outbox (p_db p)"
  "db_outbox (p_db (fst (on_outputs h p))) = db_outbox (p_db p)"
  "db_txs (p_db (fst (on_known f p))) = db_txs (p_db p)" "db_txs (p_db (fst (on_outputs h p))) = db_txs (p_db p)"
  "db_txs (p_db (fst (on_outbox k p))) = db_txs (p_db p)"
  "db_known (p_db (fst (on_txs g p))) = db_known (p_db p)" "db_known (p_db (fst (on_outputs h p))) = db_known (p_db p)"
  "db_known (p_db (fst (on_outbox k p))) = db_known (p_db p)"
  "db_outbox (p_db (fst (on_outbox k p))) = k (now_p p) (db_outbox (p_db p))"
  by (simp_all add: on_known_def on_txs_def on_outputs_def on_outbox_def tick_p_def Let_def case_prod_unfold)

lemma fenceAborted_frame:
  "p_utxo (fst (fenceAborted t txid p)) = p_utxo p \<and> p_modeA (fst (fenceAborted t txid p)) = p_modeA p \<and>
   db_outbox (p_db (fst (fenceAborted t txid p))) = db_outbox (p_db p)"
proof -
  define upd where "upd = (\<lambda>now rows. Tx_UpdateStatus now rows (t_TransactionID t) TxStatusAborted
    [TxStatusUnsigned, TxStatusNoSend, TxStatusUnprocessed, TxStatusNonFinal])"
  obtain p1 r1 where 1: "on_txs upd p = (p1, r1)" by force
  obtain p2 r2 where 2: "on_known (\<lambda>now rows. TransitionToAborted now rows txid) p1 = (p2, r2)" by force
  have f1: "p_utxo p1 = p_utxo p \<and> p_modeA p1 = p_modeA p \<and> db_outbox (p_db p1) = db_outbox (p_db p)"
    using 1 by (auto simp: on_txs_def tick_p_def split: prod.splits)
  have f2: "p_utxo p2 = p_utxo p \<and> p_modeA p2 = p_modeA p \<and> db_outbox (p_db p2) = db_outbox (p_db p)"
    using 2 f1 by (auto simp: on_known_def tick_p_def split: prod.splits)
  show ?thesis using f1 f2 unfolding fenceAborted_def upd_def [symmetric] 1 by (cases r1; cases r2) (auto simp: 2)
qed

lemma txrow_mem: "tx_inv rows \<Longrightarrow> r \<in> set rows \<Longrightarrow> txrow rows (t_TransactionID r) = Some r"
  by (induction rows) (auto simp: tx_inv_def txrow_def image_iff)

lemma tx_status_set:
  assumes "tx_inv rows" "Tx_UpdateStatus now rows i st (e # es) = (rows', None)"
  shows "\<exists>r. txrow rows' i = Some r \<and> t_Status r = st"
proof -
  let ?p = "\<lambda>r. t_TransactionID r = i \<and> t_Status r \<in> set (e # es)"
  let ?f = "\<lambda>r :: tx_row. r\<lparr>t_Status := st, t_UpdatedAt := encTime now\<rparr>"
  have "affected ?p rows \<noteq> 0" and rows': "rows' = update_where ?p ?f rows"
    using assms(2) by (auto simp: Tx_UpdateStatus_def applyStatusUpdate_def Let_def split: if_splits)
  then obtain r where r: "r \<in> set rows" "?p r" by (auto simp: affected_def filter_empty_conv)
  with txrow_mem [OF assms(1) r(1)] have "txrow rows i = Some r" by simp
  moreover have "txrow rows' i = map_option (\<lambda>r. if ?p r then ?f r else r) (txrow rows i)"
    unfolding txrow_def rows' by (rule find_update_where) simp
  ultimately show ?thesis using r(2) by simp
qed

lemma cas_absent: "TransitionToAborted now rows txid = (rows', Some e) \<Longrightarrow> rows' = rows"
  by (auto simp: TransitionToAborted_def casFromPreBroadcast_def with_txid_def guarded_update_def Let_def split: sum.splits if_splits)

lemma cas_when: "snd (casFromPreBroadcast now rows x st) = snd (casFromPreBroadcast now' rows x st')"
  by (simp add: casFromPreBroadcast_def with_txid_def guarded_update_def Let_def split: sum.splits)

lemma fenceAborted_fenced:
  assumes "fenceAborted t (abortTxID t) p = (p', Inr u)" "tx_inv (db_txs (p_db p))" "known_inv (db_known (p_db p))"
  shows "abort_fenced (p_db p') t"
proof -
  let ?x = "abortTxID t"
  define upd where "upd = (\<lambda>now rows. Tx_UpdateStatus now rows (t_TransactionID t) TxStatusAborted
    [TxStatusUnsigned, TxStatusNoSend, TxStatusUnprocessed, TxStatusNonFinal])"
  define ab where "ab = (\<lambda>now rows. TransitionToAborted now rows ?x)"
  define cl where "cl = on_outputs (\<lambda>now outs. ClearSpentBy now outs (t_TransactionID t))"
  obtain p1 r1 where r1: "on_txs upd p = (p1, r1)" by force
  note fence = assms(1) [unfolded fenceAborted_def, folded upd_def ab_def cl_def, unfolded r1]
  then have 1: "on_txs upd p = (p1, Inr ())" using r1 by (cases r1) auto
  then have rest: "(if ?x = '''' then (p1, Inr ()) else case on_known ab p1 of
        (p2, Inl e) \<Rightarrow> if e = MetaErr ErrNotFound then cl p2 else (p2, Inl (if e = MetaErr ErrStatusUpdateSkipped then ErrAbortLostToSend else e))
      | (p2, Inr _) \<Rightarrow> cl p2) = (p', Inr u)" using fence r1 by simp
  have txs1: "\<exists>r. txrow (db_txs (p_db p1)) (t_TransactionID t) = Some r \<and> t_Status r = TxStatusAborted"
  proof -
    obtain rows' where "upd (now_p p) (db_txs (p_db p)) = (rows', None)" "db_txs (p_db p1) = rows'"
      using 1 by (auto simp: on_txs_def of_opt_def tick_p_def split: prod.splits option.splits)
    then show ?thesis using tx_status_set [OF assms(2)] unfolding upd_def by blast
  qed
  have k1: "db_known (p_db p1) = db_known (p_db p)" using on_step_fields(15) [of upd p] 1 by simp
  show ?thesis
  proof (cases "?x = ''''")
    case True
    then show ?thesis using rest txs1 by (simp add: abort_fenced_def)
  next
    case False
    obtain p2 r2 where 2: "on_known ab p1 = (p2, r2)" by force
    have ok: "r2 = Inr () \<or> r2 = Inl (MetaErr ErrNotFound)" and p': "p' = fst (cl p2)"
      using rest False unfolding 2 by (cases r2; auto split: if_splits)+
    obtain rows2 e2 where ab2: "ab (now_p p1) (db_known (p_db p)) = (rows2, e2)" by force
    with 2 k1 have k2: "db_known (p_db p2) = rows2" "r2 = of_opt e2" "db_txs (p_db p2) = db_txs (p_db p1)"
      by (auto simp: on_known_def tick_p_def)
    have "snd (ClaimForSend now rows2 ?x) \<in> {Some ErrStatusUpdateSkipped, Some ErrNotFound}" for now
    proof (cases e2)
      case None
      then show ?thesis using cas_lost [OF assms(3), of "now_p p1" ?x KnownTxStatusAborted rows2] ab2
        by (simp add: ab_def TransitionToAborted_def ClaimForSend_def knownTxPreBroadcastStatuses_def)
    next
      case (Some e)
      then have "e = ErrNotFound" using ok k2(2) by (auto simp: of_opt_def)
      moreover have "rows2 = db_known (p_db p)" using ab2 Some cas_absent unfolding ab_def by blast
      ultimately show ?thesis using ab2 Some cas_when [of now rows2 ?x ProvenTxStatusSending "now_p p1" KnownTxStatusAborted]
        by (simp add: ab_def TransitionToAborted_def ClaimForSend_def)
    qed
    then show ?thesis using txs1 k2 by (simp add: abort_fenced_def p' cl_def)
  qed
qed

section \<open>The intent\<close>

lemma enqueueAll_frame:
  "snd (enqueueAll ops p) = Inr () \<and> p_utxo (fst (enqueueAll ops p)) = p_utxo p \<and> p_modeA (fst (enqueueAll ops p)) = p_modeA p \<and>
   db_txs (p_db (fst (enqueueAll ops p))) = db_txs (p_db p) \<and> db_known (p_db (fst (enqueueAll ops p))) = db_known (p_db p)"
  by (induction ops arbitrary: p) simp_all

lemma enqueueAll_kept: "entry_at (db_outbox (p_db p)) k = Some e \<Longrightarrow> entry_at (db_outbox (p_db (fst (enqueueAll ops p)))) k = Some e"
  by (induction ops arbitrary: p) (simp_all add: Enqueue_entry)

text \<open>An outbox row for the operation, untouched unless one was queued before.\<close>

definition queued :: "payload outbox_entry list \<Rightarrow> payload outbox_entry list \<Rightarrow> abort_op \<Rightarrow> nat \<Rightarrow> bool" where
  "queued old rows op n \<longleftrightarrow>
     (\<exists>e. entry_at rows (ao_key op, ao_opType op, 0) = Some e \<and>
          (entry_at old (ao_key op, ao_opType op, 0) = None \<longrightarrow> ob_Payload e = ao_payload op \<and> ob_Attempts e \<le> n))"

lemma enqueueAll_queued: "queued (db_outbox (p_db p)) (db_outbox (p_db (fst (enqueueAll (op # ops) p)))) op 0"
proof -
  define p1 where "p1 = fst (on_outbox (\<lambda>now rows. Enqueue now rows (ao_key op) (ao_opType op) 0 (ao_payload op)) p)"
  have "queued (db_outbox (p_db p)) (db_outbox (p_db p1)) op 0" unfolding queued_def p1_def
    by (cases "entry_at (db_outbox (p_db p)) (ao_key op, ao_opType op, 0)") (simp_all add: Enqueue_entry)
  then show ?thesis unfolding queued_def enqueueAll.simps p1_def [symmetric] by (auto dest: enqueueAll_kept)
qed

lemma abortOps_shape:
  assumes "abortOps lib db uid t = Inr ops"
  shows "\<exists>rest. ops = releaseIntent lib uid (t_Reference t) # rest \<and> list_all (\<lambda>op. ao_opType op = opAbortRemoveChange) rest"
  using assms by (auto simp: abortOps_def Let_def split: if_splits sum.splits)

lemma abortFence_effect:
  assumes "abortFence lib uid t p = (p', r)" "tx_inv (db_txs (p_db p))" "known_inv (db_known (p_db p))"
  shows "p_utxo p' = p_utxo p \<and> p_modeA p' = p_modeA p \<and>
    (case r of Inl e \<Rightarrow> p_db p' = p_db p
     | Inr ops \<Rightarrow> abort_fenced (p_db p') t \<and> queued (db_outbox (p_db p)) (db_outbox (p_db p')) (releaseIntent lib uid (t_Reference t)) 0 \<and>
         (\<exists>rest. ops = releaseIntent lib uid (t_Reference t) # rest \<and> list_all (\<lambda>op. ao_opType op = opAbortRemoveChange) rest))"
proof -
  obtain p1 r1 where 1: "fenceAborted t (abortTxID t) p = (p1, r1)" by force
  have f1: "p_utxo p1 = p_utxo p" "p_modeA p1 = p_modeA p" "db_outbox (p_db p1) = db_outbox (p_db p)"
    using fenceAborted_frame [of t "abortTxID t" p] 1 by simp_all
  show ?thesis
  proof (cases r1)
    case (Inl e)
    then show ?thesis using assms(1) f1 by (auto simp: abortFence_def DoUnit_def andThen_def 1)
  next
    case (Inr u)
    note run = assms(1) [unfolded abortFence_def DoUnit_def andThen_def 1 Inr prod.case sum.case]
    show ?thesis
    proof (cases "abortOps lib (p_db p1) uid t")
      case (Inl e)
      show ?thesis using run f1 unfolding Inl by auto
    next
      case (Inr ops)
      from abortOps_shape [OF this] obtain rest where rest: "ops = releaseIntent lib uid (t_Reference t) # rest"
        "list_all (\<lambda>op. ao_opType op = opAbortRemoveChange) rest" by blast
      obtain p2 where 2: "enqueueAll ops p1 = (p2, Inr ())" using enqueueAll_frame [of ops p1] by (metis prod.collapse)
      have p': "p' = p2" "r = Inr ops" using run by (auto simp: Inr 2 ret_def)
      have "abort_fenced (p_db p1) t" using fenceAborted_fenced [OF _ assms(2,3)] 1 \<open>r1 = Inr u\<close> by simp
      then have "abort_fenced (p_db p2) t" using enqueueAll_frame [of ops p1] abort_fenced_cong [of "p_db p2" "p_db p1"] 2 by simp
      moreover have "queued (db_outbox (p_db p)) (db_outbox (p_db p2)) (releaseIntent lib uid (t_Reference t)) 0"
        using enqueueAll_queued [of p1] f1(3) 2 unfolding rest(1) by (metis fst_conv)
      ultimately show ?thesis using p' f1 rest enqueueAll_frame [of ops p1] 2 by simp
    qed
  qed
qed

section \<open>Inline execution\<close>

lemma abort_op_step:
  assumes "executeOutboxOp lib ty pl p = (p1, x)" "ty = opAbortRelease \<or> ty = opAbortRemoveChange"
  shows "p_db p1 = p_db p \<and> path repair_call (p_utxo p) (p_utxo p1)"
  using steps_inD [OF udb.in_abort_op [OF assms(2)] assms(1)] executeOutboxOp_effect [OF assms(1)] by (simp add: same_db_def)

lemma inlineLoop_change:
  assumes "list_all (\<lambda>op. ao_opType op = opAbortRemoveChange) ops"
  shows "snd (inlineLoop lib ops p) = Inr () \<and> path repair_call (p_utxo p) (p_utxo (fst (inlineLoop lib ops p))) \<and>
    db_txs (p_db (fst (inlineLoop lib ops p))) = db_txs (p_db p) \<and> db_known (p_db (fst (inlineLoop lib ops p))) = db_known (p_db p) \<and>
    entry_at (db_outbox (p_db (fst (inlineLoop lib ops p)))) (k, opAbortRelease, n) = entry_at (db_outbox (p_db p)) (k, opAbortRelease, n)"
  using assms
proof (induction ops arbitrary: p)
  case (Cons op ops)
  then have ty: "ao_opType op = opAbortRemoveChange" and IH: "list_all (\<lambda>op. ao_opType op = opAbortRemoveChange) ops" by simp_all
  obtain p1 x where 1: "executeOutboxOp lib (ao_opType op) (ao_payload op) p = (p1, x)" by force
  have s1: "p_db p1 = p_db p" "path repair_call (p_utxo p) (p_utxo p1)" using abort_op_step [OF 1] ty by simp_all
  have ne: "opAbortRemoveChange \<noteq> opAbortRelease" by (simp add: op_types)
  define p2 where "p2 = fst (case x of
      Inl e \<Rightarrow> on_outbox (\<lambda>_ rows. RecordError rows (ao_key op) (ao_opType op) 0 (ErrorText lib e)) p1
    | Inr _ \<Rightarrow> on_outbox (\<lambda>_ rows. MarkDone rows (ao_key op) (ao_opType op) 0) p1)"
  have run: "inlineLoop lib (op # ops) p = inlineLoop lib ops p2" by (cases x) (simp_all add: 1 p2_def)
  have u2: "p_utxo p2 = p_utxo p1" by (cases x) (simp_all add: p2_def)
  have d2: "db_txs (p_db p2) = db_txs (p_db p)" "db_known (p_db p2) = db_known (p_db p)"
    by (cases x; simp add: p2_def s1(1))+
  have e2: "entry_at (db_outbox (p_db p2)) (k, opAbortRelease, n) = entry_at (db_outbox (p_db p)) (k, opAbortRelease, n)"
    using ne by (cases x) (auto simp: p2_def s1(1) ty RecordError_entry MarkDone_entry option.map_ident)
  note IHp = Cons.IH [OF IH, of p2]
  have "path repair_call (p_utxo p) (p_utxo (fst (inlineLoop lib ops p2)))"
    using path_trans [OF s1(2)] IHp unfolding u2 by blast
  then show ?case unfolding run using IHp d2 e2 by simp
qed simp

lemma executeOutboxOp_release:
  "executeOutboxOp lib opAbortRelease pl = no_cascade (doAbortRelease (pl_userId pl) (pl_reservation pl))"
  by (simp add: executeOutboxOp_def op_types)

lemma inlineLoop_release:
  assumes ops: "list_all (\<lambda>op. ao_opType op = opAbortRemoveChange) rest" and rel: "rel = releaseIntent lib uid ref"
    and inv: "store_inv (p_utxo p)" and q: "queued old (db_outbox (p_db p)) rel 0"
    and run: "inlineLoop lib (rel # rest) p = (p', r)"
  shows "r = Inr () \<and> db_txs (p_db p') = db_txs (p_db p) \<and> db_known (p_db p') = db_known (p_db p) \<and>
    (ref \<noteq> '''' \<and> \<not> held_under (p_utxo p') uid ref \<or> queued old (db_outbox (p_db p')) rel 1)"
proof -
  have rel': "ao_opType rel = opAbortRelease" "ao_key rel = abortOutboxKey lib ref" "pl_userId (ao_payload rel) = uid"
    "pl_reservation (ao_payload rel) = ref" by (simp_all add: rel releaseIntent_def)
  obtain p1 x where 1: "executeOutboxOp lib (ao_opType rel) (ao_payload rel) p = (p1, x)" by force
  have s1: "p_db p1 = p_db p" "path repair_call (p_utxo p) (p_utxo p1)" using abort_op_step [OF 1] rel' by simp_all
  show ?thesis
  proof (cases x)
    case (Inr n)
    define p2 where "p2 = fst (on_outbox (\<lambda>_ rows. MarkDone rows (ao_key rel) (ao_opType rel) 0) p1)"
    have p': "inlineLoop lib rest p2 = (p', r)" using run by (simp add: 1 Inr p2_def)
    obtain u where "doAbortRelease uid ref p = (p1, Inr u)"
      using 1 Inr by (auto simp: rel' executeOutboxOp_release no_cascade_def andThen_Inr ret_def)
    from doAbortRelease_free [OF this] have free: "ref \<noteq> ''''" "\<not> held_under (p_utxo p2) uid ref" by (simp_all add: p2_def)
    moreover have "store_inv (p_utxo p2)" using path_inv [OF s1(2) inv] by (simp add: p2_def)
    ultimately have "\<not> held_under (p_utxo p') uid ref"
      using path_not_held inlineLoop_change [OF ops, of lib p2] p' by (metis fst_conv)
    then show ?thesis using free(1) inlineLoop_change [OF ops, of lib p2] p' s1(1) by (simp add: p2_def)
  next
    case (Inl e)
    define p2 where "p2 = fst (on_outbox (\<lambda>_ rows. RecordError rows (ao_key rel) (ao_opType rel) 0 (ErrorText lib e)) p1)"
    have p': "inlineLoop lib rest p2 = (p', r)" using run by (simp add: 1 Inl p2_def)
    have "queued old (db_outbox (p_db p2)) rel 1"
      using q by (auto simp: queued_def p2_def RecordError_entry s1(1))
    then have "queued old (db_outbox (p_db p')) rel 1"
      using inlineLoop_change [OF ops, of lib p2 "ao_key rel" 0] p' by (simp add: queued_def rel'(1))
    then show ?thesis using inlineLoop_change [OF ops, of lib p2] p' s1(1) by (simp add: p2_def)
  qed
qed

section \<open>Abort\<close>

lemma abortDirect_effect:
  assumes "abortDirect lib uid t p = (p', r)" "p_modeA p" "tx_inv (db_txs (p_db p))" "known_inv (db_known (p_db p))" "store_inv (p_utxo p)"
  shows "case r of Inl e \<Rightarrow> p_db p' = p_db p \<and> p_utxo p' = p_utxo p
    | Inr _ \<Rightarrow> abort_fenced (p_db p') t \<and> t_Reference t \<noteq> '''' \<and> \<not> held_under (p_utxo p') uid (t_Reference t)"
proof (cases r)
  case (Inl e)
  then show ?thesis using assms(1,2) by (auto simp: abortDirect_def DoUnit_def Let_def split: prod.splits sum.splits)
next
  case (Inr u)
  let ?x = "abortTxID t"
  define rm where "rm = (\<lambda>p. if ?x = '''' then (p, Inr ())
     else case changeOutpoints lib (p_db p) uid (t_TransactionID t) ?x of
       Inl e \<Rightarrow> (p, Inl e) | Inr ops \<Rightarrow> doAbortRemoveChange lib ?x ops p)"
  have "andThen (fenceAborted t ?x) (\<lambda>_. andThen (doAbortRelease uid (t_Reference t)) (\<lambda>_. rm)) p = (p', Inr u)"
    using assms(1) unfolding Inr abortDirect_def DoUnit_def Let_def rm_def by (auto split: prod.splits sum.splits)
  then obtain p1 p2 u1 u2 where 1: "fenceAborted t ?x p = (p1, Inr u1)" and 2: "doAbortRelease uid (t_Reference t) p1 = (p2, Inr u2)"
      and 3: "rm p2 = (p', Inr u)" by (auto simp: andThen_Inr)
  have db: "p_db p2 = p_db p1" using steps_inD [OF udb.in_doAbortRelease 2] by (simp add: same_db_def)
  have rm: "p_db p' = p_db p2 \<and> path repair_call (p_utxo p2) (p_utxo p')"
    using 3 steps_inD [OF udb.in_doAbortRemoveChange] steps_inD [OF upath.in_doAbortRemoveChange]
    by (auto simp: rm_def same_db_def utxo_path_def split: if_splits sum.splits)
  have "p_utxo p1 = p_utxo p" using fenceAborted_frame [of t ?x p] 1 by simp
  then have inv2: "store_inv (p_utxo p2)" using path_inv steps_inD [OF upath.in_doAbortRelease 2] assms(5) by (simp add: utxo_path_def)
  from doAbortRelease_free [OF 2] have free: "t_Reference t \<noteq> ''''" "\<not> held_under (p_utxo p2) uid (t_Reference t)" by simp_all
  with path_not_held [OF conjunct2 [OF rm] inv2] have "\<not> held_under (p_utxo p') uid (t_Reference t)" by blast
  with fenceAborted_fenced [OF 1 assms(3,4)] free(1) rm db show ?thesis by (simp add: Inr)
qed

lemma abortViaOutbox_effect:
  assumes "abortViaOutbox lib uid t p = (p', r)" "tx_inv (db_txs (p_db p))" "known_inv (db_known (p_db p))" "store_inv (p_utxo p)"
  shows "case r of Inl e \<Rightarrow> p_db p' = p_db p \<and> p_utxo p' = p_utxo p
    | Inr _ \<Rightarrow> abort_fenced (p_db p') t \<and> (t_Reference t \<noteq> '''' \<and> \<not> held_under (p_utxo p') uid (t_Reference t) \<or>
        queued (db_outbox (p_db p)) (db_outbox (p_db p')) (releaseIntent lib uid (t_Reference t)) 1)"
proof -
  let ?rel = "releaseIntent lib uid (t_Reference t)"
  obtain p1 r1 where 1: "abortFence lib uid t p = (p1, r1)" by force
  note eff = abortFence_effect [OF 1 assms(2,3)]
  show ?thesis
  proof (cases r1)
    case (Inl e)
    then show ?thesis using assms(1) eff by (auto simp: abortViaOutbox_def andThen_def 1)
  next
    case (Inr ops)
    with eff obtain rest where ops: "ops = ?rel # rest" "list_all (\<lambda>op. ao_opType op = opAbortRemoveChange) rest"
      and f: "abort_fenced (p_db p1) t" and q: "queued (db_outbox (p_db p)) (db_outbox (p_db p1)) ?rel 0" and u: "p_utxo p1 = p_utxo p" by auto
    obtain p2 r2 where 2: "inlineLoop lib (?rel # rest) p1 = (p2, r2)" by force
    note inl = inlineLoop_release [OF ops(2) refl _ q 2] 
    have i: "r2 = Inr () \<and> db_txs (p_db p2) = db_txs (p_db p1) \<and> db_known (p_db p2) = db_known (p_db p1) \<and>
      (t_Reference t \<noteq> '''' \<and> \<not> held_under (p_utxo p2) uid (t_Reference t) \<or> queued (db_outbox (p_db p)) (db_outbox (p_db p2)) ?rel 1)"
      by (rule inl) (simp add: u assms(4))
    then have "p' = p2" "r = Inr ()" using assms(1) by (simp_all add: abortViaOutbox_def andThen_def 1 Inr ops(1) DoUnit_def 2 del: inlineLoop.simps)
    then show ?thesis using i f abort_fenced_cong [of "p_db p2" "p_db p1" t] by simp
  qed
qed

text \<open>
  C4: An abort is all or nothing against any failures of the UTXO store, in both modes.  If \<open>AbortAction\<close>
  returns an error, neither store has changed.  If it succeeds, the transaction row it found was outgoing and
  abortable and is now aborted, its raw transaction can never be claimed for sending, and its funding coins are
  free: no coin of the user is held by the action's reference.  In Mode B, where the stores cannot commit
  together, the coins may still be held, but then the intent to release them is a row of the outbox, with
  the release as its payload and at most one attempt used (unless an earlier row had the same key).
\<close>

theorem abort_safe:
  assumes "AbortAction lib (Some uid) ref p = (p', r)"
    and "tx_inv (db_txs (p_db p))" "known_inv (db_known (p_db p))" "store_inv (p_utxo p)"
  shows "case r of
      Inl e \<Rightarrow> p_db p' = p_db p \<and> p_utxo p' = p_utxo p
    | Inr _ \<Rightarrow> (\<exists>t. findAbortRow (p_db p) uid ref = Inr (Some t) \<and> t_IsOutgoing t \<and> t_Status t \<in> set abortableStatuses \<and>
        abort_fenced (p_db p') t \<and>
        (t_Reference t \<noteq> '''' \<and> \<not> held_under (p_utxo p') uid (t_Reference t) \<or>
         \<not> p_modeA p \<and> queued (db_outbox (p_db p)) (db_outbox (p_db p')) (releaseIntent lib uid (t_Reference t)) 1))"
proof (cases "\<exists>t. findAbortRow (p_db p) uid ref = Inr (Some t) \<and> t_IsOutgoing t \<and> t_Status t \<in> set abortableStatuses")
  case True
  then obtain t where t: "findAbortRow (p_db p) uid ref = Inr (Some t)" "t_IsOutgoing t" "t_Status t \<in> set abortableStatuses" by blast
  with assms(1) have run: "abortTxRow lib uid t p = (p', r)" by (simp add: AbortAction_def)
  show ?thesis
  proof (cases "p_modeA p")
    case True
    with run have "abortDirect lib uid t p = (p', r)" by (simp add: abortTxRow_def)
    from abortDirect_effect [OF this True assms(2-4)] t show ?thesis by (cases r) auto
  next
    case False
    with run have "abortViaOutbox lib uid t p = (p', r)" by (simp add: abortTxRow_def)
    from abortViaOutbox_effect [OF this assms(2-4)] t False show ?thesis by (cases r) auto
  qed
next
  case False
  then have "\<exists>e. r = Inl e \<and> p' = p"
    using assms(1) by (auto simp: AbortAction_def split: sum.splits option.splits if_splits)
  then show ?thesis by auto
qed

definition w_sdk :: sdk where
  "w_sdk = \<lparr>NewHashFromHex = \<lambda>s. if s = ''h'' then Some 7 else None, HashString = \<lambda>_. ''h'', TxInputs = \<lambda>_. None,
     Sum256 = \<lambda>_. [1], ErrorText = \<lambda>_. ''failed''\<rparr>"

text \<open>A provider whose store holds one pinned coin for the action \<open>tx\<close>, and fails its first call.\<close>

definition w_prov :: prov where
  "w_prov = \<lparr>p_db = \<lparr>db_known = [], db_txs = [w_tx 1 ''tx'' TxStatusUnsigned None], db_labels = \<lparr>nt_rows = [], nt_edges = []\<rparr>,
       db_outputs = [], db_tags = \<lparr>nt_rows = [], nt_edges = []\<rparr>, db_outbox = []\<rparr>,
     p_utxo = w_pinned, p_clock = \<lambda>_. 5, p_ticks = 0,
     p_faults = \<lambda>n. if n = 0 then Some (FailBefore ErrClosed) else None, p_calls = 0, p_modeA = False, p_posts = []\<rparr>"

lemma w_pinned_coin: "coins w_pinned (Outpoint 7 0) = Some (w_coin\<lparr>u_ReservedBy := ''tx'', u_ReservedAt := 9, u_Pinned := True\<rparr>)"
  by (simp add: w_pinned_def w_held_eq coins_def Pin_def setPinned_def ValidateReservation_def heldBy_def w_coin_def
      set_pin_def upd_all_def Let_def)

lemma w_held_under: "held_under w_pinned 1 ''tx''"
  unfolding held_under_def using w_pinned_coin by (intro exI conjI) (assumption, simp add: held_coin_def w_coin_def)

lemma w_pinned_inv: "store_inv w_pinned"
  unfolding w_pinned_def by (intro exec_call_inv reachable_inv [OF w_reachable(2)])

theorem abort_safe_witness:
  "\<exists>p'. AbortAction w_sdk (Some 1) ''tx'' w_prov = (p', Inr ()) \<and> held_under (p_utxo p') 1 ''tx'' \<and>
     queued [] (db_outbox (p_db p')) (releaseIntent w_sdk 1 ''tx'') 1"
proof -
  obtain p' r where run: "AbortAction w_sdk (Some 1) ''tx'' w_prov = (p', r)" by force
  have t: "findAbortRow (p_db w_prov) 1 ''tx'' = Inr (Some t) \<Longrightarrow> t_Reference t = ''tx''" for t
    by (auto simp: findAbortRow_def w_prov_def FindByReference_def w_tx_def tx_scan_def tx_cols.defs table_transaction.defs)
  have r: "r = Inr ()" "p_utxo p' = w_pinned"
    using run by (auto simp: AbortAction_def findAbortRow_def w_prov_def FindByReference_def w_tx_def tx_scan_def tx_cols.defs table_transaction.defs abortableStatuses_def
      abortTxRow_def abortViaOutbox_def abortFence_def DoUnit_def andThen_def fenceAborted_def on_txs_def on_outbox_def tick_p_def now_p_def
      Tx_UpdateStatus_def applyStatusUpdate_def update_where_def affected_def of_opt_def abortTxID_def abortOps_def releaseIntent_def
      executeOutboxOp_release no_cascade_def doAbortRelease_def utxo_call_def ret_def Let_def)
  have held: "held_under (p_utxo p') 1 ''tx''" using w_held_under r(2) by simp
  from abort_safe [OF run] have "queued [] (db_outbox (p_db p')) (releaseIntent w_sdk 1 ''tx'') 1"
    using t held w_pinned_inv r(1) by (auto simp: w_prov_def tx_inv_def known_inv_def)
  with run r held show ?thesis by auto
qed

section \<open>Recovery by the drain\<close>

definition answering :: "prov \<Rightarrow> bool" where
  "answering p \<longleftrightarrow> (\<forall>n \<ge> p_calls p. p_faults p n = None) \<and> \<not> s_closed (p_utxo p) \<and> store_inv (p_utxo p)"

lemma open_release:
  assumes "\<not> s_closed s" "t \<noteq> ''''"
  shows "\<exists>s' n. Unpin s uid t = (s', Inr n)" "\<exists>s' n. ReleaseReservation s uid t = (s', Inr n)"
  using assms by (auto simp: Unpin_def setPinned_def ReleaseReservation_def ValidateReservation_def Let_def)

lemma doAbortRelease_answers:
  assumes "answering p" "t \<noteq> ''''" shows "\<exists>p'. doAbortRelease uid t p = (p', Inr ())"
proof -
  obtain s n where u: "Unpin (p_utxo p) uid t = (s, Inr n)" using assms open_release(1) [of "p_utxo p" t uid] by (auto simp: answering_def)
  let ?p1 = "p\<lparr>p_calls := Suc (p_calls p), p_utxo := s\<rparr>"
  have 1: "utxo_call (\<lambda>s. Unpin s uid t) p = (?p1, Inr n)" using assms(1) u by (simp add: utxo_call_def answering_def Let_def)
  have "s = exec_call (CallUnpin uid t) (p_utxo p)" using u by simp
  then have "\<not> s_closed s" using assms(1) exec_call_closed [of "CallUnpin uid t" "p_utxo p"] by (simp add: answering_def)
  then obtain s' n' where r: "ReleaseReservation s uid t = (s', Inr n')" using assms open_release by blast
  have "utxo_call (\<lambda>s. ReleaseReservation s uid t) ?p1 = (?p1\<lparr>p_calls := Suc (Suc (p_calls p)), p_utxo := s'\<rparr>, Inr n')"
    using assms(1) r by (simp add: utxo_call_def answering_def Let_def)
  then show ?thesis by (simp add: doAbortRelease_def andThen_def 1 ret_def)
qed

lemma answering_step:
  assumes "answering p" "executeOutboxOp lib ty pl p = (p', r)" shows "answering p'"
  using assms(1) executeOutboxOp_effect [OF assms(2)] path_open path_inv by (auto simp: answering_def frame_def)

text \<open>One entry of the drain: its operation, then the mark of its outcome.\<close>

definition drain_mark :: "sdk \<Rightarrow> payload outbox_entry \<Rightarrow> prov \<times> (perr + nat) \<Rightarrow> prov" where
  "drain_mark lib e px = fst (on_outbox (\<lambda>_ rows. case snd px of
       Inl err \<Rightarrow> RecordError rows (ob_TxID e) (ob_OpType e) (ob_Chunk e) (ErrorText lib err)
     | Inr _ \<Rightarrow> MarkDone rows (ob_TxID e) (ob_OpType e) (ob_Chunk e)) (fst px))"

definition drain_one :: "sdk \<Rightarrow> payload outbox_entry \<Rightarrow> prov \<Rightarrow> prov" where
  "drain_one lib e p = drain_mark lib e (executeOutboxOp lib (ob_OpType e) (ob_Payload e) p)"

lemma drainPending_step: "\<exists>rep'. drainPending lib (e # es) rep p = drainPending lib es rep' (drain_one lib e p)"
proof -
  obtain p1 x where x: "executeOutboxOp lib (ob_OpType e) (ob_Payload e) p = (p1, x)" by force
  show ?thesis by (cases x) (auto simp: x drain_one_def drain_mark_def Let_def)
qed

lemma drain_mark_fields [simp]:
  "p_utxo (drain_mark lib e px) = p_utxo (fst px)" "p_calls (drain_mark lib e px) = p_calls (fst px)"
  "p_faults (drain_mark lib e px) = p_faults (fst px)"
  by (simp_all add: drain_mark_def on_outbox_def tick_p_def)

lemma drain_mark_entry:
  "entry_at (db_outbox (p_db (fst px))) k = None \<Longrightarrow> entry_at (db_outbox (p_db (drain_mark lib e px))) k = None"
  by (cases "snd px") (simp_all add: drain_mark_def RecordError_entry MarkDone_entry)

lemma drain_one_keeps:
  assumes "answering p"
  shows "answering (drain_one lib e p)"
    and "t \<noteq> '''' \<Longrightarrow> \<not> held_under (p_utxo p) uid t \<Longrightarrow> \<not> held_under (p_utxo (drain_one lib e p)) uid t"
    and "entry_at (db_outbox (p_db p)) k = None \<Longrightarrow> entry_at (db_outbox (p_db (drain_one lib e p))) k = None"
proof -
  obtain p1 x where x: "executeOutboxOp lib (ob_OpType e) (ob_Payload e) p = (p1, x)" by force
  note eff = executeOutboxOp_effect [OF x]
  show "answering (drain_one lib e p)"
    using answering_step [OF assms x] by (simp add: drain_one_def x answering_def)
  show "\<not> held_under (p_utxo (drain_one lib e p)) uid t" if "t \<noteq> ''''" "\<not> held_under (p_utxo p) uid t"
    using path_not_held [OF conjunct1 [OF eff] _ that] assms by (simp add: drain_one_def x answering_def)
  show "entry_at (db_outbox (p_db (drain_one lib e p))) k = None" if "entry_at (db_outbox (p_db p)) k = None"
    using that eff drain_mark_entry by (simp add: drain_one_def x frame_def)
qed

lemma drainPending_keeps:
  assumes "answering p"
  shows "\<exists>rep'. snd (drainPending lib es rep p) = Inr rep'"
    and "t \<noteq> '''' \<Longrightarrow> \<not> held_under (p_utxo p) uid t \<Longrightarrow> \<not> held_under (p_utxo (fst (drainPending lib es rep p))) uid t"
    and "entry_at (db_outbox (p_db p)) k = None \<Longrightarrow> entry_at (db_outbox (p_db (fst (drainPending lib es rep p)))) k = None"
  using assms
proof (induction es arbitrary: p rep)
  case (Cons e es)
  { case 1
    obtain rep' where "drainPending lib (e # es) rep p = drainPending lib es rep' (drain_one lib e p)" using drainPending_step by blast
    then show ?case using Cons.IH(1) [OF drain_one_keeps(1) [OF 1]] by simp }
  { case 2
    obtain rep' where "drainPending lib (e # es) rep p = drainPending lib es rep' (drain_one lib e p)" using drainPending_step by blast
    then show ?case using Cons.IH(2) [OF 2(1) drain_one_keeps(2) [OF 2(3,1,2)] drain_one_keeps(1) [OF 2(3)]] by simp }
  { case 3
    obtain rep' where "drainPending lib (e # es) rep p = drainPending lib es rep' (drain_one lib e p)" using drainPending_step by blast
    then show ?case using Cons.IH(3) [OF drain_one_keeps(3) [OF 3(2,1)] drain_one_keeps(1) [OF 3(2)]] by simp }
qed simp_all

text \<open>The entry that releases the reservation does so, and goes.\<close>

lemma drain_one_release:
  assumes "answering p" "ob_OpType e = opAbortRelease" "pl_reservation (ob_Payload e) \<noteq> ''''"
  shows "\<not> held_under (p_utxo (drain_one lib e p)) (pl_userId (ob_Payload e)) (pl_reservation (ob_Payload e))"
    and "entry_at (db_outbox (p_db (drain_one lib e p))) (ob_key e) = None"
proof -
  obtain p1 where r: "doAbortRelease (pl_userId (ob_Payload e)) (pl_reservation (ob_Payload e)) p = (p1, Inr ())"
    using doAbortRelease_answers [OF assms(1,3)] by blast
  then have x: "executeOutboxOp lib (ob_OpType e) (ob_Payload e) p = (p1, Inr 0)"
    by (simp add: assms(2) executeOutboxOp_release no_cascade_def andThen_def ret_def)
  show "\<not> held_under (p_utxo (drain_one lib e p)) (pl_userId (ob_Payload e)) (pl_reservation (ob_Payload e))"
    using doAbortRelease_free [OF r] by (simp add: drain_one_def x)
  show "entry_at (db_outbox (p_db (drain_one lib e p))) (ob_key e) = None"
    by (simp add: drain_one_def x drain_mark_def MarkDone_entry ob_key_def)
qed

lemma drainPending_release:
  assumes "answering p" "e \<in> set es" "ob_OpType e = opAbortRelease" "pl_reservation (ob_Payload e) \<noteq> ''''"
  shows "\<not> held_under (p_utxo (fst (drainPending lib es rep p))) (pl_userId (ob_Payload e)) (pl_reservation (ob_Payload e)) \<and>
    entry_at (db_outbox (p_db (fst (drainPending lib es rep p)))) (ob_key e) = None"
  using assms(1,2)
proof (induction es arbitrary: p rep)
  case (Cons d es)
  obtain rep' where run: "drainPending lib (d # es) rep p = drainPending lib es rep' (drain_one lib d p)"
    using drainPending_step by blast
  note a = drain_one_keeps(1) [OF Cons.prems(1), of lib d]
  show ?case
  proof (cases "e \<in> set es")
    case True
    then show ?thesis unfolding run by (rule Cons.IH [OF a])
  next
    case False
    then have "d = e" using Cons.prems(2) by simp
    then show ?thesis unfolding run using drain_one_release [OF Cons.prems(1) assms(3,4)] drainPending_keeps(2,3) [OF a] assms(4) by simp
  qed
qed simp

text \<open>
  C15: A pending release is recovered by one drain.  If the outbox holds the release intent of an abort with
  attempts left, and the UTXO store is open and answers from now on, then one \<open>DrainOutbox\<close> over the whole
  outbox succeeds and afterwards no coin of the user is held by the reservation and the intent is gone;
  whatever the other entries of the outbox are, and whether or not they fail.
\<close>

theorem drain_recovers_release:
  assumes "answering p" "outbox_inv (db_outbox (p_db p))" "int (length (db_outbox (p_db p))) \<le> limit"
    and "entry_at (db_outbox (p_db p)) (key, opAbortRelease, 0) = Some e" "ob_Attempts e < MaxOutboxAttempts"
    and "ob_Payload e = ao_payload (releaseIntent lib uid ref)" "ref \<noteq> ''''"
  shows "\<exists>p' rep. DrainOutbox lib limit p = (p', Inr rep) \<and> \<not> held_under (p_utxo p') uid ref \<and>
    entry_at (db_outbox (p_db p')) (key, opAbortRelease, 0) = None"
proof -
  have e: "e \<in> set (db_outbox (p_db p))" "ob_key e = (key, opAbortRelease, 0)" using entry_at_Some [OF assms(4)] by auto
  then have ty: "ob_OpType e = opAbortRelease" by (simp add: ob_key_def)
  have pl: "pl_userId (ob_Payload e) = uid" "pl_reservation (ob_Payload e) = ref" by (simp_all add: assms(6) releaseIntent_def)
  let ?rep = "\<lparr>dr_Drained = 0, dr_Failed = 0, dr_Parked = 0, dr_ParkedTotal = 0\<rparr>"
  let ?lim = "if limit \<le> 0 then defaultMonitorBatchLimit else limit"
  have "0 < limit" using e(1) assms(3) length_pos_if_in_set [of e "db_outbox (p_db p)"] by linarith
  then have mem: "e \<in> set (FetchPending (db_outbox (p_db p)) ?lim)" using FetchPending_mem [OF e(1) assms(3)] assms(5) by simp
  obtain p' rep where run: "drainPending lib (FetchPending (db_outbox (p_db p)) ?lim) ?rep p = (p', Inr rep)"
    using drainPending_keeps(1) [OF assms(1), of lib _ ?rep] by (metis prod.collapse)
  have "\<not> held_under (p_utxo p') uid ref" "entry_at (db_outbox (p_db p')) (key, opAbortRelease, 0) = None"
    using drainPending_release [OF assms(1) mem ty, of lib ?rep] assms(7) e(2) run pl by simp_all
  moreover have "DrainOutbox lib limit p = (p', Inr (rep\<lparr>dr_ParkedTotal := CountParked (db_outbox (p_db p'))\<rparr>))"
    by (simp add: DrainOutbox_def DoUnit_def Let_def run)
  ultimately show ?thesis by blast
qed


definition w_intent :: "payload outbox_entry" where
  "w_intent = \<lparr>ob_TxID = [1], ob_OpType = opAbortRelease, ob_Chunk = 0, ob_Payload = ao_payload (releaseIntent w_sdk 1 ''tx''),
     ob_Attempts = 9, ob_LastError = None, ob_CreatedAt = 0\<rparr>"

theorem drain_recovers_release_witness:
  "held_under (p_utxo w_prov) 1 ''tx'' \<and>
   (\<exists>p' rep. DrainOutbox w_sdk 5 (w_prov\<lparr>p_calls := 1, p_db := (p_db w_prov)\<lparr>db_outbox := [w_intent]\<rparr>\<rparr>) = (p', Inr rep) \<and>
      \<not> held_under (p_utxo p') 1 ''tx'')"
proof -
  let ?p = "w_prov\<lparr>p_calls := 1, p_db := (p_db w_prov)\<lparr>db_outbox := [w_intent]\<rparr>\<rparr>"
  have o: "\<not> s_closed w_pinned" by (simp add: w_pinned_def w_held_eq Pin_def setPinned_def ValidateReservation_def Let_def)
  have a: "answering ?p" using o w_pinned_inv by (simp add: answering_def w_prov_def)
  have "\<exists>p' rep. DrainOutbox w_sdk 5 ?p = (p', Inr rep) \<and> \<not> held_under (p_utxo p') 1 ''tx'' \<and>
      entry_at (db_outbox (p_db p')) ([1], opAbortRelease, 0) = None"
    by (rule drain_recovers_release [OF a, of 5 "[1]" w_intent])
      (simp_all add: w_intent_def MaxOutboxAttempts_def outbox_inv_def entry_at_def ob_key_def)
  then show ?thesis using w_held_under by (auto simp: w_prov_def)
qed

end
