(* ===== verification/Create_Frame.thy ===== *)
theory Create_Frame
  imports Create_Fund
begin

text \<open>
  What creating an action never touches, whatever calls of the UTXO store fail: the known transactions and the posts
  to arcade. The funder is a map from the provider to itself that keeps them.
\<close>

definition unsent :: "prov \<Rightarrow> prov \<Rightarrow> bool" where
  "unsent p0 p \<longleftrightarrow> p_posts p = p_posts p0 \<and> db_known (p_db p) = db_known (p_db p0)"

lemma unsent_refl [simp]: "unsent p p"
  by (simp add: unsent_def)

lemma unsent_trans: "unsent p q \<Longrightarrow> unsent q r \<Longrightarrow> unsent p r"
  by (simp add: unsent_def)

lemma unsent_call: "unsent p (fst (utxo_call f p))"
  by (auto simp: utxo_call_def unsent_def Let_def split: option.splits fault.splits prod.splits sum.splits)

lemma unsent_as_store: "unsent p0 p \<Longrightarrow> unsent p0 (fst (as_store (utxo_call f p)))"
  using unsent_trans [OF _ unsent_call] by (simp add: as_store_def)

interpretation keep: store_hom prov_ops prov_ops id "unsent p0" for p0
proof (unfold_locales, goal_cases)
  case (5 p t os)
  then show ?case using unsent_as_store [OF 5, of "\<lambda>s. plain_err (ReleaseOutpoints s t os)"]
    by (auto simp: prov_ops_def split: prod.splits sum.splits)
qed (use unsent_as_store in \<open>simp_all add: prov_ops_def\<close>)

lemma fundStep_unsent:
  assumes "fundStep L f a p = Some (q, r)"
  shows "unsent p q"
proof -
  from assms obtain r' where "Fund L f prov_ops a (id p) = Some (q, r')" by (auto simp: fundStep_def)
  from keep.Fund_hom [OF this unsent_refl] show ?thesis using assms by (auto simp: fundStep_def)
qed

lemma reserve_unsent: "reserveProvidedInputs uid t ops p = (q, r) \<Longrightarrow> unsent p q"
  using unsent_call [of p "\<lambda>s. plain_err (ReserveOutpoints s uid t ops)"]
  by (auto simp: reserveProvidedInputs_def split: if_splits prod.splits sum.splits perr.splits)

lemma insertTx_unsent: "insertTx nx p = (q, r) \<Longrightarrow> unsent p q"
  by (auto simp: insertTx_def unsent_def Let_def split: prod.splits)

lemma insertPlans_unsent: "insertPlans uid txID k pls p = (q, r) \<Longrightarrow> unsent p q"
proof (induction pls arbitrary: k p)
  case (Cons pl pls)
  obtain p1 r1 where 1: "insertOutput (planOutput uid txID (of_nat k) pl) p = (p1, r1)" by force
  then have "unsent p p1" by (auto simp: insertOutput_def unsent_def Let_def split: prod.splits)
  then show ?case using Cons 1 unsent_trans by (cases r1) (auto simp: andThen_def)
qed (simp add: ret_def)

lemma persist_unsent:
  assumes "persistCreateAction lib nt bl rnd pol uid t prefix args provided scr fr p = (q, r)"
  shows "unsent p q"
proof -
  have unit: "unsent p q" if "andThen (insertTx nx) (\<lambda>txID. andThen (insertPlans uid txID 0 pls) (\<lambda>_ q. (q, g q))) p = (q, r)" for nx pls g
  proof -
    obtain p1 r1 where 1: "insertTx nx p = (p1, r1)" by force
    show ?thesis
    proof (cases r1)
      case (Inr txID)
      obtain p2 r2 where 2: "insertPlans uid txID 0 pls p1 = (p2, r2)" by force
      have "q = p2" using that 1 Inr 2 by (cases r2) (auto simp: andThen_def)
      then show ?thesis using unsent_trans [OF insertTx_unsent [OF 1] insertPlans_unsent [OF 2]] by simp
    qed (use that 1 insertTx_unsent [OF 1] in \<open>simp add: andThen_def\<close>)
  qed
  show ?thesis
    using assms unfolding persistCreateAction_def Let_def by (auto split: sum.splits prod.splits intro: unit)
qed

lemma detached_unsent: "unsent p (releaseReservationDetached uid t p)"
  by (simp add: releaseReservationDetached_def unsent_call)

lemma DoUnit_unsent: "unsent p q' \<Longrightarrow> DoUnit (\<lambda>_. (q', r')) p = (q, r) \<Longrightarrow> unsent p q"
  by (cases r') (auto simp: DoUnit_def unsent_def)

lemma createShared_unsent:
  assumes "createShared L f uid pc persist p = Some (q, r)" "\<And>fr p q r. persist fr p = (q, r) \<Longrightarrow> unsent p q"
  shows "unsent p q"
proof -
  obtain p1 r1 where 1: "reserveProvidedInputs uid (pc_reference pc) (walletOwnedOutpoints (pc_inputs pc)) p = (p1, r1)" by force
  note u1 = reserve_unsent [OF 1]
  from assms(1) 1 obtain q' r' where x: "DoUnit (\<lambda>_. (q', r')) p = (q, r)" and run: "(case r1 of Inl e \<Rightarrow> Some (p1, Inl e)
      | Inr _ \<Rightarrow> (case fundStep L f (pc_fund pc) p1 of None \<Rightarrow> None | Some (p2, Inl e) \<Rightarrow> Some (p2, Inl e)
                  | Some (p2, Inr fr) \<Rightarrow> Some (persist fr p2))) = Some (q', r')"
    by (auto simp: createShared_def split: sum.splits)
  have "unsent p q'"
  proof (cases r1)
    case (Inr u)
    then obtain p2 r2 where 2: "fundStep L f (pc_fund pc) p1 = Some (p2, r2)" using run by (auto split: option.splits)
    note u2 = unsent_trans [OF u1 fundStep_unsent [OF 2]]
    show ?thesis using run Inr 2 u2 unsent_trans [OF u2 assms(2)] by (cases r2) auto
  qed (use run u1 in simp)
  then show ?thesis using DoUnit_unsent x by blast
qed

lemma createSplit_unsent:
  assumes "createSplit L f uid pc persist p = Some (q, r)" "\<And>fr p q r. persist fr p = (q, r) \<Longrightarrow> unsent p q"
  shows "unsent p q"
proof -
  obtain p1 r1 where 1: "reserveProvidedInputs uid (pc_reference pc) (walletOwnedOutpoints (pc_inputs pc)) p = (p1, r1)" by force
  note u1 = reserve_unsent [OF 1]
  show ?thesis
  proof (cases r1)
    case (Inl e)
    then show ?thesis using assms(1) 1 unsent_trans [OF u1 detached_unsent] by (auto simp: createSplit_def)
  next
    case (Inr u)
    then obtain p2 r2 where 2: "fundStep L f (pc_fund pc) p1 = Some (p2, r2)" using assms(1) 1 by (auto simp: createSplit_def split: option.splits)
    note u2 = unsent_trans [OF u1 fundStep_unsent [OF 2]]
    show ?thesis
    proof (cases r2)
      case (Inl e)
      then show ?thesis using assms(1) 1 Inr 2 u2 by (simp add: createSplit_def)
    next
      case (Inr fr)
      obtain p3 r3 where 3: "persist fr p2 = (p3, r3)" by force
      obtain p4 r4 where 4: "DoUnit (persist fr) p2 = (p4, r4)" by force
      then have "DoUnit (\<lambda>_. (p3, r3)) p2 = (p4, r4)" using 3 by (simp add: DoUnit_def)
      note u4 = unsent_trans [OF u2 DoUnit_unsent [OF assms(2) [OF 3] this]]
      show ?thesis using assms(1) 1 \<open>r1 = Inr u\<close> 2 Inr 4 u4 unsent_trans [OF u4 detached_unsent]
        by (cases r4) (auto simp: createSplit_def split: if_splits)
    qed
  qed
qed

lemma CreateAction_unsent:
  assumes run: "CreateAction lib nt bl L f rnd pol auth args p = Some (q, r)"
  shows "unsent p q"
proof (cases "\<exists>uid pc. auth = Some uid \<and> prepareCreate lib bl L rnd pol (p_db p) uid args = Inr pc")
  case True
  then obtain uid pc where pc: "auth = Some uid" "prepareCreate lib bl L rnd pol (p_db p) uid args = Inr pc" by blast
  let ?per = "persistCreateAction lib nt bl rnd pol uid (pc_reference pc) (pc_prefix pc) args (pc_inputs pc) (pc_script pc)"
  have per: "unsent p q" if "?per fr p = (q, r)" for fr p q r by (rule persist_unsent [OF that])
  show ?thesis using run pc createShared_unsent [where persist = ?per, OF _ per] createSplit_unsent [where persist = ?per, OF _ per]
    by (simp add: CreateAction_def split: if_splits)
qed (use run in \<open>auto simp: CreateAction_def split: option.splits sum.splits\<close>)

end
