(* ===== verification/Fence_Props.thy ===== *)
theory Fence_Props
  imports Sweeps Reconciler_Props Abort_Props Create_Frame
begin

text \<open>
  The broadcast fence across the whole provider: every operation writes the known transactions only in ways that
  keep a fenced row fenced, and broadcasts only what it has claimed.
\<close>

section \<open>Relations kept by fence-respecting writes\<close>

text \<open>
  A preorder that holds along every write of the known transactions that respects the fence.  The operations of
  the provider are shown to stay within such a preorder, one component after the other.
\<close>

locale fence_order = known_order +
  assumes fenced_write: "respects_fence c \<Longrightarrow> R p (p\<lparr>p_db := (p_db p)\<lparr>db_known := exec_kt c (db_known (p_db p))\<rparr>\<rparr>)"
begin

lemma in_fst: "steps_in R m \<Longrightarrow> R p (fst (m p))"
  by (simp add: steps_in_def)

lemma in_write:
  assumes "\<And>now rows. \<exists>c. respects_fence c \<and> fst (f now rows) = exec_kt c rows" shows "steps_in R (on_known f)"
proof (unfold steps_in_def, intro allI)
  fix p :: prov
  obtain c where c: "respects_fence c" "fst (f (now_p p) (db_known (p_db p))) = exec_kt c (db_known (p_db p))" using assms by blast
  have "R p (tick_p p)" by (rule other) (simp_all add: tick_p_def)
  from trans [OF this fenced_write [OF c(1)]] show "R p (fst (on_known f p))"
    using c(2) by (simp add: on_known_def Let_def case_prod_unfold tick_p_def)
qed

lemma in_writes:
  "steps_in R (on_known (\<lambda>now rows. SetArcadeStatus now rows x a))"
  "steps_in R (on_known (\<lambda>now rows. BulkSetArcadeStatus now rows xs a))"
  "steps_in R (on_known (\<lambda>now rows. MarkSuspect now rows x t cs a rs))"
  "steps_in R (on_known (\<lambda>now rows. MarkSuspectFailed now rows x t rs))"
  "steps_in R (on_known (\<lambda>now rows. StampVerifiedRejected now rows x t))"
  "steps_in R (on_known (\<lambda>now rows. TransitionToAborted now rows x))"
  "steps_in R (on_known (\<lambda>now rows. ClaimForSend now rows x))"
  "steps_in R (on_known (\<lambda>now rows. ReclaimStaleSend now rows x t))"
  "steps_in R (on_known (\<lambda>now rows. SetProof now rows x n b1 b2 b3))"
  "steps_in R (on_known (\<lambda>now rows. MarkPolled now rows xs))"
  by (rule in_write, metis exec_kt.simps respects_fence.simps)+

lemma in_guarded_writes:
  "fenced st \<or> set KnownTxNeverRequeueStatuses \<subseteq> set skips \<Longrightarrow> steps_in R (on_known (\<lambda>now rows. Upsert now rows (newKnownTx x st raw) skips))"
  "fenced st \<or> set KnownTxNeverRequeueStatuses \<subseteq> set skips \<Longrightarrow> steps_in R (on_known (\<lambda>now rows. KnownTx_UpdateStatus now rows x st skips))"
  "fenced st \<or> set KnownTxNeverRequeueStatuses \<subseteq> set skips \<Longrightarrow> steps_in R (on_known (\<lambda>now rows. BulkUpdateStatus now rows xs st skips))"
  "fenced st \<Longrightarrow> steps_in R (on_known (\<lambda>now rows. TransitionSuspect now rows x st))"
  "fenced st \<Longrightarrow> steps_in R (on_known (\<lambda>now rows. ClearProof now rows x st))"
proof -
  have st: "kt_Status (newKnownTx x st raw) = st" by (simp add: newKnownTx_def)
  show "fenced st \<or> set KnownTxNeverRequeueStatuses \<subseteq> set skips \<Longrightarrow> steps_in R (on_known (\<lambda>now rows. Upsert now rows (newKnownTx x st raw) skips))"
    by (rule in_write) (metis exec_kt.simps(1) respects_fence.simps(1) st)
  show "fenced st \<or> set KnownTxNeverRequeueStatuses \<subseteq> set skips \<Longrightarrow> steps_in R (on_known (\<lambda>now rows. KnownTx_UpdateStatus now rows x st skips))"
    "fenced st \<or> set KnownTxNeverRequeueStatuses \<subseteq> set skips \<Longrightarrow> steps_in R (on_known (\<lambda>now rows. BulkUpdateStatus now rows xs st skips))"
    "fenced st \<Longrightarrow> steps_in R (on_known (\<lambda>now rows. TransitionSuspect now rows x st))"
    "fenced st \<Longrightarrow> steps_in R (on_known (\<lambda>now rows. ClearProof now rows x st))"
    by (rule in_write, metis exec_kt.simps respects_fence.simps)+
qed

end

lemma fenced_targets:
  "fenced ProvenTxStatusUnconfirmed" "fenced KnownTxStatusStuck" "fenced ProvenTxStatusInvalid" "fenced ProvenTxStatusDoubleSpend"
  by (simp_all add: fenced_def req_status_defs)

subsection \<open>Status records\<close>

context fence_order
begin

lemma in_setArcadeStatus: "steps_in R (setArcadeStatus x a)" "steps_in R (recordArcadeStatus x a)"
  unfolding recordArcadeStatus_def setArcadeStatus_def by (intro in_tolerate in_writes)+

lemma in_markSuspect: "steps_in R (markSuspect rec)"
  using in_tick [OF in_tolerate [OF in_writes(3)]] unfolding steps_in_def markSuspect_def by blast

lemma in_setProof: "steps_in R (setProof x height bh mpb rt)"
  unfolding setProof_def by (intro in_tolerate in_writes)

lemma in_applySeen: "steps_in R (applySeen lib rec)"
  unfolding applySeen_def Let_def
  by (intro in_DoUnit in_andThen in_tolerate in_quiet in_guarded_writes in_promoteChange in_setArcadeStatus) (simp add: fenced_targets)

lemma in_applyMined: "steps_in R (applyMined lib ch rec)"
proof -
  have "steps_in R (commitMined lib rec h height bh mpb rt)" for h height bh mpb rt
    unfolding commitMined_def Let_def
    by (intro in_DoUnit in_andThen in_tolerate in_quiet in_promoteChange in_setArcadeStatus in_setProof in_removeSpentBy)
  then show ?thesis unfolding applyMined_def by (auto intro!: in_ret in_fail split: option.splits bool.splits)
qed

lemma in_commitMinedRepair: "steps_in R (commitMinedRepair lib kt pr)"
proof -
  have "steps_in R (DoUnit (andThen (factSpendMinedInputs lib kt (pf_txidHash pr) res)
        (\<lambda>_. andThen (case row of None \<Rightarrow> ret () | Some t \<Rightarrow> markInputsSpentFromRaw lib t (kt_RawTx kt))
        (\<lambda>_. andThen (setProof (kt_TxID kt) (pf_height pr) (pf_blockHash pr) (pf_mpBytes pr) (pf_root pr))
        (\<lambda>_. andThen (tolerate [ErrStatusUpdateSkipped] (on_txs upd))
        (\<lambda>_. andThen (on_txs clr)
        (\<lambda>_. andThen (remintChangeByTxID lib (kt_TxID kt) TierMined)
        (\<lambda>_. removeSpentBy (pf_txidHash pr)))))))))" for res row upd clr
    by (intro in_DoUnit in_andThen in_tolerate in_quiet in_factSpend in_setProof in_remint in_removeSpentBy)
      (auto intro!: in_ret in_markInputsSpentFromRaw split: option.splits)
  then show ?thesis by (simp add: steps_in_def commitMinedRepair_def Let_def)
qed

lemma in_applyMinedRepair: "steps_in R (applyMinedRepair lib ch rec kt)"
  unfolding applyMinedRepair_def
  by (auto intro!: in_ret in_fail in_andThen in_setArcadeStatus in_commitMinedRepair split: option.splits)

lemma in_ApplyStatusUpdate: "steps_in R (ApplyStatusUpdate lib ch rec)"
proof (unfold steps_in_def, intro allI)
  fix p
  have "steps_in R (andThen (applyMinedRepair lib ch rec kt) (\<lambda>_. ret ()))" for kt by (intro in_andThen in_applyMinedRepair in_ret)
  then have "R p (fst (andThen (applyMinedRepair lib ch rec kt) (\<lambda>_. ret ()) p))" for kt by (rule in_fst)
  moreover have "R p (fst (applySeen lib rec p))" "R p (fst (applyMined lib ch rec p))" "R p (fst (markSuspect rec p))"
      "\<And>st. R p (fst (recordArcadeStatus (rec_TxID rec) st p))"
    by (rule in_fst, rule in_applySeen in_applyMined in_markSuspect in_setArcadeStatus)+
  ultimately have "R p (fst (ApplyStatusUpdate lib ch rec p))" if "FindByTxID (db_known (p_db p)) (rec_TxID rec) = Inr (Some kt)" for kt
    unfolding ApplyStatusUpdate_def Let_def applyRejected_def applyPendingRetry_def that by (simp add: refl)
  moreover have "R p (fst (ApplyStatusUpdate lib ch rec p))" if "\<And>kt. FindByTxID (db_known (p_db p)) (rec_TxID rec) \<noteq> Inr (Some kt)"
    using that by (simp add: ApplyStatusUpdate_def Let_def refl split: sum.split option.split)
  ultimately show "R p (fst (ApplyStatusUpdate lib ch rec p))" by blast
qed

lemma in_status_loops:
  "steps_in R (setStatusLoop recs sts)" "steps_in R (applyRejectedBatch recs)" "steps_in R (setProofLoop prs)"
  "steps_in R (scanLoop prs)" "steps_in R (applyAll lib ch recs)"
proof -
  show "steps_in R (setStatusLoop recs sts)" by (induction sts) (simp_all only: loop_steps in_ret in_andThen in_writes)
  show "steps_in R (applyRejectedBatch recs)" by (induction recs) (simp_all only: loop_steps in_ret in_andThen in_markSuspect)
  show "steps_in R (setProofLoop prs)" by (induction prs) (simp_all only: loop_steps in_ret in_andThen in_setProof)
  show "steps_in R (scanLoop prs)" by (induction prs) (simp_all only: loop_steps in_ret in_andThen in_removeSpentBy)
  show "steps_in R (applyAll lib ch recs)" by (induction recs) (simp_all only: loop_steps in_ret in_andThen in_ApplyStatusUpdate)
qed

lemma in_ApplyStatusBatch: "steps_in R (ApplyStatusBatch lib ch recs)"
proof (unfold steps_in_def, intro allI)
  fix p
  have seen: "steps_in R (applySeenBatch lib recs')" for recs'
    unfolding applySeenBatch_def Let_def setArcadeStatusBatch_def
    by (auto intro!: in_ret in_andThen in_quiet in_guarded_writes in_status_loops in_promoteChange simp: fenced_targets)
  have mined: "steps_in R (applyMinedBatch lib prs)" for prs
    unfolding applyMinedBatch_def Let_def setArcadeStatusBatch_def doRemovePhantom_def
    by (auto intro!: in_ret in_andThen in_quiet in_status_loops in_promoteChange)
  have "steps_in R (andThen (batchWrites lib plan prs) (\<lambda>_. applyAll lib ch recs''))" for plan prs recs''
    unfolding batchWrites_def setArcadeStatusBatch_def
    by (auto intro!: in_ret in_andThen in_DoUnit seen mined in_status_loops)
  then show "R p (fst (ApplyStatusBatch lib ch recs p))"
    unfolding steps_in_def ApplyStatusBatch_def Let_def by (auto simp: refl split: sum.splits)
qed

end

subsection \<open>Aborts and the outbox\<close>

context fence_order
begin

lemma in_cascadeChildren: "steps_in R (cascadeChildren lib h hs)"
proof -
  have "R p (fst (cascadeLoop lib reason hs n p))" for reason hs n p
  proof (induction hs arbitrary: n p)
    case (Cons h hs)
    obtain q r where r: "on_known (\<lambda>now rows. MarkSuspect now rows (HashString lib h) (now_p p) [] (OtherStatus ''cascade'') reason) (tick_p p) = (q, r)"
      by force
    have "R p (tick_p p)" by (rule other) (simp_all add: tick_p_def)
    from trans [OF this steps_inD [OF in_writes(3) r]] have R: "R p q" .
    then have next': "R p (fst (cascadeLoop lib reason hs n' q))" for n' using trans Cons.IH by blast
    show ?case
    proof (cases "FindByTxID (db_known (p_db p)) (HashString lib h)")
      case (Inr k)
      then show ?thesis using r R next' Cons.IH by (cases k; cases r) simp_all
    qed (simp add: refl)
  qed (simp add: refl)
  then show ?thesis by (simp add: steps_in_def cascadeChildren_def)
qed

lemma in_primitives:
  "steps_in R (doUnspend h ops)" "steps_in R (doReleaseOutpoints t ops)" "steps_in R (doRemovePhantom ops)"
  "steps_in R (doRemoveMinted lib h ops)" "steps_in R (doAbortRelease uid t)" "steps_in R (doAbortRemoveChange lib m ops)"
  unfolding doUnspend_def doReleaseOutpoints_def doRemovePhantom_def doRemoveMinted_def doAbortRelease_def doAbortRemoveChange_def
  by (auto intro!: in_combined in_quiet in_cascadeChildren split: option.split)

lemma in_executeOutboxOp: "steps_in R (executeOutboxOp lib ty pl)"
  unfolding executeOutboxOp_def by (auto intro!: in_combined in_primitives)

lemma in_after_outbox: "R p q \<Longrightarrow> R p (fst (on_outbox f q))"
  using trans in_fst [OF in_quiet(3)] by blast

lemma in_DrainOutbox: "steps_in R (DrainOutbox lib limit)"
proof -
  have "R p (fst (drainPending lib es rep p))" for es rep p
  proof (induction es arbitrary: rep p)
    case (Cons e es)
    obtain q r where r: "executeOutboxOp lib (ob_OpType e) (ob_Payload e) p = (q, r)" by force
    have "R p (fst (on_outbox f q))" for f using in_after_outbox steps_inD [OF in_executeOutboxOp r] by blast
    then have "R p (fst (drainPending lib es rep' (fst (on_outbox f q))))" for rep' f using trans Cons.IH by blast
    then show ?case using r by (cases r) (simp_all add: Let_def)
  qed (simp add: refl)
  then have "steps_in R (\<lambda>p. let pending = FetchPending (db_outbox (p_db p)) l in
        case drainPending lib pending rep0 p of (p', Inl e) \<Rightarrow> (p', Inl e)
        | (p', Inr rep) \<Rightarrow> (p', Inr (rep\<lparr>dr_ParkedTotal := CountParked (db_outbox (p_db p'))\<rparr>)))" for l rep0
    unfolding steps_in_def Let_def by (auto simp: case_prod_unfold split: sum.splits)
  then show ?thesis unfolding DrainOutbox_def by (rule in_DoUnit)
qed

lemma in_fenceAborted: "steps_in R (fenceAborted t x)"
proof (unfold steps_in_def, intro allI)
  fix p
  obtain p1 r1 where 1: "on_txs (\<lambda>now rows. Tx_UpdateStatus now rows (t_TransactionID t) TxStatusAborted
      [TxStatusUnsigned, TxStatusNoSend, TxStatusUnprocessed, TxStatusNonFinal]) p = (p1, r1)" by force
  obtain p2 r2 where 2: "on_known (\<lambda>now rows. TransitionToAborted now rows x) p1 = (p2, r2)" by force
  have "R p p1" using steps_inD [OF in_quiet(1) 1] .
  moreover have "R p1 p2" using steps_inD [OF in_writes(6) 2] .
  ultimately have "R p p1" "R p p2" "R p (fst (on_outputs g p2))" for g using trans in_fst [OF in_quiet(2)] by blast+
  then show "R p (fst (fenceAborted t x p))" unfolding fenceAborted_def 1 by (cases r1; cases r2) (simp_all add: 2)
qed

lemma in_enqueueAll: "R p (fst (enqueueAll ops p))"
proof (induction ops arbitrary: p)
  case (Cons op ops)
  then show ?case using trans in_fst [OF in_quiet(3)] by (simp add: Let_def) blast
qed (simp add: refl)

lemma in_inlineLoop: "R p (fst (inlineLoop lib ops p))"
proof (induction ops arbitrary: p)
  case (Cons op ops)
  obtain q r where r: "executeOutboxOp lib (ao_opType op) (ao_payload op) p = (q, r)" by force
  have "R p (fst (on_outbox f q))" for f using in_after_outbox steps_inD [OF in_executeOutboxOp r] by blast
  then have "R p (fst (inlineLoop lib ops (fst (on_outbox f q))))" for f using trans Cons.IH by blast
  then show ?case using r by (cases r) simp_all
qed (simp add: refl)

lemma in_abortTxRow: "steps_in R (abortTxRow lib uid t)"
proof -
  have "steps_in R (\<lambda>p. if x = '''' then (p, Inr ()) else case changeOutpoints lib (p_db p) uid n x of
      Inl e \<Rightarrow> (p, Inl e) | Inr ops \<Rightarrow> doAbortRemoveChange lib x ops p)" for x n
    unfolding steps_in_def using in_fst [OF in_primitives(6)] by (simp add: refl split: sum.split)
  then have A: "steps_in R (abortDirect lib uid t)"
    unfolding abortDirect_def Let_def by (intro in_DoUnit in_andThen in_fenceAborted in_primitives)
  have "steps_in R (andThen (enqueueAll ops) (\<lambda>_. ret ops))" for ops
    by (intro in_andThen in_ret) (simp add: steps_in_def in_enqueueAll)
  then have "steps_in R (\<lambda>p. case abortOps lib (p_db p) uid t of Inl e \<Rightarrow> (p, Inl e) | Inr ops \<Rightarrow> andThen (enqueueAll ops) (\<lambda>_. ret ops) p)"
    unfolding steps_in_def by (simp add: refl split: sum.split)
  then have "steps_in R (abortFence lib uid t)" unfolding abortFence_def by (intro in_DoUnit in_andThen in_fenceAborted)
  moreover have "steps_in R (\<lambda>p. (fst (DoUnit (inlineLoop lib ops) p), Inr ()))" for ops
    by (intro in_ignore in_DoUnit) (simp add: steps_in_def in_inlineLoop)
  ultimately have "steps_in R (abortViaOutbox lib uid t)" unfolding abortViaOutbox_def by (intro in_andThen)
  with A show ?thesis by (simp add: steps_in_def abortTxRow_def)
qed

lemma in_AbortAction: "steps_in R (AbortAction lib auth reference)"
  unfolding steps_in_def AbortAction_def using in_fst [OF in_abortTxRow] by (simp add: refl split: option.split sum.split)

end

subsection \<open>The reconciler\<close>

context fence_order
begin

lemma in_freezing: "R p (freezeChange lib x p)" "R p (unfreezeChange lib x p)"
  unfolding freezeChange_def unfreezeChange_def by (simp_all add: in_fst [OF in_quiet(4)] refl split: sum.split)

lemma in_failTransactions: "steps_in R (failTransactions x)"
  unfolding failTransactions_def by (intro in_tolerate in_quiet)

lemma tick_then: "R (tick_p p) q \<Longrightarrow> R p q" "R p (tick_p p)"
proof -
  show "R p (tick_p p)" by (rule other) (simp_all add: tick_p_def)
  then show "R (tick_p p) q \<Longrightarrow> R p q" by (rule trans)
qed

lemma in_leaveOrEscalate: "steps_in R (leaveOrEscalate kt q)"
proof -
  have "steps_in R (escalateStuck x)" for x
    unfolding escalateStuck_def by (intro in_DoUnit in_andThen in_guarded_writes in_failTransactions fenced_targets)
  then have "R p (fst (escalateStuck x (tick_p p)))" for x p by (intro tick_then(1) [OF in_fst])
  then have "R p p'" if "escalateStuck x (tick_p p) = (p', r)" for x p p' r using that by (metis fst_conv)
  then show ?thesis unfolding steps_in_def leaveOrEscalate_def by (simp add: refl tick_then(2) split: option.split prod.split sum.split)
qed

lemma in_gate:
  assumes "fenced (rp_terminalKnown plan)" shows "steps_in R (gateAndFinalizeStatuses plan)"
proof (unfold steps_in_def, intro allI)
  fix p
  obtain q r where r: "on_known (\<lambda>now rows. TransitionSuspect now rows (rp_txid plan) (rp_terminalKnown plan)) p = (q, r)" by force
  from steps_inD [OF in_guarded_writes(4) [OF assms] r] have "R p q" .
  moreover have "R q (fst (failTransactions (rp_txid plan) q))" by (rule in_fst) (rule in_failTransactions)
  ultimately have "R p q" "R p (fst (failTransactions (rp_txid plan) q))" using trans by blast+
  then show "R p (fst (gateAndFinalizeStatuses plan p))" unfolding gateAndFinalizeStatuses_def r by (cases r) simp_all
qed

lemma in_handled: "steps_in R m \<Longrightarrow> steps_in R (handled_ok m)"
  unfolding steps_in_def handled_ok_def by (auto simp: case_prod_unfold split: sum.splits)

lemma in_releaseVerifiedDead:
  assumes "fenced (rp_terminalKnown plan)" shows "steps_in R (releaseVerifiedDead lib plan)"
proof -
  have refs: "steps_in R (releaseRefs rs ops)" for rs ops by (induction rs) (simp_all add: in_ret in_andThen in_primitives)
  have "steps_in R (releaseDirect lib plan)"
    unfolding releaseDirect_def applyReleaseOpsDirect_def
    by (intro in_handled in_DoUnit in_andThen in_gate assms in_primitives refs in_ret)
  moreover have "steps_in R (releaseViaOutbox lib plan)"
  proof -
    have enq: "steps_in R (enqueueOps raw ops)" for raw ops by (induction ops) (simp_all add: in_ret in_andThen in_quiet)
    have "steps_in R (inlineOps lib raw ops n)" for raw ops n
      by (intro in_inlineOps in_quiet) (simp add: list_all_iff in_executeOutboxOp)
    then have "steps_in R (DoUnit (inlineOps lib raw ops n))" for raw ops n by (rule in_DoUnit)
    then have "steps_in R (\<lambda>p. case DoUnit (inlineOps lib raw ops n) p of (p', Inr n) \<Rightarrow> (p', Inr (Some n)) | (p', Inl _) \<Rightarrow> (p', Inr (Some 0)))" for raw ops n
      unfolding steps_in_def by (simp add: case_prod_unfold split: sum.split)
    then show ?thesis unfolding releaseViaOutbox_def
      by (auto intro!: in_fail in_handled in_andThen in_DoUnit in_gate assms enq split: sum.split)
  qed
  ultimately show ?thesis by (simp add: steps_in_def releaseVerifiedDead_def)
qed

lemma in_release_built:
  assumes "fenced st"
  shows "R p (fst (andThen (releaseVerifiedDead lib (buildReleasePlan lib db kt st inputs)) (\<lambda>c. ret (released_report c)) p))"
  by (intro in_fst in_andThen in_releaseVerifiedDead in_ret) (simp add: buildReleasePlan_def assms)

lemma in_releaseSpendConflict: "steps_in R (releaseSpendConflict lib ask kt rec q)"
proof -
  have "R p (fst (deferSuspect lib kt q p))" for p
    unfolding deferSuspect_def using trans in_freezing(1) in_fst [OF in_leaveOrEscalate] by blast
  then show ?thesis unfolding steps_in_def releaseSpendConflict_def Let_def
    by (auto simp: refl case_prod_unfold in_release_built fenced_targets split: sum.split)
qed

lemma in_reconcileSuspect: "steps_in R (reconcileSuspect lib ch ask grace q kt)"
proof -
  have "R p (fst (handleRecovered lib ch kt rec p))" for rec p
  proof -
    have "steps_in R (andThen (ApplyStatusUpdate lib ch rec) (\<lambda>_. ret rep))" for rep :: reconciler_report by (intro in_andThen in_ApplyStatusUpdate in_ret)
    then show ?thesis unfolding handleRecovered_def using trans in_freezing(2) in_fst by blast
  qed
  moreover have "R p (fst (handleRejected lib ask kt rec grace q p))" for rec p
  proof -
    obtain p1 r where r: "on_known (\<lambda>now rows. StampVerifiedRejected now rows (kt_TxID kt) (now_p p)) (tick_p p) = (p1, r)" by force
    have "R p p1" by (rule tick_then(1)) (rule steps_inD [OF in_writes(5) r])
    then have 1: "R p p1" "R p (freezeChange lib (kt_TxID kt) p1)" using trans in_freezing(1) by blast+
    have 2: "R p (fst (releaseSpendConflict lib ask kt rec q (tick_p p)))" "R p (freezeChange lib (kt_TxID kt) (tick_p p))"
        "\<And>db ins. R p (fst (andThen (releaseVerifiedDead lib (buildReleasePlan lib db kt ProvenTxStatusInvalid ins)) (\<lambda>c. ret (released_report c)) (tick_p p)))"
      by (rule tick_then(1), rule in_fst in_freezing in_release_built, rule in_releaseSpendConflict fenced_targets)
        (rule tick_then(1), rule in_freezing in_release_built, (rule fenced_targets)?)+
    show ?thesis
    proof (cases "kt_VerifiedRejectedAt kt")
      case None
      with 1 show ?thesis by (cases r) (simp_all add: handleRejected_def r)
    next
      case (Some since)
      with 2 tick_then(2) show ?thesis unfolding handleRejected_def Let_def by (cases "txInputs lib kt") simp_all
    qed
  qed
  ultimately show ?thesis unfolding reconcileSuspect_def Let_def handleDoubleSpend_def
    by (simp add: steps_in_def in_fst [OF in_leaveOrEscalate] in_fst [OF in_releaseSpendConflict] split: gettx.split)
qed

lemma in_VerifyAndReleaseSuspects: "steps_in R (VerifyAndReleaseSuspects lib ch orc grace q limit)"
proof -
  have "R p (fst (suspectLoop lib ch ask grace q kts rep p))" for ask kts rep p
  proof (induction kts arbitrary: rep p)
    case (Cons kt kts)
    obtain p1 r where r: "reconcileSuspect lib ch (ask (kt_TxID kt)) grace q kt p = (p1, r)" by force
    have "R p (fst (suspectLoop lib ch ask grace q kts rep' p1))" for rep' using trans steps_inD [OF in_reconcileSuspect r] Cons.IH by blast
    then show ?case by (cases r) (simp_all add: r Let_def)
  qed (simp add: refl)
  then have "R p (fst (suspectLoop lib ch ask grace q kts rep (tick_p p)))" for ask kts rep p by (rule tick_then(1))
  then show ?thesis unfolding steps_in_def VerifyAndReleaseSuspects_def Let_def by (simp add: refl split: option.split)
qed

end

subsection \<open>Processing, up to the broadcast and after it\<close>

context fence_order
begin

lemma in_markInputsSpent: "steps_in R (markInputsSpent lib uid n ins)"
  by (rule in_other) (simp add: markInputsSpent_def Let_def on_outputs_def tick_p_def split: sum.split)

lemma in_mintChange: "steps_in R (mintChange lib uid n x)"
proof -
  have "steps_in R (andThen (batch_call (\<lambda>s. Mint s ms)) (\<lambda>(errs, merr). case merr of Some e \<Rightarrow> fail (StoreErr e)
      | None \<Rightarrow> (case List.map_filter (\<lambda>x. x) errs of [] \<Rightarrow> ret () | x # _ \<Rightarrow> fail (ItemErr x))))" for ms
    by (auto intro!: in_andThen in_quiet in_ret in_fail split: option.split list.split)
  then have "R p (fst (andThen (batch_call (\<lambda>s. Mint s ms)) (\<lambda>(errs, merr). case merr of Some e \<Rightarrow> fail (StoreErr e)
      | None \<Rightarrow> (case List.map_filter (\<lambda>x. x) errs of [] \<Rightarrow> ret () | x # _ \<Rightarrow> fail (ItemErr x))) p))" for ms p by (rule in_fst)
  then show ?thesis unfolding steps_in_def mintChange_def Let_def by (simp add: refl split: sum.split option.split)
qed

lemma in_storeSigned: "steps_in R (storeSigned lib uid ref t x sts raw)"
proof -
  have "R p (fst (bindTxID n x p))" for n x p
    unfolding bindTxID_def using in_fst [OF in_quiet(1)] by (auto simp: case_prod_unfold split: sum.split)
  then have "steps_in R (bindTxID n x)" for n x by (simp add: steps_in_def)
  then show ?thesis unfolding storeSigned_def
    by (intro in_DoUnit in_andThen in_quiet in_guarded_writes in_mintChange) simp_all
qed

lemma in_processNewTx: "steps_in R (processNewTx lib nt pol uid args)"
  unfolding steps_in_def processNewTx_def by (simp add: refl in_fst [OF in_storeSigned] split: option.split sum.split)

lemma in_statusBehindRefusal: "steps_in R (statusBehindRefusal x)"
  by (simp add: steps_in_def statusBehindRefusal_def refl split: sum.split option.split)

lemma in_queueDelayed: "steps_in R (queueDelayed x)"
proof (unfold steps_in_def, intro allI)
  fix p
  obtain q r where r: "on_known (\<lambda>now rows. KnownTx_UpdateStatus now rows x ProvenTxStatusUnsent KnownTxNeverRequeueStatuses) p = (q, r)" by force
  have "steps_in R (on_known (\<lambda>now rows. KnownTx_UpdateStatus now rows x ProvenTxStatusUnsent KnownTxNeverRequeueStatuses))"
    by (rule in_guarded_writes) simp
  from steps_inD [OF this r] have R: "R p q" .
  have "steps_in R (andThen (statusBehindRefusal x)
      (\<lambda>st. if WasBroadcastStatus st \<or> st = ProvenTxStatusSending then ret () else fail (NotBroadcastable x st)))"
    by (auto intro!: in_andThen in_statusBehindRefusal in_ret in_fail)
  with R have "R p (fst (andThen (statusBehindRefusal x)
      (\<lambda>st. if WasBroadcastStatus st \<or> st = ProvenTxStatusSending then ret () else fail (NotBroadcastable x st)) q))"
    using trans in_fst by blast
  with R show "R p (fst (queueDelayed x p))" unfolding queueDelayed_def r by (cases r) simp_all
qed

lemma in_takeSend: "steps_in R (takeSend x b)"
  unfolding takeSend_def by (simp add: in_writes)

lemma in_claimForBroadcast: "steps_in R (claimForBroadcast x st)"
proof (unfold steps_in_def, intro allI)
  fix p
  obtain q r where r: "takeSend x (st = ProvenTxStatusSending) p = (q, r)" by force
  from steps_inD [OF in_takeSend r] have R: "R p q" .
  have again: "steps_in R (\<lambda>p2. case takeSend x True p2 of
       (p3, Inr _) \<Rightarrow> (p3, Inr sendClaimOwned)
     | (p3, Inl e) \<Rightarrow> if e = MetaErr ErrStatusUpdateSkipped then (p3, Inr sendClaimInFlight)
         else if e = MetaErr ErrNotFound then (p3, Inl (RowVanished x)) else (p3, Inl e))"
    using in_fst [OF in_takeSend] unfolding steps_in_def by (auto simp: case_prod_unfold split: sum.split)
  have "steps_in R (andThen (statusBehindRefusal x) (\<lambda>s. if WasBroadcastStatus s then ret sendClaimAlreadySent
      else if s \<noteq> ProvenTxStatusSending then fail (NotBroadcastable x s)
      else if st = ProvenTxStatusSending then ret sendClaimInFlight
      else (\<lambda>p2. case takeSend x True p2 of
       (p3, Inr _) \<Rightarrow> (p3, Inr sendClaimOwned)
     | (p3, Inl e) \<Rightarrow> if e = MetaErr ErrStatusUpdateSkipped then (p3, Inr sendClaimInFlight)
         else if e = MetaErr ErrNotFound then (p3, Inl (RowVanished x)) else (p3, Inl e))))"
    by (auto intro!: in_andThen in_statusBehindRefusal in_ret in_fail again)
  from trans [OF R in_fst [OF this]] R show "R p (fst (claimForBroadcast x st p))"
    unfolding claimForBroadcast_def Let_def r by (cases r) simp_all
qed

lemma in_applyAccepted: "steps_in R (applyAcceptedBroadcast lib x tx)"
proof -
  have "steps_in R (spendReservedInputs lib tx x ref)" for ref
    unfolding spendReservedInputs_def Let_def by (auto intro!: in_ret in_fail in_andThen in_quiet split: option.split)
  then have "steps_in R (commitSpends lib x tx t)" for t
    unfolding commitSpends_def by (intro in_DoUnit in_andThen in_tolerate in_quiet in_guarded_writes in_markInputsSpent) (simp_all add: fenced_targets)
  then have "R p (fst (commitSpends lib x tx t p))" for t p by (rule in_fst)
  then show ?thesis by (simp add: steps_in_def applyAcceptedBroadcast_def refl split: sum.split list.split)
qed

lemma in_commitRejected: "steps_in R (commitRejected lib uid x res)"
proof -
  have drop: "steps_in R (dropRejectedChange lib uid row x)" for row
    unfolding steps_in_def dropRejectedChange_def by (simp add: refl in_fst [OF in_andThen [OF in_quiet(4) in_ret]] split: option.split sum.split list.split)
  have mark: "steps_in R (\<lambda>q. tolerate [ErrNotFound] (on_known (\<lambda>now rows. MarkSuspectFailed now rows x (now_p q) (br_ExtraInfo res))) (tick_p q))"
    unfolding steps_in_def using tick_then(1) in_fst [OF in_tolerate [OF in_writes(4)]] by blast
  have "steps_in R (andThen (DoUnit (andThen (tolerate [ErrStatusUpdateSkipped] (on_txs upd))
      (\<lambda>_. andThen (\<lambda>q. tolerate [ErrNotFound] (on_known (\<lambda>now rows. MarkSuspectFailed now rows x (now_p q) (br_ExtraInfo res))) (tick_p q))
      (\<lambda>_. dropRejectedChange lib uid row x)))) (\<lambda>_. ret a))" for upd row and a :: sent
    by (intro in_andThen in_DoUnit in_tolerate in_quiet in_ret mark drop)
  note commit = in_fst [OF this]
  show ?thesis
  proof (unfold steps_in_def, intro allI)
    fix p show "R p (fst (commitRejected lib uid x res p))"
      unfolding commitRejected_def by (cases "firstTxByTxID (p_db p) uid x") (simp_all only: sum.case fst_conv refl commit)
  qed
qed

lemma in_commitAnswer: "steps_in R (commitAnswer lib uid x tx a)"
  unfolding commitAnswer_def commitAccepted_def
  by (auto intro!: in_ret in_commitRejected in_andThen in_applyAccepted split: broadcast_answer.split)

lemma in_settleWaiting: "steps_in R (settleWaiting lib x tx a)"
proof -
  have "steps_in R (\<lambda>q. tolerate [ErrNotFound] (on_known (\<lambda>now rows. MarkSuspect now rows x (now_p q) [] st i)) (tick_p q))" for st i
    unfolding steps_in_def using tick_then(1) in_fst [OF in_tolerate [OF in_writes(3)]] by blast
  then show ?thesis unfolding settleWaiting_def by (auto intro!: in_fail in_applyAccepted split: broadcast_answer.split)
qed

lemma in_queueLoop: "steps_in R (queueLoop ts res)"
  by (induction ts arbitrary: res) (auto intro!: in_ret in_andThen in_queueDelayed)

end

subsection \<open>The sweeps\<close>

context fence_order
begin

lemma in_refPinState: "R p (fst (refPinState ops p))"
proof (induction ops arbitrary: p)
  case (Cons op ops)
  obtain q r where r: "utxo_call (\<lambda>s. (s, Get s op)) p = (q, r)" by force
  from steps_inD [OF in_quiet(4) r] have R: "R p q" .
  with trans Cons.IH have "R p (fst (refPinState ops q))" by blast
  with R show ?case by (auto simp: r split: sum.split perr.split)
qed (simp add: refl)

lemma in_sweepStaleReservation: "steps_in R (sweepStaleReservation lib ref)"
proof (unfold steps_in_def, intro allI)
  fix p
  obtain p1 st where 1: "refPinState (rr_Outpoints ref) p = (p1, st)" by force
  have p1: "R p p1" using in_refPinState [of p "rr_Outpoints ref"] 1 by simp
  have "steps_in R (andThen (utxo_call (\<lambda>s. ReleaseReservation s u t)) (\<lambda>_. ret sweptOrphan))" for u t by (intro in_andThen in_quiet in_ret)
  from trans [OF p1 in_fst [OF this]]
  have rel: "R p (fst (andThen (utxo_call (\<lambda>s. ReleaseReservation s u t)) (\<lambda>_. ret sweptOrphan) p1))" for u t .
  have heal: "R p (fst (andThen (doAbortRelease u t) (\<lambda>_ p1. (fst (on_outbox f p1), Inr sweptByHeal)) p))" for u t f
    by (intro in_fst in_andThen in_primitives in_ignore in_quiet)
  show "R p (fst (sweepStaleReservation lib ref p))"
  proof (cases "FindByReference (db_txs (p_db p)) (rr_UserID ref) (rr_Reservation ref)")
    case None
    with p1 rel show ?thesis by (cases st) (simp_all add: sweepStaleReservation_def 1)
  next
    case (Some t)
    obtain p2 r where 2: "abortTxRow lib (rr_UserID ref) t p = (p2, r)" by force
    from steps_inD [OF in_abortTxRow 2] have "R p p2" .
    with Some heal show ?thesis by (cases r) (simp_all add: sweepStaleReservation_def 2 refl)
  qed
qed

lemma in_SweepStaleReservations: "steps_in R (SweepStaleReservations lib older limit)"
proof -
  have "R p (sweepLoop lib refs p)" for refs p
  proof (induction refs arbitrary: p)
    case (Cons ref refs)
    then show ?case using trans in_fst [OF in_sweepStaleReservation] by simp blast
  qed (simp add: refl)
  then have "steps_in R (\<lambda>p. (sweepLoop lib refs p, Inr ()))" for refs by (simp add: steps_in_def)
  then show ?thesis unfolding SweepStaleReservations_def by (intro in_andThen in_quiet)
qed

lemma in_AbortAbandoned: "steps_in R (AbortAbandoned lib older limit)"
proof -
  have "R p (abandonLoop lib ts p)" for ts p
  proof (induction ts arbitrary: p)
    case (Cons t ts)
    then show ?case using trans in_fst [OF in_abortTxRow] by simp blast
  qed (simp add: refl)
  then show ?thesis by (simp add: steps_in_def AbortAbandoned_def)
qed

lemma in_pollAndApply: "steps_in R (pollAndApply lib ch orc kts)"
proof (unfold steps_in_def, intro allI)
  fix p
  let ?q = "fst (on_known (\<lambda>now rows. MarkPolled now rows (map kt_TxID kts)) p)"
  have q: "R p ?q" by (rule in_fst) (rule in_writes)
  have retry: "R q (fst (applyRetry lib ch batch n q))" for batch n q
  proof (induction n arbitrary: q)
    case (Suc n)
    obtain q' r where r: "ApplyStatusBatch lib ch batch q = (q', r)" by force
    from steps_inD [OF in_ApplyStatusBatch r] have "R q q'" .
    then show ?case using trans Suc.IH by (cases r) (auto simp: r)
  qed (simp add: refl)
  have each: "R q (fst (applyEach lib ch batch failed q))" for batch failed q
  proof (induction batch arbitrary: failed q)
    case (Cons rec recs)
    obtain q' r where r: "ApplyStatusUpdate lib ch rec q = (q', r)" by force
    from steps_inD [OF in_ApplyStatusUpdate r] have "R q q'" .
    then show ?case using trans Cons.IH by (cases r) (auto simp: r)
  qed (simp add: refl)
  obtain p2 r2 where 2: "applyRetry lib ch (polled (orc (p_ticks ?q)) kts) pollApplyAttempts ?q = (p2, r2)" by force
  obtain p3 f where 3: "applyEach lib ch (polled (orc (p_ticks ?q)) kts) [] p2 = (p3, f)" by force
  have p2: "R p p2" using trans [OF q] retry 2 by (metis fst_conv)
  have p3: "R p p3" using trans [OF p2] each 3 by (metis fst_conv)
  show "R p (fst (pollAndApply lib ch orc kts p))"
    using q p2 p3 unfolding pollAndApply_def Let_def 2 by (cases r2) (simp_all add: refl 3)
qed

lemma in_SynchronizeTransactionStatuses: "steps_in R (SynchronizeTransactionStatuses lib ch orc limit)"
proof -
  have pages: "R p (fst (repairPages lib ch orc cutoff l d n p))" for cutoff l d n p
  proof (induction n arbitrary: p)
    case (Suc n)
    let ?page = "FindMissingArcadeStatus (db_known (p_db (tick_p p))) cutoff l pollableStatuses"
    obtain q r where r: "pollAndApply lib ch orc ?page (tick_p p) = (q, r)" by force
    have R: "R p q" by (rule tick_then(1)) (rule steps_inD [OF in_pollAndApply r])
    with trans Suc.IH have "R p (fst (repairPages lib ch orc cutoff l d n q))" by blast
    with R tick_then(2) show ?case by (cases r) (simp_all add: r Let_def)
  qed (simp add: refl)
  have "steps_in R (drainRepairBacklog lib ch orc cutoff l n)" for cutoff l n
    unfolding steps_in_def drainRepairBacklog_def Let_def using tick_then(1) pages by blast
  then have "steps_in R (andThen (pollAndApply lib ch orc kts)
      (\<lambda>_. if xs = [] then ret () else drainRepairBacklog lib ch orc cutoff l (length xs)))" for kts cutoff l and xs :: "known_tx list"
    by (auto intro!: in_andThen in_pollAndApply in_ret)
  then show ?thesis unfolding steps_in_def SynchronizeTransactionStatuses_def Let_def using tick_then(1) by blast
qed

lemma in_CheckProofs: "steps_in R (CheckProofs lib ch fb orc limit)"
proof -
  have drive: "R p (fst (driveRepair lib ch rec kt p))" for rec kt p
    unfolding driveRepair_def by (intro in_fst in_andThen in_applyMinedRepair in_ret)
  have rev: "R p (fst (andThen (recordArcadeStatus x st) (\<lambda>_. ret repairDisagreed) p))" for x st p
    by (intro in_fst in_andThen in_setArcadeStatus in_ret)
  have one: "R p (fst (repairOneMinedFenced lib ch fb o' kt p))" for o' kt p
    unfolding repairOneMinedFenced_def Let_def by (simp add: refl drive rev split: option.split gettx.split)
  have "R p (repairLoop lib ch fb o' kts p)" for o' kts p
  proof (induction kts arbitrary: p)
    case (Cons kt kts)
    then show ?case using trans one by simp blast
  qed (simp add: refl)
  then have "R p (fst (repairMinedFenced lib ch fb o' l p))" for o' l p
    unfolding repairMinedFenced_def Let_def using trans in_fst [OF in_writes(10)] by (simp add: refl) blast
  then have "R q q' \<Longrightarrow> R q (fst (repairMinedFenced lib ch fb o' l q'))" for o' l q q' using trans by blast
  moreover have "R p (fst (pollAndApply lib ch orc kts (tick_p p)))" for kts p
    by (rule tick_then(1)) (rule in_fst [OF in_pollAndApply])
  ultimately show ?thesis unfolding steps_in_def CheckProofs_def Let_def by (simp add: case_prod_unfold)
qed

lemma in_DemoteReorgedProofs: "steps_in R (DemoteReorgedProofs lib ch fb height)"
proof -
  have "steps_in R (demoteProof lib x)" for x
    unfolding demoteProof_def by (intro in_DoUnit in_andThen in_tolerate in_quiet in_guarded_writes in_promoteChange fenced_targets)
  note one = in_fst [OF this]
  have "R p (demoteLoop lib hd' fb kts p)" for hd' kts p
  proof (induction kts arbitrary: p)
    case (Cons kt kts)
    then show ?case using trans one by simp blast
  qed (simp add: refl)
  then show ?thesis by (simp add: steps_in_def DemoteReorgedProofs_def refl split: option.split)
qed

end

section \<open>Broadcasts behind the gate\<close>

text \<open>The preorders that also hold along broadcasts of a transaction whose row was claimed first.\<close>

locale gate_order = fence_order +
  assumes claimed: "claimForBroadcast x st p = (q, Inr sendClaimOwned) \<Longrightarrow> R p (q\<lparr>p_posts := p_posts q @ replicate n x\<rparr>)"
begin

lemma in_claimed_post:
  assumes "claimForBroadcast x st p = (q, Inr sendClaimOwned)" "\<And>a. steps_in R (f a)"
  shows "R p (fst (andThen (broadcastWithBackpressure nt x ef) f q))"
proof -
  obtain n a where b: "broadcastWithBackpressure nt x ef q = (q\<lparr>p_posts := p_posts q @ replicate n x\<rparr>, Inr a)"
  proof (cases "Broadcast nt (length (p_posts q)) x ef = Backpressure")
    case True
    then show ?thesis using that [of 2] by (simp add: broadcastWithBackpressure_def andThen_def postTx_def numeral_2_eq_2)
  next
    case False
    then show ?thesis using that [of 1]
      by (cases "Broadcast nt (length (p_posts q)) x ef") (simp_all add: broadcastWithBackpressure_def andThen_def postTx_def ret_def)
  qed
  then have "andThen (broadcastWithBackpressure nt x ef) f q = f a (q\<lparr>p_posts := p_posts q @ replicate n x\<rparr>)" by (rule andThen_apply)
  then show ?thesis using trans [OF claimed [OF assms(1)] in_fst [OF assms(2)]] by simp
qed

lemma in_broadcastOne: "steps_in R (broadcastOne lib nt uid x)"
proof (unfold steps_in_def, intro allI)
  fix p
  have gate: "R p (fst (andThen (claimForBroadcast x st) (\<lambda>claim. case claim of
       sendClaimAlreadySent \<Rightarrow> ret a | sendClaimInFlight \<Rightarrow> ret b
     | sendClaimOwned \<Rightarrow> andThen (broadcastWithBackpressure nt x ef) (commitAnswer lib uid x tx)) p))" for st a b ef tx
  proof -
    obtain q r where r: "claimForBroadcast x st p = (q, r)" by force
    from steps_inD [OF in_claimForBroadcast r] have R: "R p q" .
    show ?thesis
    proof (cases "r = Inr sendClaimOwned")
      case True
      with r in_claimed_post [OF _ in_commitAnswer] show ?thesis by (simp add: andThen_apply)
    next
      case False
      with R show ?thesis by (auto simp: andThen_def [of "claimForBroadcast x st"] r ret_def split: sum.split sendClaim.split)
    qed
  qed
  show "R p (fst (broadcastOne lib nt uid x p))"
    unfolding broadcastOne_def by (simp add: refl gate case_prod_unfold split: sum.split option.split)
qed

lemma in_ProcessAction: "steps_in R (ProcessAction lib nt pol auth args)"
proof -
  have loop: "steps_in R (broadcastLoop lib nt uid ts res)" for uid ts res
    by (induction ts arbitrary: res) (auto intro!: in_ret in_andThen in_broadcastOne)
  have new: "steps_in R (if b then processNewTx lib nt pol uid a else ret ())" for b uid a by (simp add: in_processNewTx in_ret)
  have "steps_in R (\<lambda>p. (if b1 then ret res else if b2 then ret res else if b3 then queueLoop ts res else broadcastLoop lib nt uid ts res) p)"
    for b1 b2 b3 res uid ts by (simp add: in_ret in_queueLoop loop)
  from in_andThen [OF new this] show ?thesis unfolding ProcessAction_def Let_def by (cases auth) (simp_all only: option.case in_fail)
qed

lemma in_SendWaitingTransactions: "steps_in R (SendWaitingTransactions lib nt limit)"
proof -
  have one: "R p (fst (sendOneWaiting lib nt kt beef p))" for kt beef p
  proof -
    obtain q r where r: "claimForBroadcast (kt_TxID kt) (kt_Status kt) p = (q, r)" by force
    from steps_inD [OF in_claimForBroadcast r] have R: "R p q" .
    have "R p (fst (andThen (broadcastWithBackpressure nt (kt_TxID kt) ef) (settleWaiting lib (kt_TxID kt) tx) q))" if "r = Inr sendClaimOwned" for ef tx
      using in_claimed_post [OF r [unfolded that] in_settleWaiting] .
    with R show ?thesis unfolding sendOneWaiting_def Let_def r
      by (auto simp: refl split: sum.split perr.split prod.split)
  qed
  have "R p (sendLoop lib nt beefs kts p)" for beefs kts p
  proof (induction kts arbitrary: p)
    case (Cons kt kts)
    then show ?case using trans one by simp blast
  qed (simp add: refl)
  then have "R p (sendLoop lib nt beefs kts (tick_p p))" for beefs kts p by (rule tick_then(1))
  then show ?thesis unfolding steps_in_def SendWaitingTransactions_def Let_def by (simp add: tick_then(2) split: sum.split)
qed

end

section \<open>A fenced transaction\<close>

definition fenced_row :: "bytes \<Rightarrow> prov \<Rightarrow> bool" where
  "fenced_row raw p \<longleftrightarrow> known_inv (db_known (p_db p)) \<and> (\<exists>r. known (db_known (p_db p)) raw = Some r \<and> fenced (kt_Status r))"

definition posts_of :: "bytes \<Rightarrow> prov \<Rightarrow> string list" where
  "posts_of raw p = filter (\<lambda>x. encTxID x = Inr raw) (p_posts p)"

definition keeps_fence :: "bytes \<Rightarrow> prov \<Rightarrow> prov \<Rightarrow> bool" where
  "keeps_fence raw p q \<longleftrightarrow> (fenced_row raw p \<longrightarrow> fenced_row raw q \<and> posts_of raw q = posts_of raw p)"

interpretation fe: fence_order "keeps_fence raw" for raw
proof unfold_locales
  fix c p assume c: "respects_fence c"
  have "known_inv (exec_kt c rows)" "\<exists>r'. known (exec_kt c rows) raw = Some r' \<and> fenced (kt_Status r')"
    if "known_inv rows" "known rows raw = Some r" "fenced (kt_Status r)" for rows r
    using that exec_kt_inv [OF that(1)] exec_kt_row [OF that(2), of c] known_step_fenced [OF _ c] by blast+
  then show "keeps_fence raw p (p\<lparr>p_db := (p_db p)\<lparr>db_known := exec_kt c (db_known (p_db p))\<rparr>\<rparr>)"
    by (auto simp: keeps_fence_def fenced_row_def posts_of_def)
qed (auto simp: keeps_fence_def fenced_row_def posts_of_def)

text \<open>The gate refuses a fenced row, however it is asked.\<close>

lemma takeSend_fenced:
  assumes "fenced_row raw p" "encTxID x = Inr raw"
  shows "\<exists>q. takeSend x b p = (q, Inl (MetaErr ErrStatusUpdateSkipped)) \<and> db_known (p_db q) = db_known (p_db p)"
proof -
  obtain r where r: "known_inv (db_known (p_db p))" "known (db_known (p_db p)) raw = Some r" "fenced (kt_Status r)"
    using assms(1) by (auto simp: fenced_row_def)
  have "kt_Status r \<notin> set knownTxPreBroadcastStatuses" "kt_Status r \<noteq> ProvenTxStatusSending" using r(3) fenced_facts(4,5) by auto
  with guarded_update_cases [OF r(1,2)] have "ClaimForSend now (db_known (p_db p)) x = (db_known (p_db p), Some ErrStatusUpdateSkipped)"
      "ReclaimStaleSend now (db_known (p_db p)) x g = (db_known (p_db p), Some ErrStatusUpdateSkipped)" for now g
    by (simp_all add: ClaimForSend_def casFromPreBroadcast_def ReclaimStaleSend_def with_txid_raw [OF assms(2)])
  then show ?thesis by (simp add: takeSend_def on_known_def of_opt_def Let_def tick_p_def)
qed

lemma gate_refuses_fenced:
  assumes "fenced_row raw p" "encTxID x = Inr raw" shows "snd (claimForBroadcast x st p) \<noteq> Inr sendClaimOwned"
proof -
  obtain r where r: "known (db_known (p_db p)) raw = Some r" "fenced (kt_Status r)" using assms(1) by (auto simp: fenced_row_def)
  obtain q where q: "takeSend x (st = ProvenTxStatusSending) p = (q, Inl (MetaErr ErrStatusUpdateSkipped))" "db_known (p_db q) = db_known (p_db p)"
    using takeSend_fenced [OF assms] by blast
  have "FindByTxID (db_known (p_db q)) x = Inr (Some (knowntx_scan r))" using r(1) q(2) by (simp add: FindByTxID_def assms(2) known_def)
  moreover have "kt_Status (knowntx_scan r) = kt_Status r" by (simp add: knowntx_scan_def known_cols.defs known_tx.defs)
  ultimately have s: "statusBehindRefusal x q = (q, Inr (kt_Status r))" by (simp add: statusBehindRefusal_def)
  have "kt_Status r \<noteq> ProvenTxStatusSending" using r(2) fenced_facts(4) by auto
  then show ?thesis by (simp add: claimForBroadcast_def Let_def q(1) andThen_def s ret_def fail_def)
qed

interpretation ga: gate_order "keeps_fence raw" for raw
proof unfold_locales
  fix x st p q n assume claim: "claimForBroadcast x st p = (q, Inr sendClaimOwned)"
  have "keeps_fence raw p q" by (rule steps_inD [OF fe.in_claimForBroadcast claim])
  moreover have "encTxID x \<noteq> Inr raw" if "fenced_row raw p" using gate_refuses_fenced [OF that, of x st] claim by auto
  ultimately show "keeps_fence raw p (q\<lparr>p_posts := p_posts q @ replicate n x\<rparr>)"
    by (auto simp: keeps_fence_def fenced_row_def posts_of_def)
qed

section \<open>Runs of the provider\<close>

text \<open>
  One modelled operation of the provider, with any arguments and any answers of the outside world.  The
  operations that only read the ledger change nothing; \<open>InternalizeAction\<close>, which imports transactions others
  have built, is not modelled and so is not a step.  A BEEF is represented by its bytes here.
\<close>

inductive provider_step :: "prov \<Rightarrow> prov \<Rightarrow> bool" where
  Create: "CreateAction lib nt (bl :: bytes beef_lib) L f rnd cp auth cargs p = Some (q, cr) \<Longrightarrow> provider_step p q"
| Process: "provider_step p (fst (ProcessAction lib nt pol auth args p))"
| Abort: "provider_step p (fst (AbortAction lib auth reference p))"
| Update: "provider_step p (fst (ApplyStatusUpdate lib ch rec p))"
| Batch: "provider_step p (fst (ApplyStatusBatch lib ch recs p))"
| Reconcile: "provider_step p (fst (VerifyAndReleaseSuspects lib ch orc grace maxQ limit p))"
| Drain: "provider_step p (fst (DrainOutbox lib limit p))"
| Send: "provider_step p (fst (SendWaitingTransactions lib nt limit p))"
| Sweep: "provider_step p (fst (SweepStaleReservations lib older limit p))"
| Abandon: "provider_step p (fst (AbortAbandoned lib older limit p))"
| Synchronize: "provider_step p (fst (SynchronizeTransactionStatuses lib ch poll limit p))"
| Proofs: "provider_step p (fst (CheckProofs lib ch fromBytes poll limit p))"
| Reorg: "provider_step p (fst (DemoteReorgedProofs lib ch fromBytes height p))"

lemma provider_step_keeps_fence: "provider_step p q \<Longrightarrow> keeps_fence raw p q"
proof (induction rule: provider_step.induct)
  case (Create lib nt bl L f rnd cp auth cargs p q cr)
  from CreateAction_unsent [OF this] show ?case by (simp add: unsent_def keeps_fence_def fenced_row_def posts_of_def)
qed (rule fe.in_fst,
     rule ga.in_ProcessAction fe.in_AbortAction fe.in_ApplyStatusUpdate fe.in_ApplyStatusBatch fe.in_VerifyAndReleaseSuspects fe.in_DrainOutbox
       ga.in_SendWaitingTransactions fe.in_SweepStaleReservations fe.in_AbortAbandoned fe.in_SynchronizeTransactionStatuses
       fe.in_CheckProofs fe.in_DemoteReorgedProofs)+

text \<open>
  C5: A transaction that was aborted, rejected, written off or already sent is never broadcast again.  Once the
  row of a transaction id carries a fenced status, no run of the provider operations above, whatever their arguments,
  whatever arcade and the header source answer and whatever calls of the store fail, hands that transaction to
  the network: the broadcasts of the transaction stay the ones that happened before, and the row stays fenced.
\<close>

theorem fenced_never_broadcast:
  assumes "known_inv (db_known (p_db p))" "known (db_known (p_db p)) raw = Some r" "fenced (kt_Status r)" "provider_step\<^sup>*\<^sup>* p q"
  shows "filter (\<lambda>x. encTxID x = Inr raw) (p_posts q) = filter (\<lambda>x. encTxID x = Inr raw) (p_posts p) \<and>
    (\<exists>r'. known (db_known (p_db q)) raw = Some r' \<and> fenced (kt_Status r'))"
proof -
  have "keeps_fence raw p q" using assms(4)
  proof (induction rule: rtranclp_induct)
    case (step q q')
    then show ?case using fe.trans provider_step_keeps_fence by blast
  qed (rule fe.refl)
  with assms(1-3) show ?thesis by (auto simp: keeps_fence_def fenced_row_def posts_of_def)
qed

text \<open>Arcade accepts everything; the request names an aborted transaction.  A waiting one passes the gate.\<close>

definition w_net :: net where
  "w_net = \<lparr>NewTransactionFromBytes = \<lambda>b. if b = [1] then Some \<lparr>tx_id = ''0a'', tx_inputs = [Some (Outpoint 7 0)], tx_outputs = [], tx_bytes = [1]\<rparr> else None,
     BeefParses = \<lambda>_. True, SourceSatoshis = \<lambda>_ _. None, VerifyScripts = \<lambda>_ _. True, EF = \<lambda>_ _. Some [2],
     Broadcast = \<lambda>_ _ _. BroadcastDone \<lparr>br_Status = StatusReceived, br_Rejected = False, br_ExtraInfo = ''''\<rparr>\<rparr>"

definition w_policy :: send_policy where
  "w_policy = \<lparr>minBroadcastFeeRate = 0, immediateBroadcast = False\<rparr>"

definition w_sendWith :: process_args where
  "w_sendWith = \<lparr>pa_IsNewTx = False, pa_IsSendWith = True, pa_IsNoSend = False, pa_IsDelayed = False, pa_Reference = None, pa_TxID = None,
     pa_RawTx = [], pa_SendWith = [''0a'']\<rparr>"

lemma w_claim: "snd (claimForBroadcast ''0a'' ProvenTxStatusUnsent (w_state ProvenTxStatusUnsent TxStatusUnprocessed w_held)) = Inr sendClaimOwned"
  using guarded_update_cases [OF w_known_facts(2,3)] w_known_facts(4,5)
  by (simp add: claimForBroadcast_def takeSend_def on_known_def ClaimForSend_def casFromPreBroadcast_def with_txid_raw [OF w_known_facts(1)]
      knownTxPreBroadcastStatuses_def w_state_def of_opt_def Let_def tick_p_def)

theorem fenced_never_broadcast_witness:
  "filter (\<lambda>x. encTxID x = Inr [10])
     (p_posts (fst (ProcessAction w_lib w_net w_policy (Some 1) w_sendWith (w_state KnownTxStatusAborted TxStatusAborted w_held)))) = [] \<and>
   snd (claimForBroadcast ''0a'' ProvenTxStatusUnsent (w_state ProvenTxStatusUnsent TxStatusUnprocessed w_held)) = Inr sendClaimOwned"
proof -
  let ?p = "w_state KnownTxStatusAborted TxStatusAborted w_held"
  have rows: "db_known (p_db ?p) = [w_known KnownTxStatusAborted]" "p_posts ?p = []" by (simp_all add: w_state_def)
  have "provider_step\<^sup>*\<^sup>* ?p (fst (ProcessAction w_lib w_net w_policy (Some 1) w_sendWith ?p))"
    by (rule r_into_rtranclp) (rule Process)
  from fenced_never_broadcast [OF _ _ _ this, of "[10]"] w_known_facts(2-4) fenced_facts(1) rows w_claim show ?thesis by simp
qed

end
