(* ===== verification/Sign_Props.thy ===== *)
theory Sign_Props
  imports Process_Props Fence_Props
begin

text \<open>
  Storing signed bytes: \<open>processNewTx\<close> makes a transaction broadcastable only over a pinned reservation, and
  changes no metadata when it fails.
\<close>

section \<open>The pin and the minted change\<close>

fun mint_call :: "call \<Rightarrow> bool" where
  "mint_call (CallMint ms) = True"
| "mint_call _ = False"

definition pinned_under :: "store \<Rightarrow> int \<Rightarrow> string \<Rightarrow> bool" where
  "pinned_under s uid t \<longleftrightarrow> (\<forall>op u. coins s op = Some u \<and> held_coin uid t u \<longrightarrow> u_Pinned u)"

lemma Pin_pins:
  assumes "utxo_call (\<lambda>s. Pin s uid t) p = (q, Inr n)"
  shows "t \<noteq> ''''" "pinned_under (p_utxo q) uid t" "p_db q = p_db p"
proof -
  have u: "Pin (p_utxo p) uid t = (p_utxo q, Inr n)"
    using assms by (auto simp: utxo_call_def Let_def case_prod_unfold prod_eq_iff split: option.splits fault.splits sum.splits)
  show t: "t \<noteq> ''''" using u by (auto simp: Pin_def setPinned_def ValidateReservation_def split: if_splits)
  have "p_utxo q = (p_utxo p)\<lparr>s_rows := upd_all (\<lambda>r. if heldBy r uid t \<and> \<not> u_Pinned (r_utxo r) then set_pin True r else r) (s_rows (p_utxo p))\<rparr>"
    using u t by (auto simp: Pin_def setPinned_def ValidateReservation_def Let_def split: if_splits)
  then have "s_rows (p_utxo q) = upd_all (\<lambda>r. if heldBy r uid t \<and> \<not> u_Pinned (r_utxo r) then set_pin True r else r) (s_rows (p_utxo p))" by simp
  then have c: "coins (p_utxo q) op = map_option (\<lambda>u. if held_coin uid t u \<and> \<not> u_Pinned u then u\<lparr>u_Pinned := True\<rparr> else u) (coins (p_utxo p) op)" for op
    unfolding coins_def by (auto simp: heldBy_coin set_pin_def option.map_comp intro!: map_option_cong)
  show "pinned_under (p_utxo q) uid t" unfolding pinned_under_def
  proof (intro allI impI)
    fix op u assume u: "coins (p_utxo q) op = Some u \<and> held_coin uid t u"
    then obtain u0 where "u = (if held_coin uid t u0 \<and> \<not> u_Pinned u0 then u0\<lparr>u_Pinned := True\<rparr> else u0)" using c by auto
    with u show "u_Pinned u" by (cases "held_coin uid t u0 \<and> \<not> u_Pinned u0") simp_all
  qed
  show "p_db q = p_db p" using assms
    by (auto simp: utxo_call_def Let_def case_prod_unfold split: option.splits fault.splits)
qed

lemma mint_pinned:
  assumes "mint_call c" "store_inv s" "t \<noteq> ''''" "pinned_under s uid t" shows "pinned_under (exec_call c s) uid t"
  unfolding pinned_under_def
proof (intro allI impI)
  fix op u assume u: "coins (exec_call c s) op = Some u \<and> held_coin uid t u"
  obtain ms where c: "c = CallMint ms" using assms(1) by (cases c) simp_all
  have move: "coin_move c (coins s op) (Some u)" using exec_call_coin [OF assms(2), of c op] u by simp
  show "u_Pinned u"
  proof (cases "coins s op")
    case None
    with move u assms(3) show ?thesis by (auto simp: c coin_move_def held_coin_def minted_def)
  next
    case (Some u0)
    with move have "coin_step c u0 u" by (simp add: coin_move_def)
    then have "u = u0" unfolding c by (cases rule: coin_step.cases) (auto elim: claims_for.elims)
    with Some u assms(4) show ?thesis by (auto simp: pinned_under_def)
  qed
qed

lemma mint_path_pinned: "path mint_call s s' \<Longrightarrow> store_inv s \<Longrightarrow> t \<noteq> '''' \<Longrightarrow> pinned_under s uid t \<Longrightarrow> pinned_under s' uid t"
  using path_induct [of mint_call s s' "\<lambda>s. store_inv s \<and> pinned_under s uid t"] mint_pinned exec_call_inv by blast

lemma mintChange_coins: "steps_in (coin_path mint_call) (mintChange lib uid n x)"
proof -
  have "steps_in (coin_path mint_call) (batch_call (\<lambda>s. Mint s ms))" for ms by (rule cp_batch) (metis exec_call.simps mint_call.simps(1))
  then have "steps_in (coin_path mint_call) (andThen (batch_call (\<lambda>s. Mint s ms)) (\<lambda>(errs, merr). case merr of Some e \<Rightarrow> fail (StoreErr e)
      | None \<Rightarrow> (case List.map_filter (\<lambda>x. x) errs of [] \<Rightarrow> ret () | x # _ \<Rightarrow> fail (ItemErr x))))" for ms
    by (auto intro!: cp.in_andThen cp.in_ret cp.in_fail split: option.split list.split)
  then show ?thesis unfolding steps_in_def mintChange_def Let_def by (simp add: cp.refl split: sum.split option.split)
qed

lemma mintChange_known: "steps_in same_known (mintChange lib uid n x)"
proof -
  have "steps_in same_known (andThen (batch_call (\<lambda>s. Mint s ms)) (\<lambda>(errs, merr). case merr of Some e \<Rightarrow> fail (StoreErr e)
      | None \<Rightarrow> (case List.map_filter (\<lambda>x. x) errs of [] \<Rightarrow> ret () | x # _ \<Rightarrow> fail (ItemErr x))))" for ms
    by (auto intro!: sk.in_andThen sk.in_quiet sk.in_ret sk.in_fail split: option.split list.split)
  then show ?thesis unfolding steps_in_def mintChange_def Let_def by (simp add: sk.refl split: sum.split option.split)
qed

section \<open>The stored row\<close>

lemma Upsert_stores:
  assumes "known_inv rows" "Upsert now rows (newKnownTx x st rawTx) skips = (rows', None)" "skips \<noteq> []"
  shows "\<exists>raw k. encTxID x = Inr raw \<and> known rows' raw = Some k \<and> kt_RawTx k = rawTx \<and> kt_Status k = st \<and>
    (case known rows raw of None \<Rightarrow> True | Some k0 \<Rightarrow> kt_Status k0 \<notin> set skips)"
proof -
  have x: "kt_TxID (newKnownTx x st rawTx) = x" by (simp add: newKnownTx_def)
  obtain raw where raw: "encTxID x = Inr raw" using assms(2) by (cases "encTxID x") (auto simp: Upsert_def with_txid_def x)
  let ?new = "upsert_row now (newKnownTx x st rawTx) raw" and ?p = "\<lambda>r. kr_txid r = raw \<and> kt_Status r \<notin> set skips"
  have new: "kr_txid ?new = raw" "kt_RawTx ?new = rawTx" "kt_Status ?new = st" "kr_txid (upsert_merge ?new r) = raw"
      "kt_RawTx (upsert_merge ?new r) = rawTx" "kt_Status (upsert_merge ?new r) = st" for r
    by (simp_all add: upsert_row_def upsert_merge_def newKnownTx_def known_cols.defs known_row.defs)
  have run: "(if \<not> existsByTxID rows raw then (rows @ [?new], None)
       else if affected ?p rows = 0 \<and> skips \<noteq> [] then (rows, Some ErrStatusUpdateSkipped) else (update_where ?p (upsert_merge ?new) rows, None)) = (rows', None)"
    using assms(2) by (simp add: Upsert_def with_txid_raw [OF raw] x Let_def)
  show ?thesis
  proof (cases "known rows raw")
    case None
    then have "rows' = rows @ [?new]" using run by (simp add: existsByTxID_def known_None)
    moreover have "find (\<lambda>r. kr_txid r = raw) (rows @ [?new]) = Some ?new" using None new(1) by (induction rows) (auto simp: known_def)
    ultimately show ?thesis using raw None new by (auto simp: known_def)
  next
    case (Some k0)
    then have ex: "existsByTxID rows raw" by (auto simp: existsByTxID_def known_def find_Some_iff)
    then have "affected ?p rows \<noteq> 0" and rows': "rows' = update_where ?p (upsert_merge ?new) rows" using run assms(3) by (auto split: if_splits)
    then have "kt_Status k0 \<notin> set skips" using affected_row [OF assms(1) Some, of "\<lambda>r. kt_Status r \<notin> set skips"] by auto
    moreover have "known rows' raw = Some (upsert_merge ?new k0)"
      unfolding rows' using Some \<open>kt_Status k0 \<notin> set skips\<close> known_Some_txid [OF Some] by (subst known_update_where) (auto simp: new(4))
    ultimately show ?thesis using raw Some new by auto
  qed
qed

section \<open>Properties\<close>

lemma storeSigned_parts:
  assumes "storeSigned lib uid ref t x sts rawTx p = (q, Inr u)"
  shows "\<exists>n p1 p2 p3 p4. utxo_call (\<lambda>s. Pin s uid ref) p = (p1, Inr n) \<and> bindTxID (t_TransactionID t) x p1 = (p2, Inr ()) \<and>
    on_txs (\<lambda>now rows. Tx_UpdateStatus now rows (t_TransactionID t) (fst sts) [TxStatusUnsigned, TxStatusUnprocessed]) p2 = (p3, Inr ()) \<and>
    on_known (\<lambda>now rows. Upsert now rows (newKnownTx x (snd sts) rawTx) KnownTxNeverRequeueStatuses) p3 = (p4, Inr ()) \<and>
    mintChange lib uid (t_TransactionID t) x p4 = (q, Inr u)"
  using assms by (auto simp: storeSigned_def DoUnit_def andThen_Inr split: prod.splits sum.splits)

lemma metadata_steps:
  "p_utxo (fst (bindTxID n x p)) = p_utxo p" "db_known (p_db (fst (bindTxID n x p))) = db_known (p_db p)"
  "p_utxo (fst (on_txs f p)) = p_utxo p" "db_known (p_db (fst (on_txs f p))) = db_known (p_db p)" "p_utxo (fst (on_known g p)) = p_utxo p"
  by (simp_all add: bindTxID_def on_txs_def on_known_def tick_p_def Let_def case_prod_unfold split: sum.split)

lemma storeSigned_stores:
  assumes "storeSigned lib uid ref t x sts rawTx p = (q, Inr u)" "store_inv (p_utxo p)" "known_inv (db_known (p_db p))"
  shows "pinned_under (p_utxo q) uid ref \<and> (\<exists>raw k. encTxID x = Inr raw \<and> known (db_known (p_db q)) raw = Some k \<and> kt_RawTx k = rawTx \<and>
    kt_Status k = snd sts \<and> (case known (db_known (p_db p)) raw of None \<Rightarrow> True | Some k0 \<Rightarrow> kt_Status k0 \<notin> set KnownTxNeverRequeueStatuses))"
proof -
  obtain n p1 p2 p3 p4 where 1: "utxo_call (\<lambda>s. Pin s uid ref) p = (p1, Inr n)" and 2: "bindTxID (t_TransactionID t) x p1 = (p2, Inr ())"
    and 3: "on_txs (\<lambda>now rows. Tx_UpdateStatus now rows (t_TransactionID t) (fst sts) [TxStatusUnsigned, TxStatusUnprocessed]) p2 = (p3, Inr ())"
    and 4: "on_known (\<lambda>now rows. Upsert now rows (newKnownTx x (snd sts) rawTx) KnownTxNeverRequeueStatuses) p3 = (p4, Inr ())"
    and 5: "mintChange lib uid (t_TransactionID t) x p4 = (q, Inr u)" using storeSigned_parts [OF assms(1)] by blast
  have coins: "p_utxo p4 = p_utxo p1" using metadata_steps(1,3,5) 2 3 4 by (metis fst_conv)
  have "steps_in (coin_path (\<lambda>_. True)) (utxo_call (\<lambda>s. Pin s uid ref))" by (rule cp_call) (metis exec_call.simps)
  from steps_inD [OF this 1] have "store_inv (p_utxo p4)" using path_inv assms(2) coins by (simp add: coin_path_def)
  moreover have "path mint_call (p_utxo p4) (p_utxo q)" using steps_inD [OF mintChange_coins 5] by (simp add: coin_path_def)
  ultimately have pinned: "pinned_under (p_utxo q) uid ref" using mint_path_pinned Pin_pins(1,2) [OF 1] coins by metis
  have "db_known (p_db p3) = db_known (p_db p)" using metadata_steps(2,4) 2 3 Pin_pins(3) [OF 1] by (metis fst_conv)
  moreover have "db_known (p_db q) = db_known (p_db p4)" using steps_inD [OF mintChange_known 5] by (simp add: same_known_def)
  moreover have "Upsert (now_p p3) (db_known (p_db p3)) (newKnownTx x (snd sts) rawTx) KnownTxNeverRequeueStatuses = (db_known (p_db p4), None)"
    using 4 by (auto simp: on_known_def Let_def case_prod_unfold of_opt_def prod_eq_iff split: option.splits)
  moreover have "KnownTxNeverRequeueStatuses \<noteq> []" by (simp add: KnownTxNeverRequeueStatuses_def ProvenTxReqBeyondBroadcastStageStatuses_def)
  ultimately show ?thesis using Upsert_stores assms(3) pinned by metis
qed

text \<open>
  C6: Signed bytes are stored over a pinned reservation, or not at all.  When \<open>processNewTx\<close> succeeds, every coin
  held under the action's reference is pinned, so that no janitor can free the inputs of bytes that may now be
  broadcast; the bytes are stored under the transaction id at the status the request asks for, and a row that was
  there before was not at a status that never re-queues.  When it fails, the metadata is as before, and with a
  shared database the coins are too.
\<close>

theorem signed_bytes_pinned:
  assumes "processNewTx lib nt pol uid args p = (q, r)" "store_inv (p_utxo p)" "known_inv (db_known (p_db p))"
  shows "case r of
      Inl e \<Rightarrow> p_db q = p_db p \<and> (p_modeA p \<longrightarrow> p_utxo q = p_utxo p)
    | Inr _ \<Rightarrow> (\<exists>reference tx raw k. pa_Reference args = Some reference \<and> NewTransactionFromBytes nt (pa_RawTx args) = Some tx \<and>
        pa_TxID args = Some (tx_id tx) \<and>
        (\<forall>op u. coins (p_utxo q) op = Some u \<and> held_coin uid reference u \<longrightarrow> u_Pinned u) \<and>
        encTxID (tx_id tx) = Inr raw \<and> known (db_known (p_db q)) raw = Some k \<and> kt_RawTx k = tx_bytes tx \<and>
        kt_Status k = snd (newTxStatuses args) \<and>
        (case known (db_known (p_db p)) raw of None \<Rightarrow> True | Some k0 \<Rightarrow> kt_Status k0 \<notin> set KnownTxNeverRequeueStatuses))"
proof (cases r)
  case (Inl e)
  have "p_db q = p_db p \<and> (p_modeA p \<longrightarrow> p_utxo q = p_utxo p)" if "storeSigned lib uid ref t x sts rawTx p = (q, Inl e)" for ref t x sts rawTx
    using that by (auto simp: storeSigned_def DoUnit_def split: prod.splits sum.splits)
  then show ?thesis using assms(1) Inl
    by (auto simp: processNewTx_def split: option.splits sum.splits if_splits)
next
  case (Inr u)
  then obtain reference tx t where a: "pa_Reference args = Some reference" "NewTransactionFromBytes nt (pa_RawTx args) = Some tx"
      "pa_TxID args = Some (tx_id tx)"
      and s: "storeSigned lib uid reference t (tx_id tx) (newTxStatuses args) (tx_bytes tx) p = (q, Inr u)"
    using assms(1) by (auto simp: processNewTx_def split: option.splits sum.splits if_splits)
  from storeSigned_stores [OF s assms(2,3)] a Inr show ?thesis unfolding pinned_under_def by auto
qed

definition w_unsigned :: prov where
  "w_unsigned = (w_state ProvenTxStatusUnsent TxStatusUnsigned w_held)
     \<lparr>p_db := (p_db (w_state ProvenTxStatusUnsent TxStatusUnsigned w_held))\<lparr>db_known := [], db_txs := [w_tx 1 ''tx'' TxStatusUnsigned None]\<rparr>\<rparr>"

definition w_newTx :: process_args where
  "w_newTx = \<lparr>pa_IsNewTx = True, pa_IsSendWith = False, pa_IsNoSend = False, pa_IsDelayed = True, pa_Reference = Some ''tx'',
     pa_TxID = Some ''0a'', pa_RawTx = [1], pa_SendWith = []\<rparr>"

lemma w_stored: "snd (processNewTx w_lib w_net w_policy 1 w_newTx w_unsigned) = Inr ()"
  by (simp add: processNewTx_def w_newTx_def w_net_def w_policy_def w_unsigned_def w_state_def FindByReference_def w_tx_def tx_scan_def tx_cols.defs
      table_transaction.defs checkSigned_def hydrateInputs_def validateSignedOutputs_def FindOutputs_def outputs_of_tx_def join_parent_def by_output_id_def
      checkBroadcastFeeRate_def storeSigned_def DoUnit_def andThen_def utxo_call_def Pin_def setPinned_def w_held_eq ValidateReservation_def Let_def
      bindTxID_def on_txs_def SetTxID_def w_known_facts affected_def update_where_def of_opt_def Tx_UpdateStatus_def applyStatusUpdate_def
      on_known_def Upsert_def with_txid_def newKnownTx_def existsByTxID_def mintChange_def tick_p_def)

theorem signed_bytes_pinned_witness:
  "\<exists>q k. processNewTx w_lib w_net w_policy 1 w_newTx w_unsigned = (q, Inr ()) \<and> known (db_known (p_db q)) [10] = Some k \<and>
     kt_Status k = ProvenTxStatusUnsent \<and> (\<forall>op u. coins (p_utxo q) op = Some u \<and> held_coin 1 ''tx'' u \<longrightarrow> u_Pinned u)"
proof -
  obtain q where run: "processNewTx w_lib w_net w_policy 1 w_newTx w_unsigned = (q, Inr ())" using w_stored by (metis prod.collapse)
  have "store_inv (p_utxo w_unsigned)" "known_inv (db_known (p_db w_unsigned))"
    using reachable_inv [OF w_reachable(2)] by (simp_all add: w_unsigned_def w_state_def known_inv_def)
  from signed_bytes_pinned [OF run this] run show ?thesis
    by (auto simp: w_newTx_def w_net_def newTxStatuses_def w_known_facts)
qed

end
