(* ===== verification/Sweep_Props.thy ===== *)
theory Sweep_Props
  imports Sweeps Abort_Props Status_Props
begin

text \<open>
  The two janitors, \<open>SweepStaleReservations\<close> and \<open>AbortAbandoned\<close>, leave the coins of a live transaction alone.
\<close>

section \<open>A live transaction and one of its coins\<close>

definition guarded :: "int \<Rightarrow> string \<Rightarrow> table_transaction \<Rightarrow> outpoint \<Rightarrow> utxo \<Rightarrow> prov \<Rightarrow> bool" where
  "guarded uid t row op u p \<longleftrightarrow> store_inv (p_utxo p) \<and> tx_inv (db_txs (p_db p)) \<and> t \<noteq> '''' \<and> held_coin uid t u \<and>
     FindByReference (db_txs (p_db p)) uid t = Some row \<and> coins (p_utxo p) op = Some u"

definition keeps_live :: "int \<Rightarrow> string \<Rightarrow> table_transaction \<Rightarrow> outpoint \<Rightarrow> utxo \<Rightarrow> prov \<Rightarrow> prov \<Rightarrow> bool" where
  "keeps_live uid t row op u p q \<longleftrightarrow> (guarded uid t row op u p \<longrightarrow> guarded uid t row op u q)"

interpretation kl: step_order "keeps_live uid t row op u" for uid t row op u
  by unfold_locales (auto simp: keeps_live_def)

lemma kl_meta:
  assumes "\<And>p. db_txs (p_db (fst (m p))) = db_txs (p_db p) \<and> p_utxo (fst (m p)) = p_utxo p" shows "steps_in (keeps_live uid t row op u) m"
  using assms by (simp add: steps_in_def keeps_live_def guarded_def)

lemma kl_quiet:
  "steps_in (keeps_live uid t row op u) (on_known f)" "steps_in (keeps_live uid t row op u) (on_outputs g)" "steps_in (keeps_live uid t row op u) (on_outbox h)"
  by (rule kl_meta, simp add: on_known_def on_outputs_def on_outbox_def tick_p_def Let_def case_prod_unfold)+

text \<open>A unit of work that fails gives back the table or both; each half is guarded on its own.\<close>

lemma kl_DoUnit: "steps_in (keeps_live uid t row op u) m \<Longrightarrow> steps_in (keeps_live uid t row op u) (DoUnit m)"
  unfolding steps_in_def keeps_live_def guarded_def DoUnit_def by (auto simp: case_prod_unfold split: sum.split)

text \<open>The calls a janitor makes for another reservation.\<close>

fun spare_call :: "int \<Rightarrow> string \<Rightarrow> call \<Rightarrow> bool" where
  "spare_call uid t (CallUnpin uid' t') \<longleftrightarrow> (uid', t') \<noteq> (uid, t)"
| "spare_call uid t (CallReleaseReservation uid' t') \<longleftrightarrow> (uid', t') \<noteq> (uid, t)"
| "spare_call uid t (CallRemoveByMintTx h ops) \<longleftrightarrow> True"
| "spare_call uid t _ \<longleftrightarrow> False"

lemma spare_coin:
  assumes "spare_call uid t c" "store_inv s" "coins s op = Some u" "held_coin uid t u" "t \<noteq> ''''"
  shows "coins (exec_call c s) op = Some u"
proof -
  have move: "coin_move c (Some u) (coins (exec_call c s) op)" using exec_call_coin [OF assms(2), of c op] assms(3) by simp
  show ?thesis
  proof (cases "coins (exec_call c s) op")
    case None
    with move assms show ?thesis by (cases c) (auto simp: coin_move_def held_coin_def)
  next
    case (Some u')
    then have "coin_step c u u'" using move by (simp add: coin_move_def)
    then have "u' = u" using assms(1,4) by (cases rule: coin_step.cases) (auto simp: held_coin_def elim: claims_for.elims)
    with Some show ?thesis by simp
  qed
qed

lemma kl_call:
  assumes "\<And>s. \<exists>c. spare_call uid t c \<and> fst (f s) = exec_call c s" shows "steps_in (keeps_live uid t row op u) (utxo_call f)"
proof (unfold steps_in_def, intro allI)
  fix p :: prov
  obtain c where c: "spare_call uid t c" "fst (f (p_utxo p)) = exec_call c (p_utxo p)" using assms by blast
  have "guarded uid t row op u p \<Longrightarrow> guarded uid t row op u (p\<lparr>p_calls := n, p_utxo := exec_call c (p_utxo p)\<rparr>)" for n
    using spare_coin [OF c(1)] exec_call_inv by (auto simp: guarded_def)
  then show "keeps_live uid t row op u p (fst (utxo_call f p))" unfolding keeps_live_def
    by (simp add: utxo_call_def Let_def case_prod_unfold c(2) split: option.split fault.split) (simp add: guarded_def)
qed

section \<open>The abort of another action\<close>

lemma kl_abort_ops:
  assumes "(uid', t') \<noteq> (uid, t)"
  shows "steps_in (keeps_live uid t row op u) (doAbortRelease uid' t')" "steps_in (keeps_live uid t row op u) (doAbortRemoveChange lib m ops)"
proof -
  have "steps_in (keeps_live uid t row op u) (utxo_call (\<lambda>s. Unpin s uid' t'))"
      "steps_in (keeps_live uid t row op u) (utxo_call (\<lambda>s. ReleaseReservation s uid' t'))"
      "steps_in (keeps_live uid t row op u) (utxo_call (\<lambda>s. report_err (RemoveByMintTx s h ops)))" for h ops
    using assms by (rule_tac kl_call, metis exec_call.simps spare_call.simps plain_err_fst)+
  then show "steps_in (keeps_live uid t row op u) (doAbortRelease uid' t')" "steps_in (keeps_live uid t row op u) (doAbortRemoveChange lib m ops)"
    unfolding doAbortRelease_def doAbortRemoveChange_def by (auto intro!: kl.in_combined split: option.split)
qed

lemma kl_fenceAborted:
  assumes "t_TransactionID t' \<noteq> t_TransactionID row" shows "steps_in (keeps_live uid t row op u) (fenceAborted t' x)"
proof (unfold steps_in_def, intro allI)
  fix p
  let ?R = "keeps_live uid t row op u"
  let ?upd = "\<lambda>now rows. Tx_UpdateStatus now rows (t_TransactionID t') TxStatusAborted [TxStatusUnsigned, TxStatusNoSend, TxStatusUnprocessed, TxStatusNonFinal]"
  obtain p1 r1 where 1: "on_txs ?upd p = (p1, r1)" by force
  obtain p2 r2 where 2: "on_known (\<lambda>now rows. TransitionToAborted now rows x) p1 = (p2, r2)" by force
  have "?R p p1"
  proof (unfold keeps_live_def, intro impI)
    assume g: "guarded uid t row op u p"
    let ?p = "\<lambda>r. t_TransactionID r = t_TransactionID t' \<and> (t_Status r \<in> set [TxStatusUnsigned, TxStatusNoSend, TxStatusUnprocessed, TxStatusNonFinal])"
    let ?f = "\<lambda>r. r\<lparr>t_Status := TxStatusAborted, t_UpdatedAt := encTime (now_p p)\<rparr> :: tx_row"
    have rows: "db_txs (p_db p1) = update_where ?p ?f (db_txs (p_db p))" "p_utxo p1 = p_utxo p"
      using 1 by (auto simp: on_txs_def Tx_UpdateStatus_def applyStatusUpdate_def Let_def tick_p_def)
    obtain r where r: "find (\<lambda>r. t_UserID r = uid \<and> t_Reference r = t) (db_txs (p_db p)) = Some r" "row = tx_scan r"
      using g by (auto simp: guarded_def FindByReference_def)
    have "\<not> ?p r" using assms r(2) by (simp add: tx_scan_def tx_cols.defs table_transaction.defs)
    moreover have "find (\<lambda>r. t_UserID r = uid \<and> t_Reference r = t) (update_where ?p ?f rs) =
        map_option (\<lambda>r. if ?p r then ?f r else r) (find (\<lambda>r. t_UserID r = uid \<and> t_Reference r = t) rs)" for rs
      by (induction rs) (auto simp: update_where_def)
    ultimately have "FindByReference (db_txs (p_db p1)) uid t = Some row" unfolding rows FindByReference_def using r by (simp only: option.map if_False)
    moreover have "tx_inv (db_txs (p_db p1))"
      using g map_update_where [of ?p t_TransactionID ?f "db_txs (p_db p)"] map_update_where [of ?p t_Reference ?f "db_txs (p_db p)"]
      by (simp add: rows guarded_def tx_inv_def)
    ultimately show "guarded uid t row op u p1" using g rows(2) by (simp add: guarded_def)
  qed
  moreover have "?R p1 p2" using steps_inD [OF kl_quiet(1) 2] .
  moreover have "?R p2 (fst (on_outputs g p2))" for g using kl_quiet(2) by (simp add: steps_in_def)
  ultimately have "?R p p1" "?R p p2" "?R p (fst (on_outputs g p2))" for g using kl.trans by blast+
  then show "?R p (fst (fenceAborted t' x p))" unfolding fenceAborted_def 1 by (cases r1; cases r2) (simp_all add: 2)
qed

lemma kl_abortTxRow:
  assumes "t_TransactionID t' \<noteq> t_TransactionID row" "(uid', t_Reference t') \<noteq> (uid, t)"
  shows "steps_in (keeps_live uid t row op u) (abortTxRow lib uid' t')"
proof -
  let ?R = "keeps_live uid t row op u"
  note ops = kl_abort_ops [OF assms(2), of row op u]
  have "steps_in ?R (\<lambda>p. if x = '''' then (p, Inr ()) else case changeOutpoints lib (p_db p) uid' n x of
      Inl e \<Rightarrow> (p, Inl e) | Inr ops \<Rightarrow> doAbortRemoveChange lib x ops p)" for x n
    using ops(2) unfolding steps_in_def by (simp add: kl.refl split: sum.split)
  then have A: "steps_in ?R (abortDirect lib uid' t')"
    unfolding abortDirect_def Let_def by (intro kl_DoUnit kl.in_andThen kl_fenceAborted assms ops)
  have "?R p (fst (enqueueAll as p))" for as p
  proof (induction as arbitrary: p)
    case (Cons a as)
    then show ?case using kl.trans kl_quiet(3) unfolding steps_in_def by simp blast
  qed (simp add: kl.refl)
  then have "steps_in ?R (andThen (enqueueAll as) (\<lambda>_. ret as))" for as by (intro kl.in_andThen kl.in_ret) (simp add: steps_in_def)
  then have "steps_in ?R (\<lambda>p. case abortOps lib (p_db p) uid' t' of Inl e \<Rightarrow> (p, Inl e) | Inr as \<Rightarrow> andThen (enqueueAll as) (\<lambda>_. ret as) p)"
    unfolding steps_in_def by (simp add: kl.refl split: sum.split)
  then have fence: "steps_in ?R (abortFence lib uid' t')" unfolding abortFence_def by (intro kl_DoUnit kl.in_andThen kl_fenceAborted assms)
  have exec: "steps_in ?R (executeOutboxOp lib (ao_opType a) (ao_payload a))"
    if "a = releaseIntent lib uid' (t_Reference t') \<or> ao_opType a = opAbortRemoveChange" for a
    using that ops unfolding executeOutboxOp_def
    by (auto simp: releaseIntent_def op_types intro!: kl.in_combined)
  have inline: "?R p (fst (inlineLoop lib as p))"
    if "list_all (\<lambda>a. a = releaseIntent lib uid' (t_Reference t') \<or> ao_opType a = opAbortRemoveChange) as" for as p
    using that
  proof (induction as arbitrary: p)
    case (Cons a as)
    obtain q r where r: "executeOutboxOp lib (ao_opType a) (ao_payload a) p = (q, r)" by force
    have "steps_in ?R (executeOutboxOp lib (ao_opType a) (ao_payload a))" using exec Cons.prems by simp
    from steps_inD [OF this r] have "?R p (fst (on_outbox f q))" for f using kl.trans kl_quiet(3) unfolding steps_in_def by blast
    then have "?R p (fst (inlineLoop lib as (fst (on_outbox f q))))" for f using kl.trans Cons by (metis list.pred_inject(2))
    then show ?case using r by (cases r) simp_all
  qed (simp add: kl.refl)
  have shape: "list_all (\<lambda>a. a = releaseIntent lib uid' (t_Reference t') \<or> ao_opType a = opAbortRemoveChange) as"
    if "abortFence lib uid' t' p = (q, Inr as)" for p q as
    using that by (auto simp: abortFence_def DoUnit_def andThen_Inr ret_def abortOps_def Let_def split: prod.splits sum.splits if_splits)
  have "?R p (fst (abortViaOutbox lib uid' t' p))" for p
  proof -
    obtain q r where r: "abortFence lib uid' t' p = (q, r)" by force
    from steps_inD [OF fence r] have R: "?R p q" .
    show ?thesis
    proof (cases r)
      case (Inr as)
      have "?R q' (fst (inlineLoop lib as q'))" for q' using inline shape r Inr by blast
      then have "steps_in ?R (DoUnit (inlineLoop lib as))" by (intro kl_DoUnit) (simp add: steps_in_def)
      with R kl.trans show ?thesis unfolding steps_in_def abortViaOutbox_def by (simp add: andThen_def r Inr)
    qed (use R in \<open>simp add: abortViaOutbox_def andThen_def r\<close>)
  qed
  with A show ?thesis by (simp add: steps_in_def abortTxRow_def)
qed

section \<open>The janitors\<close>

definition live_status :: "tx_status \<Rightarrow> bool" where
  "live_status st \<longleftrightarrow> st \<notin> {TxStatusUnsigned, TxStatusNoSend, TxStatusAborted}"

lemma found_row: "FindByReference rows uid t = Some row \<Longrightarrow> \<exists>r \<in> set rows. t_Reference r = t \<and> row = tx_scan r"
  by (auto simp: FindByReference_def find_Some_iff intro: nth_mem)

text \<open>A row of the table with another status is another row, under another reference.\<close>

lemma other_row:
  assumes "guarded uid t row op u p" "r' \<in> set (db_txs (p_db p))" "t_Status r' \<noteq> t_Status row"
  shows "t_TransactionID r' \<noteq> t_TransactionID row" "t_Reference r' \<noteq> t"
proof -
  obtain r where r: "r \<in> set (db_txs (p_db p))" "t_Reference r = t" "row = tx_scan r"
    using assms(1) found_row unfolding guarded_def by blast
  then have row: "t_Status row = t_Status r" "t_TransactionID row = t_TransactionID r"
    by (simp_all add: tx_scan_def tx_cols.defs table_transaction.defs)
  have "distinct (map t_TransactionID (db_txs (p_db p)))" "distinct (map t_Reference (db_txs (p_db p)))"
    using assms(1) by (simp_all add: guarded_def tx_inv_def)
  with r(1) assms(2) have "t_TransactionID r' = t_TransactionID r \<Longrightarrow> r' = r" "t_Reference r' = t_Reference r \<Longrightarrow> r' = r"
    by (auto simp: distinct_map inj_on_def)
  with r(2) row assms(3) show "t_TransactionID r' \<noteq> t_TransactionID row" "t_Reference r' \<noteq> t" by auto
qed

lemma sweep_keeps:
  assumes "guarded uid t row op u p" "live_status (t_Status row)" shows "guarded uid t row op u (fst (sweepStaleReservation lib ref p))"
proof -
  let ?R = "keeps_live uid t row op u"
  have keep: "?R p q \<Longrightarrow> guarded uid t row op u q" for q using assms(1) by (simp add: keeps_live_def)
  show ?thesis
  proof (cases "FindByReference (db_txs (p_db p)) (rr_UserID ref) (rr_Reservation ref)")
    case None
    then have ne: "(rr_UserID ref, rr_Reservation ref) \<noteq> (uid, t)" using assms(1) by (auto simp: guarded_def)
    have pin: "?R q (fst (refPinState ops q))" for ops q
    proof (induction ops arbitrary: q)
      case (Cons o' os)
      have same: "db_txs (p_db (fst (utxo_call (\<lambda>s. (s, Get s o')) q))) = db_txs (p_db q) \<and> p_utxo (fst (utxo_call (\<lambda>s. (s, Get s o')) q)) = p_utxo q"
        by (simp add: utxo_call_def Let_def split: option.split fault.split)
      obtain q' r where r: "utxo_call (\<lambda>s. (s, Get s o')) q = (q', r)" by force
      with same have "?R q q'" by (simp add: keeps_live_def guarded_def)
      with kl.trans Cons.IH have "?R q q'" "?R q (fst (refPinState os q'))" by blast+
      then show ?case by (auto simp: r split: sum.split perr.split)
    qed (simp add: kl.refl)
    obtain p1 st where 1: "refPinState (rr_Outpoints ref) p = (p1, st)" by force
    have p1: "?R p p1" using pin [of p "rr_Outpoints ref"] 1 by simp
    have "steps_in ?R (andThen (utxo_call (\<lambda>s. ReleaseReservation s (rr_UserID ref) (rr_Reservation ref))) (\<lambda>_. ret sweptOrphan))"
      using ne by (intro kl.in_andThen kl.in_ret kl_call) (metis exec_call.simps spare_call.simps(2))
    then have "?R p (fst (andThen (utxo_call (\<lambda>s. ReleaseReservation s (rr_UserID ref) (rr_Reservation ref))) (\<lambda>_. ret sweptOrphan) p1))"
      using kl.trans p1 unfolding steps_in_def by blast
    with p1 keep None show ?thesis by (cases st) (simp_all add: sweepStaleReservation_def 1)
  next
    case (Some t')
    then obtain r' where r': "r' \<in> set (db_txs (p_db p))" "t' = tx_scan r'" "t_Reference r' = rr_Reservation ref"
      using found_row by blast
    then have cols: "t_Status t' = t_Status r'" "t_TransactionID t' = t_TransactionID r'" "t_Reference t' = rr_Reservation ref"
      by (simp_all add: tx_scan_def tx_cols.defs table_transaction.defs)
    have other: "t_TransactionID t' \<noteq> t_TransactionID row" "(rr_UserID ref, rr_Reservation ref) \<noteq> (uid, t)" "(rr_UserID ref, t_Reference t') \<noteq> (uid, t)"
      if "t_Status t' \<in> {TxStatusUnsigned, TxStatusNoSend, TxStatusAborted}"
      using other_row [OF assms(1) r'(1)] assms(2) that cols r'(3) by (auto simp: live_status_def)
    obtain p2 r where 2: "abortTxRow lib (rr_UserID ref) t' p = (p2, r)" by force
    have "?R p p2" if "t_Status t' \<in> set sweepAbortableStatuses"
      using steps_inD [OF kl_abortTxRow 2] other that by (auto simp: sweepAbortableStatuses_def)
    moreover have "?R p (fst (andThen (doAbortRelease (rr_UserID ref) (rr_Reservation ref))
        (\<lambda>_ p1. (fst (on_outbox f p1), Inr sweptByHeal)) p))" if "t_Status t' = TxStatusAborted" for f
    proof -
      have "steps_in ?R (andThen (doAbortRelease (rr_UserID ref) (rr_Reservation ref)) (\<lambda>_ p1. (fst (on_outbox f p1), Inr sweptByHeal)))"
        using other that by (intro kl.in_andThen kl_abort_ops kl.in_ignore kl_quiet) simp_all
      then show ?thesis by (simp add: steps_in_def)
    qed
    ultimately show ?thesis using assms(1) keep Some by (cases r) (simp_all add: sweepStaleReservation_def 2)
  qed
qed

lemma abandon_keeps:
  assumes "guarded uid t row op u p" "list_all (\<lambda>t'. t_TransactionID t' \<noteq> t_TransactionID row \<and> t_Reference t' \<noteq> t) ts"
  shows "guarded uid t row op u (abandonLoop lib ts p)"
  using assms
proof (induction ts arbitrary: p)
  case (Cons t' ts)
  have "steps_in (keeps_live uid t row op u) (abortTxRow lib (t_UserID t') t')" using Cons.prems(2) by (intro kl_abortTxRow) auto
  then have "guarded uid t row op u (fst (abortTxRow lib (t_UserID t') t' p))" using Cons.prems(1) by (simp add: steps_in_def keeps_live_def)
  with Cons show ?case by simp
qed simp

text \<open>
  C9: The janitors never touch a live transaction.  Let an action be at a status other than unsigned, no-send and
  aborted, say a delayed send waiting for arcade.  Neither the sweep of stale reservations, however old the
  reservation is and whether or not its coins are pinned, nor the abort of abandoned actions changes any coin held
  under the action's reference, nor the action's own row, whatever calls of the store fail meanwhile.
\<close>

theorem janitors_spare_live:
  assumes "store_inv (p_utxo p)" "tx_inv (db_txs (p_db p))" "FindByReference (db_txs (p_db p)) uid t = Some row"
    and "t_Status row \<notin> {TxStatusUnsigned, TxStatusNoSend, TxStatusAborted}"
    and "coins (p_utxo p) op = Some u" "held_coin uid t u" "t \<noteq> ''''"
    and "q \<in> {fst (SweepStaleReservations lib older limit p), fst (AbortAbandoned lib older limit p)}"
  shows "coins (p_utxo q) op = Some u \<and> FindByReference (db_txs (p_db q)) uid t = Some row"
proof -
  have g: "guarded uid t row op u p" and live: "live_status (t_Status row)" using assms by (simp_all add: guarded_def live_status_def)
  have "guarded uid t row op u (fst (SweepStaleReservations lib older limit p))"
  proof -
    have loop: "guarded uid t row op u q \<Longrightarrow> guarded uid t row op u (sweepLoop lib refs q)" for refs q
      by (induction refs arbitrary: q) (simp_all add: sweep_keeps live)
    let ?find = "\<lambda>s. (s, FindStaleReservationsIncludingPinned s older (if limit \<le> 0 then defaultMonitorBatchLimit else limit))"
    obtain q r where r: "utxo_call ?find p = (q, r)" by force
    have "db_txs (p_db (fst (utxo_call ?find p))) = db_txs (p_db p) \<and> p_utxo (fst (utxo_call ?find p)) = p_utxo p"
      by (simp add: utxo_call_def Let_def split: option.split fault.split)
    with r g have "guarded uid t row op u q" by (simp add: guarded_def)
    with loop show ?thesis by (cases r) (simp_all add: SweepStaleReservations_def andThen_def r)
  qed
  moreover have "guarded uid t row op u (fst (AbortAbandoned lib older limit p))"
  proof -
    have "t_TransactionID t' \<noteq> t_TransactionID row \<and> t_Reference t' \<noteq> t"
      if mem: "t' \<in> set (FindAbandonedBefore (db_txs (p_db p)) older l)" for t' l
    proof -
      obtain r' where r': "r' \<in> set (db_txs (p_db p))" "abandoned older r'" "t' = tx_scan r'"
        using mem by (auto simp: FindAbandonedBefore_def limitOffset_def dest!: in_set_takeD split: if_splits)
      then have "t_Status r' \<noteq> t_Status row" using assms(4) by (auto simp: abandoned_def)
      from other_row [OF g r'(1) this] r'(3) show ?thesis by (simp add: tx_scan_def tx_cols.defs table_transaction.defs)
    qed
    then show ?thesis unfolding AbortAbandoned_def using abandon_keeps [OF g] by (simp add: list_all_iff)
  qed
  ultimately show ?thesis using assms(8) by (auto simp: guarded_def)
qed

theorem janitors_spare_live_witness:
  "coins (p_utxo (fst (SweepStaleReservations w_lib 100 5 (w_state ProvenTxStatusUnsent TxStatusUnprocessed w_held)))) (Outpoint 7 0) =
     Some (w_coin\<lparr>u_ReservedBy := ''tx'', u_ReservedAt := 9\<rparr>)"
proof -
  let ?p = "w_state ProvenTxStatusUnsent TxStatusUnprocessed w_held"
  have "FindByReference (db_txs (p_db ?p)) 1 ''tx'' = Some (tx_scan (w_tx 1 ''tx'' TxStatusUnprocessed (Some [10])))"
      "t_Status (tx_scan (w_tx 1 ''tx'' TxStatusUnprocessed (Some [10]))) = TxStatusUnprocessed"
    by (simp_all add: w_state_def FindByReference_def w_tx_def tx_scan_def tx_cols.defs table_transaction.defs)
  moreover have "store_inv (p_utxo ?p)" "tx_inv (db_txs (p_db ?p))" "coins (p_utxo ?p) (Outpoint 7 0) = Some (w_coin\<lparr>u_ReservedBy := ''tx'', u_ReservedAt := 9\<rparr>)"
      "held_coin 1 ''tx'' (w_coin\<lparr>u_ReservedBy := ''tx'', u_ReservedAt := 9\<rparr>)"
    using reachable_inv [OF w_reachable(2)] w_coins(2) by (simp_all add: w_state_def tx_inv_def held_coin_def w_coin_def)
  ultimately show ?thesis
    using janitors_spare_live [where ?p = ?p and ?uid = 1 and ?t = "''tx''" and ?op = "Outpoint 7 0" and
      ?q = "fst (SweepStaleReservations w_lib 100 5 ?p)" and ?lib = w_lib and ?older = 100 and ?limit = 5] by simp
qed

end
