(* ===== verification/Spec2Isabelle.thy ===== *)
theory Spec2Isabelle
  imports Create_Props Funder_Props Sign_Props Sweep_Props
begin

text \<open>
  A verification of the storage side of a Bitcoin wallet toolbox: the inventory of spendable coins, the selection
  of coins for a payment, the metadata database, and the provider that keeps the two stores consistent while
  transactions are signed, broadcast, rejected, mined, aborted and reorganised.

  \<^bold>\<open>The program and its parts.\<close>  A wallet holds coins in a UTXO store (\<open>src/pkg/utxostore\<close>) and everything else
  in a metadata database (\<open>src/pkg/storage/internal/metastore\<close>).  The two are one database in Mode A and separate
  ones in Mode B.  To pay, \<open>CreateAction\<close> (\<open>create.go\<close>) reserves the coins the caller names, lets the funder
  (\<open>src/pkg/storage/internal/funder\<close>) reserve the rest under the same reference and stores an unsigned transaction.  \<open>ProcessAction\<close> (\<open>process.go\<close>) stores the signed bytes, pins the reservation, mints the change and hands
  the bytes to arcade, the network service, at once or through a queue.  Arcade reports back with status records
  (\<open>status_updates.go\<close>), by events and by polling.  An action that was never sent can be aborted (\<open>abort.go\<close>); a
  rejected one is released by the reconciler (\<open>reconciler.go\<close>, \<open>spend_conflict.go\<close>) once there is evidence that it
  is dead; janitors collect what crashes leave behind.  In Mode B a write to both stores is completed through an
  outbox that is drained until it succeeds.

  \<^bold>\<open>Model.\<close>  Go maps are association lists; an SQL table is a list of rows with the effect of each statement written
  out.  Satoshi amounts are integers with the bounds and int64 wrap-around of the code, sizes wrap at 64 bits,
  hashes are 256-bit words, and \<open>float64\<close> is its value with every rounding made explicit.  An operation of the
  provider is a function on the record \<open>prov\<close>: the database, the UTXO store, a clock that is a function of the
  number of readings, and a schedule that lets any call of the UTXO store fail before or after its effect.  Nothing
  is assumed of the clock and of the schedule unless a theorem says so.  \<open>p_posts\<close> records every transaction handed
  to the network.  An error is a value of \<open>perr\<close>, and a unit of work restores the database on error.

  Code that is not in the repository is a parameter: the hash, transaction, BEEF and merkle path codecs and script
  verification of the Go SDK (\<open>sdk\<close>, \<open>chain\<close>, \<open>net\<close>, \<open>beef_lib\<close>), random strings and the shuffle (\<open>rand\<close>), the block headers, arcade's answers, and the
  conversions and clamps of a Go utility library (\<open>golib\<close>).  What is relied on of them is a named hypothesis (\<open>sdk_ok\<close>, \<open>golib_ok\<close>).

  \<^bold>\<open>Theories.\<close>
  \<^item> \<open>Arcade_Prelude\<close>: Go results, maps and list lemmas.  \<open>Go_Float\<close>: float64.  \<open>Satoshi\<close>, \<open>Fees\<close>: checked amounts,
    transaction sizes, the fee formula and the relay minimum (\<open>pkg/internal\<close>, \<open>fee_calculator.go\<close>).
  \<^item> \<open>Utxo_Types\<close>, \<open>Memstore\<close>: coins, validation, errors and every method of the reference store.  \<open>Store_Interface\<close>:
    the contract a backend owes the funder, as the locales \<open>utxo_backend\<close> and \<open>exact_backend\<close>.
  \<^item> \<open>Memstore_Inv\<close>, \<open>Memstore_Claims\<close>, \<open>Memstore_Life\<close>, \<open>Memstore_Props\<close>, \<open>Memstore_Replay\<close>: the invariant of the rows, what
    the claims select, the coin state machine that every method refines, replays, pins and balances.
  \<^item> \<open>Collector\<close>, \<open>Funder\<close>: the funder over any backend.  \<open>Funder_Correct\<close>, \<open>Funder_Complete\<close>: its correctness inside the
    locales.  \<open>Funder_Props\<close>: the same facts for the reference store, with concrete runs.
  \<^item> \<open>Tx_Status\<close>: the status vocabularies and their classes (\<open>pkg/wdk\<close>, \<open>pkg/arcade/wire.go\<close>).  \<open>Meta_Base\<close>, \<open>Labels\<close>,
    \<open>Known_Tx\<close>, \<open>Transactions\<close>, \<open>Outputs\<close>, \<open>Outbox\<close>: the repositories, one theory per file of \<open>metastore\<close>.
    \<open>Known_Tx_Props\<close>: the lifecycle machine of a known transaction, which the repository refines, and its consequences.
  \<^item> \<open>Provider\<close>, \<open>Provider_Ops\<close>: the provider's state, units of work, and the operations that the outbox replays.
    \<open>Provider_Facts\<close>: the locales \<open>step_order\<close>, \<open>utxo_order\<close>, \<open>write_order\<close>, \<open>repair_order\<close>.  Each says which basic steps
    stay within a relation on states and derives that whole operations do; their interpretations give the frame
    facts of all later theories.
  \<^item> \<open>Abort\<close>, \<open>Status_Updates\<close>, \<open>Spend_Conflict\<close>, \<open>Reconciler\<close>, \<open>Process\<close>, \<open>Sweeps\<close>: the operations of the provider, in
    the order of the files \<open>abort.go\<close>, \<open>status_updates.go\<close> (twice: applying records, and the monitor's sweeps),
    \<open>spend_conflict.go\<close>, \<open>reconciler.go\<close>, \<open>process.go\<close>, with the ancestry lookup of \<open>beef.go\<close>.
  \<^item> \<open>Create\<close>: \<open>create.go\<close>, \<open>create_inputs.go\<close> and the ancestry walk of \<open>beef.go\<close>; the funder runs over the provider's own store
    (\<open>prov_ops\<close>).  \<open>Create_Fund\<close>: the locale \<open>store_hom\<close>, by which a map between two stores carries runs of the funder over;
    its interpretations give the funder over the provider and, in \<open>Create_Frame\<close>, what creating never touches.
    \<open>Create_Atomic\<close>, \<open>Create_Balance\<close>: what is held on each path, and the sums of a template.  \<open>Create_Demo\<close>: two runs.
  \<^item> \<open>Abort_Props\<close>, \<open>Status_Props\<close>, \<open>Reconciler_Props\<close>, \<open>Process_Props\<close>, \<open>Sign_Props\<close>, \<open>Fence_Props\<close>, \<open>Sweep_Props\<close>, \<open>Create_Props\<close>: what the
    operations guarantee, alone and composed.

  \<^bold>\<open>What is shown.\<close>
  \<^item> Store: every reachable store satisfies the row invariant; every method moves each coin by one step of the
    coin machine; hence a spend lasts until it is undone or its coin is removed by name or by spender, a reservation
    lasts until its token releases or spends the coin or force is used, pinned coins are not freed, and reservations are all or nothing.  The claims select best fit, largest or exact, whatever the map order.
  \<^item> Funder: it returns; on success the coins it holds pay target, fee and change and the fee covers the relay
    minimum; on failure the store is as before; a pool that covers the target and the fee with
    every change output the collector can account for is never refused for lack of funds.
  \<^item> Metadata: the known transactions refine a lifecycle machine, each write on the ids it lists only; sending and aborting
    exclude each other; broadcast marks, reject reasons and transaction-id bindings are never withdrawn; outbox entries and leases do what their users rely on.
  \<^item> Provider: a transaction at a fenced status is never broadcast again, over any run of the modelled operations
    with any failures; creating an action is all or nothing and its template balances; signed bytes are stored over pinned coins only; an accepted broadcast records its spend, and a commit
    that failed can be driven again; aborts and releases are complete or recoverable; a release needs evidence and
    happens once; stored proofs were verified; the repair of a mined transaction takes its coins; the janitors leave
    live transactions alone.
  \<^item> Three properties state behaviour that is not what the comments promise (\<open>rejection_lifts_fence\<close>, \<open>batch_drops_proof\<close>,
    \<open>contention_doubles_input\<close>).

  \<^bold>\<open>Bounds.\<close>  No fuel is used.  Loops over lists are structural.  The coin walk is a partial function, shown to
  return for every store of the contract; the retry loops and the depth of the ancestry walk carry the constants of the
  code.  The balance of a template is exact when its amounts add up below \<open>2 ^ 62\<close>.  Statements about fees
  assume fee rates and sizes up to \<open>2 ^ 53\<close>, where float64 counts whole numbers exactly.

  \<^bold>\<open>Granularity.\<close>  A store method and a repository call are atomic, as the mutex and the SQL statement make them.  An
  operation of the provider runs to its end before the next one starts; where the code runs sends and fetches
  concurrently, the model runs them one after the other.  The interleaving of two writers is covered at the level of
  the single guarded updates (\<open>send_abort_exclusive\<close>, \<open>lease_exclusive\<close>, the refinements of the row and coin machines).

  \<^bold>\<open>Not modelled.\<close>
  \<^item> The SQL and Aerospike backends of the UTXO store, the database engines, migrations and serialization retries: what
    they do is the semantics of those systems.  Database failures other than those of the UTXO store are left out.
  \<^item> \<open>InternalizeAction\<close>: it checks a BEEF and payment derivations with the Go SDK, and writes through modelled repositories.
  \<^item> Listing and query operations of the provider, users, baskets, certificates, key-value and sync state: row-for-column access.
  \<^item> HTTP, REST and event streams, the header client, the monitor's timers, logging, tracing, configuration, and the
    cancellation of contexts.
  \<^item> The wallet above the storage (\<open>pkg/wallet\<close>, \<open>pkg/brc29\<close>, \<open>pkg/certificates\<close>): keys, signatures and scripts of the Go SDK.
\<close>

end
